(* ===== verification/Prelude.thy ===== *)
theory Prelude
  imports Main "HOL-Library.Multiset" "HOL-Library.List_Lexorder" "HOL-Library.Char_ord"
begin

text \<open>
  Shared vocabulary of the development: the type synonyms of the model (Go strings and byte
  slices are lists of bytes, that is \<open>string\<close>; times are integers in microseconds, the
  resolution of a PostgreSQL \<open>timestamptz\<close>), the error values the repositories return, the
  SQL-style operations on tables (a table is the list of its rows), and the stable sort of
  \<open>sort.SliceStable\<close>.  The lemmas collected in \<open>table_simps\<close> carry the proofs of every
  repository theory.
\<close>

named_theorems table_simps \<open>rewrite rules for SQL-style updates and queries on row lists\<close>

section \<open>Types shared by the components\<close>

type_synonym uuid = string
type_synonym bytes = string
type_synonym time = int

text \<open>
  The errors a repository method can return: the two sentinel errors of
  \<open>application/auth/service.go\<close> (\<open>ErrForbidden\<close>, \<open>ErrConflict\<close>), \<open>pgx.ErrNoRows\<close>, an error
  raised by PostgreSQL itself (a constraint, a unique index or a trigger), the sentinel errors of
  \<open>application/storage\<close> (\<open>ErrNotFound\<close>, \<open>ErrExists\<close>, \<open>ErrUnavailable\<close>, \<open>ErrAccessDenied\<close>), and an error made
  with \<open>fmt.Errorf\<close>/\<open>errors.New\<close>, identified by its text.
\<close>

datatype go_error =
  ErrForbidden | ErrConflict | ErrNoRows | ErrDatabase | ErrNotFound | ErrExists | ErrUnavailable | ErrAccessDenied | ErrText string

type_synonym 'a result = "go_error + 'a"

definition seconds :: "int \<Rightarrow> time" where
  "seconds n = n * 1000000"

definition bind_result :: "'a result \<Rightarrow> ('a \<Rightarrow> 'b result) \<Rightarrow> 'b result" where
  "bind_result r k = (case r of Inl e \<Rightarrow> Inl e | Inr x \<Rightarrow> k x)"

lemma bind_result_simps [simp]:
  "bind_result (Inl e) k = Inl e"
  "bind_result (Inr x) k = k x"
  by (simp_all add: bind_result_def)

lemma bind_result_eq_Inr [simp]:
  "bind_result r k = Inr y \<longleftrightarrow> (\<exists>x. r = Inr x \<and> k x = Inr y)"
  by (cases r) auto

lemma bind_result_eq_Inl:
  "bind_result r k = Inl e \<longleftrightarrow> r = Inl e \<or> (\<exists>x. r = Inr x \<and> k x = Inl e)"
  by (cases r) auto

text \<open>A guard: the early return \<open>if !c { return err }\<close>.\<close>

definition ensure :: "bool \<Rightarrow> go_error \<Rightarrow> unit result" where
  "ensure c e = (if c then Inr () else Inl e)"

lemma ensure_simps [simp]:
  "ensure True e = Inr ()"
  "ensure False e = Inl e"
  "ensure c e = Inr u \<longleftrightarrow> c"
  "ensure c e = Inl e' \<longleftrightarrow> \<not> c \<and> e' = e"
  by (auto simp: ensure_def)

section \<open>Lists related element by element\<close>

lemma list_all2_memD: "list_all2 R xs ys \<Longrightarrow> y \<in> set ys \<Longrightarrow> \<exists>x\<in>set xs. R x y"
  by (induction rule: list_all2_induct) auto

lemma list_all2_memI: "list_all2 R xs ys \<Longrightarrow> x \<in> set xs \<Longrightarrow> \<exists>y\<in>set ys. R x y"
  by (induction rule: list_all2_induct) auto

section \<open>Tables\<close>

text \<open>
  \<open>exec_update c f rows\<close> is \<open>update ... set ... where c\<close>: every row that satisfies \<open>c\<close> is
  replaced by what \<open>f\<close> makes of it, and the statement fails (\<open>None\<close>) when \<open>f\<close> fails on one
  of them, which is how a trigger or a check constraint aborts it.
\<close>

fun exec_update :: "('r \<Rightarrow> bool) \<Rightarrow> ('r \<Rightarrow> 'r option) \<Rightarrow> 'r list \<Rightarrow> 'r list option" where
  "exec_update c f [] = Some []"
| "exec_update c f (r # rs) =
     (case (if c r then f r else Some r) of
        None \<Rightarrow> None
      | Some r' \<Rightarrow> map_option (Cons r') (exec_update c f rs))"

text \<open>How the statement relates a row to the row in its place afterwards.\<close>

definition updated_row :: "('r \<Rightarrow> bool) \<Rightarrow> ('r \<Rightarrow> 'r option) \<Rightarrow> 'r \<Rightarrow> 'r \<Rightarrow> bool" where
  "updated_row c f r r' \<longleftrightarrow> (if c r then f r = Some r' else r' = r)"

lemma exec_update_list_all2:
  "exec_update c f rs = Some rs' \<Longrightarrow> list_all2 (updated_row c f) rs rs'"
proof (induction rs arbitrary: rs')
  case Nil
  then show ?case by simp
next
  case (Cons r rs)
  then obtain r' zs where "updated_row c f r r'" "exec_update c f rs = Some zs" "rs' = r' # zs"
    by (auto simp: updated_row_def split: option.splits if_splits)
  with Cons.IH show ?case by simp
qed

lemma exec_update_length: "exec_update c f rs = Some rs' \<Longrightarrow> length rs' = length rs"
  by (simp add: list_all2_lengthD [OF exec_update_list_all2])

lemma exec_update_total:
  "(\<And>r. r \<in> set rs \<Longrightarrow> c r \<Longrightarrow> f r \<noteq> None) \<Longrightarrow> \<exists>rs'. exec_update c f rs = Some rs'"
proof (induction rs)
  case Nil
  then show ?case by simp
next
  case (Cons r rs)
  then obtain rs' where "exec_update c f rs = Some rs'" by auto
  moreover from Cons.prems have "c r \<Longrightarrow> f r \<noteq> None" by simp
  ultimately show ?case by (auto split: option.splits if_splits)
qed

lemma exec_update_noop:
  "(\<And>r. r \<in> set rs \<Longrightarrow> \<not> c r) \<Longrightarrow> exec_update c f rs = Some rs"
  by (induction rs) auto

lemma exec_update_map:
  assumes "exec_update c f rs = Some rs'"
    and "\<And>r r'. r \<in> set rs \<Longrightarrow> c r \<Longrightarrow> f r = Some r' \<Longrightarrow> g r' = g r"
  shows "map g rs' = map g rs"
  using assms by (induction rs arbitrary: rs') (auto split: option.splits if_splits)

text \<open>Where a row of the updated table comes from, and what became of a row.\<close>

lemma exec_update_memD:
  assumes "exec_update c f rs = Some rs'" and "r' \<in> set rs'"
  shows "\<exists>r\<in>set rs. updated_row c f r r'"
  using exec_update_list_all2 [OF assms(1)] assms(2)
  by (induction rule: list_all2_induct) auto

lemma exec_update_memI:
  assumes "exec_update c f rs = Some rs'" and "r \<in> set rs"
  shows "\<exists>r'\<in>set rs'. updated_row c f r r'"
  using exec_update_list_all2 [OF assms(1)] assms(2)
  by (induction rule: list_all2_induct) auto

text \<open>\<open>select ... where c\<close> returning at most one row: the first that satisfies \<open>c\<close>.\<close>

definition select_one :: "('r \<Rightarrow> bool) \<Rightarrow> 'r list \<Rightarrow> 'r option" where
  "select_one c rs = find c rs"

lemma select_one_simps [table_simps]:
  "select_one c [] = None"
  "select_one c (r # rs) = (if c r then Some r else select_one c rs)"
  by (simp_all add: select_one_def)

lemma select_one_None_iff: "select_one c rs = None \<longleftrightarrow> (\<forall>r\<in>set rs. \<not> c r)"
  by (auto simp: select_one_def find_None_iff)

lemma select_one_SomeD: "select_one c rs = Some r \<Longrightarrow> r \<in> set rs \<and> c r"
  by (auto simp: select_one_def find_Some_iff)

lemma select_one_append:
  "select_one c (xs @ ys) = (case select_one c xs of None \<Rightarrow> select_one c ys | Some r \<Rightarrow> Some r)"
  by (induction xs) (auto simp: table_simps)

text \<open>\<open>rows_affected\<close>: the number of rows a statement with condition \<open>c\<close> touches.\<close>

definition rows_affected :: "('r \<Rightarrow> bool) \<Rightarrow> 'r list \<Rightarrow> nat" where
  "rows_affected c rs = length (filter c rs)"

text \<open>
  Keys: \<open>unique_on p k rows\<close> is a unique index on the key \<open>k\<close> over the rows that satisfy \<open>p\<close>
  (a partial index when \<open>p\<close> is not always true).
\<close>

definition unique_on :: "('r \<Rightarrow> bool) \<Rightarrow> ('r \<Rightarrow> 'k) \<Rightarrow> 'r list \<Rightarrow> bool" where
  "unique_on p k rs \<longleftrightarrow> distinct (map k (filter p rs))"

lemma unique_on_Nil [simp]: "unique_on p k []"
  by (simp add: unique_on_def)

lemma unique_on_Cons [table_simps]:
  "unique_on p k (r # rs) \<longleftrightarrow>
     (p r \<longrightarrow> (\<forall>r'\<in>set rs. p r' \<longrightarrow> k r' \<noteq> k r)) \<and> unique_on p k rs"
  by (auto simp: unique_on_def image_iff)

lemma unique_on_append1:
  "unique_on p k (rs @ [r]) \<longleftrightarrow>
     unique_on p k rs \<and> (p r \<longrightarrow> (\<forall>r'\<in>set rs. p r' \<longrightarrow> k r' \<noteq> k r))"
  by (auto simp: unique_on_def image_iff)

lemma unique_onD:
  assumes "unique_on p k rs" and "r \<in> set rs" and "r' \<in> set rs" and "p r" and "p r'" and "k r = k r'"
  shows "r = r'"
  using assms by (auto simp: unique_on_def distinct_map dest: inj_onD)

lemma select_one_unique:
  assumes "unique_on (\<lambda>_. True) k rs" and "r \<in> set rs" and "k r = x"
  shows "select_one (\<lambda>q. k q = x) rs = Some r"
  using assms by (induction rs) (auto simp: table_simps)

section \<open>Stable sorting\<close>

text \<open>
  \<open>sort.SliceStable(values, less)\<close>.  Insertion of each element in front of the first element
  it does not have to follow keeps elements that compare equal in their order.
\<close>

fun insert_by :: "('a \<Rightarrow> 'a \<Rightarrow> bool) \<Rightarrow> 'a \<Rightarrow> 'a list \<Rightarrow> 'a list" where
  "insert_by lt x [] = [x]"
| "insert_by lt x (y # ys) = (if lt y x then y # insert_by lt x ys else x # y # ys)"

definition slice_stable :: "('a \<Rightarrow> 'a \<Rightarrow> bool) \<Rightarrow> 'a list \<Rightarrow> 'a list" where
  "slice_stable lt xs = foldr (insert_by lt) xs []"

lemma mset_insert_by [simp]: "mset (insert_by lt x ys) = add_mset x (mset ys)"
  by (induction ys) auto

lemma mset_slice_stable [simp]: "mset (slice_stable lt xs) = mset xs"
  by (induction xs) (auto simp: slice_stable_def)

lemma set_slice_stable [simp]: "set (slice_stable lt xs) = set xs"
  by (rule mset_eq_setD) simp

lemma length_slice_stable [simp]: "length (slice_stable lt xs) = length xs"
  by (rule mset_eq_length) simp

lemma distinct_slice_stable [simp]: "distinct (slice_stable lt xs) = distinct xs"
  by (rule mset_eq_imp_distinct_iff) simp

lemma distinct_map_slice_stable [simp]:
  "distinct (map f (slice_stable lt xs)) = distinct (map f xs)"
  by (rule mset_eq_imp_distinct_iff) simp

text \<open>
  The contract of a comparison function passed to the sort: a strict weak order.  Under it the
  result is ordered, no later element comparing less than an earlier one.
\<close>

locale weak_order =
  fixes lt :: "'a \<Rightarrow> 'a \<Rightarrow> bool"
  assumes less_irrefl: "\<not> lt x x"
    and less_trans: "lt x y \<Longrightarrow> lt y z \<Longrightarrow> lt x z"
    and less_incomp: "lt x z \<Longrightarrow> lt x y \<or> lt y z"
begin

lemma less_asym: "lt x y \<Longrightarrow> \<not> lt y x"
  using less_irrefl less_trans by blast

lemma insert_by_ordered:
  "sorted_wrt (\<lambda>a b. \<not> lt b a) ys \<Longrightarrow> sorted_wrt (\<lambda>a b. \<not> lt b a) (insert_by lt x ys)"
proof (induction ys)
  case Nil
  then show ?case by simp
next
  case (Cons y ys)
  have members: "set (insert_by lt x ys) = insert x (set ys)"
    by (metis mset_insert_by set_mset_add_mset_insert set_mset_mset)
  show ?case
  proof (cases "lt y x")
    case True
    with Cons members show ?thesis by (auto dest: less_asym)
  next
    case False
    have "\<not> lt z x" if "z \<in> set ys" for z
      using Cons.prems False that less_incomp by auto
    with False Cons.prems show ?thesis by auto
  qed
qed

lemma slice_stable_ordered: "sorted_wrt (\<lambda>a b. \<not> lt b a) (slice_stable lt xs)"
  by (induction xs) (simp_all add: slice_stable_def insert_by_ordered)

lemma slice_stable_nth:
  "i < j \<Longrightarrow> j < length xs \<Longrightarrow> \<not> lt (slice_stable lt xs ! j) (slice_stable lt xs ! i)"
  using slice_stable_ordered sorted_wrt_nth_less by fastforce

text \<open>Stability: elements that compare equal to \<open>z\<close> keep their order.\<close>

lemma insert_by_filter:
  "filter (\<lambda>a. \<not> lt a z \<and> \<not> lt z a) (insert_by lt x ys) =
   filter (\<lambda>a. \<not> lt a z \<and> \<not> lt z a) (x # ys)"
proof (induction ys)
  case Nil
  then show ?case by simp
next
  case (Cons y ys)
  show ?case
  proof (cases "lt y x \<and> \<not> lt x z \<and> \<not> lt z x")
    case True
    then have "lt y z" using less_incomp by blast
    with True Cons show ?thesis by auto
  next
    case False
    with Cons show ?thesis by auto
  qed
qed

lemma slice_stable_stable:
  "filter (\<lambda>a. \<not> lt a z \<and> \<not> lt z a) (slice_stable lt xs) =
   filter (\<lambda>a. \<not> lt a z \<and> \<not> lt z a) xs"
  by (induction xs) (simp_all add: slice_stable_def insert_by_filter)

end

text \<open>A comparison by a key of a linear order is a strict weak order.\<close>

locale key_order =
  fixes key :: "'a \<Rightarrow> 'k::linorder"

sublocale key_order \<subseteq> weak_order "\<lambda>a b. key a < key b"
  by unfold_locales auto

end
