(* ===== verification/Go_Text.thy ===== *)
theory Go_Text
  imports Prelude
begin

text \<open>
  The parts of Go's \<open>strings\<close>, \<open>unicode/utf8\<close> and \<open>path\<close> packages that the sources use, on
  strings as byte lists, with the facts about them that the path checks rest on.  A string
  that is accepted as clean and relative has no empty, \<open>.\<close> or \<open>..\<close> element: this is
  \<open>safe_elements\<close>, the property every path check of the program is meant to establish.
\<close>

section \<open>Package strings\<close>

definition has_prefix :: "string \<Rightarrow> string \<Rightarrow> bool" where
  "has_prefix s p \<longleftrightarrow> take (length p) s = p"

definition has_suffix :: "string \<Rightarrow> string \<Rightarrow> bool" where
  "has_suffix s p \<longleftrightarrow> length p \<le> length s \<and> drop (length s - length p) s = p"

definition trim_prefix :: "string \<Rightarrow> string \<Rightarrow> string" where
  "trim_prefix s p = (if has_prefix s p then drop (length p) s else s)"

definition trim_suffix :: "string \<Rightarrow> string \<Rightarrow> string" where
  "trim_suffix s p = (if has_suffix s p then take (length s - length p) s else s)"

fun contains :: "string \<Rightarrow> string \<Rightarrow> bool" where
  "contains [] sub = (sub = [])"
| "contains (c # s) sub = (has_prefix (c # s) sub \<or> contains s sub)"

definition contains_any :: "string \<Rightarrow> string \<Rightarrow> bool" where
  "contains_any s cs \<longleftrightarrow> list_ex (\<lambda>c. List.member cs c) s"

text \<open>\<open>strings.Split(s, sep)\<close> for a separator of one byte, and \<open>strings.Join\<close>.\<close>

fun split_byte :: "char \<Rightarrow> string \<Rightarrow> string list" where
  "split_byte c [] = [[]]"
| "split_byte c (x # s) =
     (if x = c then [] # split_byte c s
      else (case split_byte c s of [] \<Rightarrow> [[x]] | p # ps \<Rightarrow> (x # p) # ps))"

fun join_byte :: "char \<Rightarrow> string list \<Rightarrow> string" where
  "join_byte c [] = []"
| "join_byte c [p] = p"
| "join_byte c (p # q # ps) = p @ c # join_byte c (q # ps)"

text \<open>\<open>strings.LastIndexByte\<close>; \<open>None\<close> stands for -1.\<close>

fun last_index_byte :: "string \<Rightarrow> char \<Rightarrow> nat option" where
  "last_index_byte [] c = None"
| "last_index_byte (x # s) c =
     (case last_index_byte s c of
        Some i \<Rightarrow> Some (Suc i)
      | None \<Rightarrow> if x = c then Some 0 else None)"

text \<open>
  \<open>strings.ToLower\<close>.  On ASCII text it lowers each letter; on any other text it maps
  \<open>unicode.ToLower\<close> over the runes, and \<open>ul\<close> stands for that table-driven mapping: the model
  takes it as an argument and every result holds for each choice of it.
\<close>

abbreviation ord_of :: "char \<Rightarrow> nat" where
  "ord_of c \<equiv> of_char c"

definition lower_char :: "char \<Rightarrow> char" where
  "lower_char c = (if 65 \<le> ord_of c \<and> ord_of c \<le> 90 then char_of (ord_of c + 32) else c)"

definition ascii :: "string \<Rightarrow> bool" where
  "ascii s \<longleftrightarrow> list_all (\<lambda>c. ord_of c < 128) s"

definition to_lower :: "(string \<Rightarrow> string) \<Rightarrow> string \<Rightarrow> string" where
  "to_lower ul s = (if ascii s then map lower_char s else ul s)"

text \<open>
  \<open>strings.EqualFold(s, t)\<close> against a \<open>t\<close> whose letters fold with ASCII letters only (every
  letter but \<open>k\<close> and \<open>s\<close>), as the sources call it for the suffix \<open>.zip\<close>.
\<close>

definition equal_fold_ascii :: "string \<Rightarrow> string \<Rightarrow> bool" where
  "equal_fold_ascii s t \<longleftrightarrow> map lower_char s = map lower_char t"

text \<open>
  \<open>strings.TrimSpace\<close>: the white space runes are tab to carriage return, the space, U+0085,
  U+00A0, U+1680, U+2000 to U+200A, U+2028, U+2029, U+202F, U+205F and U+3000, here in UTF-8.
\<close>

definition space_runes :: "string list" where
  "space_runes =
     [[CHR 0x09], [CHR 0x0A], [CHR 0x0B], [CHR 0x0C], [CHR 0x0D], [CHR 0x20],
      [CHR 0xC2, CHR 0x85], [CHR 0xC2, CHR 0xA0], [CHR 0xE1, CHR 0x9A, CHR 0x80]] @
     map (\<lambda>c. [CHR 0xE2, CHR 0x80, c])
       [CHR 0x80, CHR 0x81, CHR 0x82, CHR 0x83, CHR 0x84, CHR 0x85, CHR 0x86, CHR 0x87,
        CHR 0x88, CHR 0x89, CHR 0x8A, CHR 0xA8, CHR 0xA9, CHR 0xAF] @
     [[CHR 0xE2, CHR 0x81, CHR 0x9F], [CHR 0xE3, CHR 0x80, CHR 0x80]]"

lemma space_runes_nonempty: "p \<in> set space_runes \<Longrightarrow> p \<noteq> []"
  by (auto simp: space_runes_def)

function trim_left_space :: "string \<Rightarrow> string" where
  "trim_left_space s =
     (case find (\<lambda>p. has_prefix s p) space_runes of
        None \<Rightarrow> s
      | Some p \<Rightarrow> trim_left_space (drop (length p) s))"
  by pat_completeness auto
termination
proof (relation "measure length", goal_cases)
  case (2 s p)
  then have "p \<in> set space_runes" "has_prefix s p"
    by (auto simp: find_Some_iff)
  then show ?case
    using space_runes_nonempty [of p] by (cases s) (auto simp: has_prefix_def)
qed simp

function trim_right_space :: "string \<Rightarrow> string" where
  "trim_right_space s =
     (case find (\<lambda>p. has_suffix s p) space_runes of
        None \<Rightarrow> s
      | Some p \<Rightarrow> trim_right_space (take (length s - length p) s))"
  by pat_completeness auto
termination
proof (relation "measure length", goal_cases)
  case (2 s p)
  then have "p \<in> set space_runes" "has_suffix s p"
    by (auto simp: find_Some_iff)
  then have "0 < length p" "length p \<le> length s"
    by (auto simp: space_runes_nonempty has_suffix_def)
  then have "length s - length p < length s" by linarith
  then show ?case by simp
qed simp

declare trim_left_space.simps [simp del] trim_right_space.simps [simp del]

definition trim_space :: "string \<Rightarrow> string" where
  "trim_space s = trim_right_space (trim_left_space s)"

section \<open>Package utf8\<close>

text \<open>\<open>utf8.ValidString\<close>: no overlong form, no surrogate, nothing above U+10FFFF.\<close>

definition cont_byte :: "char \<Rightarrow> bool" where
  "cont_byte c \<longleftrightarrow> 0x80 \<le> ord_of c \<and> ord_of c \<le> 0xBF"

definition second_byte_ok :: "nat \<Rightarrow> char \<Rightarrow> bool" where
  "second_byte_ok lead c \<longleftrightarrow>
     (if lead = 0xE0 then 0xA0 \<le> ord_of c \<and> ord_of c \<le> 0xBF
      else if lead = 0xED then 0x80 \<le> ord_of c \<and> ord_of c \<le> 0x9F
      else if lead = 0xF0 then 0x90 \<le> ord_of c \<and> ord_of c \<le> 0xBF
      else if lead = 0xF4 then 0x80 \<le> ord_of c \<and> ord_of c \<le> 0x8F
      else cont_byte c)"

fun utf8_valid :: "string \<Rightarrow> bool" where
  "utf8_valid [] = True"
| "utf8_valid (a # s) =
     (let n = ord_of a in
      if n < 0x80 then utf8_valid s
      else if n < 0xC2 then False
      else if n < 0xE0 then (case s of b # s' \<Rightarrow> cont_byte b \<and> utf8_valid s' | _ \<Rightarrow> False)
      else if n < 0xF0 then
        (case s of b # c # s' \<Rightarrow> second_byte_ok n b \<and> cont_byte c \<and> utf8_valid s' | _ \<Rightarrow> False)
      else if n < 0xF5 then
        (case s of b # c # d # s' \<Rightarrow>
           second_byte_ok n b \<and> cont_byte c \<and> cont_byte d \<and> utf8_valid s' | _ \<Rightarrow> False)
      else False)"

text \<open>
  \<open>len([]rune(s))\<close>: a byte that does not begin a valid encoding counts as one rune.
\<close>

definition rune_width :: "string \<Rightarrow> nat" where
  "rune_width s =
     (if s \<noteq> '''' \<and> ord_of (hd s) \<ge> 0x80
      then (case find (\<lambda>n. n \<le> length s \<and> utf8_valid (take n s)) [2, 3, 4] of None \<Rightarrow> 1 | Some n \<Rightarrow> n)
      else 1)"

lemma rune_width_pos: "0 < rune_width s"
  by (auto simp: rune_width_def split: option.split)

function rune_count :: "string \<Rightarrow> nat" where
  "rune_count s = (if s = '''' then 0 else Suc (rune_count (drop (rune_width s) s)))"
  by pat_completeness auto
termination by (relation "measure length") (auto simp: rune_width_pos)

declare rune_count.simps [simp del]

lemma rune_count_le: "rune_count s \<le> length s"
proof (induction s rule: rune_count.induct)
  case (1 s)
  show ?case
  proof (cases "s = []")
    case False
    then have "0 < length s" by simp
    moreover have "rune_count (drop (rune_width s) s) \<le> length s - rune_width s"
      using 1 [OF False] by simp
    ultimately have "Suc (rune_count (drop (rune_width s) s)) \<le> length s"
      using rune_width_pos [of s] by linarith
    with False show ?thesis by (simp add: rune_count.simps [of s])
  qed (simp add: rune_count.simps)
qed

lemma rune_count_short: "length s \<le> n \<Longrightarrow> rune_count s \<le> n"
  using rune_count_le order_trans by blast

lemma rune_count_pos [simp]: "Suc 0 \<le> rune_count s \<longleftrightarrow> s \<noteq> []"
  by (simp add: rune_count.simps [of s])

section \<open>Package strconv\<close>

text \<open>Decimal text of a natural number, as \<open>strconv.FormatInt\<close> and the cast \<open>::text\<close> make it.\<close>

fun decimal :: "nat \<Rightarrow> string" where
  "decimal n = (if n < 10 then [char_of (48 + n)] else decimal (n div 10) @ [char_of (48 + n mod 10)])"

declare decimal.simps [simp del]

section \<open>Package path\<close>

text \<open>
  \<open>path.Clean\<close>: elements are read from left to right; empty elements and \<open>.\<close> are dropped,
  \<open>..\<close> removes the element before it if that is not itself \<open>..\<close>, is dropped at the root and
  kept otherwise.  The accumulator holds the output elements, last first.
\<close>

fun clean_elements :: "bool \<Rightarrow> string list \<Rightarrow> string list \<Rightarrow> string list" where
  "clean_elements rooted acc [] = rev acc"
| "clean_elements rooted acc (e # es) =
     (if e = '''' \<or> e = ''.'' then clean_elements rooted acc es
      else if e = ''..'' then
        (case acc of
           [] \<Rightarrow> clean_elements rooted (if rooted then [] else [''..'']) es
         | a # acc' \<Rightarrow>
             if a = ''..'' then clean_elements rooted (''..'' # acc) es
             else clean_elements rooted acc' es)
      else clean_elements rooted (e # acc) es)"

definition clean :: "string \<Rightarrow> string" where
  "clean s =
     (if s = '''' then ''.''
      else if has_prefix s ''/'' then ''/'' @ join_byte (CHR ''/'') (clean_elements True [] (split_byte (CHR ''/'') s))
      else (case clean_elements False [] (split_byte (CHR ''/'') s) of
              [] \<Rightarrow> ''.''
            | es \<Rightarrow> join_byte (CHR ''/'') es))"

text \<open>\<open>path.Ext\<close>, \<open>path.Base\<close>, \<open>path.Dir\<close>, \<open>path.Join\<close> and \<open>path.IsAbs\<close>.\<close>

definition last_element :: "string \<Rightarrow> string" where
  "last_element s = last (split_byte (CHR ''/'') s)"

definition ext :: "string \<Rightarrow> string" where
  "ext s = (case last_index_byte (last_element s) (CHR ''.'') of
              None \<Rightarrow> ''''
            | Some i \<Rightarrow> drop i (last_element s))"

definition base :: "string \<Rightarrow> string" where
  "base s =
     (if s = '''' then ''.''
      else (let t = rev (dropWhile (\<lambda>c. c = CHR ''/'') (rev s))
            in if t = '''' then ''/'' else last_element t))"

definition dir :: "string \<Rightarrow> string" where
  "dir s = clean (take (length s - length (last_element s)) s)"

definition join_path :: "string \<Rightarrow> string \<Rightarrow> string" where
  "join_path a b =
     (if a = '''' then (if b = '''' then '''' else clean b)
      else if b = '''' then clean a
      else clean (a @ ''/'' @ b))"

definition is_abs :: "string \<Rightarrow> bool" where
  "is_abs s \<longleftrightarrow> has_prefix s ''/''"

section \<open>Lemmas\<close>

lemma has_prefix_Nil [simp]: "has_prefix s []"
  by (simp add: has_prefix_def)

lemma has_prefix_iff: "has_prefix s p \<longleftrightarrow> (\<exists>t. s = p @ t)"
  by (auto simp: has_prefix_def) (metis append_take_drop_id)

lemma has_suffix_iff: "has_suffix s p \<longleftrightarrow> (\<exists>t. s = t @ p)"
  by (auto simp: has_suffix_def) (metis append_take_drop_id)

lemma has_prefix_append [simp]: "has_prefix (p @ t) p"
  by (auto simp: has_prefix_iff)

lemma split_byte_not_Nil [simp]: "split_byte c s \<noteq> []"
  by (induction s) (auto split: list.splits)

lemma join_split_byte [simp]: "join_byte c (split_byte c s) = s"
proof (induction s)
  case Nil
  then show ?case by simp
next
  case (Cons x s)
  obtain p ps where s: "split_byte c s = p # ps"
    by (cases "split_byte c s") auto
  with Cons show ?case by (cases ps) auto
qed

lemma split_byte_no_sep: "p \<in> set (split_byte c s) \<Longrightarrow> c \<notin> set p"
  by (induction s arbitrary: p) (auto split: list.splits if_splits)

lemma split_byte_single [simp]: "c \<notin> set p \<Longrightarrow> split_byte c p = [p]"
  by (induction p) auto

lemma split_byte_append: "c \<notin> set p \<Longrightarrow> split_byte c (p @ c # s) = p # split_byte c s"
  by (induction p) auto

lemma split_join_byte:
  "ps \<noteq> [] \<Longrightarrow> (\<And>p. p \<in> set ps \<Longrightarrow> c \<notin> set p) \<Longrightarrow> split_byte c (join_byte c ps) = ps"
  by (induction c ps rule: join_byte.induct) (auto simp: split_byte_append)

text \<open>The elements of a path that may be joined to a directory without leaving it.\<close>

definition plain_element :: "string \<Rightarrow> bool" where
  "plain_element e \<longleftrightarrow> e \<noteq> '''' \<and> e \<noteq> ''.'' \<and> e \<noteq> ''..''"

definition safe_elements :: "string \<Rightarrow> bool" where
  "safe_elements s \<longleftrightarrow> list_all plain_element (split_byte (CHR ''/'') s)"

definition dotdots_then_plain :: "string list \<Rightarrow> bool" where
  "dotdots_then_plain es \<longleftrightarrow> list_all plain_element (dropWhile (\<lambda>e. e = ''..'') es)"

lemma dotdots_plain_snoc:
  "dotdots_then_plain es \<Longrightarrow> plain_element e \<Longrightarrow> dotdots_then_plain (es @ [e])"
  by (induction es) (auto simp: dotdots_then_plain_def plain_element_def)

lemma dotdots_plain_butlast: "dotdots_then_plain (es @ [e]) \<Longrightarrow> dotdots_then_plain es"
  by (induction es) (auto simp: dotdots_then_plain_def split: if_splits)

lemma dotdots_plain_snoc_dotdot:
  "dotdots_then_plain (es @ [''..'']) \<Longrightarrow> dotdots_then_plain (es @ [''..'', ''..''])"
  by (induction es) (auto simp: dotdots_then_plain_def plain_element_def split: if_splits)

lemma clean_elements_form:
  "dotdots_then_plain (rev acc) \<Longrightarrow> dotdots_then_plain (clean_elements False acc es)"
proof (induction "False" acc es rule: clean_elements.induct)
  case (1 acc)
  then show ?case by simp
next
  case (2 acc e es)
  consider "e = '''' \<or> e = ''.''" | "e = ''..''" | "plain_element e"
    by (auto simp: plain_element_def)
  then show ?case
  proof cases
    case 1
    then show ?thesis using "2.hyps"(1) "2.prems" by simp
  next
    case 2
    show ?thesis
    proof (cases acc)
      case Nil
      then show ?thesis using 2 "2.hyps"(2)
        by (auto simp: dotdots_then_plain_def plain_element_def)
    next
      case (Cons a acc')
      then show ?thesis
        using 2 "2.hyps"(3,4) "2.prems" dotdots_plain_butlast dotdots_plain_snoc_dotdot by auto
    qed
  next
    case 3
    then show ?thesis using "2.hyps"(5) "2.prems" dotdots_plain_snoc
      by (auto simp: plain_element_def)
  qed
qed

lemma clean_elements_subset:
  "set (clean_elements r acc es) \<subseteq> set acc \<union> set es \<union> {''..''}"
  by (induction r acc es rule: clean_elements.induct) (auto split: list.splits if_splits)

lemma clean_elements_no_slash:
  assumes "e \<in> set (clean_elements False [] (split_byte (CHR ''/'') s))"
  shows "CHR ''/'' \<notin> set e"
  using assms clean_elements_subset [of False "[]" "split_byte (CHR ''/'') s"] split_byte_no_sep
  by fastforce

text \<open>
  The fact behind every path check: a non-empty relative path equal to its cleaned form, not
  \<open>.\<close>, not \<open>..\<close> and not starting with \<open>../\<close>, has plain elements only.
\<close>

lemma dotdots_then_plain_prefix:
  assumes "dotdots_then_plain es" and "es \<noteq> []" and "join_byte (CHR ''/'') es \<noteq> ''..''"
    and "\<not> has_prefix (join_byte (CHR ''/'') es) ''../''"
  shows "list_all plain_element es"
proof (cases "hd es = ''..''")
  case True
  then obtain fs where es: "es = ''..'' # fs"
    using assms(2) by (cases es) auto
  show ?thesis
  proof (cases fs)
    case Nil
    with es assms(3) show ?thesis by simp
  next
    case (Cons g gs)
    with es assms(4) show ?thesis by (simp add: has_prefix_def)
  qed
next
  case False
  then have "dropWhile (\<lambda>e. e = ''..'') es = es" by (cases es) auto
  with assms(1) show ?thesis by (simp add: dotdots_then_plain_def)
qed

theorem clean_relative_safe:
  assumes "s = clean s" and "\<not> has_prefix s ''/''" and "s \<noteq> ''.''" and "s \<noteq> ''..''"
    and "\<not> has_prefix s ''../''"
  shows "safe_elements s"
proof -
  let ?es = "clean_elements False [] (split_byte (CHR ''/'') s)"
  have "s \<noteq> ''''" using assms(1) by (auto simp: clean_def)
  with assms(1-3) have es: "?es \<noteq> []" and s: "s = join_byte (CHR ''/'') ?es"
    by (auto simp: clean_def split: list.splits)
  have "split_byte (CHR ''/'') s = ?es"
    by (subst (1) s) (rule split_join_byte [OF es clean_elements_no_slash])
  moreover have "list_all plain_element ?es"
    using assms(4,5) s es clean_elements_form [of "[]"]
    by (intro dotdots_then_plain_prefix) (auto simp: dotdots_then_plain_def)
  ultimately show ?thesis by (simp add: safe_elements_def)
qed

text \<open>Conversely a path of plain elements is its own cleaned form.\<close>

lemma clean_elements_plain:
  "list_all plain_element es \<Longrightarrow> clean_elements r acc es = rev acc @ es"
  by (induction es arbitrary: acc) (auto simp: plain_element_def)

lemma safe_elements_clean:
  assumes "safe_elements s"
  shows "clean s = s"
proof -
  have plain: "list_all plain_element (split_byte (CHR ''/'') s)"
    using assms by (simp add: safe_elements_def)
  have ne: "s \<noteq> ''''" using plain by (auto simp: plain_element_def)
  have "\<not> has_prefix s ''/''"
  proof
    assume "has_prefix s ''/''"
    then obtain t where "s = CHR ''/'' # t" by (auto simp: has_prefix_iff)
    with plain show False by (simp add: plain_element_def)
  qed
  with ne plain show ?thesis
    by (simp add: clean_def clean_elements_plain split: list.splits) (metis join_split_byte)
qed

end
