(* ===== verification/Go_Crypto.thy ===== *)
theory Go_Crypto
  imports Go_Text "HOL-Library.Word"
begin

unbundle bit_operations_syntax

text \<open>
  The digest and encoding functions of Go's standard library that the sources call: SHA-256
  (\<open>crypto/sha256\<close>, FIPS 180-4, written out on 32-bit words) and hexadecimal text
  (\<open>encoding/hex\<close>).  The lemmas give the length of a digest and the decoding of encoded text.
\<close>

section \<open>SHA-256\<close>

type_synonym u32 = "32 word"

definition sha_k :: "u32 list" where
  "sha_k =
   [1116352408, 1899447441, 3049323471, 3921009573,
    961987163, 1508970993, 2453635748, 2870763221,
    3624381080, 310598401, 607225278, 1426881987,
    1925078388, 2162078206, 2614888103, 3248222580,
    3835390401, 4022224774, 264347078, 604807628,
    770255983, 1249150122, 1555081692, 1996064986,
    2554220882, 2821834349, 2952996808, 3210313671,
    3336571891, 3584528711, 113926993, 338241895,
    666307205, 773529912, 1294757372, 1396182291,
    1695183700, 1986661051, 2177026350, 2456956037,
    2730485921, 2820302411, 3259730800, 3345764771,
    3516065817, 3600352804, 4094571909, 275423344,
    430227734, 506948616, 659060556, 883997877, 958139571, 1322822218, 1537002063, 1747873779,
    1955562222, 2024104815, 2227730452, 2361852424, 2428436474, 2756734187, 3204031479, 3329325298]"

definition sha_init :: "u32 list" where
  "sha_init =
   [1779033703, 3144134277, 1013904242, 2773480762, 1359893119, 2600822924, 528734635, 1541459225]"

definition rotr32 :: "nat \<Rightarrow> u32 \<Rightarrow> u32" where
  "rotr32 n x = drop_bit n x OR push_bit (32 - n) x"

definition small_sigma0 :: "u32 \<Rightarrow> u32" where
  "small_sigma0 x = rotr32 7 x XOR rotr32 18 x XOR drop_bit 3 x"

definition small_sigma1 :: "u32 \<Rightarrow> u32" where
  "small_sigma1 x = rotr32 17 x XOR rotr32 19 x XOR drop_bit 10 x"

definition big_sigma0 :: "u32 \<Rightarrow> u32" where
  "big_sigma0 x = rotr32 2 x XOR rotr32 13 x XOR rotr32 22 x"

definition big_sigma1 :: "u32 \<Rightarrow> u32" where
  "big_sigma1 x = rotr32 6 x XOR rotr32 11 x XOR rotr32 25 x"

fun sha_schedule :: "nat \<Rightarrow> u32 list \<Rightarrow> u32 list" where
  "sha_schedule 0 w = w"
| "sha_schedule (Suc n) w =
     (let k = length w in
      sha_schedule n
        (w @ [small_sigma1 (w ! (k - 2)) + w ! (k - 7) + small_sigma0 (w ! (k - 15)) + w ! (k - 16)]))"

fun sha_rounds :: "u32 list \<Rightarrow> u32 list \<Rightarrow> u32 list \<Rightarrow> u32 list" where
  "sha_rounds (k # ks) (w # ws) [a, b, c, d, e, f, g, h] =
     (let t1 = h + big_sigma1 e + ((e AND f) XOR (NOT e AND g)) + k + w;
          t2 = big_sigma0 a + ((a AND b) XOR (a AND c) XOR (b AND c))
      in sha_rounds ks ws [t1 + t2, a, b, c, d + t1, e, f, g])"
| "sha_rounds _ _ st = st"

fun chunks :: "nat \<Rightarrow> 'a list \<Rightarrow> 'a list list" where
  "chunks n [] = []"
| "chunks n (x # xs) = (if n = 0 then [] else take n (x # xs) # chunks n (drop n (x # xs)))"

definition word_of_bytes :: "bytes \<Rightarrow> u32" where
  "word_of_bytes cs = foldl (\<lambda>a c. push_bit 8 a OR of_char c) 0 cs"

definition bytes_of_int :: "nat \<Rightarrow> int \<Rightarrow> bytes" where
  "bytes_of_int n v = map (\<lambda>i. char_of (drop_bit (8 * (n - 1 - i)) v)) [0..<n]"

definition sha_block :: "u32 list \<Rightarrow> bytes \<Rightarrow> u32 list" where
  "sha_block st blk = map2 (+) st (sha_rounds sha_k (sha_schedule 48 (map word_of_bytes (chunks 4 blk))) st)"

definition sha_pad :: "bytes \<Rightarrow> bytes" where
  "sha_pad m =
     m @ [CHR 0x80] @ replicate ((119 - length m mod 64) mod 64) (CHR 0x00)
       @ bytes_of_int 8 (8 * int (length m))"

definition sha256 :: "bytes \<Rightarrow> bytes" where
  "sha256 m = concat (map (\<lambda>w. bytes_of_int 4 (uint w)) (foldl sha_block sha_init (chunks 64 (sha_pad m))))"

lemma length_sha_rounds [simp]: "length (sha_rounds ks ws st) = length st"
  by (induction ks ws st rule: sha_rounds.induct) (auto simp: Let_def)

lemma length_sha_block [simp]: "length (sha_block st blk) = length st"
  by (simp add: sha_block_def)

lemma length_foldl_sha_block [simp]: "length (foldl sha_block st blks) = length st"
  by (induction blks arbitrary: st) simp_all

lemma length_concat_words: "length (concat (map (\<lambda>w. bytes_of_int 4 (uint w)) ws)) = 4 * length ws"
  by (induction ws) (simp_all add: bytes_of_int_def)

lemma length_sha256 [simp]: "length (sha256 m) = 32"
  by (simp add: sha256_def length_concat_words) (simp add: sha_init_def)

section \<open>Hexadecimal text\<close>

definition hex_digit :: "nat \<Rightarrow> char" where
  "hex_digit n = ''0123456789abcdef'' ! n"

definition hex_byte :: "char \<Rightarrow> string" where
  "hex_byte c = [hex_digit (ord_of c div 16), hex_digit (ord_of c mod 16)]"

definition hex_encode :: "bytes \<Rightarrow> string" where
  "hex_encode b = concat (map hex_byte b)"

text \<open>\<open>fromHexChar\<close>: digits, and letters of either case.\<close>

definition from_hex_char :: "char \<Rightarrow> nat option" where
  "from_hex_char c =
     (let n = ord_of c in
      if 48 \<le> n \<and> n \<le> 57 then Some (n - 48)
      else if 97 \<le> n \<and> n \<le> 102 then Some (n - 87)
      else if 65 \<le> n \<and> n \<le> 70 then Some (n - 55)
      else None)"

fun hex_decode :: "string \<Rightarrow> bytes option" where
  "hex_decode [] = Some []"
| "hex_decode [_] = None"
| "hex_decode (a # b # s) =
     (case (from_hex_char a, from_hex_char b) of
        (Some x, Some y) \<Rightarrow> map_option (Cons (char_of (16 * x + y))) (hex_decode s)
      | _ \<Rightarrow> None)"

lemma less_16_cases:
  assumes "n < (16::nat)"
  shows "n \<in> {0, 1, 2, 3, 4, 5, 6, 7, 8, 9, 10, 11, 12, 13, 14, 15}"
  using assms by simp arith

lemma from_hex_digit: "n < 16 \<Longrightarrow> from_hex_char (hex_digit n) = Some n"
  using less_16_cases [of n] by (auto simp: hex_digit_def from_hex_char_def)

lemma ord_of_div_16 [simp]: "ord_of c div 16 < 16"
  using nat_of_char_less_256 [of c] by (simp add: less_mult_imp_div_less)

theorem hex_decode_encode: "hex_decode (hex_encode b) = Some b"
  by (induction b) (simp_all add: hex_encode_def hex_byte_def from_hex_digit)

lemma length_hex_encode [simp]: "length (hex_encode b) = 2 * length b"
  by (induction b) (simp_all add: hex_encode_def hex_byte_def)

text \<open>A lower-case hexadecimal digit, the character class \<open>[0-9a-f]\<close> of the patterns.\<close>

definition lower_hex :: "char \<Rightarrow> bool" where
  "lower_hex c \<longleftrightarrow> (48 \<le> ord_of c \<and> ord_of c \<le> 57) \<or> (97 \<le> ord_of c \<and> ord_of c \<le> 102)"

lemma lower_hex_digit: "n < 16 \<Longrightarrow> lower_hex (hex_digit n)"
  using less_16_cases [of n] by (auto simp: hex_digit_def lower_hex_def)

lemma lower_hex_encode: "list_all lower_hex (hex_encode b)"
  by (induction b) (simp_all add: hex_encode_def hex_byte_def lower_hex_digit)

lemma hex_decode_length: "hex_decode s = Some b \<Longrightarrow> length s = 2 * length b"
  by (induction s arbitrary: b rule: hex_decode.induct) (auto split: option.splits)

end
