(* ===== verification/Domain.thy ===== *)
theory Domain
  imports Go_Crypto
begin

unbundle bit_operations_syntax

text \<open>
  Package \<open>internal/domain\<close>: the import states and their transition table (\<open>state.go\<close>), the
  time-ordered identifiers (\<open>identifier.go\<close>), and beside them the transition guards that the
  database enforces with triggers on imports, defenses, runner jobs and users
  (\<open>migrations/000001, 000006, 000009\<close>).  The locale \<open>transition_guard\<close> states what such a
  guard promises; it is interpreted on each of the four tables.
\<close>

section \<open>Status values\<close>

datatype user_status = UserPending | UserActive | UserRejected | UserBlocked

datatype import_state =
    ImportReceiving | ImportStored | ImportValidating | ImportReviewPending | ImportApproved
  | ImportApplying | ImportCompleted | ImportRejected | ImportFailed | ImportCancelled

datatype defense_status =
    DReady | DPreparing | DActive | DPassed | DFailed | DExpired | DCancelled | DError

datatype job_state =
    JQueued | JLeased | JRunning | JRetryWait | JCompleted | JTimedOut | JCancelled | JDead

section \<open>Transition tables\<close>

text \<open>\<open>CanTransitionImport\<close>: the two-level Go map; a missing key reads as \<open>false\<close>.\<close>

fun allowed_imports :: "import_state \<Rightarrow> import_state list" where
  "allowed_imports ImportReceiving = [ImportStored, ImportRejected, ImportCancelled]"
| "allowed_imports ImportStored = [ImportValidating, ImportCancelled]"
| "allowed_imports ImportValidating = [ImportReviewPending, ImportRejected, ImportFailed, ImportCancelled]"
| "allowed_imports ImportReviewPending = [ImportApproved, ImportRejected, ImportCancelled]"
| "allowed_imports ImportApproved = [ImportApplying, ImportCancelled]"
| "allowed_imports ImportApplying = [ImportCompleted, ImportFailed]"
| "allowed_imports ImportFailed = [ImportValidating, ImportApplying]"
| "allowed_imports _ = []"

definition CanTransitionImport :: "import_state \<Rightarrow> import_state \<Rightarrow> bool" where
  "CanTransitionImport from to \<longleftrightarrow> List.member (allowed_imports from) to"

definition RequireImportTransition :: "import_state \<Rightarrow> import_state \<Rightarrow> unit result" where
  "RequireImportTransition from to =
     (if \<not> CanTransitionImport from to then Inl (ErrText ''INVALID_STATE_TRANSITION'') else Inr ())"

text \<open>
  The guards of the triggers, each as its \<open>plpgsql\<close> function states it: an unchanged status
  passes, a listed change passes, everything else raises.
\<close>

definition validate_import_transition :: "import_state \<Rightarrow> import_state \<Rightarrow> bool" where
  "validate_import_transition old new \<longleftrightarrow>
     new = old
   \<or> (old = ImportReceiving \<and> new \<in> {ImportStored, ImportRejected, ImportCancelled})
   \<or> (old = ImportStored \<and> new \<in> {ImportValidating, ImportCancelled})
   \<or> (old = ImportValidating \<and> new \<in> {ImportReviewPending, ImportRejected, ImportFailed, ImportCancelled})
   \<or> (old = ImportReviewPending \<and> new \<in> {ImportApproved, ImportRejected, ImportCancelled})
   \<or> (old = ImportApproved \<and> new \<in> {ImportApplying, ImportCancelled})
   \<or> (old = ImportApplying \<and> new \<in> {ImportCompleted, ImportFailed})
   \<or> (old = ImportFailed \<and> new \<in> {ImportValidating, ImportApplying})"

definition validate_defense_transition :: "defense_status \<Rightarrow> defense_status \<Rightarrow> bool" where
  "validate_defense_transition old new \<longleftrightarrow>
     new = old
   \<or> (old = DReady \<and> new \<in> {DPreparing, DCancelled})
   \<or> (old = DPreparing \<and> new \<in> {DReady, DActive, DError, DCancelled})
   \<or> (old = DActive \<and> new \<in> {DPassed, DFailed, DExpired, DCancelled, DError})
   \<or> (old = DError \<and> new = DReady)"

definition validate_runner_job_transition :: "job_state \<Rightarrow> job_state \<Rightarrow> bool" where
  "validate_runner_job_transition old new \<longleftrightarrow>
     new = old
   \<or> (old = JQueued \<and> new \<in> {JLeased, JCancelled})
   \<or> (old = JLeased \<and> new \<in> {JRunning, JQueued, JDead, JCancelled})
   \<or> (old = JRunning \<and> new \<in> {JCompleted, JRetryWait, JTimedOut, JCancelled})
   \<or> (old = JRetryWait \<and> new \<in> {JQueued, JDead})"

definition validate_user_transition :: "user_status \<Rightarrow> user_status \<Rightarrow> bool" where
  "validate_user_transition old new \<longleftrightarrow>
     new = old
   \<or> (old = UserPending \<and> new \<in> {UserActive, UserRejected, UserBlocked})
   \<or> (old = UserRejected \<and> new \<in> {UserPending, UserBlocked})
   \<or> (old = UserActive \<and> new = UserBlocked)
   \<or> (old = UserBlocked \<and> new = UserActive)"

section \<open>The contract of a transition guard\<close>

text \<open>A history of a row: each status follows the one before by a guarded update.\<close>

fun guarded_path :: "('s \<Rightarrow> 's \<Rightarrow> bool) \<Rightarrow> 's \<Rightarrow> 's list \<Rightarrow> bool" where
  "guarded_path guard s [] = True"
| "guarded_path guard s (t # ts) = (guard s t \<and> guarded_path guard t ts)"

locale transition_guard =
  fixes guard :: "'s \<Rightarrow> 's \<Rightarrow> bool" and terminal :: "'s \<Rightarrow> bool"
  assumes guard_refl: "guard s s"
    and terminal_stuck: "terminal s \<Longrightarrow> guard s t \<Longrightarrow> t = s"
begin

lemma terminal_absorbing: "terminal s \<Longrightarrow> guarded_path guard s ts \<Longrightarrow> t \<in> set ts \<Longrightarrow> t = s"
  by (induction ts arbitrary: s) (auto dest: terminal_stuck)

end

fun import_terminal :: "import_state \<Rightarrow> bool" where
  "import_terminal ImportCompleted = True"
| "import_terminal ImportRejected = True"
| "import_terminal ImportCancelled = True"
| "import_terminal _ = False"

fun defense_terminal :: "defense_status \<Rightarrow> bool" where
  "defense_terminal DPassed = True"
| "defense_terminal DFailed = True"
| "defense_terminal DExpired = True"
| "defense_terminal DCancelled = True"
| "defense_terminal _ = False"

fun job_terminal :: "job_state \<Rightarrow> bool" where
  "job_terminal JCompleted = True"
| "job_terminal JTimedOut = True"
| "job_terminal JCancelled = True"
| "job_terminal JDead = True"
| "job_terminal _ = False"

interpretation import_guard: transition_guard validate_import_transition import_terminal
  by unfold_locales (auto simp: validate_import_transition_def elim: import_terminal.elims)

interpretation defense_guard: transition_guard validate_defense_transition defense_terminal
  by unfold_locales (auto simp: validate_defense_transition_def)

interpretation job_guard: transition_guard validate_runner_job_transition job_terminal
  by unfold_locales (auto simp: validate_runner_job_transition_def)

interpretation user_guard: transition_guard validate_user_transition "\<lambda>_. False"
  by unfold_locales (auto simp: validate_user_transition_def)

text \<open>
  the transition table of the Go package and the guard of the database trigger agree: the
  trigger accepts a change of the import state exactly when \<open>CanTransitionImport\<close> allows it,
  and the only further updates it accepts leave the state as it is.
\<close>

theorem import_transition_agrees:
  "validate_import_transition old new \<longleftrightarrow> new = old \<or> CanTransitionImport old new"
  by (cases old) (auto simp: validate_import_transition_def CanTransitionImport_def)

section \<open>Identifiers\<close>

text \<open>
  \<open>NewUUIDv7\<close>: sixteen random bytes, of which the first six are overwritten with the low 48
  bits of the Unix time in milliseconds and the seventh and ninth carry version and variant.
  The entropy source may fail (\<open>None\<close>).
\<close>

definition byte_of_word :: "8 word \<Rightarrow> char" where
  "byte_of_word w = char_of (unat w)"

definition uuid_bytes :: "8 word list \<Rightarrow> 64 word \<Rightarrow> 8 word list" where
  "uuid_bytes rnd millis =
     (let id0 = rnd[0 := ucast (drop_bit 40 millis)];
          id1 = id0[1 := ucast (drop_bit 32 millis)];
          id2 = id1[2 := ucast (drop_bit 24 millis)];
          id3 = id2[3 := ucast (drop_bit 16 millis)];
          id4 = id3[4 := ucast (drop_bit 8 millis)];
          id5 = id4[5 := ucast millis];
          id6 = id5[6 := (id5 ! 6 AND 0x0f) OR 0x70]
      in id6[8 := (id6 ! 8 AND 0x3f) OR 0x80])"

definition uuid_text :: "string \<Rightarrow> string" where
  "uuid_text raw =
     take 8 raw @ ''-'' @ take 4 (drop 8 raw) @ ''-'' @ take 4 (drop 12 raw) @ ''-''
       @ take 4 (drop 16 raw) @ ''-'' @ take 12 (drop 20 raw)"

definition NewUUIDv7 :: "8 word list option \<Rightarrow> 64 word \<Rightarrow> string result" where
  "NewUUIDv7 entropy millis =
     (case entropy of
        None \<Rightarrow> Inl (ErrText ''uuid entropy'')
      | Some rnd \<Rightarrow> Inr (uuid_text (hex_encode (map byte_of_word (uuid_bytes rnd millis)))))"

text \<open>
  The pattern of a canonical UUID, \<open>opaqueIDPattern\<close> in \<open>application/storage/storage.go\<close> and
  \<open>uuidPattern\<close> in \<open>transport/httpapi/middleware.go\<close>: five groups of lower-case hexadecimal
  digits of lengths 8, 4, 4, 4 and 12 with a version digit 1 to 8 and a variant digit 8 to b.
\<close>

definition hex_group :: "nat \<Rightarrow> string \<Rightarrow> bool" where
  "hex_group n s \<longleftrightarrow> length s = n \<and> list_all lower_hex s"

fun uuid_pattern_groups :: "string list \<Rightarrow> bool" where
  "uuid_pattern_groups [a, b, c, d, e] =
     (hex_group 8 a \<and> hex_group 4 b \<and> hex_group 4 c \<and> hex_group 4 d \<and> hex_group 12 e
      \<and> List.member ''12345678'' (hd c) \<and> List.member ''89ab'' (hd d))"
| "uuid_pattern_groups _ = False"

definition uuid_pattern :: "string \<Rightarrow> bool" where
  "uuid_pattern s \<longleftrightarrow> uuid_pattern_groups (split_byte (CHR ''-'') s)"

lemma uuid_pattern_iff:
  "uuid_pattern s \<longleftrightarrow>
     (\<exists>a b c d e. s = a @ ''-'' @ b @ ''-'' @ c @ ''-'' @ d @ ''-'' @ e
        \<and> uuid_pattern_groups [a, b, c, d, e])"
proof
  assume "uuid_pattern s"
  then obtain a b c d e where g: "split_byte (CHR ''-'') s = [a, b, c, d, e]"
    by (auto simp: uuid_pattern_def elim: uuid_pattern_groups.elims)
  then have "s = a @ ''-'' @ b @ ''-'' @ c @ ''-'' @ d @ ''-'' @ e"
    using join_split_byte [of "CHR ''-''" s] by simp
  moreover have "uuid_pattern_groups [a, b, c, d, e]"
    using \<open>uuid_pattern s\<close> g by (simp only: uuid_pattern_def)
  ultimately show "\<exists>a b c d e. s = a @ ''-'' @ b @ ''-'' @ c @ ''-'' @ d @ ''-'' @ e
        \<and> uuid_pattern_groups [a, b, c, d, e]"
    by blast
next
  assume "\<exists>a b c d e. s = a @ ''-'' @ b @ ''-'' @ c @ ''-'' @ d @ ''-'' @ e
        \<and> uuid_pattern_groups [a, b, c, d, e]"
  then obtain a b c d e where s: "s = a @ ''-'' @ b @ ''-'' @ c @ ''-'' @ d @ ''-'' @ e"
    and g: "uuid_pattern_groups [a, b, c, d, e]" by blast
  have "CHR ''-'' \<notin> set x" if "list_all lower_hex x" for x
    using that by (auto simp: list_all_iff lower_hex_def)
  with g have "split_byte (CHR ''-'') s = [a, b, c, d, e]"
    by (simp add: s split_byte_append hex_group_def)
  with g show "uuid_pattern s" by (simp add: uuid_pattern_def)
qed

lemma masked_or:
  fixes w m k :: "8 word"
  assumes "m AND k = 0" and "m = mask n" and "n < 8"
  shows "unat ((w AND m) OR k) = (unat w mod 2 ^ n + unat k) mod 256"
proof -
  have "(w AND m) OR k = (w AND m) + k"
    using assms(1) by (intro disjunctive_add_eq_or [symmetric]) (simp add: and.assoc)
  moreover have "w AND m = take_bit n w"
    by (simp add: assms(2) take_bit_eq_mask)
  then have "unat (w AND m) = take_bit n (unat w)"
    by (simp add: unsigned_take_bit_eq)
  ultimately show ?thesis
    by (simp add: unat_word_ariths take_bit_eq_mod [of n "unat w"])
qed

lemma version_byte: "unat ((w AND 0x0f) OR (0x70 :: 8 word)) = unat w mod 16 + 0x70"
proof -
  have "unat ((w AND 0x0f) OR (0x70 :: 8 word)) = (unat w mod 2 ^ 4 + unat (0x70 :: 8 word)) mod 256"
    by (rule masked_or) (simp_all add: mask_eq_exp_minus_1)
  then show ?thesis by simp
qed

lemma variant_byte: "unat ((w AND 0x3f) OR (0x80 :: 8 word)) = unat w mod 64 + 0x80"
proof -
  have "unat ((w AND 0x3f) OR (0x80 :: 8 word)) = (unat w mod 2 ^ 6 + unat (0x80 :: 8 word)) mod 256"
    by (rule masked_or) (simp_all add: mask_eq_exp_minus_1)
  moreover have "unat w mod 64 + 128 < 256"
    using mod_less_divisor [of 64 "unat w"] by linarith
  ultimately show ?thesis by simp
qed

lemma ord_byte_of_word [simp]: "ord_of (byte_of_word w) = unat w"
proof -
  have "unat w < 256" using unsigned_less [of w] by simp
  then show ?thesis by (simp add: byte_of_word_def)
qed

lemma hex_encode_nth:
  "i < length b \<Longrightarrow> hex_encode b ! (2 * i) = hex_digit (ord_of (b ! i) div 16)"
proof (induction b arbitrary: i)
  case Nil
  then show ?case by simp
next
  case (Cons c b)
  then show ?case
    by (cases i) (simp_all add: hex_encode_def hex_byte_def)
qed

lemma length_uuid_bytes [simp]: "length (uuid_bytes rnd millis) = length rnd"
  by (simp add: uuid_bytes_def Let_def)

lemma uuid_bytes_version:
  "6 < length rnd \<Longrightarrow> uuid_bytes rnd millis ! 6 = (rnd ! 6 AND 0x0f) OR 0x70"
  by (simp add: uuid_bytes_def Let_def)

lemma uuid_bytes_variant:
  "8 < length rnd \<Longrightarrow> uuid_bytes rnd millis ! 8 = (rnd ! 8 AND 0x3f) OR 0x80"
  by (simp add: uuid_bytes_def Let_def)

lemma hex_group_take_drop:
  assumes "list_all lower_hex raw" and "n + k \<le> length raw"
  shows "hex_group n (take n (drop k raw))"
  using assms by (auto simp: hex_group_def list_all_iff dest: in_set_takeD in_set_dropD)

lemma variant_digit:
  assumes "n = m mod 64 + 128"
  shows "List.member ''89ab'' (hex_digit (n div 16))"
proof -
  have "n div 16 = 8 + m mod 64 div 16" using assms by simp
  moreover have "m mod 64 div 16 < 4"
    using mod_less_divisor [of 64 m] by (simp add: less_mult_imp_div_less)
  ultimately have "n div 16 \<in> {8, 9, 10, 11}" by auto
  then show ?thesis by (auto simp: hex_digit_def)
qed

lemma uuid_version_digit:
  assumes "length rnd = 16"
  shows "hex_encode (map byte_of_word (uuid_bytes rnd millis)) ! 12 = CHR ''7''"
  using hex_encode_nth [of 6 "map byte_of_word (uuid_bytes rnd millis)"] assms
  by (simp add: uuid_bytes_version version_byte hex_digit_def)

lemma uuid_text_groups:
  assumes hex: "list_all lower_hex raw" and len: "length raw = 32"
    and "List.member ''12345678'' (raw ! 12)" and "List.member ''89ab'' (raw ! 16)"
  shows "uuid_pattern (uuid_text raw)"
proof -
  have "hd (take 4 (drop 12 raw)) = raw ! 12" "hd (take 4 (drop 16 raw)) = raw ! 16"
    using len by (simp_all add: hd_drop_conv_nth)
  moreover have "hex_group 8 (take 8 raw)"
    using hex_group_take_drop [OF hex, of 8 0] len by simp
  moreover have "hex_group 4 (take 4 (drop 8 raw))" "hex_group 4 (take 4 (drop 12 raw))"
    "hex_group 4 (take 4 (drop 16 raw))" "hex_group 12 (take 12 (drop 20 raw))"
    by (rule hex_group_take_drop [OF hex]; simp only: len; simp)+
  ultimately have "uuid_pattern_groups
      [take 8 raw, take 4 (drop 8 raw), take 4 (drop 12 raw), take 4 (drop 16 raw), take 12 (drop 20 raw)]"
    using assms(3,4) by (simp only: uuid_pattern_groups.simps)
  then show ?thesis
    unfolding uuid_pattern_iff uuid_text_def by blast
qed

lemma uuid_text_pattern:
  assumes "length rnd = 16"
  shows "uuid_pattern (uuid_text (hex_encode (map byte_of_word (uuid_bytes rnd millis))))"
proof (rule uuid_text_groups)
  let ?b = "map byte_of_word (uuid_bytes rnd millis)"
  show "list_all lower_hex (hex_encode ?b)" by (rule lower_hex_encode)
  show "length (hex_encode ?b) = 32" using assms by simp
  show "List.member ''12345678'' (hex_encode ?b ! 12)"
    using uuid_version_digit [OF assms] by simp
  show "List.member ''89ab'' (hex_encode ?b ! 16)"
    using hex_encode_nth [of 8 ?b] assms
    by (simp add: uuid_bytes_variant variant_byte variant_digit del: List.member_iff)
qed

text \<open>
  an identifier that \<open>NewUUIDv7\<close> returns always has the canonical form that the HTTP layer
  and the object store require of an identifier, with version digit 7.
\<close>

theorem NewUUIDv7_canonical:
  assumes "length rnd = 16"
  shows "\<exists>s. NewUUIDv7 (Some rnd) millis = Inr s \<and> uuid_pattern s \<and> length s = 36 \<and> s ! 14 = CHR ''7''"
  using assms uuid_version_digit [OF assms]
  by (simp add: NewUUIDv7_def uuid_text_pattern) (simp add: uuid_text_def nth_append)

theorem NewUUIDv7_canonical_witness:
  "\<exists>s. NewUUIDv7 (Some (replicate 16 0xff)) 0x0123456789ab = Inr s \<and> uuid_pattern s
       \<and> length s = 36 \<and> s ! 14 = CHR ''7''"
  by (rule NewUUIDv7_canonical) simp

end
