(* ===== verification/Hide_Seek.thy ===== *)
theory Hide_Seek
  imports Go_Text
begin

text \<open>
  Package \<open>application/hideseek\<close>: the source mutations of a hide-and-seek defense.  A project is
  a map from paths to contents.  \<open>Validate\<close> checks a set of mutations against a project, \<open>Apply\<close>
  performs them from the highest offset down, \<open>DecodeEdits\<close> checks the edits of a student.  The
  theory shows that the check of neighbours after sorting amounts to pairwise disjointness, that
  \<open>Apply\<close> never runs out of bounds and computes the one-pass replacement, and that mutations can
  be undone.

  Offsets are Go's \<open>int\<close>.  Every sum of an offset and a length is guarded by a comparison of the
  offset with the length of the file, so no result depends on the width.
\<close>

record Mutation =
  Path :: string
  Start :: int
  Before :: string
  After :: string

section \<open>Operations\<close>

definition reserved_parts :: "string list" where
  "reserved_parts =
     [''vendor'', ''third_party'', ''third-party'', ''external'', ''extern'', ''deps'', ''_deps'',
      ''build'', ''cmakefiles'', ''dist'', ''out'', ''cache'', ''node_modules'', ''cmake-build-debug'',
      ''cmake-build-release'']"

definition source_extensions :: "string list" where
  "source_extensions = [''.c'', ''.cc'', ''.cpp'', ''.cxx'', ''.h'', ''.hh'', ''.hpp'', ''.hxx'']"

definition editable_part :: "string \<Rightarrow> bool" where
  "editable_part part \<longleftrightarrow>
     \<not> (has_prefix part ''.'' \<or> contains part ''test'' \<or> contains part ''spec'')
     \<and> \<not> List.member reserved_parts part"

definition Editable :: "(string \<Rightarrow> string) \<Rightarrow> string \<Rightarrow> bool" where
  "Editable ul v \<longleftrightarrow>
     (if v = '''' \<or> v \<noteq> clean v \<or> has_prefix v ''/'' \<or> has_prefix v ''../''
         \<or> contains_any v [CHR 0x5C, CHR 0x00] then False
      else list_all editable_part (split_byte (CHR ''/'') (to_lower ul v))
         \<and> List.member source_extensions (to_lower ul (ext v)))"

text \<open>
  The sort of \<open>Validate\<close>, by path and then by offset.  \<open>sort.Slice\<close> on at most five elements is
  an insertion sort, which is stable.
\<close>

definition by_place :: "Mutation \<Rightarrow> Mutation \<Rightarrow> bool" where
  "by_place a b = (if Path a = Path b then Start a < Start b else Path a < Path b)"

definition mutation_end :: "Mutation \<Rightarrow> int" where
  "mutation_end m = Start m + int (length (Before m))"

text \<open>The long condition under which a mutation is refused, and the slice it compares with.\<close>

definition bad_fragment :: "Mutation \<Rightarrow> bytes \<Rightarrow> bool" where
  "bad_fragment m content \<longleftrightarrow>
     Start m < 0 \<or> Start m > int (length content) \<or> length (Before m) = 0
     \<or> length (Before m) > 16384 \<or> length (After m) > 16384 \<or> mutation_end m > int (length content)
     \<or> \<not> utf8_valid (Before m) \<or> \<not> utf8_valid (After m) \<or> Before m = After m
     \<or> take (length (Before m)) (drop (nat (Start m)) content) \<noteq> Before m"

fun validate_scan ::
  "(string \<Rightarrow> string) \<Rightarrow> (string \<rightharpoonup> bytes) \<Rightarrow> Mutation option \<Rightarrow> Mutation list \<Rightarrow> unit result" where
  "validate_scan ul files previous [] = Inr ()"
| "validate_scan ul files previous (m # ms) =
     (case files (Path m) of
        None \<Rightarrow> Inl (ErrText (''file is not editable: '' @ Path m))
      | Some content \<Rightarrow>
          if \<not> Editable ul (Path m) then Inl (ErrText (''file is not editable: '' @ Path m))
          else if bad_fragment m content then Inl (ErrText (''wrong source fragment: '' @ Path m))
          else if (case previous of None \<Rightarrow> False
                   | Some p \<Rightarrow> Path p = Path m \<and> mutation_end p > Start m)
            then Inl (ErrText ''mutations overlap'')
          else validate_scan ul files (Some m) ms)"

definition Validate ::
  "(string \<Rightarrow> string) \<Rightarrow> Mutation list \<Rightarrow> (string \<rightharpoonup> bytes) \<Rightarrow> unit result" where
  "Validate ul mutations files =
     (if length mutations < 1 \<or> length mutations > 5
      then Inl (ErrText ''between 1 and 5 mutations are needed'')
      else validate_scan ul files None (slice_stable by_place mutations))"

text \<open>
  One replacement of \<open>Apply\<close>.  \<open>None\<close> is the run-time panic of a slice expression that is out of
  bounds; a path that is missing from the map reads as the empty slice.
\<close>

definition replace_fragment :: "Mutation \<Rightarrow> bytes \<Rightarrow> bytes option" where
  "replace_fragment m data =
     (if Start m < 0 \<or> Start m > int (length data) \<or> mutation_end m > int (length data) then None
      else Some (take (nat (Start m)) data @ After m @ drop (nat (mutation_end m)) data))"

fun apply_all :: "Mutation list \<Rightarrow> (string \<rightharpoonup> bytes) \<Rightarrow> (string \<rightharpoonup> bytes) option" where
  "apply_all [] result = Some result"
| "apply_all (m # ms) result =
     (case replace_fragment m (case result (Path m) of None \<Rightarrow> [] | Some d \<Rightarrow> d) of
        None \<Rightarrow> None
      | Some d \<Rightarrow> apply_all ms (result(Path m \<mapsto> d)))"

definition Apply ::
  "(string \<Rightarrow> string) \<Rightarrow> Mutation list \<Rightarrow> (string \<rightharpoonup> bytes) \<Rightarrow> (string \<rightharpoonup> bytes) result option" where
  "Apply ul mutations files =
     (case Validate ul mutations files of
        Inl e \<Rightarrow> Some (Inl e)
      | Inr _ \<Rightarrow>
          map_option Inr (apply_all (slice_stable (\<lambda>a b. Start a > Start b) mutations) files))"

text \<open>
  \<open>DecodeEdits\<close>.  The argument \<open>unmarshal\<close> is the JSON decoder with the target type
  \<open>map[string]string\<close>: \<open>None\<close> is a decoding error, \<open>Some None\<close> the nil map (for the text
  \<open>null\<close>), and otherwise the entries come in the order in which the loop visits them.
\<close>

fun edits_scan :: "(string \<Rightarrow> string) \<Rightarrow> (string \<rightharpoonup> bytes) \<Rightarrow> (string \<times> string) list \<Rightarrow> unit result" where
  "edits_scan ul files [] = Inr ()"
| "edits_scan ul files ((name, content) # es) =
     (if files name = None \<or> \<not> Editable ul name \<or> \<not> utf8_valid content \<or> length content > 1048576
      then Inl (ErrText (''file must not be changed: '' @ name))
      else edits_scan ul files es)"

definition DecodeEdits ::
  "(string \<Rightarrow> (string \<times> string) list option option) \<Rightarrow> (string \<Rightarrow> string) \<Rightarrow> string
     \<Rightarrow> (string \<rightharpoonup> bytes) \<Rightarrow> (string \<times> string) list result" where
  "DecodeEdits unmarshal ul answer files =
     (if length answer > 1048576 then Inl (ErrText ''wrong format of edits'')
      else
        (case unmarshal answer of
           Some (Some edits) \<Rightarrow>
             if length edits > 100 then Inl (ErrText ''wrong format of edits'')
             else bind_result (edits_scan ul files edits) (\<lambda>_. Inr edits)
         | _ \<Rightarrow> Inl (ErrText ''wrong format of edits'')))"

section \<open>Reference definitions\<close>

text \<open>What makes one mutation acceptable, and when two of them do not get in each other's way.\<close>

definition acceptable :: "(string \<Rightarrow> string) \<Rightarrow> (string \<rightharpoonup> bytes) \<Rightarrow> Mutation \<Rightarrow> bool" where
  "acceptable ul files m \<longleftrightarrow>
     Editable ul (Path m) \<and> (\<exists>content. files (Path m) = Some content \<and> \<not> bad_fragment m content)"

definition apart :: "Mutation \<Rightarrow> Mutation \<Rightarrow> bool" where
  "apart a b \<longleftrightarrow> Path a = Path b \<longrightarrow> mutation_end a \<le> Start b \<or> mutation_end b \<le> Start a"

text \<open>
  The one-pass replacement: \<open>patch pos ms c\<close> reads \<open>c\<close>, the content from offset \<open>pos\<close> on, from
  left to right and replaces the fragments of \<open>ms\<close>, which come in ascending order.
\<close>

fun patch :: "nat \<Rightarrow> Mutation list \<Rightarrow> bytes \<Rightarrow> bytes" where
  "patch pos [] c = c"
| "patch pos (m # ms) c =
     take (nat (Start m) - pos) c @ After m
       @ patch (nat (mutation_end m)) ms (drop (nat (mutation_end m) - pos) c)"

text \<open>
  The mutations that undo \<open>ms\<close>: old and new fragment change places and the offsets move by the
  difference in length of the replacements before them.
\<close>

fun inverse_mutations :: "int \<Rightarrow> Mutation list \<Rightarrow> Mutation list" where
  "inverse_mutations shift [] = []"
| "inverse_mutations shift (m # ms) =
     \<lparr>Path = Path m, Start = Start m + shift, Before = After m, After = Before m\<rparr>
       # inverse_mutations (shift + int (length (After m)) - int (length (Before m))) ms"

section \<open>Validation\<close>

interpretation place_order: weak_order by_place
  by unfold_locales (auto simp: by_place_def split: if_splits)

interpretation start_order: weak_order "\<lambda>a b. Start a > Start b"
  by unfold_locales auto

text \<open>Neighbours in the sorted list that pass the check of the loop.\<close>

definition precedes :: "Mutation \<Rightarrow> Mutation \<Rightarrow> bool" where
  "precedes a b \<longleftrightarrow> \<not> (Path a = Path b \<and> mutation_end a > Start b)"

lemma validate_scan_iff:
  "validate_scan ul files prev ms = Inr () \<longleftrightarrow>
     list_all (acceptable ul files) ms
     \<and> successively precedes (case prev of None \<Rightarrow> ms | Some p \<Rightarrow> p # ms)"
  by (induction ms arbitrary: prev)
    (auto simp: acceptable_def precedes_def successively_Cons split: option.splits)

lemma acceptable_nonempty: "acceptable ul files m \<Longrightarrow> Start m < mutation_end m \<and> 0 \<le> Start m"
  by (auto simp: acceptable_def bad_fragment_def mutation_end_def)

lemma precedes_apart:
  assumes "acceptable ul files a" and "acceptable ul files b" and "\<not> by_place b a"
  shows "precedes a b \<longleftrightarrow> apart a b"
  using assms(3) acceptable_nonempty [OF assms(1)] acceptable_nonempty [OF assms(2)]
  by (auto simp: apart_def precedes_def by_place_def split: if_splits)

lemma ordered_apart:
  assumes "list_all (acceptable ul files) ms" and "sorted_wrt (\<lambda>a b. \<not> by_place b a) ms"
  shows "successively precedes ms \<longleftrightarrow> sorted_wrt precedes ms"
    and "sorted_wrt precedes ms \<longleftrightarrow> sorted_wrt apart ms"
proof -
  let ?Q = "\<lambda>a b. \<not> by_place b a \<and> precedes a b \<and> Start b < mutation_end b"
  show "sorted_wrt precedes ms \<longleftrightarrow> sorted_wrt apart ms"
    using assms precedes_apart by (induction ms) (auto simp: list_all_iff)
  have "transp ?Q"
    by (rule transpI) (auto simp: by_place_def precedes_def split: if_splits)
  have succ: "successively precedes ms \<Longrightarrow> successively ?Q ms"
    using assms
  proof (induction ms)
    case (Cons a ms)
    then show ?case
      by (cases ms) (auto dest: acceptable_nonempty)
  qed simp
  show "successively precedes ms \<longleftrightarrow> sorted_wrt precedes ms"
  proof
    assume "successively precedes ms"
    then have "sorted_wrt ?Q ms"
      using succ successively_conv_sorted_wrt [OF \<open>transp ?Q\<close>] by blast
    then show "sorted_wrt precedes ms" by (rule sorted_wrt_mono_rel [rotated]) auto
  next
    assume "sorted_wrt precedes ms"
    then show "successively precedes ms" by (rule successively_if_sorted_wrt)
  qed
qed

lemma sorted_wrt_symmetric_mset:
  assumes sym: "\<And>a b. R a b \<Longrightarrow> R b a" and "mset xs = mset ys"
  shows "sorted_wrt R xs = sorted_wrt R ys"
  using assms(2)
proof (induction xs arbitrary: ys)
  case Nil
  then show ?case by simp
next
  case (Cons x xs)
  then obtain us vs where ys: "ys = us @ x # vs"
    by (metis list.set_intros(1) mset_eq_setD split_list)
  with Cons.prems have "mset xs = mset (us @ vs)" by simp
  then have "sorted_wrt R xs = sorted_wrt R (us @ vs)" and "set xs = set (us @ vs)"
    by (rule Cons.IH, rule mset_eq_setD)
  then show ?case using sym by (auto simp: ys sorted_wrt_append)
qed

lemma Validate_ok_iff:
  "Validate ul ms files = Inr () \<longleftrightarrow>
     1 \<le> length ms \<and> length ms \<le> 5 \<and> list_all (acceptable ul files) ms \<and> sorted_wrt apart ms"
proof -
  let ?o = "slice_stable by_place ms"
  have "sorted_wrt apart ?o \<longleftrightarrow> sorted_wrt apart ms"
    by (rule sorted_wrt_symmetric_mset) (auto simp: apart_def)
  moreover have "list_all (acceptable ul files) ?o \<longleftrightarrow> list_all (acceptable ul files) ms"
    by (simp add: list_all_iff)
  ultimately show ?thesis
    using ordered_apart [OF _ place_order.slice_stable_ordered, of ul files ms]
    by (auto simp: Validate_def validate_scan_iff Suc_le_eq)
qed

text \<open>
  C39: \<open>Validate\<close> accepts exactly the sets of one to five mutations each of which names an
  existing editable file and the fragment that stands there, and no two of which overlap, in
  whatever order they are given.  Comparing neighbours after sorting is therefore enough.
\<close>

theorem Validate_iff:
  "Validate ul ms files = Inr () \<longleftrightarrow>
     1 \<le> length ms \<and> length ms \<le> 5 \<and> list_all (acceptable ul files) ms
     \<and> (\<forall>i j. i < j \<and> j < length ms \<longrightarrow> apart (ms ! i) (ms ! j))"
  by (auto simp: Validate_ok_iff sorted_wrt_iff_nth_less)

section \<open>Application\<close>

text \<open>The replacements of \<open>Apply\<close> in one file.\<close>

fun replace_all :: "Mutation list \<Rightarrow> bytes \<Rightarrow> bytes option" where
  "replace_all [] c = Some c"
| "replace_all (m # ms) c =
     (case replace_fragment m c of None \<Rightarrow> None | Some d \<Rightarrow> replace_all ms d)"

lemma replace_all_append:
  "replace_all (xs @ ys) c = (case replace_all xs c of None \<Rightarrow> None | Some d \<Rightarrow> replace_all ys d)"
  by (induction xs arbitrary: c) (auto split: option.splits)

abbreviation at_path :: "string \<Rightarrow> Mutation list \<Rightarrow> Mutation list" where
  "at_path p ms \<equiv> filter (\<lambda>m. Path m = p) ms"

lemma apply_all_paths:
  assumes "\<And>m. m \<in> set ms \<Longrightarrow> files (Path m) \<noteq> None"
    and "\<And>p c. files p = Some c \<Longrightarrow> replace_all (at_path p ms) c \<noteq> None"
  shows "apply_all ms files =
     Some (\<lambda>p. case files p of None \<Rightarrow> None | Some c \<Rightarrow> replace_all (at_path p ms) c)"
  using assms
proof (induction ms arbitrary: files)
  case Nil
  show ?case by (auto simp: fun_eq_iff split: option.split)
next
  case (Cons m ms)
  obtain c where c: "files (Path m) = Some c"
    using Cons.prems(1) [of m] by auto
  with Cons.prems(2) [OF c] obtain d where d: "replace_fragment m c = Some d"
    by (auto split: option.splits)
  let ?f = "files(Path m \<mapsto> d)"
  have "apply_all ms ?f =
      Some (\<lambda>p. case ?f p of None \<Rightarrow> None | Some c \<Rightarrow> replace_all (at_path p ms) c)"
  proof (rule Cons.IH)
    fix m' assume "m' \<in> set ms"
    then show "?f (Path m') \<noteq> None" using Cons.prems(1) [of m'] by auto
  next
    fix p c' assume "?f p = Some c'"
    then show "replace_all (at_path p ms) c' \<noteq> None"
      using Cons.prems(2) [of p] c d by (auto split: if_splits)
  qed
  then show ?case
    using c d by (auto simp: fun_eq_iff split: option.split)
qed

text \<open>
  Fragments in ascending order and inside the file from offset \<open>e\<close> on: replacing them from the
  last to the first leaves everything before \<open>e\<close> alone and is the one-pass replacement.
\<close>

definition ascending :: "nat \<Rightarrow> Mutation list \<Rightarrow> bytes \<Rightarrow> bool" where
  "ascending e ms c \<longleftrightarrow>
     sorted_wrt (\<lambda>a b. mutation_end a \<le> Start b) ms
     \<and> list_all (\<lambda>m. int e \<le> Start m \<and> mutation_end m \<le> int (length c)) ms"

lemma ascending_Cons:
  "ascending e (m # ms) c \<longleftrightarrow>
     int e \<le> Start m \<and> mutation_end m \<le> int (length c) \<and> ascending (nat (mutation_end m)) ms c"
proof -
  have "Start m \<le> mutation_end m" by (simp add: mutation_end_def)
  then show ?thesis
    by (force simp: ascending_def list_all_iff)
qed

lemma replace_all_rev:
  "ascending e ms c \<Longrightarrow> e \<le> length c \<Longrightarrow>
     replace_all (rev ms) c = Some (take e c @ patch e ms (drop e c))"
proof (induction ms arbitrary: e)
  case Nil
  then show ?case by simp
next
  case (Cons m ms)
  have "0 \<le> Start m" using Cons.prems(1) by (simp add: ascending_Cons)
  then obtain a n where a: "Start m = int a" and n: "mutation_end m = int n"
    by (metis mutation_end_def nonneg_int_cases of_nat_add)
  have pos: "e \<le> a" "a \<le> n" "n \<le> length c" and asc: "ascending n ms c"
    using Cons.prems a n by (auto simp: ascending_Cons mutation_end_def)
  have IH: "replace_all (rev ms) c = Some (take n c @ patch n ms (drop n c))"
    using Cons.IH [OF asc] pos by simp
  have "take a c = take e c @ take (a - e) (drop e c)"
    using pos by (metis le_add_diff_inverse take_add)
  with IH pos show ?case
    by (simp add: replace_all_append replace_fragment_def a n min_absorb1)
qed

text \<open>The sorts of \<open>Validate\<close> and of \<open>Apply\<close> agree, up to direction, on each file.\<close>

lemma strictly_ascending_unique:
  fixes f :: "'a \<Rightarrow> int"
  assumes "sorted_wrt (\<lambda>a b. f a < f b) xs" and "sorted_wrt (\<lambda>a b. f a < f b) ys" and "set xs = set ys"
  shows "xs = ys"
proof -
  have "sorted_wrt (<) (map f xs)" "sorted_wrt (<) (map f ys)"
    using assms(1,2) by (simp_all add: sorted_wrt_map)
  then have eq: "map f xs = map f ys" and "distinct (map f xs)"
    using assms(3) by (auto intro: strict_sorted_equal simp: strict_sorted_iff)
  then have "inj_on f (set xs \<union> set ys)"
    using assms(3) by (simp add: distinct_map)
  with eq show ?thesis by (rule map_inj_on)
qed

lemma strict_sorted_imp_distinct: "sorted_wrt (<) (xs :: int list) \<Longrightarrow> distinct xs"
  by (simp add: strict_sorted_iff)

lemma sorted_wrt_strict:
  assumes "sorted_wrt (\<lambda>a b. f a \<le> (f b :: int)) xs" and "distinct (map f xs)"
  shows "sorted_wrt (\<lambda>a b. f a < f b) xs"
  using assms by (induction xs) (force simp: order_less_le)+

lemma valid_ascending:
  assumes "Validate ul ms files = Inr ()" and "files p = Some c"
  shows "ascending 0 (at_path p (slice_stable by_place ms)) c"
proof -
  let ?o = "slice_stable by_place ms"
  have acc: "list_all (acceptable ul files) ?o" and "successively precedes ?o"
    using assms(1) by (auto simp: Validate_def validate_scan_iff split: if_splits)
  then have "sorted_wrt precedes ?o"
    using ordered_apart(1) [OF acc place_order.slice_stable_ordered] by simp
  then have "sorted_wrt precedes (at_path p ?o)" by (rule sorted_wrt_filter)
  then have "sorted_wrt (\<lambda>a b. mutation_end a \<le> Start b) (at_path p ?o)"
    by (rule sorted_wrt_mono_rel [rotated]) (auto simp: precedes_def)
  then show ?thesis
    using acc assms(2) by (auto simp: ascending_def list_all_iff acceptable_def bad_fragment_def)
qed

lemma descending_is_rev:
  assumes "Validate ul ms files = Inr ()" and "files p = Some c"
  shows "at_path p (slice_stable (\<lambda>a b. Start a > Start b) ms) = rev (at_path p (slice_stable by_place ms))"
proof -
  let ?o = "at_path p (slice_stable by_place ms)"
  let ?d = "at_path p (slice_stable (\<lambda>a b. Start a > Start b) ms)"
  have acc: "\<And>m. m \<in> set ?o \<Longrightarrow> Start m < mutation_end m"
    using assms(1) by (auto simp: Validate_ok_iff list_all_iff dest: acceptable_nonempty)
  have "sorted_wrt (\<lambda>a b. mutation_end a \<le> Start b) ?o"
    using valid_ascending [OF assms] by (simp add: ascending_def)
  then have asc: "sorted_wrt (\<lambda>a b. Start a < Start b) ?o"
    by (rule sorted_wrt_mono_rel [rotated]) (use acc in fastforce)
  have "sorted_wrt (\<lambda>a b. Start b \<le> Start a) ?d"
    using sorted_wrt_filter [OF start_order.slice_stable_ordered [of ms], of "\<lambda>m. Path m = p"]
    by (simp add: linorder_not_less)
  then have le: "sorted_wrt (\<lambda>a b. Start a \<le> Start b) (rev ?d)" by (simp add: sorted_wrt_rev)
  have mset: "mset (rev ?d) = mset ?o" by simp
  then have "mset (map Start (rev ?d)) = mset (map Start ?o)" by (simp only: mset_map)
  moreover have "distinct (map Start ?o)"
    using asc by (intro strict_sorted_imp_distinct) (simp add: sorted_wrt_map)
  ultimately have "distinct (map Start (rev ?d))" using mset_eq_imp_distinct_iff by metis
  with le have "sorted_wrt (\<lambda>a b. Start a < Start b) (rev ?d)" by (rule sorted_wrt_strict)
  with asc mset_eq_setD [OF mset] have "rev ?d = ?o" by (auto intro: strictly_ascending_unique)
  then show ?thesis by (metis rev_rev_ident)
qed

lemma Apply_valid:
  assumes "Validate ul ms files = Inr ()"
  shows "Apply ul ms files =
    Some (Inr (\<lambda>p. map_option (patch 0 (at_path p (slice_stable by_place ms))) (files p)))"
proof -
  let ?d = "slice_stable (\<lambda>a b. Start a > Start b) ms"
  have one: "replace_all (at_path p ?d) c = Some (patch 0 (at_path p (slice_stable by_place ms)) c)"
    if "files p = Some c" for p c
    using replace_all_rev [OF valid_ascending [OF assms that]] descending_is_rev [OF assms that] by simp
  have "apply_all ?d files =
      Some (\<lambda>p. case files p of None \<Rightarrow> None | Some c \<Rightarrow> replace_all (at_path p ?d) c)"
  proof (rule apply_all_paths)
    show "files (Path m) \<noteq> None" if "m \<in> set ?d" for m
      using assms that by (auto simp: Validate_ok_iff list_all_iff acceptable_def)
  qed (use one in simp)
  then show ?thesis
    using assms one by (auto simp: Apply_def fun_eq_iff split: option.split)
qed

text \<open>
  on a valid set of mutations \<open>Apply\<close> never indexes out of bounds, and although it replaces
  in place from the highest offset down, mixing the files, the result is file by file the
  one-pass replacement of the fragments in ascending order.  Files without mutations keep their
  contents and no file appears or disappears.  On any other set it returns the error of
  \<open>Validate\<close>.
\<close>

theorem Apply_patch:
  "Apply ul ms files =
     Some (case Validate ul ms files of
             Inl e \<Rightarrow> Inl e
           | Inr _ \<Rightarrow> Inr (\<lambda>p. map_option (patch 0 (at_path p (slice_stable by_place ms))) (files p)))"
proof (cases "Validate ul ms files")
  case (Inl e)
  then show ?thesis by (simp add: Apply_def)
next
  case (Inr u)
  then show ?thesis using Apply_valid [of ul ms files] by simp
qed

definition example_files :: "string \<rightharpoonup> bytes" where
  "example_files = [''src/a.cpp'' \<mapsto> ''int f(){return 1;}'', ''main.cpp'' \<mapsto> ''int main(){}'']"

definition example_mutations :: "Mutation list" where
  "example_mutations =
     [\<lparr>Path = ''src/a.cpp'', Start = 15, Before = ''1'', After = ''22''\<rparr>,
      \<lparr>Path = ''src/a.cpp'', Start = 4, Before = ''f'', After = []\<rparr>]"

lemma example_valid: "Validate (\<lambda>s. s) example_mutations example_files = Inr ()"
  by code_simp

theorem Validate_iff_witness:
  "Validate (\<lambda>s. s) example_mutations example_files = Inr ()
   \<and> apart (example_mutations ! 0) (example_mutations ! 1)"
  using example_valid Validate_iff [of "\<lambda>s. s" example_mutations example_files]
  by (auto simp: example_mutations_def)

text \<open>Going over a replaced text with the inverse mutations.\<close>

lemma patch_inverse:
  assumes "ascending pos ms c" and "pos \<le> length c"
    and "\<And>m. m \<in> set ms \<Longrightarrow> take (length (Before m)) (drop (nat (Start m)) c) = Before m"
    and "0 \<le> int pos + shift"
  shows "patch (nat (int pos + shift)) (inverse_mutations shift ms) (patch pos ms (drop pos c)) = drop pos c"
  using assms
proof (induction ms arbitrary: pos shift)
  case Nil
  then show ?case by simp
next
  case (Cons m ms)
  have "0 \<le> Start m" using Cons.prems(1) by (simp add: ascending_Cons)
  then obtain a n where a: "Start m = int a" and n: "mutation_end m = int n"
    by (metis mutation_end_def nonneg_int_cases of_nat_add)
  have pos: "pos \<le> a" "n = a + length (Before m)" "n \<le> length c" and asc: "ascending n ms c"
    using Cons.prems(1) a n by (auto simp: ascending_Cons mutation_end_def)
  obtain q where q: "int pos + shift = int q" using Cons.prems(4) by (metis nonneg_int_cases)
  let ?shift = "shift + int (length (After m)) - int (length (Before m))"
  have q': "int n + ?shift = int (q + (a - pos) + length (After m))"
    using q pos by simp
  have "patch (nat (int n + ?shift)) (inverse_mutations ?shift ms) (patch n ms (drop n c)) = drop n c"
    by (rule Cons.IH [OF asc pos(3)]) (simp_all only: q' Cons.prems(3) list.set_intros of_nat_0_le_iff)
  then have IH: "patch (q + (a - pos) + length (After m)) (inverse_mutations ?shift ms) (patch n ms (drop n c))
      = drop n c"
    by (simp only: q' nat_int)
  have "drop pos c = take (a - pos) (drop pos c) @ drop a c"
    using pos by (metis append_take_drop_id drop_drop le_add_diff_inverse2)
  also have "drop a c = Before m @ drop n c"
    using Cons.prems(3) [of m] a pos by (metis add.commute append_take_drop_id drop_drop list.set_intros(1) nat_int)
  finally have split: "drop pos c = take (a - pos) (drop pos c) @ Before m @ drop n c" .
  let ?m = "\<lparr>Path = Path m, Start = int a + shift, Before = After m, After = Before m\<rparr>"
  have start: "nat (int a + shift) = q + (a - pos)"
    and stop: "nat (mutation_end ?m) = q + (a - pos) + length (After m)"
    using q pos by (simp_all add: mutation_end_def a)
  show ?case
    using IH pos split n by (simp add: q a nat_int_add start stop)
qed

text \<open>
  C40: what \<open>Apply\<close> does can be undone: the one-pass replacement with the inverse mutations gives
  back the contents of every file.  Nothing of a project is lost when it is mutated.
\<close>

theorem Apply_reversible:
  assumes "Apply ul ms files = Some (Inr r)"
  shows "map_option (patch 0 (inverse_mutations 0 (at_path p (slice_stable by_place ms)))) (r p) = files p"
proof (cases "files p")
  case None
  then show ?thesis
    using assms Apply_valid [of ul ms files]
    by (cases "Validate ul ms files") (auto simp: Apply_def)
next
  case (Some c)
  let ?ms = "at_path p (slice_stable by_place ms)"
  have valid: "Validate ul ms files = Inr ()"
    using assms by (cases "Validate ul ms files") (auto simp: Apply_def)
  then have "r p = Some (patch 0 ?ms c)"
    using Some assms Apply_valid [OF valid] by auto
  moreover have "take (length (Before m)) (drop (nat (Start m)) c) = Before m" if "m \<in> set ?ms" for m
    using valid that Some by (auto simp: Validate_ok_iff list_all_iff acceptable_def bad_fragment_def)
  then have "patch 0 (inverse_mutations 0 ?ms) (patch 0 ?ms c) = c"
    using patch_inverse [OF valid_ascending [OF valid Some], of 0] by simp
  ultimately show ?thesis using Some by simp
qed

theorem Apply_reversible_witness:
  "\<exists>r. Apply (\<lambda>s. s) example_mutations example_files = Some (Inr r)
     \<and> map_option (patch 0 (inverse_mutations 0 (at_path ''src/a.cpp'' (slice_stable by_place example_mutations))))
         (r ''src/a.cpp'') = Some ''int f(){return 1;}''"
  using Apply_valid [OF example_valid] Apply_reversible [OF Apply_valid [OF example_valid], of "''src/a.cpp''"]
  by (simp add: example_files_def)

text \<open>Lowering the case of ASCII text neither makes nor removes a separator.\<close>

lemma lower_char_slash [simp]: "lower_char c = CHR ''/'' \<longleftrightarrow> c = CHR ''/''"
proof (cases "65 \<le> ord_of c \<and> ord_of c \<le> 90")
  case True
  then have "ord_of (lower_char c) = ord_of c + 32" by (simp add: lower_char_def)
  then have "ord_of (lower_char c) \<noteq> ord_of (CHR ''/'')" "ord_of c \<noteq> ord_of (CHR ''/'')"
    using True by simp_all
  then show ?thesis by auto
next
  case False
  then show ?thesis by (auto simp: lower_char_def)
qed

lemma split_byte_lower: "split_byte (CHR ''/'') (map lower_char s) = map (map lower_char) (split_byte (CHR ''/'') s)"
  by (induction s) (auto split: list.splits)

lemma ascii_ext: "ascii s \<Longrightarrow> ascii (ext s)"
proof -
  assume "ascii s"
  have "set (last_element s) \<subseteq> set s"
    by (induction s) (auto simp: last_element_def split: list.splits)
  then have "set (ext s) \<subseteq> set s"
    by (auto simp: ext_def split: option.splits dest: in_set_dropD)
  with \<open>ascii s\<close> show ?thesis by (auto simp: ascii_def list_all_iff)
qed

text \<open>
  an editable path is a relative path without \<open>.\<close>, \<open>..\<close>, empty elements, backslashes or NUL
  bytes, so it names a file inside the project whatever directory the project is unpacked into.
  None of its elements is hidden, a test or a dependency or build directory in any
  capitalisation, and its extension is one of C and C++.
\<close>

theorem Editable_safe:
  assumes "Editable ul v"
  shows "safe_elements v \<and> clean v = v \<and> CHR 0x5C \<notin> set v \<and> CHR 0x00 \<notin> set v
    \<and> (ascii v \<longrightarrow> list_all (\<lambda>e. editable_part (map lower_char e)) (split_byte (CHR ''/'') v)
                  \<and> map lower_char (ext v) \<in> set source_extensions)"
proof -
  have clean: "v = clean v" "\<not> has_prefix v ''/''" "\<not> has_prefix v ''../''"
    and bytes: "\<not> contains_any v [CHR 0x5C, CHR 0x00]"
    and parts: "list_all editable_part (split_byte (CHR ''/'') (to_lower ul v))"
    and ext: "to_lower ul (ext v) \<in> set source_extensions"
    using assms by (auto simp: Editable_def split: if_splits)
  have "v \<noteq> ''.''" "v \<noteq> ''..''"
    using parts by (auto simp: to_lower_def ascii_def lower_char_def editable_part_def has_prefix_def)
  with clean have "safe_elements v" by (intro clean_relative_safe)
  moreover have "CHR 0x5C \<notin> set v \<and> CHR 0x00 \<notin> set v"
    using bytes by (auto simp: contains_any_def list_ex_iff)
  moreover have "list_all (\<lambda>e. editable_part (map lower_char e)) (split_byte (CHR ''/'') v)" if "ascii v"
    using parts that by (simp add: to_lower_def split_byte_lower list.pred_map comp_def)
  moreover have "map lower_char (ext v) \<in> set source_extensions" if "ascii v"
    using ext ascii_ext [OF that] by (simp add: to_lower_def)
  ultimately show ?thesis using clean(1) by simp
qed

theorem Editable_safe_witness:
  "Editable (\<lambda>s. s) ''Src/Main.CPP'' \<and> safe_elements ''Src/Main.CPP'' \<and> \<not> Editable (\<lambda>s. s) ''src/MyTests/a.cpp''"
  using Editable_safe [of "\<lambda>s. s" "''Src/Main.CPP''"] by code_simp

text \<open>
  an answer is accepted exactly when it is small, decodes to at most one hundred entries and
  every entry replaces an existing editable file by valid UTF-8 text of bounded size; the
  accepted edits are the decoded ones.
\<close>

theorem DecodeEdits_iff:
  "DecodeEdits unmarshal ul answer files = Inr edits \<longleftrightarrow>
     length answer \<le> 1048576 \<and> unmarshal answer = Some (Some edits) \<and> length edits \<le> 100
     \<and> (\<forall>(name, content)\<in>set edits.
          files name \<noteq> None \<and> Editable ul name \<and> utf8_valid content \<and> length content \<le> 1048576)"
proof -
  have "edits_scan ul files es = Inr () \<longleftrightarrow>
      (\<forall>(name, content)\<in>set es.
          files name \<noteq> None \<and> Editable ul name \<and> utf8_valid content \<and> length content \<le> 1048576)" for es
    by (induction es) (auto split: if_splits)
  then show ?thesis
    by (auto simp: DecodeEdits_def split: option.splits)
qed

theorem DecodeEdits_iff_witness:
  "DecodeEdits (\<lambda>_. Some (Some [(''main.cpp'', ''int main(){return 0;}'')])) (\<lambda>s. s) ''{...}'' example_files
     = Inr [(''main.cpp'', ''int main(){return 0;}'')]"
proof -
  have "Editable (\<lambda>s. s) ''main.cpp''" "utf8_valid ''int main(){return 0;}''" by code_simp+
  then show ?thesis unfolding DecodeEdits_iff by (simp add: example_files_def)
qed

end
