(* ===== verification/Results.thy ===== *)
theory Results
  imports Complex_Main Go_Crypto
begin

text \<open>
  What a runner reports with a finished job, and the validation of it: \<open>timings.go\<close> and
  \<open>reference.go\<close> of \<open>infrastructure/postgres\<close>.  A \<open>float64\<close> is one of the special values or a
  rational number; only comparisons are made with it.  A Go \<open>time.Time\<close> is its distance from the
  Unix epoch in nanoseconds.
\<close>

text \<open>JSON values as \<open>encoding/json\<close> decodes them into \<open>any\<close>; numbers keep their text.\<close>

datatype json =
  JNull | JBool bool | JNumber string | JString string | JArray "json list" | JObject "(string \<times> json) list"

datatype float64 = NaN | PosInf | NegInf | Finite rat

record JobTimings =
  QueueMS :: float64
  DownloadMS :: float64
  MaterializeMS :: float64
  ContainerMS :: float64
  ConfigureMS :: float64
  CompileMS :: "float64 option"
  LinkMS :: "float64 option"
  BuildMS :: float64
  TestMS :: float64
  SnapshotMS :: float64
  TotalMS :: float64
  SnapshotHit :: bool
  CompileCommands :: int
  LinkCommands :: int

definition is_nan :: "float64 \<Rightarrow> bool" where
  "is_nan v \<longleftrightarrow> v = NaN"

definition is_inf :: "float64 \<Rightarrow> bool" where
  "is_inf v \<longleftrightarrow> v = PosInf \<or> v = NegInf"

fun float_less :: "float64 \<Rightarrow> float64 \<Rightarrow> bool" where
  "float_less (Finite a) (Finite b) = (a < b)"
| "float_less (Finite a) PosInf = True"
| "float_less NegInf (Finite b) = True"
| "float_less NegInf PosInf = True"
| "float_less _ _ = False"

definition timings_limit :: float64 where
  "timings_limit = Finite (7 * 24 * 3600 * 1000)"

definition optional_value :: "float64 option \<Rightarrow> float64 list" where
  "optional_value v = (case v of None \<Rightarrow> [] | Some x \<Rightarrow> [x])"

definition JobTimings_Validate :: "JobTimings \<Rightarrow> unit result" where
  "JobTimings_Validate t =
     (if list_ex (\<lambda>v. is_nan v \<or> is_inf v \<or> float_less v (Finite 0)) [QueueMS t, TotalMS t]
      then Inl (ErrText ''invalid queue/total timing'')
      else if list_ex (\<lambda>v. is_nan v \<or> is_inf v \<or> float_less v (Finite 0) \<or> float_less timings_limit v)
        ([DownloadMS t, MaterializeMS t, ContainerMS t, ConfigureMS t, BuildMS t, TestMS t, SnapshotMS t]
           @ optional_value (CompileMS t) @ optional_value (LinkMS t))
      then Inl (ErrText ''invalid job timing'')
      else if CompileCommands t < 0 \<or> LinkCommands t < 0 \<or> CompileCommands t > 1000000
        \<or> LinkCommands t > 1000000
      then Inl (ErrText ''invalid command count'')
      else Inr ())"

record ReferenceResult =
  ProjectSHA256 :: string
  ImageID :: string
  PolicySHA256 :: string
  VerifiedAt :: int

definition zero_time :: int where
  "zero_time = - 62135596800 * 1000000000"

definition digest_ok :: "string \<Rightarrow> bool" where
  "digest_ok v \<longleftrightarrow> (case hex_decode v of None \<Rightarrow> False | Some decoded \<Rightarrow> length decoded = 32)"

definition ReferenceResult_Validate :: "int \<Rightarrow> ReferenceResult \<Rightarrow> unit result" where
  "ReferenceResult_Validate now v =
     (if list_ex (\<lambda>s. \<not> digest_ok s) [ProjectSHA256 v, PolicySHA256 v]
      then Inl (ErrText ''invalid reference digest'')
      else if length (ImageID v) \<noteq> 71 \<or> take 7 (ImageID v) \<noteq> ''sha256:''
      then Inl (ErrText ''invalid reference image'')
      else if \<not> digest_ok (drop 7 (ImageID v)) \<or> VerifiedAt v = zero_time
        \<or> VerifiedAt v > now + 60 * 1000000000
      then Inl (ErrText ''invalid reference proof'')
      else Inr ())"

record HideValidation =
  Valid :: bool
  Message :: string
  Baseline :: json
  Mutated :: json
  Restored :: json

lemma float_in_range:
  "\<not> (is_nan v \<or> is_inf v \<or> float_less v (Finite 0) \<or> float_less timings_limit v) \<longleftrightarrow>
     (\<exists>r. v = Finite r \<and> 0 \<le> r \<and> r \<le> 7 * 24 * 3600 * 1000)"
  by (cases v) (auto simp: is_nan_def is_inf_def timings_limit_def)

lemma float_nonnegative:
  "\<not> (is_nan v \<or> is_inf v \<or> float_less v (Finite 0)) \<longleftrightarrow> (\<exists>r. v = Finite r \<and> 0 \<le> r)"
  by (cases v) (auto simp: is_nan_def is_inf_def)

text \<open>
  timings that pass the validation are finite and not negative throughout, every phase but
  queueing and the total is at most a week, an unknown compile or link time is allowed, and the
  command counts lie between zero and a million; nothing else is rejected.
\<close>

theorem JobTimings_Validate_iff:
  "JobTimings_Validate t = Inr () \<longleftrightarrow>
     (\<exists>q a. QueueMS t = Finite q \<and> TotalMS t = Finite a \<and> 0 \<le> q \<and> 0 \<le> a)
   \<and> (\<forall>v \<in> {DownloadMS t, MaterializeMS t, ContainerMS t, ConfigureMS t, BuildMS t, TestMS t, SnapshotMS t}
            \<union> set_option (CompileMS t) \<union> set_option (LinkMS t).
        \<exists>r. v = Finite r \<and> 0 \<le> r \<and> r \<le> 604800000)
   \<and> CompileCommands t \<in> {0..1000000} \<and> LinkCommands t \<in> {0..1000000}"
proof -
  have two: "\<not> list_ex (\<lambda>v. is_nan v \<or> is_inf v \<or> float_less v (Finite 0)) [QueueMS t, TotalMS t] \<longleftrightarrow>
      (\<exists>q a. QueueMS t = Finite q \<and> TotalMS t = Finite a \<and> 0 \<le> q \<and> 0 \<le> a)"
    using float_nonnegative by auto
  have week: "\<not> list_ex (\<lambda>v. is_nan v \<or> is_inf v \<or> float_less v (Finite 0) \<or> float_less timings_limit v) vs \<longleftrightarrow>
      (\<forall>v\<in>set vs. \<exists>r. v = Finite r \<and> 0 \<le> r \<and> r \<le> 604800000)" for vs
    using float_in_range by (auto simp: list_ex_iff)
  have opt: "set (optional_value v) = set_option v" for v
    by (auto simp: optional_value_def split: option.splits)
  have guards: "(if a then Inl x else if b then Inl y else if c then Inl z else Inr ()) = (Inr () :: unit result)
      \<longleftrightarrow> \<not> a \<and> \<not> b \<and> \<not> c" for a b c x y z
    by simp
  show ?thesis
    unfolding JobTimings_Validate_def guards two week by (auto simp: opt)
qed

definition example_timings :: JobTimings where
  "example_timings =
     \<lparr>QueueMS = Finite 10, DownloadMS = Finite 1, MaterializeMS = Finite 1, ContainerMS = Finite 1,
      ConfigureMS = Finite 1, CompileMS = None, LinkMS = Some (Finite 5), BuildMS = Finite 2,
      TestMS = Finite 3, SnapshotMS = Finite 0, TotalMS = Finite 20, SnapshotHit = False,
      CompileCommands = 4, LinkCommands = 1\<rparr>"

theorem JobTimings_Validate_iff_witness: "JobTimings_Validate example_timings = Inr ()"
  unfolding JobTimings_Validate_iff by (simp add: example_timings_def)

text \<open>
  a reference result that passes the validation carries three digests of 32 bytes in
  hexadecimal, the image one with the prefix \<open>sha256:\<close>, and a verification time that is set and
  at most a minute in the future.
\<close>

theorem ReferenceResult_Validate_ok:
  "ReferenceResult_Validate now v = Inr () \<longleftrightarrow>
     (\<exists>p q i. hex_decode (ProjectSHA256 v) = Some p \<and> length p = 32
            \<and> hex_decode (PolicySHA256 v) = Some q \<and> length q = 32
            \<and> ImageID v = ''sha256:'' @ i \<and> length i = 64 \<and> digest_ok i)
   \<and> VerifiedAt v \<noteq> zero_time \<and> VerifiedAt v \<le> now + 60000000000"
proof -
  have d: "digest_ok s \<longleftrightarrow> (\<exists>b. hex_decode s = Some b \<and> length b = 32)" for s
    by (auto simp: digest_ok_def split: option.splits)
  have image: "length s = 71 \<and> take 7 s = ''sha256:'' \<longleftrightarrow> (\<exists>i. s = ''sha256:'' @ i \<and> length i = 64)" for s :: string
  proof
    assume a: "length s = 71 \<and> take 7 s = ''sha256:''"
    then have "s = ''sha256:'' @ drop 7 s" by (metis append_take_drop_id)
    with a show "\<exists>i. s = ''sha256:'' @ i \<and> length i = 64" by (intro exI [of _ "drop 7 s"]) simp
  qed auto
  show ?thesis
    unfolding ReferenceResult_Validate_def using image [of "ImageID v"]
    by (auto simp: d split: if_splits)
qed

end
