(* ===== verification/Schema.thy ===== *)
theory Schema
  imports Domain Hide_Seek Results
begin

text \<open>
  The tables of \<open>infrastructure/postgres/migrations\<close> that the defense and runner-queue code works
  on: a record per row type with the columns the code reads or writes, a state record with one
  row list per table, and the statements \<open>insert\<close> and \<open>update\<close> on each table with everything the
  database enforces on them, namely the transition triggers, the check constraints, the unique
  indexes and the foreign keys.  A statement that violates one of these fails, which is \<open>None\<close>.

  Row fields carry a prefix for their table.  Nullable columns are options.  Every reading of the
  database clock inside one statement is the same instant.
\<close>

section \<open>Rows\<close>

datatype user_role = Student | Teacher | Admin

datatype attempt_outcome = OPending | OPassed | OFailed | OError

datatype runner_status = RunnerActive | RunnerDraining | RunnerOffline | RunnerDisabled

datatype job_kind = PrepareDefense | CheckAttempt

record user_row =
  u_id :: uuid
  u_status :: user_status
  u_role :: "user_role option"

record student_record_row =
  sr_id :: uuid
  sr_group_id :: uuid
  sr_user_id :: "uuid option"
  sr_login :: string

record group_teacher_row =
  gt_group_id :: uuid
  gt_teacher_user_id :: uuid

record lab_row =
  lab_id :: uuid
  lab_code :: string
  lab_name :: string

record submission_row =
  sv_id :: uuid
  sv_student_record_id :: uuid
  sv_lab_id :: uuid
  sv_object_key :: string

record defense_row =
  d_id :: uuid
  d_session_id :: uuid
  d_submission_id :: uuid
  d_status :: defense_status
  d_seed :: int
  d_time_limit :: int
  d_started_at :: "time option"
  d_deadline_at :: "time option"
  d_finished_at :: "time option"
  d_draft :: "string option"
  d_draft_version :: int
  d_selected_id :: "uuid option"
  d_terminal_reason :: "string option"
  d_created_at :: time
  d_updated_at :: time
  d_version :: int
  d_start_key :: "uuid option"
  d_suggested_rank :: "int option"
  d_selection_mode :: "string option"
  d_wheel_size :: "int option"
  d_entity_mode :: "string option"
  d_mode :: string
  d_hide_mutations :: "Mutation list"
  d_hide_report :: "HideValidation option"
  d_hide_error :: "string option"
  d_timings :: "JobTimings option"

record candidate_row =
  c_id :: uuid
  c_defense_id :: uuid
  c_rank :: int
  c_function_name :: string
  c_file_path :: string
  c_signature :: string
  c_signature_begin :: int
  c_body_start :: int
  c_body_end :: int
  c_start_line :: int
  c_end_line :: int
  c_line_count :: int
  c_source_sha256 :: bytes
  c_body_sha256 :: bytes
  c_is_selected :: bool
  c_masked_source :: "string option"
  c_entity_type :: string
  c_is_test_file :: bool
  c_wheel_rank :: "int option"

record attempt_row =
  a_id :: uuid
  a_defense_id :: uuid
  a_no :: int
  a_key :: uuid
  a_answer :: string
  a_answer_sha256 :: bytes
  a_accepted_at :: time
  a_outcome :: attempt_outcome
  a_configure :: "json option"
  a_build :: "json option"
  a_ctest :: "json option"
  a_finished_at :: "time option"
  a_reference :: "ReferenceResult option"
  a_timings :: "JobTimings option"

record runner_row =
  r_id :: uuid
  r_name :: string
  r_status :: runner_status
  r_slots :: int
  r_agent_version :: string
  r_credential_hash :: bytes
  r_heartbeat_at :: "time option"
  r_disabled_at :: "time option"

record job_row =
  j_id :: uuid
  j_kind :: job_kind
  j_defense_id :: uuid
  j_attempt_id :: "uuid option"
  j_state :: job_state
  j_priority :: int
  j_available_at :: time
  j_retry_count :: int
  j_max_retries :: int
  j_owner :: "uuid option"
  j_token_hash :: "bytes option"
  j_expires_at :: "time option"
  j_timeout :: int
  j_created_at :: time
  j_updated_at :: time
  j_version :: int

record lease_row =
  l_id :: uuid
  l_job_id :: uuid
  l_runner_id :: uuid
  l_no :: int
  l_fingerprint :: string
  l_leased_at :: time
  l_expires_at :: time
  l_released_at :: "time option"
  l_release_reason :: "string option"

record db =
  users :: "user_row list"
  student_records :: "student_record_row list"
  group_teachers :: "group_teacher_row list"
  labs :: "lab_row list"
  submission_versions :: "submission_row list"
  defenses :: "defense_row list"
  candidates :: "candidate_row list"
  attempts :: "attempt_row list"
  runners :: "runner_row list"
  jobs :: "job_row list"
  leases :: "lease_row list"

section \<open>Constraints\<close>

definition open_status :: "defense_status \<Rightarrow> bool" where
  "open_status s \<longleftrightarrow> s = DReady \<or> s = DPreparing \<or> s = DActive"

definition finished_status :: "defense_status \<Rightarrow> bool" where
  "finished_status s \<longleftrightarrow> s = DPassed \<or> s = DFailed \<or> s = DExpired \<or> s = DCancelled"

text \<open>
  A check constraint passes when it is not false.  The constraint on the deadline compares nulls
  only when exactly one of the two columns is set, and then it passes.
\<close>

definition deadline_check :: "defense_row \<Rightarrow> bool" where
  "deadline_check d \<longleftrightarrow>
     (case (d_started_at d, d_deadline_at d) of
        (Some s, Some t) \<Rightarrow> t = s + seconds (d_time_limit d)
      | _ \<Rightarrow> True)"

definition defense_check :: "defense_row \<Rightarrow> bool" where
  "defense_check d \<longleftrightarrow>
     0 \<le> d_seed d \<and> d_seed d \<le> 18446744073709551615
   \<and> d_time_limit d > 0 \<and> d_draft_version d \<ge> 1 \<and> d_version d \<ge> 1
   \<and> finished_status (d_status d) = (d_finished_at d \<noteq> None)
   \<and> deadline_check d
   \<and> (case d_suggested_rank d of None \<Rightarrow> True | Some r \<Rightarrow> r > 0)
   \<and> (case d_selection_mode d of None \<Rightarrow> True | Some m \<Rightarrow> m = ''automatic'' \<or> m = ''manual'')
   \<and> (case d_wheel_size d of None \<Rightarrow> True | Some n \<Rightarrow> 2 \<le> n \<and> n \<le> 12)
   \<and> (case d_entity_mode d of None \<Rightarrow> True
      | Some m \<Rightarrow> m = ''functions_only'' \<or> m = ''functions_classes_structs'')
   \<and> (d_mode d = ''restore'' \<or> d_mode d = ''hide_seek'')"

text \<open>The regular expression of the path constraint: no element is \<open>.\<close> or \<open>..\<close>.\<close>

definition candidate_check :: "candidate_row \<Rightarrow> bool" where
  "candidate_check c \<longleftrightarrow>
     c_rank c > 0 \<and> rune_count (c_signature c) \<le> 16384
   \<and> c_file_path c \<noteq> '''' \<and> \<not> has_prefix (c_file_path c) ''/''
   \<and> list_all (\<lambda>e. e \<noteq> ''.'' \<and> e \<noteq> ''..'') (split_byte (CHR ''/'') (c_file_path c))
   \<and> c_body_start c \<ge> 0 \<and> c_body_end c > c_body_start c
   \<and> c_start_line c > 0 \<and> c_end_line c \<ge> c_start_line c \<and> c_line_count c > 0
   \<and> length (c_source_sha256 c) = 32 \<and> length (c_body_sha256 c) = 32
   \<and> 0 \<le> c_signature_begin c \<and> c_signature_begin c \<le> c_body_start c
   \<and> (case c_masked_source c of None \<Rightarrow> True | Some s \<Rightarrow> s \<noteq> '''' \<and> length s \<le> 4194304)
   \<and> (c_entity_type c = ''function'' \<or> c_entity_type c = ''class'' \<or> c_entity_type c = ''struct'')
   \<and> (case c_wheel_rank c of None \<Rightarrow> True | Some r \<Rightarrow> 1 \<le> r \<and> r \<le> 12)"

definition attempt_check :: "attempt_row \<Rightarrow> bool" where
  "attempt_check a \<longleftrightarrow>
     a_no a > 0 \<and> length (a_answer_sha256 a) = 32
   \<and> (a_outcome a = OPending) = (a_finished_at a = None)
   \<and> (a_reference a = None
      \<or> a_outcome a = OPassed \<and> a_configure a = None \<and> a_build a = None \<and> a_ctest a = None)"

definition runner_check :: "runner_row \<Rightarrow> bool" where
  "runner_check r \<longleftrightarrow>
     1 \<le> rune_count (r_name r) \<and> rune_count (r_name r) \<le> 100 \<and> 1 \<le> r_slots r \<and> r_slots r \<le> 64
   \<and> length (r_credential_hash r) = 32 \<and> (r_status r = RunnerDisabled) = (r_disabled_at r \<noteq> None)"

definition job_check :: "job_row \<Rightarrow> bool" where
  "job_check j \<longleftrightarrow>
     j_retry_count j \<ge> 0 \<and> j_max_retries j \<ge> 0 \<and> j_timeout j > 0 \<and> j_version j \<ge> 1
   \<and> (case j_token_hash j of None \<Rightarrow> True | Some h \<Rightarrow> length h = 32)
   \<and> (j_kind j = PrepareDefense) = (j_attempt_id j = None)
   \<and> (j_owner j = None) = (j_token_hash j = None)
   \<and> (j_owner j = None) = (j_expires_at j = None)"

definition lease_check :: "lease_row \<Rightarrow> bool" where
  "lease_check l \<longleftrightarrow>
     l_no l > 0 \<and> l_expires_at l > l_leased_at l \<and> (l_released_at l = None) = (l_release_reason l = None)"

text \<open>Primary keys, unique constraints and unique indexes.\<close>

definition defenses_unique :: "defense_row list \<Rightarrow> bool" where
  "defenses_unique ds \<longleftrightarrow>
     unique_on (\<lambda>_. True) d_id ds \<and> unique_on (\<lambda>_. True) d_session_id ds
   \<and> unique_on (\<lambda>d. open_status (d_status d)) d_submission_id ds
   \<and> unique_on (\<lambda>d. d_start_key d \<noteq> None) (\<lambda>d. (d_submission_id d, d_start_key d)) ds"

definition candidates_unique :: "candidate_row list \<Rightarrow> bool" where
  "candidates_unique cs \<longleftrightarrow>
     unique_on (\<lambda>_. True) c_id cs \<and> unique_on (\<lambda>_. True) (\<lambda>c. (c_defense_id c, c_rank c)) cs
   \<and> unique_on c_is_selected c_defense_id cs
   \<and> unique_on (\<lambda>c. c_wheel_rank c \<noteq> None) (\<lambda>c. (c_defense_id c, c_wheel_rank c)) cs"

definition attempts_unique :: "attempt_row list \<Rightarrow> bool" where
  "attempts_unique xs \<longleftrightarrow>
     unique_on (\<lambda>_. True) a_id xs \<and> unique_on (\<lambda>_. True) (\<lambda>a. (a_defense_id a, a_no a)) xs
   \<and> unique_on (\<lambda>_. True) (\<lambda>a. (a_defense_id a, a_key a)) xs
   \<and> unique_on (\<lambda>a. a_outcome a = OPending) a_defense_id xs"

definition runners_unique :: "runner_row list \<Rightarrow> bool" where
  "runners_unique rs \<longleftrightarrow>
     unique_on (\<lambda>_. True) r_id rs \<and> unique_on (\<lambda>_. True) r_name rs
   \<and> unique_on (\<lambda>_. True) r_credential_hash rs"

definition jobs_unique :: "job_row list \<Rightarrow> bool" where
  "jobs_unique js \<longleftrightarrow>
     unique_on (\<lambda>_. True) j_id js \<and> unique_on (\<lambda>j. j_attempt_id j \<noteq> None) j_attempt_id js"

definition leases_unique :: "lease_row list \<Rightarrow> bool" where
  "leases_unique ls \<longleftrightarrow>
     unique_on (\<lambda>_. True) l_id ls \<and> unique_on (\<lambda>_. True) (\<lambda>l. (l_job_id l, l_no l)) ls"

section \<open>Statements\<close>

text \<open>
  \<open>checked check unique rows\<close> is the end of a statement on a table: it goes through when every row
  it wrote passes its checks and the unique indexes hold.
\<close>

definition checked :: "('r list \<Rightarrow> bool) \<Rightarrow> 'r list option \<Rightarrow> 'r list option" where
  "checked unique rows =
     (case rows of None \<Rightarrow> None | Some rs \<Rightarrow> if unique rs then Some rs else None)"

definition row_check :: "('r \<Rightarrow> bool) \<Rightarrow> 'r \<Rightarrow> 'r option" where
  "row_check check r = (if check r then Some r else None)"

text \<open>
  The triggers \<open>defenses_state_transition\<close> and \<open>runner_jobs_state_transition\<close>, which fire before
  an update that assigns the status column: an unchanged status passes, an allowed change counts
  the version up, any other change raises.
\<close>

definition defense_trigger :: "time \<Rightarrow> defense_row \<Rightarrow> defense_row \<Rightarrow> defense_row option" where
  "defense_trigger now old new =
     (if d_status new = d_status old then Some new
      else if \<not> validate_defense_transition (d_status old) (d_status new) then None
      else Some (new\<lparr>d_version := d_version old + 1, d_updated_at := now\<rparr>))"

definition job_trigger :: "time \<Rightarrow> job_row \<Rightarrow> job_row \<Rightarrow> job_row option" where
  "job_trigger now old new =
     (if j_state new = j_state old then Some new
      else if \<not> validate_runner_job_transition (j_state old) (j_state new) then None
      else Some (new\<lparr>j_version := j_version old + 1, j_updated_at := now\<rparr>))"

text \<open>A foreign key: the referenced row exists.\<close>

definition exists_id :: "('r \<Rightarrow> uuid) \<Rightarrow> uuid \<Rightarrow> 'r list \<Rightarrow> bool" where
  "exists_id k x rs \<longleftrightarrow> list_ex (\<lambda>r. k r = x) rs"

definition references :: "('r \<Rightarrow> uuid) \<Rightarrow> uuid option \<Rightarrow> 'r list \<Rightarrow> bool" where
  "references k x rs \<longleftrightarrow> (case x of None \<Rightarrow> True | Some i \<Rightarrow> exists_id k i rs)"

text \<open>\<open>update ... set ... where ...\<close> on each table.\<close>

definition update_defenses ::
  "time \<Rightarrow> (defense_row \<Rightarrow> bool) \<Rightarrow> (defense_row \<Rightarrow> defense_row) \<Rightarrow> db \<Rightarrow> db option" where
  "update_defenses now c f s =
     map_option (\<lambda>ds. s\<lparr>defenses := ds\<rparr>)
       (checked defenses_unique
         (exec_update c
           (\<lambda>old. Option.bind (defense_trigger now old (f old))
              (row_check (\<lambda>d. defense_check d \<and> references c_id (d_selected_id d) (candidates s))))
           (defenses s)))"

definition update_candidates ::
  "(candidate_row \<Rightarrow> bool) \<Rightarrow> (candidate_row \<Rightarrow> candidate_row) \<Rightarrow> db \<Rightarrow> db option" where
  "update_candidates c f s =
     map_option (\<lambda>cs. s\<lparr>candidates := cs\<rparr>)
       (checked candidates_unique (exec_update c (\<lambda>r. row_check candidate_check (f r)) (candidates s)))"

definition update_attempts ::
  "(attempt_row \<Rightarrow> bool) \<Rightarrow> (attempt_row \<Rightarrow> attempt_row) \<Rightarrow> db \<Rightarrow> db option" where
  "update_attempts c f s =
     map_option (\<lambda>xs. s\<lparr>attempts := xs\<rparr>)
       (checked attempts_unique (exec_update c (\<lambda>r. row_check attempt_check (f r)) (attempts s)))"

definition update_jobs ::
  "time \<Rightarrow> (job_row \<Rightarrow> bool) \<Rightarrow> (job_row \<Rightarrow> job_row) \<Rightarrow> db \<Rightarrow> db option" where
  "update_jobs now c f s =
     map_option (\<lambda>js. s\<lparr>jobs := js\<rparr>)
       (checked jobs_unique
         (exec_update c
           (\<lambda>old. Option.bind (job_trigger now old (f old))
              (row_check (\<lambda>j. job_check j \<and> references r_id (j_owner j) (runners s))))
           (jobs s)))"

definition update_leases ::
  "(lease_row \<Rightarrow> bool) \<Rightarrow> (lease_row \<Rightarrow> lease_row) \<Rightarrow> db \<Rightarrow> db option" where
  "update_leases c f s =
     map_option (\<lambda>ls. s\<lparr>leases := ls\<rparr>)
       (checked leases_unique (exec_update c (\<lambda>r. row_check lease_check (f r)) (leases s)))"

text \<open>\<open>insert into\<close>: the new row passes its checks, its references exist, the indexes hold.\<close>

definition insert_defense :: "defense_row \<Rightarrow> db \<Rightarrow> db option" where
  "insert_defense d s =
     (if defense_check d \<and> exists_id sv_id (d_submission_id d) (submission_versions s)
         \<and> defenses_unique (defenses s @ [d])
      then Some (s\<lparr>defenses := defenses s @ [d]\<rparr>) else None)"

definition insert_candidate :: "candidate_row \<Rightarrow> db \<Rightarrow> db option" where
  "insert_candidate c s =
     (if candidate_check c \<and> exists_id d_id (c_defense_id c) (defenses s)
         \<and> candidates_unique (candidates s @ [c])
      then Some (s\<lparr>candidates := candidates s @ [c]\<rparr>) else None)"

definition insert_attempt :: "attempt_row \<Rightarrow> db \<Rightarrow> db option" where
  "insert_attempt a s =
     (if attempt_check a \<and> exists_id d_id (a_defense_id a) (defenses s)
         \<and> attempts_unique (attempts s @ [a])
      then Some (s\<lparr>attempts := attempts s @ [a]\<rparr>) else None)"

definition insert_job :: "job_row \<Rightarrow> db \<Rightarrow> db option" where
  "insert_job j s =
     (if job_check j \<and> exists_id d_id (j_defense_id j) (defenses s)
         \<and> references a_id (j_attempt_id j) (attempts s)
         \<and> jobs_unique (jobs s @ [j])
      then Some (s\<lparr>jobs := jobs s @ [j]\<rparr>) else None)"

definition insert_lease :: "lease_row \<Rightarrow> db \<Rightarrow> db option" where
  "insert_lease l s =
     (if lease_check l \<and> exists_id j_id (l_job_id l) (jobs s) \<and> exists_id r_id (l_runner_id l) (runners s)
         \<and> leases_unique (leases s @ [l])
      then Some (s\<lparr>leases := leases s @ [l]\<rparr>) else None)"

text \<open>
  \<open>insert into runners ... on conflict(id) do update\<close>: a known runner keeps its name and
  credential.  The runner rows are the only ones with their own update form.
\<close>

definition upsert_runner :: "runner_row \<Rightarrow> db \<Rightarrow> db option" where
  "upsert_runner r s =
     map_option (\<lambda>rs. s\<lparr>runners := rs\<rparr>)
       (checked runners_unique
         (if exists_id r_id (r_id r) (runners s)
          then exec_update (\<lambda>q. r_id q = r_id r)
                 (\<lambda>q. row_check runner_check
                    (q\<lparr>r_status := RunnerActive, r_slots := r_slots r, r_agent_version := r_agent_version r,
                       r_heartbeat_at := r_heartbeat_at r\<rparr>)) (runners s)
          else if runner_check r then Some (runners s @ [r]) else None))"

text \<open>A failed statement of a transaction is an error of the database.\<close>

definition statement :: "'a option \<Rightarrow> 'a result" where
  "statement r = (case r of None \<Rightarrow> Inl ErrDatabase | Some x \<Rightarrow> Inr x)"

lemma statement_simps [simp]:
  "statement None = Inl ErrDatabase"
  "statement (Some x) = Inr x"
  "statement r = Inr x \<longleftrightarrow> r = Some x"
  by (auto simp: statement_def split: option.splits)

section \<open>What a statement does\<close>

text \<open>The row that an update leaves, counting the version up when the status changes.\<close>

definition put_defense :: "time \<Rightarrow> (defense_row \<Rightarrow> defense_row) \<Rightarrow> defense_row \<Rightarrow> defense_row" where
  "put_defense now f d =
     (if d_status (f d) = d_status d then f d
      else (f d)\<lparr>d_version := d_version d + 1, d_updated_at := now\<rparr>)"

definition put_job :: "time \<Rightarrow> (job_row \<Rightarrow> job_row) \<Rightarrow> job_row \<Rightarrow> job_row" where
  "put_job now f j =
     (if j_state (f j) = j_state j then f j
      else (f j)\<lparr>j_version := j_version j + 1, j_updated_at := now\<rparr>)"

definition update_where :: "('r \<Rightarrow> bool) \<Rightarrow> ('r \<Rightarrow> 'r) \<Rightarrow> 'r list \<Rightarrow> 'r list" where
  "update_where c f rs = map (\<lambda>r. if c r then f r else r) rs"

lemma exec_update_Some_iff:
  "exec_update c f rs = Some rs' \<longleftrightarrow>
     (\<forall>r\<in>set rs. c r \<longrightarrow> f r \<noteq> None) \<and> rs' = update_where c (\<lambda>r. the (f r)) rs"
  by (induction rs arbitrary: rs') (auto simp: update_where_def split: option.splits if_splits)

lemma set_update_where: "set (update_where c f rs) = (\<lambda>r. if c r then f r else r) ` set rs"
  by (simp add: update_where_def)

lemma update_where_cong:
  "(\<And>r. r \<in> set rs \<Longrightarrow> c r \<Longrightarrow> f r = g r) \<Longrightarrow> update_where c f rs = update_where c g rs"
  by (simp add: update_where_def)

lemma update_where_none: "(\<And>r. r \<in> set rs \<Longrightarrow> \<not> c r) \<Longrightarrow> update_where c f rs = rs"
  by (induction rs) (auto simp: update_where_def)

lemma checked_Some_iff: "checked unique rows = Some rs \<longleftrightarrow> rows = Some rs \<and> unique rs"
  by (auto simp: checked_def split: option.splits)

lemma checked_update:
  assumes "\<And>r. c r \<Longrightarrow> f r = (if ok r then Some (g r) else None)"
  shows "checked unique (exec_update c f rs) = Some rs' \<longleftrightarrow>
     (\<forall>r\<in>set rs. c r \<longrightarrow> ok r) \<and> unique rs' \<and> rs' = update_where c g rs"
proof -
  have "update_where c (\<lambda>r. the (f r)) rs = update_where c g rs" if "\<forall>r\<in>set rs. c r \<longrightarrow> ok r"
    using that assms by (intro update_where_cong) simp
  then show ?thesis
    using assms by (auto simp: checked_Some_iff exec_update_Some_iff)
qed

lemma update_defenses_iff [table_simps]:
  "update_defenses now c f s = Some s' \<longleftrightarrow>
     (\<forall>d\<in>set (defenses s). c d \<longrightarrow>
        validate_defense_transition (d_status d) (d_status (f d))
        \<and> defense_check (put_defense now f d)
        \<and> references c_id (d_selected_id (f d)) (candidates s))
   \<and> defenses_unique (update_where c (put_defense now f) (defenses s))
   \<and> s' = s\<lparr>defenses := update_where c (put_defense now f) (defenses s)\<rparr>"
proof -
  have "Option.bind (defense_trigger now d (f d))
      (row_check (\<lambda>d. defense_check d \<and> references c_id (d_selected_id d) (candidates s)))
    = (if validate_defense_transition (d_status d) (d_status (f d)) \<and> defense_check (put_defense now f d)
          \<and> references c_id (d_selected_id (f d)) (candidates s)
       then Some (put_defense now f d) else None)" for d
    by (simp add: defense_trigger_def put_defense_def row_check_def defense_guard.guard_refl)
  note checked_update [OF this]
  then show ?thesis by (auto simp: update_defenses_def)
qed

lemma update_jobs_iff [table_simps]:
  "update_jobs now c f s = Some s' \<longleftrightarrow>
     (\<forall>j\<in>set (jobs s). c j \<longrightarrow>
        validate_runner_job_transition (j_state j) (j_state (f j))
        \<and> job_check (put_job now f j)
        \<and> references r_id (j_owner (f j)) (runners s))
   \<and> jobs_unique (update_where c (put_job now f) (jobs s))
   \<and> s' = s\<lparr>jobs := update_where c (put_job now f) (jobs s)\<rparr>"
proof -
  have "Option.bind (job_trigger now j (f j))
      (row_check (\<lambda>j. job_check j \<and> references r_id (j_owner j) (runners s)))
    = (if validate_runner_job_transition (j_state j) (j_state (f j)) \<and> job_check (put_job now f j)
          \<and> references r_id (j_owner (f j)) (runners s)
       then Some (put_job now f j) else None)" for j
    by (simp add: job_trigger_def put_job_def row_check_def job_guard.guard_refl)
  note checked_update [OF this]
  then show ?thesis by (auto simp: update_jobs_def)
qed

lemma update_candidates_iff [table_simps]:
  "update_candidates c f s = Some s' \<longleftrightarrow>
     (\<forall>r\<in>set (candidates s). c r \<longrightarrow> candidate_check (f r))
   \<and> candidates_unique (update_where c f (candidates s))
   \<and> s' = s\<lparr>candidates := update_where c f (candidates s)\<rparr>"
  using checked_update [of c "\<lambda>r. row_check candidate_check (f r)" "\<lambda>r. candidate_check (f r)" f]
  by (auto simp: update_candidates_def row_check_def)

lemma update_attempts_iff [table_simps]:
  "update_attempts c f s = Some s' \<longleftrightarrow>
     (\<forall>r\<in>set (attempts s). c r \<longrightarrow> attempt_check (f r))
   \<and> attempts_unique (update_where c f (attempts s))
   \<and> s' = s\<lparr>attempts := update_where c f (attempts s)\<rparr>"
  using checked_update [of c "\<lambda>r. row_check attempt_check (f r)" "\<lambda>r. attempt_check (f r)" f]
  by (auto simp: update_attempts_def row_check_def)

lemma update_leases_iff [table_simps]:
  "update_leases c f s = Some s' \<longleftrightarrow>
     (\<forall>r\<in>set (leases s). c r \<longrightarrow> lease_check (f r))
   \<and> leases_unique (update_where c f (leases s))
   \<and> s' = s\<lparr>leases := update_where c f (leases s)\<rparr>"
  using checked_update [of c "\<lambda>r. row_check lease_check (f r)" "\<lambda>r. lease_check (f r)" f]
  by (auto simp: update_leases_def row_check_def)

lemma insert_iffs [table_simps]:
  "insert_defense d s = Some s' \<longleftrightarrow>
     defense_check d \<and> exists_id sv_id (d_submission_id d) (submission_versions s)
     \<and> defenses_unique (defenses s @ [d]) \<and> s' = s\<lparr>defenses := defenses s @ [d]\<rparr>"
  "insert_candidate c s = Some s' \<longleftrightarrow>
     candidate_check c \<and> exists_id d_id (c_defense_id c) (defenses s)
     \<and> candidates_unique (candidates s @ [c]) \<and> s' = s\<lparr>candidates := candidates s @ [c]\<rparr>"
  "insert_attempt a s = Some s' \<longleftrightarrow>
     attempt_check a \<and> exists_id d_id (a_defense_id a) (defenses s)
     \<and> attempts_unique (attempts s @ [a]) \<and> s' = s\<lparr>attempts := attempts s @ [a]\<rparr>"
  "insert_job j s = Some s' \<longleftrightarrow>
     job_check j \<and> exists_id d_id (j_defense_id j) (defenses s) \<and> references a_id (j_attempt_id j) (attempts s)
     \<and> jobs_unique (jobs s @ [j]) \<and> s' = s\<lparr>jobs := jobs s @ [j]\<rparr>"
  "insert_lease l s = Some s' \<longleftrightarrow>
     lease_check l \<and> exists_id j_id (l_job_id l) (jobs s) \<and> exists_id r_id (l_runner_id l) (runners s)
     \<and> leases_unique (leases s @ [l]) \<and> s' = s\<lparr>leases := leases s @ [l]\<rparr>"
  by (auto simp: insert_defense_def insert_candidate_def insert_attempt_def insert_job_def insert_lease_def)

lemma exists_id_iff: "exists_id k x rs \<longleftrightarrow> x \<in> k ` set rs"
  by (auto simp: exists_id_def list_ex_iff)

lemma upsert_runner_other_tables:
  assumes "upsert_runner r s = Some s'"
  shows "\<exists>rs. s' = s\<lparr>runners := rs\<rparr> \<and> runners_unique rs \<and> exists_id r_id (r_id r) rs
     \<and> (\<forall>i. exists_id r_id i (runners s) \<longrightarrow> exists_id r_id i rs)"
proof (cases "exists_id r_id (r_id r) (runners s)")
  case True
  then obtain rs where rs: "s' = s\<lparr>runners := rs\<rparr>" "runners_unique rs"
    and upd: "exec_update (\<lambda>q. r_id q = r_id r)
                 (\<lambda>q. row_check runner_check
                    (q\<lparr>r_status := RunnerActive, r_slots := r_slots r, r_agent_version := r_agent_version r,
                       r_heartbeat_at := r_heartbeat_at r\<rparr>)) (runners s) = Some rs"
    using assms by (auto simp: upsert_runner_def checked_Some_iff)
  have "map r_id rs = map r_id (runners s)"
    by (rule exec_update_map [OF upd]) (auto simp: row_check_def split: if_splits)
  then have "set (map r_id rs) = set (map r_id (runners s))" by simp
  then have "exists_id r_id i rs = exists_id r_id i (runners s)" for i
    by (simp add: exists_id_iff)
  with rs True show ?thesis by auto
next
  case False
  then have "s' = s\<lparr>runners := runners s @ [r]\<rparr>" "runners_unique (runners s @ [r])"
    using assms by (auto simp: upsert_runner_def checked_Some_iff split: if_splits)
  then show ?thesis by (auto simp: exists_id_def)
qed

end
