(* ===== verification/Wheel.thy ===== *)
theory Wheel
  imports Go_Crypto
begin

text \<open>
  The function wheel of \<open>infrastructure/postgres/defense.go\<close>: which candidates are put on the
  wheel and which one is selected, as a function of the candidate catalog, the selection mode
  and the seed of the defense.  The score is the real SHA-256 of seed and identifier; none of
  the results depends on what the digest function computes.
\<close>

record WheelCandidate =
  ID :: string
  Rank :: int
  FunctionName :: string
  Signature :: string
  FilePath :: string
  LineCount :: int
  EntityType :: string
  IsTestFile :: bool
  BeginLine :: int
  EndLine :: int

definition deterministicScore :: "string \<Rightarrow> string \<Rightarrow> string" where
  "deterministicScore seed i = hex_encode (sha256 (seed @ ''/'' @ i))"

definition deterministicShuffle :: "WheelCandidate list \<Rightarrow> string \<Rightarrow> WheelCandidate list" where
  "deterministicShuffle values seed =
     slice_stable (\<lambda>a b. deterministicScore (seed @ ''/wheel'') (ID a)
                         < deterministicScore (seed @ ''/wheel'') (ID b)) values"

text \<open>The comparison of the first sort in \<open>mixedCandidates\<close>: larger first, then by rank.\<close>

definition larger_first :: "WheelCandidate \<Rightarrow> WheelCandidate \<Rightarrow> bool" where
  "larger_first a b =
     (if LineCount a \<noteq> LineCount b then LineCount a > LineCount b else Rank a < Rank b)"

definition random_count :: "int \<Rightarrow> int" where
  "random_count n = (if n = 1 then 0 else (n + 1) div 3)"

definition mixedCandidates :: "WheelCandidate list \<Rightarrow> int \<Rightarrow> string \<Rightarrow> WheelCandidate list option" where
  "mixedCandidates candidates n seed =
     (if n < 0 \<or> int (length candidates) < n then None
      else
        (let bySize = slice_stable larger_first candidates;
             largestCount = nat (n - random_count n);
             result = take largestCount bySize;
             rest = slice_stable (\<lambda>a b. deterministicScore seed (ID a) < deterministicScore seed (ID b))
                      (drop largestCount bySize)
         in Some (result @ take (nat n - largestCount) rest)))"

text \<open>
  The loop over the catalog collects the candidates that are not in test files and remembers
  the last candidate with the requested identifier.
\<close>

fun wheel_scan ::
  "WheelCandidate list \<Rightarrow> string \<Rightarrow> WheelCandidate option \<Rightarrow> WheelCandidate list
     \<Rightarrow> WheelCandidate option \<times> WheelCandidate list" where
  "wheel_scan [] candidateID manual eligible = (manual, eligible)"
| "wheel_scan (c # cs) candidateID manual eligible =
     wheel_scan cs candidateID
       (if ID c = candidateID then Some c else manual)
       (if \<not> IsTestFile c then eligible @ [c] else eligible)"

text \<open>
  \<open>buildWheel\<close> returns the wheel and the selected candidate, or reports that the catalog does
  not allow it.  In automatic mode the first candidate of the wheel is selected; indexing an
  empty wheel would panic.
\<close>

datatype wheel_result = Wheel "WheelCandidate list" WheelCandidate | NoWheel | WheelPanic

definition buildWheel ::
  "WheelCandidate list \<Rightarrow> string \<Rightarrow> string \<Rightarrow> string \<Rightarrow> int \<Rightarrow> wheel_result" where
  "buildWheel catalog mode candidateID seed wheelSize =
     (let (manual, eligible) = wheel_scan catalog candidateID None [] in
      if mode = ''manual'' then
        (case manual of
           None \<Rightarrow> NoWheel
         | Some m \<Rightarrow>
             (case mixedCandidates (filter (\<lambda>c. ID c \<noteq> ID m) eligible) (wheelSize - 1) seed of
                None \<Rightarrow> NoWheel
              | Some fillers \<Rightarrow> Wheel (deterministicShuffle (fillers @ [m]) seed) m))
      else
        (case mixedCandidates eligible wheelSize seed of
           None \<Rightarrow> NoWheel
         | Some w \<Rightarrow>
             (case deterministicShuffle w seed of
                [] \<Rightarrow> WheelPanic
              | s # w' \<Rightarrow> Wheel (s # w') s)))"

section \<open>Lemmas\<close>

interpretation size_order: weak_order larger_first
  by unfold_locales (auto simp: larger_first_def split: if_splits)

interpretation score_order: key_order "\<lambda>c. deterministicScore seed (ID c)" for seed
  by unfold_locales

lemma wheel_scan_eq:
  "wheel_scan cs i m es =
     ((case select_one (\<lambda>c. ID c = i) (rev cs) of None \<Rightarrow> m | Some c \<Rightarrow> Some c),
      es @ filter (\<lambda>c. \<not> IsTestFile c) cs)"
  by (induction cs arbitrary: m es) (auto simp: select_one_append table_simps split: option.splits)

lemma set_deterministicShuffle [simp]: "set (deterministicShuffle cs seed) = set cs"
  and length_deterministicShuffle [simp]: "length (deterministicShuffle cs seed) = length cs"
  and distinct_deterministicShuffle [simp]:
    "distinct (map ID (deterministicShuffle cs seed)) = distinct (map ID cs)"
  by (simp_all add: deterministicShuffle_def)

lemma random_count_bounds: "0 \<le> n \<Longrightarrow> 0 \<le> random_count n \<and> random_count n \<le> n"
  by (auto simp: random_count_def)

lemma mixedCandidates_Some_iff:
  "(\<exists>r. mixedCandidates cs n seed = Some r) \<longleftrightarrow> 0 \<le> n \<and> n \<le> int (length cs)"
  by (auto simp: mixedCandidates_def Let_def)

lemma mixedCandidates_parts:
  assumes "mixedCandidates cs n seed = Some r"
  obtains xs ys zs where "mset cs = mset (xs @ ys @ zs)" and "r = xs @ ys"
    and "length xs = nat (n - random_count n)" and "length r = nat n"
    and "\<And>x y. x \<in> set xs \<Longrightarrow> y \<in> set (ys @ zs) \<Longrightarrow> LineCount y \<le> LineCount x"
proof -
  let ?l = "nat (n - random_count n)"
  let ?b = "slice_stable larger_first cs"
  let ?rest = "slice_stable (\<lambda>a b. deterministicScore seed (ID a) < deterministicScore seed (ID b)) (drop ?l ?b)"
  let ?k = "nat n - ?l"
  have n: "0 \<le> n" "n \<le> int (length cs)" and r: "r = take ?l ?b @ take ?k ?rest"
    using assms by (auto simp: mixedCandidates_def Let_def split: if_splits)
  have l: "?l \<le> nat n" "nat n \<le> length cs"
    using n random_count_bounds [of n] by auto
  show thesis
  proof
    have "mset (take ?k ?rest @ drop ?k ?rest) = mset (drop ?l ?b)" by simp
    then have "mset (take ?l ?b @ take ?k ?rest @ drop ?k ?rest) = mset (take ?l ?b @ drop ?l ?b)"
      by (simp only: mset_append)
    then show "mset cs = mset (take ?l ?b @ take ?k ?rest @ drop ?k ?rest)" by simp
    show "r = take ?l ?b @ take ?k ?rest" by (rule r)
    show "length (take ?l ?b) = ?l" using l by simp
    show "length r = nat n" using l r by simp
    fix x y
    assume x: "x \<in> set (take ?l ?b)" and "y \<in> set (take ?k ?rest @ drop ?k ?rest)"
    then have "y \<in> set (drop ?l ?b)"
      by (metis append_take_drop_id set_slice_stable)
    moreover have "sorted_wrt (\<lambda>a b. \<not> larger_first b a) (take ?l ?b @ drop ?l ?b)"
      using size_order.slice_stable_ordered [of cs] by simp
    ultimately have "\<not> larger_first y x"
      using x by (simp only: sorted_wrt_append) blast
    then show "LineCount y \<le> LineCount x"
      by (auto simp: larger_first_def split: if_splits)
  qed
qed

lemma mixedCandidates_subset:
  assumes "mixedCandidates cs n seed = Some r"
  shows "set r \<subseteq> set cs" and "length r = nat n" and "distinct (map ID cs) \<Longrightarrow> distinct (map ID r)"
proof -
  obtain xs ys zs where cs: "mset cs = mset (xs @ ys @ zs)" and r: "r = xs @ ys" and "length r = nat n"
    using mixedCandidates_parts [OF assms] by metis
  then show "length r = nat n" by simp
  have "set cs = set (xs @ ys @ zs)" using cs by (rule mset_eq_setD)
  then show "set r \<subseteq> set cs" by (auto simp: r)
  assume d: "distinct (map ID cs)"
  have "mset (map ID cs) = mset (map ID (xs @ ys @ zs))" using cs by (simp only: mset_map)
  then have "distinct (map ID (xs @ ys @ zs))" using d by (metis mset_eq_imp_distinct_iff)
  then show "distinct (map ID r)" by (auto simp: r)
qed

text \<open>When a wheel comes about, in either mode.\<close>

lemma buildWheel_automatic:
  assumes "mode \<noteq> ''manual''"
  shows "buildWheel catalog mode i seed n = Wheel w s \<longleftrightarrow>
    (\<exists>r. mixedCandidates (filter (\<lambda>c. \<not> IsTestFile c) catalog) n seed = Some r
       \<and> w = deterministicShuffle r seed \<and> w \<noteq> [] \<and> s = hd w)"
  using assms
  by (auto simp: buildWheel_def wheel_scan_eq split: option.splits list.splits)

lemma buildWheel_manual:
  "buildWheel catalog ''manual'' i seed n = Wheel w s \<longleftrightarrow>
    (\<exists>r. select_one (\<lambda>c. ID c = i) (rev catalog) = Some s
       \<and> mixedCandidates (filter (\<lambda>c. ID c \<noteq> i) (filter (\<lambda>c. \<not> IsTestFile c) catalog)) (n - 1) seed = Some r
       \<and> w = deterministicShuffle (r @ [s]) seed)"
  by (auto simp: buildWheel_def wheel_scan_eq dest: select_one_SomeD split: option.splits)

lemma buildWheel_manual_exists:
  assumes "1 \<le> n"
  shows "(\<exists>w s. buildWheel catalog ''manual'' i seed n = Wheel w s) \<longleftrightarrow>
     i \<in> ID ` set catalog
     \<and> n - 1 \<le> int (length (filter (\<lambda>c. \<not> IsTestFile c \<and> ID c \<noteq> i) catalog))"
proof -
  have sel: "(\<exists>s. select_one (\<lambda>c. ID c = i) (rev catalog) = Some s) \<longleftrightarrow> i \<in> ID ` set catalog"
    using select_one_None_iff [of "\<lambda>c. ID c = i" "rev catalog"] by auto
  have mixed: "(\<exists>r. mixedCandidates (filter (\<lambda>c. \<not> IsTestFile c \<and> ID c \<noteq> i) catalog) (n - 1) seed = Some r)
      \<longleftrightarrow> n - 1 \<le> int (length (filter (\<lambda>c. \<not> IsTestFile c \<and> ID c \<noteq> i) catalog))"
    using assms by (simp add: mixedCandidates_Some_iff)
  show ?thesis using sel mixed by (simp add: buildWheel_manual) blast
qed

lemma shuffled_nonempty:
  assumes "mixedCandidates cs n seed = Some r" and "1 \<le> n"
  shows "deterministicShuffle r seed \<noteq> []"
proof -
  have "0 < length (deterministicShuffle r seed)"
    using mixedCandidates_subset(2) [OF assms(1)] assms(2) by simp
  then show ?thesis by (metis length_greater_0_conv)
qed

lemma buildWheel_automatic_exists:
  assumes "1 \<le> n" and "mode \<noteq> ''manual''"
  shows "(\<exists>w s. buildWheel catalog mode i seed n = Wheel w s) \<longleftrightarrow>
     n \<le> int (length (filter (\<lambda>c. \<not> IsTestFile c) catalog))"
proof -
  have "(\<exists>r. mixedCandidates (filter (\<lambda>c. \<not> IsTestFile c) catalog) n seed = Some r)
      \<longleftrightarrow> n \<le> int (length (filter (\<lambda>c. \<not> IsTestFile c) catalog))"
    using assms by (simp add: mixedCandidates_Some_iff)
  then show ?thesis
    using assms shuffled_nonempty by (simp add: buildWheel_automatic) blast
qed

lemma buildWheel_no_panic: "1 \<le> n \<Longrightarrow> buildWheel catalog mode i seed n \<noteq> WheelPanic"
  by (auto simp: buildWheel_def wheel_scan_eq dest: shuffled_nonempty split: option.splits list.splits)

lemma buildWheel_members:
  assumes "buildWheel catalog mode i seed n = Wheel w s"
  shows "s \<in> set w" and "set w \<subseteq> set catalog"
proof -
  have "s \<in> set w \<and> set w \<subseteq> set catalog"
  proof (cases "mode = ''manual''")
    case True
    then show ?thesis
      using assms by (auto simp: buildWheel_manual dest!: select_one_SomeD mixedCandidates_subset(1))
  next
    case False
    then obtain r where r: "mixedCandidates (filter (\<lambda>c. \<not> IsTestFile c) catalog) n seed = Some r"
      and w: "w = deterministicShuffle r seed" "w \<noteq> []" "s = hd w"
      using assms by (auto simp: buildWheel_automatic)
    have "s \<in> set w" using w(2,3) by simp
    moreover have "set w \<subseteq> set catalog" using mixedCandidates_subset(1) [OF r] w(1) by auto
    ultimately show ?thesis by blast
  qed
  then show "s \<in> set w" and "set w \<subseteq> set catalog" by blast+
qed

text \<open>
  a wheel that is built has exactly the requested number of candidates, all from the catalog
  and pairwise different; the selected candidate is on it; nobody but a manually selected
  candidate comes from a test file; and in manual mode the selection is the requested one.
\<close>

theorem buildWheel_sound:
  assumes "buildWheel catalog mode i seed n = Wheel w s" and "distinct (map ID catalog)" and "1 \<le> n"
  shows "length w = nat n \<and> set w \<subseteq> set catalog \<and> distinct (map ID w) \<and> s \<in> set w
     \<and> (\<forall>c\<in>set w. IsTestFile c \<longrightarrow> mode = ''manual'' \<and> c = s)
     \<and> (mode = ''manual'' \<longrightarrow> ID s = i)"
proof (cases "mode = ''manual''")
  case True
  then obtain r where s: "select_one (\<lambda>c. ID c = i) (rev catalog) = Some s"
    and r: "mixedCandidates (filter (\<lambda>c. ID c \<noteq> i) (filter (\<lambda>c. \<not> IsTestFile c) catalog)) (n - 1) seed = Some r"
    and w: "w = deterministicShuffle (r @ [s]) seed"
    using assms(1) by (auto simp: buildWheel_manual)
  have "s \<in> set catalog" "ID s = i" using select_one_SomeD [OF s] by auto
  moreover have "distinct (map ID r)"
    using assms(2) by (intro mixedCandidates_subset(3) [OF r]) (simp add: distinct_map_filter)
  ultimately show ?thesis
    using True w assms(3) mixedCandidates_subset(1,2) [OF r] by auto
next
  case False
  then obtain r where r: "mixedCandidates (filter (\<lambda>c. \<not> IsTestFile c) catalog) n seed = Some r"
    and w: "w = deterministicShuffle r seed" "w \<noteq> []" "s = hd w"
    using assms(1) by (auto simp: buildWheel_automatic)
  have "distinct (map ID r)"
    using assms(2) by (intro mixedCandidates_subset(3) [OF r]) (simp add: distinct_map_filter)
  moreover have "hd (deterministicShuffle r seed) \<in> set r"
    using w by (metis list.set_sel(1) set_deterministicShuffle)
  ultimately show ?thesis
    using False w mixedCandidates_subset(1,2) [OF r] by auto
qed

definition example_catalog :: "WheelCandidate list" where
  "example_catalog =
     [\<lparr>ID = ''a'', Rank = 1, FunctionName = ''f'', Signature = [], FilePath = ''a.cpp'', LineCount = 9,
       EntityType = ''function'', IsTestFile = False, BeginLine = 1, EndLine = 9\<rparr>,
      \<lparr>ID = ''b'', Rank = 2, FunctionName = ''g'', Signature = [], FilePath = ''a_test.cpp'', LineCount = 3,
       EntityType = ''function'', IsTestFile = True, BeginLine = 1, EndLine = 3\<rparr>]"

theorem buildWheel_sound_witness:
  "\<exists>w s. buildWheel example_catalog ''manual'' ''b'' ''7'' 2 = Wheel w s
     \<and> length w = 2 \<and> distinct (map ID w) \<and> s \<in> set w \<and> ID s = ''b''"
proof -
  obtain w s where w: "buildWheel example_catalog ''manual'' ''b'' ''7'' 2 = Wheel w s"
    using buildWheel_manual_exists [of 2 example_catalog "''b''" "''7''"]
    by (auto simp: example_catalog_def)
  then show ?thesis
    using buildWheel_sound [OF w] by (auto simp: example_catalog_def)
qed

text \<open>
  when a wheel comes about.  With two or more places no call panics; a manual wheel is built
  exactly when the requested candidate is in the catalog and enough other candidates outside test
  files are left to fill it, an automatic one exactly when enough candidates are eligible.
\<close>

theorem buildWheel_succeeds_iff:
  assumes "2 \<le> n"
  shows "buildWheel catalog mode i seed n \<noteq> WheelPanic
    \<and> ((\<exists>w s. buildWheel catalog mode i seed n = Wheel w s) \<longleftrightarrow>
         (if mode = ''manual''
          then i \<in> ID ` set catalog
             \<and> n - 1 \<le> int (length (filter (\<lambda>c. \<not> IsTestFile c \<and> ID c \<noteq> i) catalog))
          else n \<le> int (length (filter (\<lambda>c. \<not> IsTestFile c) catalog))))"
  using assms buildWheel_no_panic [of n] buildWheel_manual_exists [of n] buildWheel_automatic_exists [of n]
  by auto

theorem buildWheel_succeeds_iff_witness:
  "(2::int) \<le> 2 \<and> (\<exists>w s. buildWheel example_catalog ''manual'' ''b'' ''7'' 2 = Wheel w s)
     \<and> \<not> (\<exists>w s. buildWheel example_catalog ''automatic'' ''b'' ''7'' 2 = Wheel w s)"
  using buildWheel_succeeds_iff [of 2 example_catalog "''manual''" "''b''" "''7''"]
    buildWheel_succeeds_iff [of 2 example_catalog "''automatic''" "''b''" "''7''"]
  by (simp add: example_catalog_def)

text \<open>
  an automatic wheel favours large entities.  All but a third of its places go to the largest
  eligible candidates: those are on the wheel, and no eligible candidate beside them is larger
  than any of them.
\<close>

theorem buildWheel_automatic_largest:
  assumes "buildWheel catalog mode i seed n = Wheel w s" and "mode \<noteq> ''manual''" and "distinct (map ID catalog)"
  shows "\<exists>xs. distinct xs \<and> length xs = nat (n - (if n = 1 then 0 else (n + 1) div 3)) \<and> set xs \<subseteq> set w
     \<and> (\<forall>x\<in>set xs. \<forall>c\<in>set catalog. \<not> IsTestFile c \<and> c \<notin> set xs \<longrightarrow> LineCount c \<le> LineCount x)"
proof -
  obtain r where r: "mixedCandidates (filter (\<lambda>c. \<not> IsTestFile c) catalog) n seed = Some r"
    and w: "w = deterministicShuffle r seed"
    using assms by (auto simp: buildWheel_automatic)
  obtain xs ys zs where parts: "mset (filter (\<lambda>c. \<not> IsTestFile c) catalog) = mset (xs @ ys @ zs)" "r = xs @ ys"
    "length xs = nat (n - random_count n)"
    "\<And>x y. x \<in> set xs \<Longrightarrow> y \<in> set (ys @ zs) \<Longrightarrow> LineCount y \<le> LineCount x"
    using mixedCandidates_parts [OF r] by metis
  have "distinct (filter (\<lambda>c. \<not> IsTestFile c) catalog)"
    using assms(3) by (simp add: distinct_map)
  then have "distinct (xs @ ys @ zs)" using parts(1) mset_eq_imp_distinct_iff by blast
  moreover have members: "set (filter (\<lambda>c. \<not> IsTestFile c) catalog) = set (xs @ ys @ zs)"
    using parts(1) by (rule mset_eq_setD)
  have "c \<in> set (ys @ zs)" if "c \<in> set catalog" "\<not> IsTestFile c" "c \<notin> set xs" for c
    using members that by auto
  ultimately show ?thesis
    using parts w by (intro exI [of _ xs]) (auto simp: random_count_def)
qed

theorem buildWheel_automatic_largest_witness:
  "\<exists>w s. buildWheel example_catalog ''automatic'' [] ''7'' 1 = Wheel w s \<and> w \<noteq> []"
proof -
  obtain w s where w: "buildWheel example_catalog ''automatic'' [] ''7'' 1 = Wheel w s"
    using buildWheel_automatic_exists [of 1 "''automatic''" example_catalog "[]" "''7''"]
    by (auto simp: example_catalog_def)
  then show ?thesis
    using buildWheel_automatic_largest [OF w] by (auto simp: example_catalog_def)
qed

end
