(* ===== verification/Defense_Repository.thy ===== *)
theory Defense_Repository
  imports Schema Wheel
begin

text \<open>
  \<open>DefenseRepository\<close> of \<open>infrastructure/postgres/defense.go\<close> and \<open>hide_seek.go\<close>: creation and
  reading of a defense, its configuration by a teacher, drafts, cancellation, attempts, and the
  job queue of the runners (lease, heartbeat, completion).

  A method is a function from its arguments and the database state.  A serializable transaction
  is one step, written as a chain of statements in the error monad: it returns the new state or
  an error, and then the state is the old one.  Reads that follow the commit see the committed
  state.  \<open>clk n\<close> is what the database clock shows at the \<open>n\<close>-th statement of a method; random
  identifiers, the seed and the lease token are arguments.
\<close>

section \<open>Views\<close>

record Challenge =
  ch_function_name :: string
  ch_entity_type :: string
  ch_file_path :: string
  ch_signature :: string
  ch_begin_line :: int
  ch_end_line :: int
  ch_masked_source :: string

record Defense =
  v_id :: uuid
  v_session_id :: uuid
  v_submission_id :: uuid
  v_student_login :: string
  v_lab_code :: string
  v_lab_name :: string
  v_status :: defense_status
  v_stage :: string
  v_seed :: string
  v_time_limit :: int
  v_wheel_size :: "int option"
  v_entity_mode :: "string option"
  v_selection_mode :: "string option"
  v_started_at :: "time option"
  v_deadline_at :: "time option"
  v_finished_at :: "time option"
  v_draft :: string
  v_draft_version :: int
  v_selected_id :: "uuid option"
  v_challenge :: "Challenge option"
  v_wheel :: "WheelCandidate list"
  v_catalog :: "WheelCandidate list"
  v_created_at :: time
  v_mode :: string
  v_error_count :: nat
  v_hide_report :: "HideValidation option"
  v_mutations :: "Mutation list"
  v_preparation_error :: string
  v_timings :: "JobTimings option"

record Attempt =
  at_id :: uuid
  at_defense_id :: uuid
  at_no :: int
  at_outcome :: attempt_outcome
  at_accepted_at :: time
  at_finished_at :: "time option"
  at_configure :: json
  at_build :: json
  at_ctest :: json
  at_reference :: "ReferenceResult option"
  at_timings :: "JobTimings option"

section \<open>Who may do what\<close>

text \<open>The joins that the queries share.\<close>

definition active_user :: "db \<Rightarrow> uuid \<Rightarrow> user_row option" where
  "active_user s actor = select_one (\<lambda>u. u_id u = actor \<and> u_status u = UserActive) (users s)"

definition submission_by_id :: "db \<Rightarrow> uuid \<Rightarrow> submission_row option" where
  "submission_by_id s i = select_one (\<lambda>sv. sv_id sv = i) (submission_versions s)"

definition record_of :: "db \<Rightarrow> submission_row \<Rightarrow> student_record_row option" where
  "record_of s sv = select_one (\<lambda>sr. sr_id sr = sv_student_record_id sv) (student_records s)"

definition defense_by_id :: "db \<Rightarrow> uuid \<Rightarrow> defense_row option" where
  "defense_by_id s i = select_one (\<lambda>d. d_id d = i) (defenses s)"

text \<open>\<open>defenses d join submission_versions sv join student_records sr\<close>: the record of a defense.\<close>

definition defense_record :: "db \<Rightarrow> defense_row \<Rightarrow> (submission_row \<times> student_record_row) option" where
  "defense_record s d =
     (case submission_by_id s (d_submission_id d) of
        None \<Rightarrow> None
      | Some sv \<Rightarrow> map_option (\<lambda>sr. (sv, sr)) (record_of s sv))"

definition teaches :: "db \<Rightarrow> user_row \<Rightarrow> student_record_row \<Rightarrow> bool" where
  "teaches s u sr \<longleftrightarrow>
     list_ex (\<lambda>gt. gt_group_id gt = sr_group_id sr \<and> gt_teacher_user_id gt = u_id u) (group_teachers s)"

definition staff_of :: "db \<Rightarrow> user_row \<Rightarrow> student_record_row \<Rightarrow> bool" where
  "staff_of s u sr \<longleftrightarrow> u_role u = Some Admin \<or> (u_role u = Some Teacher \<and> teaches s u sr)"

definition owner_of :: "user_row \<Rightarrow> student_record_row \<Rightarrow> bool" where
  "owner_of u sr \<longleftrightarrow> u_role u = Some Student \<and> sr_user_id sr = Some (u_id u)"

definition may_view :: "db \<Rightarrow> user_row \<Rightarrow> student_record_row \<Rightarrow> bool" where
  "may_view s u sr \<longleftrightarrow> staff_of s u sr \<or> owner_of u sr"

text \<open>The student whose record the defense belongs to, whatever the state of the account.\<close>

definition belongs_to :: "db \<Rightarrow> uuid \<Rightarrow> defense_row \<Rightarrow> bool" where
  "belongs_to s actor d \<longleftrightarrow>
     (case defense_record s d of None \<Rightarrow> False | Some (sv, sr) \<Rightarrow> sr_user_id sr = Some actor)"

section \<open>Reading a defense\<close>

definition preparationStage :: "defense_status \<Rightarrow> uuid option \<Rightarrow> string" where
  "preparationStage st selected =
     (case st of
        DReady \<Rightarrow> ''waiting_for_teacher''
      | DPreparing \<Rightarrow> if selected = None then ''analyzing_project'' else ''materializing_challenge''
      | DActive \<Rightarrow> ''ready''
      | DPassed \<Rightarrow> ''passed''
      | DFailed \<Rightarrow> ''failed''
      | DExpired \<Rightarrow> ''expired''
      | DCancelled \<Rightarrow> ''cancelled''
      | DError \<Rightarrow> ''error'')"

text \<open>The update at the start of \<open>Get\<close>; its error is ignored.\<close>

definition expired_now :: "time \<Rightarrow> uuid \<Rightarrow> defense_row \<Rightarrow> bool" where
  "expired_now now i d \<longleftrightarrow>
     d_id d = i \<and> d_status d = DActive
     \<and> (case d_deadline_at d of None \<Rightarrow> False | Some t \<Rightarrow> t \<le> now)"

definition set_expired :: "time \<Rightarrow> defense_row \<Rightarrow> defense_row" where
  "set_expired now d =
     d\<lparr>d_status := DExpired, d_finished_at := Some now, d_terminal_reason := Some ''deadline reached''\<rparr>"

definition expire :: "time \<Rightarrow> uuid \<Rightarrow> db \<Rightarrow> db" where
  "expire now i s =
     (case update_defenses now (expired_now now i) (set_expired now) s of None \<Rightarrow> s | Some s' \<Rightarrow> s')"

definition wheel_candidate :: "candidate_row \<Rightarrow> WheelCandidate" where
  "wheel_candidate c =
     \<lparr>ID = c_id c, Rank = c_rank c, FunctionName = c_function_name c, Signature = c_signature c,
      FilePath = c_file_path c, LineCount = c_line_count c, EntityType = c_entity_type c,
      IsTestFile = c_is_test_file c, BeginLine = c_start_line c, EndLine = c_end_line c\<rparr>"

definition wheel_rank_of :: "candidate_row \<Rightarrow> int" where
  "wheel_rank_of c = (case c_wheel_rank c of None \<Rightarrow> c_rank c | Some r \<Rightarrow> r)"

definition wheel_view :: "db \<Rightarrow> uuid \<Rightarrow> WheelCandidate list" where
  "wheel_view s i =
     map (\<lambda>c. (wheel_candidate c)\<lparr>Rank := wheel_rank_of c\<rparr>)
       (slice_stable (\<lambda>a b. wheel_rank_of a < wheel_rank_of b)
         (filter (\<lambda>c. c_defense_id c = i \<and> c_wheel_rank c \<noteq> None) (candidates s)))"

text \<open>The challenge is shown once the runner has produced its masked source.\<close>

definition challenge_view :: "db \<Rightarrow> uuid option \<Rightarrow> Challenge option" where
  "challenge_view s selected =
     (case selected of
        None \<Rightarrow> None
      | Some i \<Rightarrow>
          (case select_one (\<lambda>c. c_id c = i) (candidates s) of
             None \<Rightarrow> None
           | Some c \<Rightarrow>
               (case c_masked_source c of
                  None \<Rightarrow> None
                | Some m \<Rightarrow>
                    if m = '''' then None
                    else Some \<lparr>ch_function_name = c_function_name c, ch_entity_type = c_entity_type c,
                               ch_file_path = c_file_path c, ch_signature = c_signature c,
                               ch_begin_line = c_start_line c, ch_end_line = c_end_line c,
                               ch_masked_source = m\<rparr>)))"

definition base_view :: "db \<Rightarrow> defense_row \<Rightarrow> student_record_row \<Rightarrow> lab_row \<Rightarrow> Defense" where
  "base_view s d sr l =
     \<lparr>v_id = d_id d, v_session_id = d_session_id d, v_submission_id = d_submission_id d,
      v_student_login = sr_login sr, v_lab_code = lab_code l, v_lab_name = lab_name l,
      v_status = d_status d, v_stage = preparationStage (d_status d) (d_selected_id d),
      v_seed = decimal (nat (d_seed d)), v_time_limit = d_time_limit d, v_wheel_size = d_wheel_size d,
      v_entity_mode = d_entity_mode d, v_selection_mode = d_selection_mode d,
      v_started_at = d_started_at d, v_deadline_at = d_deadline_at d, v_finished_at = d_finished_at d,
      v_draft = (case d_draft d of None \<Rightarrow> '''' | Some t \<Rightarrow> t), v_draft_version = d_draft_version d,
      v_selected_id = d_selected_id d, v_challenge = challenge_view s (d_selected_id d),
      v_wheel = wheel_view s (d_id d), v_catalog = [], v_created_at = d_created_at d,
      v_mode = '''', v_error_count = 0, v_hide_report = None, v_mutations = [],
      v_preparation_error = '''', v_timings = None\<rparr>"

text \<open>
  \<open>hideView\<close> fills in the columns of the hide-and-seek mode and hides from a student what
  reveals the mutations, in this defense or in another one of the same submission.  The message
  shown to a student instead of the technical one is a fixed Russian text, given here as the
  bytes of its encoding.
\<close>

definition student_message :: string where
  "student_message = map char_of
      [208, 159, 209, 128, 208, 181, 208, 191, 208, 190, 208, 180, 208, 176, 208, 178, 208, 176,
       209, 130, 208, 181, 208, 187, 209, 142, 32, 208, 189, 209, 131, 208, 182, 208, 189, 208,
       190, 32, 209, 129, 208, 186, 208, 190, 209, 128, 209, 128, 208, 181, 208, 186, 209, 130,
       208, 184, 209, 128, 208, 190, 208, 178, 208, 176, 209, 130, 209, 140, 32, 208, 183, 208,
       176, 208, 180, 208, 176, 208, 189, 208, 184, 208, 181 :: nat]"

definition hideView :: "db \<Rightarrow> uuid \<Rightarrow> Defense \<Rightarrow> Defense result" where
  "hideView s actor v =
     (case (select_one (\<lambda>u. u_id u = actor) (users s), defense_by_id s (v_id v)) of
        (Some u, Some d) \<Rightarrow>
          (let teacher = (u_role u = Some Teacher \<or> u_role u = Some Admin);
               v1 = v\<lparr>v_mode := d_mode d, v_error_count := length (d_hide_mutations d),
                      v_timings := d_timings d,
                      v_preparation_error := (case d_hide_error d of None \<Rightarrow> '''' | Some m \<Rightarrow> m)\<rparr>;
               v2 = (if v_mode v1 = ''hide_seek'' then
                       (let w = v1\<lparr>v_challenge := None, v_selected_id := None, v_wheel := [],
                                   v_stage := (if v_status v1 = DPreparing then ''validating_hide_seek''
                                               else v_stage v1)\<rparr>
                        in if teacher then w\<lparr>v_hide_report := d_hide_report d, v_mutations := d_hide_mutations d\<rparr>
                           else if v_preparation_error w \<noteq> '''' then w\<lparr>v_preparation_error := student_message\<rparr>
                           else w)
                     else v1);
               hidden = list_ex (\<lambda>other. d_submission_id other = v_submission_id v \<and> d_mode other = ''hide_seek'') (defenses s)
           in Inr (if \<not> teacher \<and> v_mode v2 \<noteq> ''hide_seek'' \<and> hidden
                   then v2\<lparr>v_challenge := None, v_draft := '''', v_wheel := []\<rparr>
                   else v2))
      | _ \<Rightarrow> Inl ErrNoRows)"

text \<open>The query of \<open>Get\<close>: the defense with the rows joined to it, if the actor may see it.\<close>

definition visible_defense :: "db \<Rightarrow> uuid \<Rightarrow> uuid \<Rightarrow> (defense_row \<times> student_record_row \<times> lab_row) option" where
  "visible_defense s actor i =
     (case (defense_by_id s i, active_user s actor) of
        (Some d, Some u) \<Rightarrow>
          (case defense_record s d of
             None \<Rightarrow> None
           | Some (sv, sr) \<Rightarrow>
               (case select_one (\<lambda>l. lab_id l = sv_lab_id sv) (labs s) of
                  None \<Rightarrow> None
                | Some l \<Rightarrow> if may_view s u sr then Some (d, sr, l) else None))
      | _ \<Rightarrow> None)"

definition read_defense :: "db \<Rightarrow> uuid \<Rightarrow> uuid \<Rightarrow> Defense result" where
  "read_defense s actor i =
     (case visible_defense s actor i of
        None \<Rightarrow> Inl ErrForbidden
      | Some (d, sr, l) \<Rightarrow> hideView s actor (base_view s d sr l))"

definition Get :: "time \<Rightarrow> uuid \<Rightarrow> uuid \<Rightarrow> db \<Rightarrow> db \<times> Defense result" where
  "Get now actor i s = (let s' = expire now i s in (s', read_defense s' actor i))"

section \<open>Creating a defense\<close>

text \<open>The rows that the inserts write, with the defaults of the other columns.\<close>

definition new_defense :: "time \<Rightarrow> uuid \<Rightarrow> uuid \<Rightarrow> uuid \<Rightarrow> int \<Rightarrow> uuid \<Rightarrow> defense_row" where
  "new_defense now i session submission seed key =
     \<lparr>d_id = i, d_session_id = session, d_submission_id = submission, d_status = DReady,
      d_seed = seed, d_time_limit = 60, d_started_at = None, d_deadline_at = None,
      d_finished_at = None, d_draft = None, d_draft_version = 1, d_selected_id = None,
      d_terminal_reason = None, d_created_at = now, d_updated_at = now, d_version = 1,
      d_start_key = Some key, d_suggested_rank = None, d_selection_mode = None,
      d_wheel_size = None, d_entity_mode = None, d_mode = ''restore'', d_hide_mutations = [],
      d_hide_report = None, d_hide_error = None, d_timings = None\<rparr>"

definition new_job :: "time \<Rightarrow> uuid \<Rightarrow> job_kind \<Rightarrow> uuid \<Rightarrow> uuid option \<Rightarrow> job_row" where
  "new_job now i kind defense attempt =
     \<lparr>j_id = i, j_kind = kind, j_defense_id = defense, j_attempt_id = attempt, j_state = JQueued,
      j_priority = 0, j_available_at = now, j_retry_count = 0, j_max_retries = 3, j_owner = None,
      j_token_hash = None, j_expires_at = None, j_timeout = 300, j_created_at = now,
      j_updated_at = now, j_version = 1\<rparr>"

text \<open>The ownership query of \<open>Create\<close>.\<close>

definition owns_submission :: "db \<Rightarrow> uuid \<Rightarrow> submission_row \<Rightarrow> bool" where
  "owns_submission s actor sv \<longleftrightarrow>
     (case (record_of s sv, active_user s actor) of
        (Some sr, Some u) \<Rightarrow> owner_of u sr
      | _ \<Rightarrow> False)"

text \<open>
  The transaction of \<open>Create\<close>: the identifier of the defense that the method then reads, an
  existing one for the same idempotency key or an open one of the submission, or a new one with
  its first preparation job.
\<close>

definition Create_tx ::
  "(nat \<Rightarrow> time) \<Rightarrow> uuid \<Rightarrow> uuid \<Rightarrow> uuid \<Rightarrow> uuid \<Rightarrow> uuid \<Rightarrow> uuid \<Rightarrow> int \<Rightarrow> db \<Rightarrow> (db \<times> uuid) result" where
  "Create_tx clk actor submission key i session job seed s =
     (case submission_by_id s submission of
        None \<Rightarrow> Inl ErrForbidden
      | Some sv \<Rightarrow>
          if \<not> owns_submission s actor sv then Inl ErrForbidden
          else
            (case select_one (\<lambda>d. d_submission_id d = submission \<and> d_start_key d = Some key) (defenses s) of
               Some d \<Rightarrow> Inr (s, d_id d)
             | None \<Rightarrow>
                 (case select_one (\<lambda>d. d_submission_id d = submission \<and> open_status (d_status d)) (defenses s) of
                    Some d \<Rightarrow> Inr (s, d_id d)
                  | None \<Rightarrow>
                      bind_result (statement (insert_defense (new_defense (clk 0) i session submission seed key) s)) (\<lambda>s1.
                      bind_result (statement (update_defenses (clk 1) (\<lambda>d. d_id d = i) (\<lambda>d. d\<lparr>d_status := DPreparing\<rparr>) s1)) (\<lambda>s2.
                      bind_result (statement (insert_job (new_job (clk 2) job PrepareDefense i None) s2)) (\<lambda>s3.
                      Inr (s3, i)))))))"

text \<open>A method that ends with \<open>return r.Get(...)\<close> after its transaction.\<close>

definition then_get :: "time \<Rightarrow> uuid \<Rightarrow> db \<Rightarrow> (db \<times> uuid) result \<Rightarrow> db \<times> Defense result" where
  "then_get now actor s r =
     (case r of Inl e \<Rightarrow> (s, Inl e) | Inr (s', i) \<Rightarrow> Get now actor i s')"

definition Create ::
  "(nat \<Rightarrow> time) \<Rightarrow> uuid \<Rightarrow> uuid \<Rightarrow> uuid \<Rightarrow> uuid \<Rightarrow> uuid \<Rightarrow> uuid \<Rightarrow> int \<Rightarrow> db \<Rightarrow> db \<times> Defense result" where
  "Create clk actor submission key i session job seed s =
     then_get (clk 3) actor s (Create_tx clk actor submission key i session job seed s)"

section \<open>Configuration by a teacher\<close>

text \<open>\<open>select ... from defenses d where d.id=$1 and d.status='ready'\<close> with the staff check.\<close>

definition ready_for :: "db \<Rightarrow> uuid \<Rightarrow> uuid \<Rightarrow> defense_row option" where
  "ready_for s actor i =
     (case select_one (\<lambda>d. d_id d = i \<and> d_status d = DReady) (defenses s) of
        None \<Rightarrow> None
      | Some d \<Rightarrow>
          (case (active_user s actor, defense_record s d) of
             (Some u, Some (sv, sr)) \<Rightarrow> if staff_of s u sr then Some d else None
           | _ \<Rightarrow> None))"

definition catalog_by_rank :: "db \<Rightarrow> uuid \<Rightarrow> string \<Rightarrow> WheelCandidate list" where
  "catalog_by_rank s i entityMode =
     filter (\<lambda>c. entityMode = ''functions_classes_structs'' \<or> EntityType c = ''function'')
       (map wheel_candidate
         (slice_stable (\<lambda>a b. c_rank a < c_rank b)
           (filter (\<lambda>c. c_defense_id c = i) (candidates s))))"

text \<open>The loop that writes the places of the wheel, counted from \<open>place\<close>.\<close>

fun place_wheel :: "uuid \<Rightarrow> uuid \<Rightarrow> int \<Rightarrow> WheelCandidate list \<Rightarrow> db \<Rightarrow> db option" where
  "place_wheel i sel place [] s = Some s"
| "place_wheel i sel place (w # ws) s =
     Option.bind
       (update_candidates (\<lambda>c. c_defense_id c = i \<and> c_id c = ID w)
          (\<lambda>c. c\<lparr>c_wheel_rank := Some place, c_is_selected := (c_id c = sel)\<rparr>) s)
       (place_wheel i sel (place + 1) ws)"

definition configure_ok :: "string \<Rightarrow> string \<Rightarrow> int \<Rightarrow> int \<Rightarrow> bool" where
  "configure_ok mode entityMode secs wheelSize \<longleftrightarrow>
     \<not> ((mode \<noteq> ''automatic'' \<and> mode \<noteq> ''manual'')
        \<or> (entityMode \<noteq> ''functions_only'' \<and> entityMode \<noteq> ''functions_classes_structs'')
        \<or> secs < 60 \<or> secs > 1800 \<or> wheelSize < 2 \<or> wheelSize > 12)"

definition set_configured :: "uuid \<Rightarrow> string \<Rightarrow> int \<Rightarrow> int \<Rightarrow> string \<Rightarrow> defense_row \<Rightarrow> defense_row" where
  "set_configured sel mode secs wheelSize entityMode d =
     d\<lparr>d_mode := ''restore'', d_hide_mutations := [], d_hide_report := None, d_hide_error := None,
       d_timings := None, d_selected_id := Some sel, d_selection_mode := Some mode,
       d_time_limit := secs, d_wheel_size := Some wheelSize, d_entity_mode := Some entityMode,
       d_status := DPreparing\<rparr>"

definition Configure_tx ::
  "(nat \<Rightarrow> time) \<Rightarrow> uuid \<Rightarrow> uuid \<Rightarrow> string \<Rightarrow> uuid \<Rightarrow> string \<Rightarrow> int \<Rightarrow> int \<Rightarrow> uuid \<Rightarrow> db \<Rightarrow> (db \<times> uuid) result" where
  "Configure_tx clk actor i mode candidateID entityMode secs wheelSize job s =
     (if \<not> configure_ok mode entityMode secs wheelSize then Inl ErrConflict
      else
        (case ready_for s actor i of
           None \<Rightarrow> Inl ErrConflict
         | Some d \<Rightarrow>
             (case buildWheel (catalog_by_rank s i entityMode) mode candidateID (decimal (nat (d_seed d))) wheelSize of
                Wheel w sel \<Rightarrow>
                  bind_result (statement (update_candidates (\<lambda>c. c_defense_id c = i)
                      (\<lambda>c. c\<lparr>c_is_selected := False, c_wheel_rank := None\<rparr>) s)) (\<lambda>s1.
                  bind_result (statement (place_wheel i (ID sel) 1 w s1)) (\<lambda>s2.
                  bind_result (statement (update_defenses (clk 1) (\<lambda>d. d_id d = i \<and> d_status d = DReady)
                      (set_configured (ID sel) mode secs wheelSize entityMode) s2)) (\<lambda>s3.
                  bind_result (statement (insert_job (new_job (clk 2) job PrepareDefense i None) s3)) (\<lambda>s4.
                  Inr (s4, i)))))
              | NoWheel \<Rightarrow> Inl ErrConflict
              | WheelPanic \<Rightarrow> Inl (ErrText ''panic: index out of range''))))"

definition Configure ::
  "(nat \<Rightarrow> time) \<Rightarrow> uuid \<Rightarrow> uuid \<Rightarrow> string \<Rightarrow> uuid \<Rightarrow> string \<Rightarrow> int \<Rightarrow> int \<Rightarrow> uuid \<Rightarrow> db \<Rightarrow> db \<times> Defense result" where
  "Configure clk actor i mode candidateID entityMode secs wheelSize job s =
     then_get (clk 3) actor s (Configure_tx clk actor i mode candidateID entityMode secs wheelSize job s)"

definition set_hidden :: "int \<Rightarrow> Mutation list \<Rightarrow> defense_row \<Rightarrow> defense_row" where
  "set_hidden secs mutations d =
     d\<lparr>d_mode := ''hide_seek'', d_hide_mutations := mutations, d_hide_report := None, d_hide_error := None,
       d_timings := None, d_time_limit := secs, d_selected_id := None,
       d_selection_mode := Some ''manual'', d_wheel_size := None, d_entity_mode := None,
       d_draft := Some '''', d_draft_version := d_draft_version d + 1, d_status := DPreparing\<rparr>"

definition ConfigureHide_tx ::
  "(nat \<Rightarrow> time) \<Rightarrow> uuid \<Rightarrow> uuid \<Rightarrow> int \<Rightarrow> Mutation list \<Rightarrow> uuid \<Rightarrow> db \<Rightarrow> (db \<times> uuid) result" where
  "ConfigureHide_tx clk actor i secs mutations job s =
     (if secs < 60 \<or> secs > 1800 \<or> length mutations < 1 \<or> length mutations > 5
      then Inl (ErrText ''invalid hide configuration'')
      else
        (case ready_for s actor i of
           None \<Rightarrow> Inl ErrForbidden
         | Some d \<Rightarrow>
             bind_result (statement (update_defenses (clk 0) (\<lambda>d. d_id d = i) (set_hidden secs mutations) s)) (\<lambda>s1.
             bind_result (statement (insert_job (new_job (clk 1) job PrepareDefense i None) s1)) (\<lambda>s2.
             Inr (s2, i)))))"

definition ConfigureHide ::
  "(nat \<Rightarrow> time) \<Rightarrow> uuid \<Rightarrow> uuid \<Rightarrow> int \<Rightarrow> Mutation list \<Rightarrow> uuid \<Rightarrow> db \<Rightarrow> db \<times> Defense result" where
  "ConfigureHide clk actor i secs mutations job s =
     then_get (clk 2) actor s (ConfigureHide_tx clk actor i secs mutations job s)"

section \<open>Drafts, cancellation, attempts\<close>

definition draft_open :: "db \<Rightarrow> time \<Rightarrow> uuid \<Rightarrow> uuid \<Rightarrow> defense_row \<Rightarrow> bool" where
  "draft_open s now actor i d \<longleftrightarrow>
     d_id d = i \<and> belongs_to s actor d \<and> d_status d = DActive
     \<and> (case d_deadline_at d of None \<Rightarrow> False | Some t \<Rightarrow> t > now)"

definition SaveDraft ::
  "time \<Rightarrow> uuid \<Rightarrow> uuid \<Rightarrow> string \<Rightarrow> int \<Rightarrow> db \<Rightarrow> db \<times> (int \<times> time) result" where
  "SaveDraft now actor i answer version s =
     (let c = (\<lambda>d. draft_open s now actor i d \<and> d_draft_version d = version) in
      case select_one c (defenses s) of
        None \<Rightarrow> (s, Inl ErrConflict)
      | Some d \<Rightarrow>
          (case update_defenses now c
                 (\<lambda>d. d\<lparr>d_draft := Some answer, d_draft_version := d_draft_version d + 1, d_updated_at := now\<rparr>) s of
             None \<Rightarrow> (s, Inl ErrConflict)
           | Some s' \<Rightarrow> (s', Inr (d_draft_version d + 1, now))))"

text \<open>The text of the results written for attempts that the service itself ends.\<close>

definition error_result :: "string \<Rightarrow> json" where
  "error_result msg = JObject [(''error'', JString msg)]"

definition fail_attempt :: "time \<Rightarrow> string \<Rightarrow> attempt_row \<Rightarrow> attempt_row" where
  "fail_attempt now msg a =
     a\<lparr>a_outcome := OError, a_finished_at := Some now, a_configure := Some (error_result msg)\<rparr>"

definition release_lease :: "time \<Rightarrow> string \<Rightarrow> lease_row \<Rightarrow> lease_row" where
  "release_lease now reason l = l\<lparr>l_released_at := Some now, l_release_reason := Some reason\<rparr>"

definition clear_job :: "job_state \<Rightarrow> job_row \<Rightarrow> job_row" where
  "clear_job st j = j\<lparr>j_state := st, j_owner := None, j_token_hash := None, j_expires_at := None\<rparr>"

definition open_job :: "job_row \<Rightarrow> bool" where
  "open_job j \<longleftrightarrow> j_state j = JQueued \<or> j_state j = JLeased \<or> j_state j = JRunning"

definition may_cancel :: "db \<Rightarrow> uuid \<Rightarrow> uuid \<Rightarrow> bool" where
  "may_cancel s actor i \<longleftrightarrow>
     (case select_one (\<lambda>d. d_id d = i \<and> open_status (d_status d)) (defenses s) of
        None \<Rightarrow> False
      | Some d \<Rightarrow>
          (case (active_user s actor, defense_record s d) of
             (Some u, Some (sv, sr)) \<Rightarrow> may_view s u sr
           | _ \<Rightarrow> False))"

definition set_cancelled :: "time \<Rightarrow> defense_row \<Rightarrow> defense_row" where
  "set_cancelled now d =
     d\<lparr>d_status := DCancelled, d_finished_at := Some now, d_terminal_reason := Some ''cancelled by user''\<rparr>"

definition Cancel_tx :: "(nat \<Rightarrow> time) \<Rightarrow> uuid \<Rightarrow> uuid \<Rightarrow> db \<Rightarrow> (db \<times> uuid) result" where
  "Cancel_tx clk actor i s =
     (if \<not> may_cancel s actor i then Inl ErrConflict
      else
        bind_result (statement (update_defenses (clk 0) (\<lambda>d. d_id d = i \<and> open_status (d_status d))
            (set_cancelled (clk 0)) s)) (\<lambda>s1.
        bind_result (statement (update_attempts (\<lambda>a. a_defense_id a = i \<and> a_outcome a = OPending)
            (fail_attempt (clk 1) ''defense cancelled'') s1)) (\<lambda>s2.
        bind_result (statement (update_jobs (clk 2) (\<lambda>j. j_defense_id j = i \<and> open_job j)
            (clear_job JCancelled) s2)) (\<lambda>s3.
        bind_result (statement (update_leases
            (\<lambda>l. list_ex (\<lambda>j. j_id j = l_job_id l \<and> j_defense_id j = i) (jobs s3) \<and> l_released_at l = None)
            (release_lease (clk 3) ''cancelled'') s3)) (\<lambda>s4.
        Inr (s4, i))))))"

definition Cancel :: "(nat \<Rightarrow> time) \<Rightarrow> uuid \<Rightarrow> uuid \<Rightarrow> db \<Rightarrow> db \<times> Defense result" where
  "Cancel clk actor i s = then_get (clk 4) actor s (Cancel_tx clk actor i s)"

text \<open>\<open>jsonRaw\<close>: a null column reads as \<open>nil\<close>, as does the JSON value \<open>null\<close>.\<close>

definition jsonRaw :: "json option \<Rightarrow> json" where
  "jsonRaw v = (case v of None \<Rightarrow> JNull | Some x \<Rightarrow> x)"

definition attempt_view :: "attempt_row \<Rightarrow> Attempt" where
  "attempt_view a =
     \<lparr>at_id = a_id a, at_defense_id = a_defense_id a, at_no = a_no a, at_outcome = a_outcome a,
      at_accepted_at = a_accepted_at a, at_finished_at = a_finished_at a,
      at_configure = jsonRaw (a_configure a), at_build = jsonRaw (a_build a),
      at_ctest = jsonRaw (a_ctest a), at_reference = a_reference a, at_timings = a_timings a\<rparr>"

definition getAttemptUnscoped :: "db \<Rightarrow> uuid \<Rightarrow> Attempt result" where
  "getAttemptUnscoped s i =
     (case select_one (\<lambda>a. a_id a = i) (attempts s) of
        None \<Rightarrow> Inl ErrNoRows
      | Some a \<Rightarrow> Inr (attempt_view a))"

definition GetAttempt :: "db \<Rightarrow> uuid \<Rightarrow> uuid \<Rightarrow> Attempt result" where
  "GetAttempt s actor i =
     (case select_one (\<lambda>a. a_id a = i) (attempts s) of
        None \<Rightarrow> Inl ErrForbidden
      | Some a \<Rightarrow>
          (case (defense_by_id s (a_defense_id a), active_user s actor) of
             (Some d, Some u) \<Rightarrow>
               (case defense_record s d of
                  Some (sv, sr) \<Rightarrow> if may_view s u sr then Inr (attempt_view a) else Inl ErrForbidden
                | None \<Rightarrow> Inl ErrForbidden)
           | _ \<Rightarrow> Inl ErrForbidden))"

definition next_attempt_no :: "db \<Rightarrow> uuid \<Rightarrow> int" where
  "next_attempt_no s i =
     fold max (map a_no (filter (\<lambda>a. a_defense_id a = i) (attempts s))) 0 + 1"

definition new_attempt :: "time \<Rightarrow> uuid \<Rightarrow> uuid \<Rightarrow> int \<Rightarrow> uuid \<Rightarrow> string \<Rightarrow> attempt_row" where
  "new_attempt now i defense no key answer =
     \<lparr>a_id = i, a_defense_id = defense, a_no = no, a_key = key, a_answer = answer,
      a_answer_sha256 = sha256 answer, a_accepted_at = now, a_outcome = OPending,
      a_configure = None, a_build = None, a_ctest = None, a_finished_at = None,
      a_reference = None, a_timings = None\<rparr>"

text \<open>The transaction of \<open>Attempt\<close>; \<open>clk 0\<close> is when the deadline is compared.\<close>

definition Attempt_tx ::
  "(nat \<Rightarrow> time) \<Rightarrow> uuid \<Rightarrow> uuid \<Rightarrow> uuid \<Rightarrow> string \<Rightarrow> uuid \<Rightarrow> uuid \<Rightarrow> db \<Rightarrow> (db \<times> uuid) result" where
  "Attempt_tx clk actor i key answer attemptID jobID s =
     (if \<not> list_ex (draft_open s (clk 0) actor i) (defenses s) then Inl ErrConflict
      else
        (case select_one (\<lambda>a. a_defense_id a = i \<and> a_key a = key) (attempts s) of
           Some a \<Rightarrow> Inr (s, a_id a)
         | None \<Rightarrow>
             (case insert_attempt (new_attempt (clk 1) attemptID i (next_attempt_no s i) key answer) s of
                None \<Rightarrow> Inl ErrConflict
              | Some s1 \<Rightarrow>
                  bind_result (statement (insert_job (new_job (clk 2) jobID CheckAttempt i (Some attemptID)) s1)) (\<lambda>s2.
                  Inr (s2, attemptID)))))"

definition Attempt_op ::
  "(nat \<Rightarrow> time) \<Rightarrow> uuid \<Rightarrow> uuid \<Rightarrow> uuid \<Rightarrow> string \<Rightarrow> uuid \<Rightarrow> uuid \<Rightarrow> db \<Rightarrow> db \<times> Attempt result" where
  "Attempt_op clk actor i key answer attemptID jobID s =
     (case Attempt_tx clk actor i key answer attemptID jobID s of
        Inl e \<Rightarrow> (s, Inl e)
      | Inr (s', a) \<Rightarrow> (s', GetAttempt s' actor a))"

section \<open>The job queue\<close>

record SelectedFunction =
  sf_function_name :: string
  sf_entity_type :: string
  sf_file_path :: string
  sf_signature_begin :: int
  sf_body_begin :: int
  sf_body_end :: int
  sf_source_sha256 :: string

record Lease =
  le_queue_wait_ms :: int
  le_mode :: string
  le_mutations :: "Mutation list"
  le_job_id :: uuid
  le_kind :: job_kind
  le_defense_id :: uuid
  le_attempt_id :: "uuid option"
  le_token :: string
  le_expires_at :: time
  le_session_id :: uuid
  le_object_key :: string
  le_seed :: string
  le_top_n :: int
  le_selected_index :: "int option"
  le_answer :: "string option"
  le_selected_function :: "SelectedFunction option"

definition runner_upsert_row :: "time \<Rightarrow> uuid \<Rightarrow> int \<Rightarrow> bytes \<Rightarrow> runner_row" where
  "runner_upsert_row now runnerID slots credentialHash =
     \<lparr>r_id = runnerID, r_name = ''runner-'' @ runnerID, r_status = RunnerActive, r_slots = slots,
      r_agent_version = ''2.1.0'', r_credential_hash = credentialHash, r_heartbeat_at = Some now,
      r_disabled_at = None\<rparr>"

definition lease_expired :: "time \<Rightarrow> job_row \<Rightarrow> bool" where
  "lease_expired now j \<longleftrightarrow>
     j_state j = JLeased \<and> (case j_expires_at j of None \<Rightarrow> False | Some t \<Rightarrow> t < now)"

definition retry_job :: "job_row \<Rightarrow> job_row" where
  "retry_job j =
     (clear_job (if j_retry_count j + 1 > j_max_retries j then JDead else JQueued) j)
       \<lparr>j_retry_count := j_retry_count j + 1\<rparr>"

definition set_exhausted :: "defense_row \<Rightarrow> defense_row" where
  "set_exhausted d = d\<lparr>d_status := DError, d_terminal_reason := Some ''runner retries exhausted''\<rparr>"

text \<open>The loop over the jobs whose lease had expired, in their new state.\<close>

definition settle_expired :: "time \<Rightarrow> job_row \<Rightarrow> db \<Rightarrow> db option" where
  "settle_expired now item s =
     Option.bind
       (update_leases (\<lambda>l. l_job_id l = j_id item \<and> l_released_at l = None) (release_lease now ''expired'') s)
       (\<lambda>s1. Option.bind
          (if j_state item = JDead \<and> j_kind item = PrepareDefense
           then update_defenses now (\<lambda>d. d_id d = j_defense_id item \<and> d_status d = DPreparing)
                  set_exhausted s1
           else Some s1)
          (\<lambda>s2.
             if j_state item = JDead then
               (case j_attempt_id item of
                  None \<Rightarrow> Some s2
                | Some a \<Rightarrow>
                    update_attempts (\<lambda>r. a_id r = a \<and> a_outcome r = OPending)
                      (fail_attempt now ''runner retries exhausted'') s2)
             else Some s2))"

fun settle_all :: "time \<Rightarrow> job_row list \<Rightarrow> db \<Rightarrow> db option" where
  "settle_all now [] s = Some s"
| "settle_all now (item # items) s = Option.bind (settle_expired now item s) (settle_all now items)"

text \<open>
  The choice of the next job: available, joined to its defense and submission, not locked by
  another transaction, highest priority first and then oldest.
\<close>

definition available :: "time \<Rightarrow> db \<Rightarrow> job_row \<Rightarrow> bool" where
  "available now s j \<longleftrightarrow>
     (j_state j = JQueued \<or> j_state j = JRetryWait) \<and> j_available_at j \<le> now
     \<and> (case defense_by_id s (j_defense_id j) of
          None \<Rightarrow> False
        | Some d \<Rightarrow> submission_by_id s (d_submission_id d) \<noteq> None)"

definition queue_before :: "job_row \<Rightarrow> job_row \<Rightarrow> bool" where
  "queue_before a b =
     (if j_priority a \<noteq> j_priority b then j_priority a > j_priority b else j_created_at a < j_created_at b)"

definition next_job :: "time \<Rightarrow> (uuid \<Rightarrow> bool) \<Rightarrow> db \<Rightarrow> job_row option" where
  "next_job now locked s =
     (case slice_stable queue_before (filter (\<lambda>j. available now s j \<and> \<not> locked (j_id j)) (jobs s)) of
        [] \<Rightarrow> None
      | j # _ \<Rightarrow> Some j)"

definition queue_wait_ms :: "time \<Rightarrow> job_row \<Rightarrow> int" where
  "queue_wait_ms now j = max 0 ((now - max (j_created_at j) (j_available_at j) + 500) div 1000)"

definition set_leased :: "uuid \<Rightarrow> string \<Rightarrow> time \<Rightarrow> job_row \<Rightarrow> job_row" where
  "set_leased runnerID token expires j =
     j\<lparr>j_state := JLeased, j_owner := Some runnerID, j_token_hash := Some (sha256 token),
       j_expires_at := Some expires\<rparr>"

definition new_lease :: "time \<Rightarrow> db \<Rightarrow> uuid \<Rightarrow> uuid \<Rightarrow> uuid \<Rightarrow> string \<Rightarrow> time \<Rightarrow> lease_row" where
  "new_lease now s leaseID job runnerID token expires =
     \<lparr>l_id = leaseID, l_job_id = job, l_runner_id = runnerID,
      l_no = int (rows_affected (\<lambda>l. l_job_id l = job) (leases s)) + 1,
      l_fingerprint = hex_encode (take 8 (sha256 token)), l_leased_at = now, l_expires_at = expires,
      l_released_at = None, l_release_reason = None\<rparr>"

text \<open>
  The transaction of \<open>Lease\<close>.  Its first part, registering the runner and putting expired leases
  back, is committed also when no job is available.  \<open>appNow\<close> is the clock of the server process,
  from which the end of the lease is counted.
\<close>

definition reclaim_tx ::
  "(nat \<Rightarrow> time) \<Rightarrow> uuid \<Rightarrow> int \<Rightarrow> bytes \<Rightarrow> db \<Rightarrow> db result" where
  "reclaim_tx clk runnerID slots credentialHash s =
     bind_result (statement (upsert_runner (runner_upsert_row (clk 0) runnerID slots credentialHash) s)) (\<lambda>s1.
     bind_result (statement (update_jobs (clk 1) (lease_expired (clk 1)) retry_job s1)) (\<lambda>s2.
     statement (settle_all (clk 2) (map (put_job (clk 1) retry_job) (filter (lease_expired (clk 1)) (jobs s1))) s2)))"

definition lease_expiry :: "time \<Rightarrow> time" where
  "lease_expiry appNow = appNow + seconds 120"

definition Lease_tx ::
  "(nat \<Rightarrow> time) \<Rightarrow> time \<Rightarrow> (uuid \<Rightarrow> bool) \<Rightarrow> uuid \<Rightarrow> int \<Rightarrow> bytes \<Rightarrow> string \<Rightarrow> uuid \<Rightarrow> db
     \<Rightarrow> (db \<times> job_row option) result" where
  "Lease_tx clk appNow locked runnerID slots credentialHash token leaseID s =
     bind_result (reclaim_tx clk runnerID slots credentialHash s) (\<lambda>s1.
       case next_job (clk 3) locked s1 of
         None \<Rightarrow> Inr (s1, None)
       | Some j \<Rightarrow>
           bind_result (statement (update_jobs (clk 4) (\<lambda>q. j_id q = j_id j)
               (set_leased runnerID token (lease_expiry appNow)) s1)) (\<lambda>s2.
           bind_result (statement (insert_lease
               (new_lease (clk 5) s2 leaseID (j_id j) runnerID token (lease_expiry appNow)) s2)) (\<lambda>s3.
           Inr (s3, Some j))))"

definition leased_function :: "db \<Rightarrow> uuid \<Rightarrow> SelectedFunction option" where
  "leased_function s i =
     map_option
       (\<lambda>c. \<lparr>sf_function_name = c_function_name c, sf_entity_type = c_entity_type c,
             sf_file_path = c_file_path c, sf_signature_begin = c_signature_begin c,
             sf_body_begin = c_body_start c, sf_body_end = c_body_end c,
             sf_source_sha256 = hex_encode (c_source_sha256 c)\<rparr>)
       (select_one (\<lambda>c. c_defense_id c = i \<and> c_is_selected c) (candidates s))"

definition leased_index :: "db \<Rightarrow> defense_row \<Rightarrow> int option" where
  "leased_index s d =
     (case d_selected_id d of
        None \<Rightarrow> None
      | Some i \<Rightarrow> map_option (\<lambda>c. c_rank c - 1) (select_one (\<lambda>c. c_id c = i) (candidates s)))"

text \<open>What the runner is told about the job: the columns of the query and the reads after it.\<close>

definition lease_base :: "db \<Rightarrow> time \<Rightarrow> time \<Rightarrow> string \<Rightarrow> job_row \<Rightarrow> defense_row \<Rightarrow> submission_row \<Rightarrow> Lease" where
  "lease_base s now appNow token j d sv =
     \<lparr>le_queue_wait_ms = queue_wait_ms now j, le_mode = d_mode d, le_mutations = d_hide_mutations d,
      le_job_id = j_id j, le_kind = j_kind j, le_defense_id = j_defense_id j,
      le_attempt_id = j_attempt_id j, le_token = token, le_expires_at = lease_expiry appNow,
      le_session_id = d_session_id d, le_object_key = sv_object_key sv,
      le_seed = decimal (nat (d_seed d)),
      le_top_n = (case d_wheel_size d of None \<Rightarrow> 12 | Some n \<Rightarrow> n), le_selected_index = None,
      le_answer = (case j_attempt_id j of
                     None \<Rightarrow> None
                   | Some a \<Rightarrow> map_option a_answer (select_one (\<lambda>r. a_id r = a) (attempts s))),
      le_selected_function = None\<rparr>"

definition lease_view :: "db \<Rightarrow> time \<Rightarrow> time \<Rightarrow> string \<Rightarrow> job_row \<Rightarrow> Lease result" where
  "lease_view s now appNow token j =
     (case defense_by_id s (j_defense_id j) of
        None \<Rightarrow> Inl ErrNoRows
      | Some d \<Rightarrow>
          (case submission_by_id s (d_submission_id d) of
             None \<Rightarrow> Inl ErrNoRows
           | Some sv \<Rightarrow>
               (let v = lease_base s now appNow token j d sv in
                if d_mode d = ''hide_seek'' then Inr v
                else if j_kind j = CheckAttempt then
                  (case leased_function s (d_id d) of
                     None \<Rightarrow> Inl ErrNoRows
                   | Some f \<Rightarrow> Inr (v\<lparr>le_selected_function := Some f\<rparr>))
                else Inr (v\<lparr>le_selected_index := leased_index s d\<rparr>))))"

definition Lease_op ::
  "(nat \<Rightarrow> time) \<Rightarrow> time \<Rightarrow> (uuid \<Rightarrow> bool) \<Rightarrow> uuid \<Rightarrow> int \<Rightarrow> bytes \<Rightarrow> string \<Rightarrow> uuid \<Rightarrow> db \<Rightarrow> db \<times> Lease result" where
  "Lease_op clk appNow locked runnerID slots credentialHash token leaseID s =
     (case Lease_tx clk appNow locked runnerID slots credentialHash token leaseID s of
        Inl e \<Rightarrow> (s, Inl e)
      | Inr (s', None) \<Rightarrow> (s', Inl ErrNoRows)
      | Inr (s', Some j) \<Rightarrow> (s', lease_view s' (clk 3) appNow token j))"

definition live_lease :: "time \<Rightarrow> uuid \<Rightarrow> string \<Rightarrow> job_row \<Rightarrow> bool" where
  "live_lease now job token j \<longleftrightarrow>
     j_id j = job \<and> (j_state j = JLeased \<or> j_state j = JRunning) \<and> j_token_hash j = Some (sha256 token)
     \<and> (case j_expires_at j of None \<Rightarrow> False | Some t \<Rightarrow> t > now)"

definition Heartbeat :: "time \<Rightarrow> uuid \<Rightarrow> string \<Rightarrow> db \<Rightarrow> db \<times> unit result" where
  "Heartbeat now job token s =
     (case update_jobs now (live_lease now job token)
            (\<lambda>j. j\<lparr>j_expires_at := Some (now + seconds 120), j_updated_at := now\<rparr>) s of
        None \<Rightarrow> (s, Inl ErrConflict)
      | Some s' \<Rightarrow>
          if rows_affected (live_lease now job token) (jobs s) \<noteq> 1 then (s', Inl ErrConflict)
          else (s', Inr ()))"

section \<open>Completion of a job\<close>

record Candidate =
  FunctionName_in :: string
  EntityType_in :: string
  IsTestFile_in :: bool
  FilePath_in :: string
  Signature_in :: string
  SignatureBegin_in :: int
  BodyBegin_in :: int
  BodyEnd_in :: int
  BeginLine_in :: int
  EndLine_in :: int
  LineCount_in :: int
  SourceSHA256_in :: string
  OriginalBodySHA256_in :: string

record Completion =
  Timings :: "JobTimings option"
  ReferenceRes :: "ReferenceResult option"
  HideVal :: "HideValidation option"
  Outcome :: string
  Candidates :: "Candidate list"
  SelectedIndex :: int
  MaskedSource :: string
  ConfigureResult :: json
  BuildResult :: json
  CTestResult :: json

definition candidate_of :: "uuid \<Rightarrow> uuid \<Rightarrow> int \<Rightarrow> Candidate \<Rightarrow> candidate_row result" where
  "candidate_of i defense rank c =
     (if \<not> (EntityType_in c = ''function'' \<or> EntityType_in c = ''class'' \<or> EntityType_in c = ''struct'')
      then Inl (ErrText ''invalid entity type'')
      else
        (case hex_decode (SourceSHA256_in c) of
           None \<Rightarrow> Inl (ErrText ''invalid source digest'')
         | Some src \<Rightarrow>
             if length src \<noteq> 32 then Inl (ErrText ''invalid source digest'')
             else
               (case hex_decode (OriginalBodySHA256_in c) of
                  None \<Rightarrow> Inl (ErrText ''invalid body digest'')
                | Some body \<Rightarrow>
                    if length body \<noteq> 32 then Inl (ErrText ''invalid body digest'')
                    else Inr
                      \<lparr>c_id = i, c_defense_id = defense, c_rank = rank, c_function_name = FunctionName_in c,
                       c_file_path = FilePath_in c, c_signature = Signature_in c,
                       c_signature_begin = SignatureBegin_in c, c_body_start = BodyBegin_in c,
                       c_body_end = BodyEnd_in c, c_start_line = BeginLine_in c, c_end_line = EndLine_in c,
                       c_line_count = LineCount_in c, c_source_sha256 = src, c_body_sha256 = body,
                       c_is_selected = False, c_masked_source = None, c_entity_type = EntityType_in c,
                       c_is_test_file = IsTestFile_in c, c_wheel_rank = None\<rparr>)))"

fun insert_all_candidates :: "(nat \<Rightarrow> uuid) \<Rightarrow> uuid \<Rightarrow> nat \<Rightarrow> Candidate list \<Rightarrow> db \<Rightarrow> db result" where
  "insert_all_candidates newID defense index [] s = Inr s"
| "insert_all_candidates newID defense index (c # cs) s =
     bind_result (candidate_of (newID index) defense (int index + 1) c) (\<lambda>row.
     bind_result (statement (insert_candidate row s)) (\<lambda>s1.
     insert_all_candidates newID defense (Suc index) cs s1))"

definition set_active :: "time \<Rightarrow> defense_row \<Rightarrow> defense_row" where
  "set_active now d =
     d\<lparr>d_status := DActive, d_started_at := Some now, d_deadline_at := Some (now + seconds (d_time_limit d))\<rparr>"

definition unfinished_message :: string where
  "unfinished_message = map char_of
      [82, 117, 110, 110, 101, 114, 32, 208, 189, 208, 181, 32, 208, 183, 208, 176, 208, 178, 208,
       181, 209, 128, 209, 136, 208, 184, 208, 187, 32, 208, 191, 209, 128, 208, 190, 208, 178,
       208, 181, 209, 128, 208, 186, 209, 131, 32, 208, 183, 208, 176, 208, 180, 208, 176, 208,
       189, 208, 184, 209, 143 :: nat]"

definition missing_report :: HideValidation where
  "missing_report =
     \<lparr>Valid = False, Message = unfinished_message,
      Baseline = JNull, Mutated = JNull, Restored = JNull\<rparr>"

definition completeHide :: "time \<Rightarrow> uuid \<Rightarrow> Completion \<Rightarrow> db \<Rightarrow> db result" where
  "completeHide now defense input s =
     (let report = (case HideVal input of None \<Rightarrow> missing_report | Some r \<Rightarrow> r) in
      if Valid report \<and> Outcome input \<noteq> ''error'' then
        statement (update_defenses now (\<lambda>d. d_id d = defense \<and> d_status d = DPreparing)
          (\<lambda>d. set_active now (d\<lparr>d_hide_report := Some report, d_hide_error := None\<rparr>)) s)
      else
        statement (update_defenses now (\<lambda>d. d_id d = defense \<and> d_status d = DPreparing)
          (\<lambda>d. d\<lparr>d_hide_report := Some report, d_hide_error := Some (Message report), d_status := DReady\<rparr>) s))"

text \<open>The analysis phase stores the candidates, the masking phase starts the clock.\<close>

definition completeRestore :: "(nat \<Rightarrow> time) \<Rightarrow> (nat \<Rightarrow> uuid) \<Rightarrow> uuid \<Rightarrow> Completion \<Rightarrow> db \<Rightarrow> db result" where
  "completeRestore clk newID defense input s =
     (if Outcome input = ''error'' then
        statement (update_defenses (clk 3) (\<lambda>d. d_id d = defense \<and> d_status d = DPreparing)
          (\<lambda>d. d\<lparr>d_status := DError, d_terminal_reason := Some ''worker preparation failed''\<rparr>) s)
      else if Candidates input = [] \<or> SelectedIndex input < 0
        \<or> SelectedIndex input \<ge> int (length (Candidates input)) \<or> length (MaskedSource input) > 4194304
      then Inl (ErrText ''invalid candidates'')
      else
        (case defense_by_id s defense of
           None \<Rightarrow> Inl ErrNoRows
         | Some d \<Rightarrow>
             (case d_selected_id d of
                None \<Rightarrow>
                  bind_result (insert_all_candidates newID defense 0 (Candidates input) s) (\<lambda>s1.
                  statement (update_defenses (clk 3) (\<lambda>d. d_id d = defense \<and> d_status d = DPreparing)
                    (\<lambda>d. d\<lparr>d_status := DReady, d_suggested_rank := Some (SelectedIndex input + 1)\<rparr>) s1))
              | Some sel \<Rightarrow>
                  if MaskedSource input = '''' then Inl (ErrText ''masked source is missing'')
                  else
                    bind_result (statement (update_candidates (\<lambda>c. c_id c = sel \<and> c_is_selected c)
                      (\<lambda>c. c\<lparr>c_masked_source := Some (MaskedSource input)\<rparr>) s)) (\<lambda>s1.
                    statement (update_defenses (clk 4) (\<lambda>d. d_id d = defense \<and> d_status d = DPreparing)
                      (set_active (clk 4)) s1)))))"

definition completePreparation :: "(nat \<Rightarrow> time) \<Rightarrow> (nat \<Rightarrow> uuid) \<Rightarrow> uuid \<Rightarrow> Completion \<Rightarrow> db \<Rightarrow> db result" where
  "completePreparation clk newID defense input s =
     bind_result
       (case Timings input of
          None \<Rightarrow> Inr s
        | Some t \<Rightarrow>
            bind_result (JobTimings_Validate t) (\<lambda>_.
            statement (update_defenses (clk 2) (\<lambda>d. d_id d = defense) (\<lambda>d. d\<lparr>d_timings := Some t\<rparr>) s)))
       (\<lambda>s1.
          case defense_by_id s1 defense of
            None \<Rightarrow> Inl ErrNoRows
          | Some d \<Rightarrow>
              if d_mode d = ''hide_seek'' then completeHide (clk 3) defense input s1
              else completeRestore clk newID defense input s1)"

definition outcome_of :: "string \<Rightarrow> attempt_outcome option" where
  "outcome_of s =
     (if s = ''passed'' then Some OPassed else if s = ''failed'' then Some OFailed
      else if s = ''error'' then Some OError else None)"

text \<open>
  The results of an attempt.  A reference acceptance carries no results of its own and stores
  null; otherwise every result is stored as JSON, an absent one as the JSON value \<open>null\<close>.
\<close>

definition record_outcome :: "time \<Rightarrow> attempt_outcome \<Rightarrow> Completion \<Rightarrow> attempt_row \<Rightarrow> attempt_row" where
  "record_outcome now oc input a =
     (let stored = (\<lambda>v. if ReferenceRes input = None then Some v else None) in
      a\<lparr>a_outcome := oc, a_configure := stored (ConfigureResult input), a_build := stored (BuildResult input),
        a_ctest := stored (CTestResult input), a_reference := ReferenceRes input,
        a_timings := Timings input, a_finished_at := Some now\<rparr>)"

definition check_reference :: "int \<Rightarrow> Completion \<Rightarrow> unit result" where
  "check_reference goNow input =
     (case ReferenceRes input of
        None \<Rightarrow> Inr ()
      | Some r \<Rightarrow>
          if Outcome input \<noteq> ''passed'' \<or> ConfigureResult input \<noteq> JNull \<or> BuildResult input \<noteq> JNull
             \<or> CTestResult input \<noteq> JNull
          then Inl (ErrText ''invalid reference completion'')
          else ReferenceResult_Validate goNow r)"

definition set_passed :: "time \<Rightarrow> defense_row \<Rightarrow> defense_row" where
  "set_passed now d =
     d\<lparr>d_status := DPassed, d_finished_at := Some now, d_terminal_reason := Some ''attempt passed''\<rparr>"

definition completeAttempt ::
  "(nat \<Rightarrow> time) \<Rightarrow> int \<Rightarrow> uuid \<Rightarrow> uuid option \<Rightarrow> Completion \<Rightarrow> db \<Rightarrow> db result" where
  "completeAttempt clk goNow defense attempt input s =
     (case attempt of
        None \<Rightarrow> Inl (ErrText ''attempt missing'')
      | Some a \<Rightarrow>
          (case outcome_of (Outcome input) of
             None \<Rightarrow> Inl (ErrText ''invalid outcome'')
           | Some oc \<Rightarrow>
               bind_result (check_reference goNow input) (\<lambda>_.
               bind_result (case Timings input of None \<Rightarrow> Inr () | Some t \<Rightarrow> JobTimings_Validate t) (\<lambda>_.
               bind_result (statement (update_attempts (\<lambda>r. a_id r = a \<and> a_outcome r = OPending)
                   (record_outcome (clk 2) oc input) s)) (\<lambda>s1.
               if Outcome input = ''passed''
               then statement (update_defenses (clk 3) (\<lambda>d. d_id d = defense \<and> d_status d = DActive)
                      (set_passed (clk 3)) s1)
               else Inr s1)))))"

text \<open>
  The lookup of the job by its token: a lease that is still valid, or a job that this token has
  already completed.
\<close>

definition completable :: "time \<Rightarrow> uuid \<Rightarrow> string \<Rightarrow> job_row \<Rightarrow> bool" where
  "completable now job token j \<longleftrightarrow>
     j_id j = job \<and> j_token_hash j = Some (sha256 token)
     \<and> (j_state j = JCompleted
        \<or> (j_state j = JLeased \<or> j_state j = JRunning)
          \<and> (case j_expires_at j of None \<Rightarrow> False | Some t \<Rightarrow> t > now))"

definition Complete_tx ::
  "(nat \<Rightarrow> time) \<Rightarrow> int \<Rightarrow> (nat \<Rightarrow> uuid) \<Rightarrow> uuid \<Rightarrow> string \<Rightarrow> Completion \<Rightarrow> db \<Rightarrow> (db \<times> job_row) result" where
  "Complete_tx clk goNow newID job token input s =
     (case select_one (completable (clk 0) job token) (jobs s) of
        None \<Rightarrow> Inl ErrConflict
      | Some j \<Rightarrow>
          if j_state j = JCompleted then Inr (s, j)
          else
            bind_result (statement (update_jobs (clk 1) (\<lambda>q. j_id q = job \<and> j_state q = JLeased)
                (\<lambda>q. q\<lparr>j_state := JRunning\<rparr>) s)) (\<lambda>s1.
            bind_result
              (if j_kind j = PrepareDefense then completePreparation clk newID (j_defense_id j) input s1
               else completeAttempt clk goNow (j_defense_id j) (j_attempt_id j) input s1) (\<lambda>s2.
            bind_result (statement (update_jobs (clk 5) (\<lambda>q. j_id q = job) (\<lambda>q. q\<lparr>j_state := JCompleted\<rparr>) s2)) (\<lambda>s3.
            bind_result (statement (update_leases (\<lambda>l. l_job_id l = job \<and> l_released_at l = None)
                (release_lease (clk 6) ''completed'') s3)) (\<lambda>s4.
            Inr (s4, j))))))"

definition Complete ::
  "(nat \<Rightarrow> time) \<Rightarrow> int \<Rightarrow> (nat \<Rightarrow> uuid) \<Rightarrow> uuid \<Rightarrow> string \<Rightarrow> Completion \<Rightarrow> db \<Rightarrow> db \<times> Attempt option result" where
  "Complete clk goNow newID job token input s =
     (case Complete_tx clk goNow newID job token input s of
        Inl e \<Rightarrow> (s, Inl e)
      | Inr (s', j) \<Rightarrow>
          (s', case j_attempt_id j of
                 None \<Rightarrow> Inr None
               | Some a \<Rightarrow> bind_result (getAttemptUnscoped s' a) (\<lambda>v. Inr (Some v))))"

end
