(* ===== verification/Defense_Effects.thy ===== *)
theory Defense_Effects
  imports Defense_Repository
begin

text \<open>
  What the transactions of \<open>DefenseRepository\<close> do to the tables when they succeed: for each one a
  lemma that gives the new state explicitly.  The invariants and the properties of the following
  theories rest on these lemmas and not on the definitions.
\<close>

section \<open>Updates of tables\<close>

lemma update_where_cond_cong: "(\<And>r. c r = c' r) \<Longrightarrow> update_where c f rs = update_where c' f rs"
  by (simp add: update_where_def)

lemma update_where_append: "update_where c f (xs @ ys) = update_where c f xs @ update_where c f ys"
  by (simp add: update_where_def)

lemma update_where_Cons:
  "update_where c f (x # xs) = (if c x then f x else x) # update_where c f xs"
  by (simp add: update_where_def)

lemma update_where_Nil [simp]: "update_where c f [] = []"
  by (simp add: update_where_def)

lemma update_where_twice:
  "update_where c2 g (update_where c1 f rs)
     = map (\<lambda>r. if c1 r then (if c2 (f r) then g (f r) else f r) else if c2 r then g r else r) rs"
  by (auto simp: update_where_def)

lemma update_where_or:
  assumes "\<And>r. c1 r \<Longrightarrow> \<not> c2 (f r)"
  shows "update_where c2 f (update_where c1 f rs) = update_where (\<lambda>r. c1 r \<or> c2 r) f rs"
  using assms by (auto simp: update_where_def)

lemma update_where_mem_iff:
  "r \<in> set (update_where c f rs) \<longleftrightarrow> (\<exists>q\<in>set rs. r = (if c q then f q else q))"
  by (auto simp: set_update_where)

lemma update_where_memI: "q \<in> set rs \<Longrightarrow> (if c q then f q else q) \<in> set (update_where c f rs)"
  by (simp add: set_update_where)

lemma map_update_where:
  "(\<And>r. r \<in> set rs \<Longrightarrow> c r \<Longrightarrow> k (f r) = k r) \<Longrightarrow> map k (update_where c f rs) = map k rs"
  by (simp add: update_where_def)

lemma unique_on_update_where:
  assumes "\<And>r. r \<in> set rs \<Longrightarrow> c r \<Longrightarrow> k (f r) = k r \<and> (p (f r) \<longrightarrow> p r)"
    and "unique_on p k rs"
  shows "unique_on p k (update_where c f rs)"
  using assms(2) assms(1)
  by (induction rs) (auto simp: table_simps update_where_Cons update_where_mem_iff split: if_splits)

lemma exists_id_update_where [simp]:
  assumes "\<And>r. k (f r) = k r"
  shows "exists_id k x (update_where c f rs) = exists_id k x rs"
proof -
  have "set (map k (update_where c f rs)) = set (map k rs)"
    using assms by (subst map_update_where) auto
  then show ?thesis by (simp add: exists_id_iff)
qed

lemma exists_id_append [simp]: "exists_id k x (rs @ rs') \<longleftrightarrow> exists_id k x rs \<or> exists_id k x rs'"
  by (simp add: exists_id_def)

lemma references_append [simp]: "references k x rs \<Longrightarrow> references k x (rs @ rs')"
  by (auto simp: references_def split: option.splits)

text \<open>Fields that the bookkeeping of a trigger leaves alone.\<close>

lemma put_defense_simps [simp]:
  "d_id (put_defense now f d) = d_id (f d)"
  "d_session_id (put_defense now f d) = d_session_id (f d)"
  "d_submission_id (put_defense now f d) = d_submission_id (f d)"
  "d_status (put_defense now f d) = d_status (f d)"
  "d_seed (put_defense now f d) = d_seed (f d)"
  "d_time_limit (put_defense now f d) = d_time_limit (f d)"
  "d_started_at (put_defense now f d) = d_started_at (f d)"
  "d_deadline_at (put_defense now f d) = d_deadline_at (f d)"
  "d_finished_at (put_defense now f d) = d_finished_at (f d)"
  "d_draft (put_defense now f d) = d_draft (f d)"
  "d_draft_version (put_defense now f d) = d_draft_version (f d)"
  "d_selected_id (put_defense now f d) = d_selected_id (f d)"
  "d_terminal_reason (put_defense now f d) = d_terminal_reason (f d)"
  "d_start_key (put_defense now f d) = d_start_key (f d)"
  "d_suggested_rank (put_defense now f d) = d_suggested_rank (f d)"
  "d_selection_mode (put_defense now f d) = d_selection_mode (f d)"
  "d_wheel_size (put_defense now f d) = d_wheel_size (f d)"
  "d_entity_mode (put_defense now f d) = d_entity_mode (f d)"
  "d_mode (put_defense now f d) = d_mode (f d)"
  "d_hide_mutations (put_defense now f d) = d_hide_mutations (f d)"
  "d_hide_report (put_defense now f d) = d_hide_report (f d)"
  "d_hide_error (put_defense now f d) = d_hide_error (f d)"
  "d_timings (put_defense now f d) = d_timings (f d)"
  "d_created_at (put_defense now f d) = d_created_at (f d)"
  by (simp_all add: put_defense_def)

lemma put_job_simps [simp]:
  "j_id (put_job now f j) = j_id (f j)"
  "j_kind (put_job now f j) = j_kind (f j)"
  "j_defense_id (put_job now f j) = j_defense_id (f j)"
  "j_attempt_id (put_job now f j) = j_attempt_id (f j)"
  "j_state (put_job now f j) = j_state (f j)"
  "j_priority (put_job now f j) = j_priority (f j)"
  "j_available_at (put_job now f j) = j_available_at (f j)"
  "j_retry_count (put_job now f j) = j_retry_count (f j)"
  "j_max_retries (put_job now f j) = j_max_retries (f j)"
  "j_owner (put_job now f j) = j_owner (f j)"
  "j_token_hash (put_job now f j) = j_token_hash (f j)"
  "j_expires_at (put_job now f j) = j_expires_at (f j)"
  "j_timeout (put_job now f j) = j_timeout (f j)"
  "j_created_at (put_job now f j) = j_created_at (f j)"
  by (simp_all add: put_job_def)

section \<open>Transactions of students and teachers\<close>

lemma Create_tx_cases:
  assumes "Create_tx clk actor submission key i session job seed s = Inr (s', x)"
  obtains
    (existing) d where "s' = s" and "d \<in> set (defenses s)" and "x = d_id d" and "d_submission_id d = submission"
      and "d_start_key d = Some key \<or> open_status (d_status d)"
  | (created) d j where "x = i" and "s' = s\<lparr>defenses := defenses s @ [d], jobs := jobs s @ [j]\<rparr>"
      and "d = put_defense (clk 1) (\<lambda>d. d\<lparr>d_status := DPreparing\<rparr>) (new_defense (clk 0) i session submission seed key)"
      and "j = new_job (clk 2) job PrepareDefense i None"
      and "defense_check d" and "job_check j" and "defenses_unique (defenses s @ [d])" and "jobs_unique (jobs s @ [j])"
      and "\<And>q. q \<in> set (defenses s) \<Longrightarrow> d_submission_id q = submission \<Longrightarrow> \<not> open_status (d_status q)"
      and "exists_id sv_id submission (submission_versions s)"
proof -
  obtain sv where sv: "submission_by_id s submission = Some sv" and own: "owns_submission s actor sv"
    using assms by (auto simp: Create_tx_def split: option.splits if_splits)
  show thesis
  proof (cases "select_one (\<lambda>d. d_submission_id d = submission \<and> d_start_key d = Some key) (defenses s)")
    case (Some d)
    then show thesis
      using assms sv own existing [of d] select_one_SomeD [OF Some] by (auto simp: Create_tx_def)
  next
    case None
    note nokey = None
    show thesis
    proof (cases "select_one (\<lambda>d. d_submission_id d = submission \<and> open_status (d_status d)) (defenses s)")
      case (Some d)
      then show thesis
        using assms sv own nokey existing [of d] select_one_SomeD [OF Some] by (auto simp: Create_tx_def)
    next
      case None
      let ?n = "new_defense (clk 0) i session submission seed key"
      let ?f = "\<lambda>d. d\<lparr>d_status := DPreparing\<rparr>"
      let ?d = "put_defense (clk 1) ?f ?n"
      have ins: "defenses_unique (defenses s @ [?n])" "exists_id sv_id submission (submission_versions s)" "x = i"
        and upd: "defenses_unique (update_where (\<lambda>d. d_id d = i) (put_defense (clk 1) ?f) (defenses s @ [?n]))"
          "defense_check ?d"
        and s': "s' = s\<lparr>defenses := update_where (\<lambda>d. d_id d = i) (put_defense (clk 1) ?f) (defenses s @ [?n]),
                        jobs := jobs s @ [new_job (clk 2) job PrepareDefense i None]\<rparr>"
          "jobs_unique (jobs s @ [new_job (clk 2) job PrepareDefense i None])"
          "job_check (new_job (clk 2) job PrepareDefense i None)"
        using assms sv own nokey None
        by (auto simp: Create_tx_def table_simps) (simp_all add: new_defense_def)
      have "d_id q \<noteq> i" if "q \<in> set (defenses s)" for q
        using ins(1) that by (auto simp: defenses_unique_def unique_on_append1 new_defense_def)
      then have eq: "update_where (\<lambda>d. d_id d = i) (put_defense (clk 1) ?f) (defenses s @ [?n]) = defenses s @ [?d]"
        by (simp add: update_where_append update_where_none update_where_Cons) (simp add: new_defense_def)
      show thesis
      proof (rule created)
        show "s' = s\<lparr>defenses := defenses s @ [?d], jobs := jobs s @ [new_job (clk 2) job PrepareDefense i None]\<rparr>"
          using s'(1) by (simp only: eq)
        show "defenses_unique (defenses s @ [?d])" using upd(1) by (simp only: eq)
        show "\<not> open_status (d_status q)" if "q \<in> set (defenses s)" "d_submission_id q = submission" for q
          using None that by (simp add: select_one_None_iff)
      qed (rule refl ins upd(2) s'(2,3))+
    qed
  qed
qed

lemma expire_cases:
  obtains (unchanged) "expire now i s = s"
  | (expired) "expire now i s = s\<lparr>defenses := update_where (expired_now now i) (put_defense now (set_expired now)) (defenses s)\<rparr>"
      and "defenses_unique (update_where (expired_now now i) (put_defense now (set_expired now)) (defenses s))"
      and "\<And>d. d \<in> set (defenses s) \<Longrightarrow> expired_now now i d \<Longrightarrow> defense_check (put_defense now (set_expired now) d)"
  by (cases "update_defenses now (expired_now now i) (set_expired now) s") (auto simp: expire_def table_simps)

text \<open>The place that the loop of \<open>Configure\<close> gives a candidate.\<close>

fun wheel_place :: "WheelCandidate list \<Rightarrow> int \<Rightarrow> uuid \<Rightarrow> int option" where
  "wheel_place [] place x = None"
| "wheel_place (w # ws) place x =
     (case wheel_place ws (place + 1) x of
        Some r \<Rightarrow> Some r
      | None \<Rightarrow> if ID w = x then Some place else None)"

definition placed :: "uuid \<Rightarrow> uuid \<Rightarrow> int \<Rightarrow> WheelCandidate list \<Rightarrow> candidate_row \<Rightarrow> candidate_row" where
  "placed i sel place ws c =
     (if c_defense_id c = i
      then (case wheel_place ws place (c_id c) of
              None \<Rightarrow> c
            | Some r \<Rightarrow> c\<lparr>c_wheel_rank := Some r, c_is_selected := (c_id c = sel)\<rparr>)
      else c)"

lemma list_all_update_where:
  "list_all p rs \<Longrightarrow> (\<And>r. r \<in> set rs \<Longrightarrow> c r \<Longrightarrow> p (f r)) \<Longrightarrow> list_all p (update_where c f rs)"
  by (auto simp: list_all_iff update_where_mem_iff)

lemma place_wheel_effect:
  assumes "place_wheel i sel place ws s = Some s'" and "candidates_unique (candidates s)"
    and "list_all candidate_check (candidates s)"
  shows "s' = s\<lparr>candidates := map (placed i sel place ws) (candidates s)\<rparr>
    \<and> candidates_unique (candidates s') \<and> list_all candidate_check (candidates s')"
  using assms
proof (induction ws arbitrary: place s)
  case Nil
  then show ?case by (simp add: placed_def cong: if_cong)
next
  case (Cons w ws)
  let ?c = "\<lambda>c. c_defense_id c = i \<and> c_id c = ID w"
  let ?f = "\<lambda>c. c\<lparr>c_wheel_rank := Some place, c_is_selected := (c_id c = sel)\<rparr>"
  let ?s = "s\<lparr>candidates := update_where ?c ?f (candidates s)\<rparr>"
  have "place_wheel i sel (place + 1) ws ?s = Some s'" "candidates_unique (candidates ?s)"
    "list_all candidate_check (candidates ?s)"
    using Cons.prems by (auto simp: bind_eq_Some_conv table_simps intro: list_all_update_where)
  note IH = Cons.IH [OF this]
  have "map (placed i sel (place + 1) ws) (update_where ?c ?f (candidates s))
      = map (placed i sel place (w # ws)) (candidates s)"
    by (auto simp: update_where_def placed_def split: option.splits)
  with IH show ?case by auto
qed

lemma wheel_place_None_iff: "wheel_place ws place x = None \<longleftrightarrow> x \<notin> ID ` set ws"
  by (induction ws arbitrary: place) (auto simp: option.case_eq_if)

text \<open>What \<open>Configure\<close> writes to a candidate row of the defense.\<close>

definition configured :: "uuid \<Rightarrow> uuid \<Rightarrow> WheelCandidate list \<Rightarrow> candidate_row \<Rightarrow> candidate_row" where
  "configured i sel ws c =
     (if c_defense_id c = i
      then c\<lparr>c_wheel_rank := wheel_place ws 1 (c_id c), c_is_selected := (c_id c = sel \<and> c_id c \<in> ID ` set ws)\<rparr>
      else c)"

lemma configured_eq:
  "placed i sel 1 ws (if c_defense_id c = i then c\<lparr>c_is_selected := False, c_wheel_rank := None\<rparr> else c)
     = configured i sel ws c"
  using wheel_place_None_iff [of ws 1 "c_id c"]
  by (cases "c_defense_id c = i"; cases "wheel_place ws 1 (c_id c)") (simp_all add: placed_def configured_def)

lemma Configure_tx_effect:
  assumes "Configure_tx clk actor i mode candidateID entityMode secs wheelSize job s = Inr (s', x)"
    and "candidates_unique (candidates s)" and "list_all candidate_check (candidates s)"
  obtains d w sel j where "x = i" and "configure_ok mode entityMode secs wheelSize"
    and "ready_for s actor i = Some d" and "j = new_job (clk 2) job PrepareDefense i None"
    and "buildWheel (catalog_by_rank s i entityMode) mode candidateID (decimal (nat (d_seed d))) wheelSize = Wheel w sel"
    and "s' = s\<lparr>candidates := map (configured i (ID sel) w) (candidates s),
                defenses := update_where (\<lambda>d. d_id d = i \<and> d_status d = DReady)
                   (put_defense (clk 1) (set_configured (ID sel) mode secs wheelSize entityMode)) (defenses s),
                jobs := jobs s @ [j]\<rparr>"
    and "candidates_unique (candidates s')" and "list_all candidate_check (candidates s')"
    and "\<And>d. d \<in> set (defenses s) \<Longrightarrow> d_id d = i \<Longrightarrow> d_status d = DReady
           \<Longrightarrow> defense_check (put_defense (clk 1) (set_configured (ID sel) mode secs wheelSize entityMode) d)
             \<and> references c_id (Some (ID sel)) (candidates s')"
    and "defenses_unique (defenses s')" and "job_check j" and "jobs_unique (jobs s')"
proof -
  let ?reset = "\<lambda>c. c\<lparr>c_is_selected := False, c_wheel_rank := None\<rparr>"
  let ?s1 = "s\<lparr>candidates := update_where (\<lambda>c. c_defense_id c = i) ?reset (candidates s)\<rparr>"
  obtain d w sel where ok: "configure_ok mode entityMode secs wheelSize" "ready_for s actor i = Some d"
      "buildWheel (catalog_by_rank s i entityMode) mode candidateID (decimal (nat (d_seed d))) wheelSize = Wheel w sel"
    using assms(1) by (auto simp: Configure_tx_def split: option.splits wheel_result.splits if_splits)
  obtain s2 s3 where s1: "update_candidates (\<lambda>c. c_defense_id c = i) ?reset s = Some ?s1"
    and s2: "place_wheel i (ID sel) 1 w ?s1 = Some s2"
    and s3: "update_defenses (clk 1) (\<lambda>d. d_id d = i \<and> d_status d = DReady)
        (set_configured (ID sel) mode secs wheelSize entityMode) s2 = Some s3"
    and s4: "insert_job (new_job (clk 2) job PrepareDefense i None) s3 = Some s'" and "x = i"
    using assms(1) ok by (auto simp: Configure_tx_def update_candidates_iff)
  have "s2 = ?s1\<lparr>candidates := map (placed i (ID sel) 1 w) (candidates ?s1)\<rparr>
      \<and> candidates_unique (candidates s2) \<and> list_all candidate_check (candidates s2)"
    using s1 assms(3) by (intro place_wheel_effect [OF s2])
      (auto simp: update_candidates_iff intro: list_all_update_where)
  moreover have "map (placed i (ID sel) 1 w) (candidates ?s1) = map (configured i (ID sel) w) (candidates s)"
    by (simp add: update_where_def configured_eq comp_def)
  ultimately have c: "s2 = s\<lparr>candidates := map (configured i (ID sel) w) (candidates s)\<rparr>"
    "candidates_unique (candidates s2)" "list_all candidate_check (candidates s2)"
    by auto
  show thesis
    by (rule that [OF \<open>x = i\<close> ok(1,2) refl ok(3)])
      (use s3 s4 c in \<open>auto simp: table_simps set_configured_def\<close>)
qed

lemma ConfigureHide_tx_effect:
  assumes "ConfigureHide_tx clk actor i secs mutations job s = Inr (s', x)"
  obtains d j where "x = i" and "60 \<le> secs" and "secs \<le> 1800" and "length mutations \<in> {1..5}"
    and "ready_for s actor i = Some d" and "j = new_job (clk 1) job PrepareDefense i None"
    and "s' = s\<lparr>defenses := update_where (\<lambda>d. d_id d = i)
                   (put_defense (clk 0) (set_hidden secs mutations)) (defenses s),
                jobs := jobs s @ [j]\<rparr>"
    and "\<And>d. d \<in> set (defenses s) \<Longrightarrow> d_id d = i
           \<Longrightarrow> defense_check (put_defense (clk 0) (set_hidden secs mutations) d)"
    and "defenses_unique (defenses s')" and "job_check j" and "jobs_unique (jobs s')"
proof -
  have bounds: "60 \<le> secs" "secs \<le> 1800" "length mutations \<in> {1..5}"
    using assms by (auto simp: ConfigureHide_tx_def Suc_le_eq split: if_splits)
  then have guard: "\<not> (secs < 60 \<or> secs > 1800 \<or> length mutations < 1 \<or> length mutations > 5)" by auto
  obtain d where d: "ready_for s actor i = Some d"
    using assms guard by (cases "ready_for s actor i") (auto simp: ConfigureHide_tx_def)
  obtain s1 where s1: "update_defenses (clk 0) (\<lambda>d. d_id d = i) (set_hidden secs mutations) s = Some s1"
    and s2: "insert_job (new_job (clk 1) job PrepareDefense i None) s1 = Some s'" and "x = i"
    using assms guard d by (auto simp: ConfigureHide_tx_def)
  show thesis
    by (rule that [OF \<open>x = i\<close> bounds d refl]) (use s1 s2 in \<open>auto simp: table_simps\<close>)
qed

lemma SaveDraft_cases:
  assumes "SaveDraft now actor i answer version s = (s', r)"
  obtains (refused) "s' = s" and "r = Inl ErrConflict"
  | (saved) d where "d \<in> set (defenses s)" and "draft_open s now actor i d" and "d_draft_version d = version"
      and "r = Inr (version + 1, now)"
      and "s' = s\<lparr>defenses := update_where (\<lambda>d. draft_open s now actor i d \<and> d_draft_version d = version)
             (put_defense now (\<lambda>d. d\<lparr>d_draft := Some answer, d_draft_version := d_draft_version d + 1, d_updated_at := now\<rparr>))
             (defenses s)\<rparr>"
      and "\<And>d. d \<in> set (defenses s) \<Longrightarrow> draft_open s now actor i d \<Longrightarrow> d_draft_version d = version \<Longrightarrow>
             defense_check (put_defense now
               (\<lambda>d. d\<lparr>d_draft := Some answer, d_draft_version := d_draft_version d + 1, d_updated_at := now\<rparr>) d)"
      and "defenses_unique (defenses s')"
proof -
  let ?c = "\<lambda>d. draft_open s now actor i d \<and> d_draft_version d = version"
  let ?f = "\<lambda>d. d\<lparr>d_draft := Some answer, d_draft_version := d_draft_version d + 1, d_updated_at := now\<rparr>"
  show thesis
  proof (cases "select_one ?c (defenses s)")
    case None
    then show thesis using assms refused by (simp add: SaveDraft_def)
  next
    case (Some d)
    note d = select_one_SomeD [OF Some]
    show thesis
    proof (cases "update_defenses now ?c ?f s")
      case None
      then show thesis using assms refused Some by (simp add: SaveDraft_def)
    next
      case (Some s1)
      then have "s' = s1" "r = Inr (version + 1, now)"
        using assms d \<open>select_one ?c (defenses s) = Some d\<close> by (auto simp: SaveDraft_def)
      then show thesis
        by (intro saved [of d]) (use Some d in \<open>auto simp: update_defenses_iff\<close>)
    qed
  qed
qed

lemma Cancel_tx_effect:
  assumes "Cancel_tx clk actor i s = Inr (s', x)"
  obtains "x = i" and "may_cancel s actor i"
    and "s' = s\<lparr>defenses := update_where (\<lambda>d. d_id d = i \<and> open_status (d_status d))
                   (put_defense (clk 0) (set_cancelled (clk 0))) (defenses s),
                attempts := update_where (\<lambda>a. a_defense_id a = i \<and> a_outcome a = OPending)
                   (fail_attempt (clk 1) ''defense cancelled'') (attempts s),
                jobs := update_where (\<lambda>j. j_defense_id j = i \<and> open_job j)
                   (put_job (clk 2) (clear_job JCancelled)) (jobs s),
                leases := update_where
                   (\<lambda>l. list_ex (\<lambda>j. j_id j = l_job_id l \<and> j_defense_id j = i)
                      (update_where (\<lambda>j. j_defense_id j = i \<and> open_job j)
                         (put_job (clk 2) (clear_job JCancelled)) (jobs s)) \<and> l_released_at l = None)
                   (release_lease (clk 3) ''cancelled'') (leases s)\<rparr>"
    and "\<And>d. d \<in> set (defenses s) \<Longrightarrow> d_id d = i \<Longrightarrow> open_status (d_status d) \<Longrightarrow>
           defense_check (put_defense (clk 0) (set_cancelled (clk 0)) d)"
    and "defenses_unique (defenses s')" and "attempts_unique (attempts s')" and "jobs_unique (jobs s')"
    and "leases_unique (leases s')"
    and "\<And>a. a \<in> set (attempts s) \<Longrightarrow> a_defense_id a = i \<Longrightarrow> a_outcome a = OPending \<Longrightarrow>
           attempt_check (fail_attempt (clk 1) ''defense cancelled'' a)"
    and "\<And>j. j \<in> set (jobs s) \<Longrightarrow> j_defense_id j = i \<Longrightarrow> open_job j \<Longrightarrow>
           job_check (put_job (clk 2) (clear_job JCancelled) j)"
    and "list_all lease_check (leases s) \<Longrightarrow> list_all lease_check (leases s')"
proof -
  have may: "may_cancel s actor i" "x = i"
    using assms by (auto simp: Cancel_tx_def split: if_splits)
  obtain s1 s2 s3 where
      s1: "update_defenses (clk 0) (\<lambda>d. d_id d = i \<and> open_status (d_status d)) (set_cancelled (clk 0)) s = Some s1"
    and s2: "update_attempts (\<lambda>a. a_defense_id a = i \<and> a_outcome a = OPending)
            (fail_attempt (clk 1) ''defense cancelled'') s1 = Some s2"
    and s3: "update_jobs (clk 2) (\<lambda>j. j_defense_id j = i \<and> open_job j) (clear_job JCancelled) s2 = Some s3"
    and s4: "update_leases
            (\<lambda>l. list_ex (\<lambda>j. j_id j = l_job_id l \<and> j_defense_id j = i) (jobs s3) \<and> l_released_at l = None)
            (release_lease (clk 3) ''cancelled'') s3 = Some s'"
    using assms may by (auto simp: Cancel_tx_def)
  show thesis
    by (rule that [OF may(2,1)])
      (use s1 s2 s3 s4 in \<open>auto simp: table_simps intro: list_all_update_where\<close>)
qed

lemma Attempt_tx_cases:
  assumes "Attempt_tx clk actor i key answer attemptID jobID s = Inr (s', x)"
  obtains
    (existing) a where "s' = s" and "a \<in> set (attempts s)" and "a_defense_id a = i" and "a_key a = key" and "x = a_id a"
      and "list_ex (draft_open s (clk 0) actor i) (defenses s)"
  | (accepted) a j where "x = attemptID" and "list_ex (draft_open s (clk 0) actor i) (defenses s)"
      and "a = new_attempt (clk 1) attemptID i (next_attempt_no s i) key answer"
      and "j = new_job (clk 2) jobID CheckAttempt i (Some attemptID)"
      and "s' = s\<lparr>attempts := attempts s @ [a], jobs := jobs s @ [j]\<rparr>"
      and "attempt_check a" and "job_check j" and "attempts_unique (attempts s @ [a])" and "jobs_unique (jobs s @ [j])"
      and "\<And>r. r \<in> set (attempts s) \<Longrightarrow> a_defense_id r = i \<Longrightarrow> a_key r \<noteq> key"
proof -
  have "list_ex (draft_open s (clk 0) actor i) (defenses s)"
    using assms by (auto simp: Attempt_tx_def split: if_splits)
  show thesis
  proof (cases "select_one (\<lambda>a. a_defense_id a = i \<and> a_key a = key) (attempts s)")
    case (Some a)
    then have "s' = s" "x = a_id a"
      using assms \<open>list_ex _ _\<close> by (simp_all add: Attempt_tx_def)
    then show thesis
      using existing [of a] select_one_SomeD [OF Some] \<open>list_ex _ _\<close> by blast
  next
    case None
    obtain s1 where s1: "insert_attempt (new_attempt (clk 1) attemptID i (next_attempt_no s i) key answer) s = Some s1"
      using assms None \<open>list_ex _ _\<close>
      by (cases "insert_attempt (new_attempt (clk 1) attemptID i (next_attempt_no s i) key answer) s")
        (simp_all add: Attempt_tx_def)
    then have s2: "insert_job (new_job (clk 2) jobID CheckAttempt i (Some attemptID)) s1 = Some s'" and "x = attemptID"
      using assms None \<open>list_ex _ _\<close> by (auto simp: Attempt_tx_def)
    have fresh: "a_key r \<noteq> key" if "r \<in> set (attempts s)" "a_defense_id r = i" for r
      using None that by (simp add: select_one_None_iff)
    show thesis
      by (rule accepted [OF \<open>x = attemptID\<close> \<open>list_ex _ _\<close> refl refl _ _ _ _ _ fresh])
        (use s1 s2 in \<open>simp_all add: table_simps\<close>)
  qed
qed

section \<open>Transactions of runners\<close>

text \<open>What the loop over expired leases makes of defenses and attempts.\<close>

definition lost_defense :: "job_row list \<Rightarrow> defense_row \<Rightarrow> bool" where
  "lost_defense items d \<longleftrightarrow>
     (\<exists>item\<in>set items. j_state item = JDead \<and> j_kind item = PrepareDefense \<and> d_id d = j_defense_id item)
     \<and> d_status d = DPreparing"

definition lost_attempt :: "job_row list \<Rightarrow> attempt_row \<Rightarrow> bool" where
  "lost_attempt items a \<longleftrightarrow>
     (\<exists>item\<in>set items. j_state item = JDead \<and> j_attempt_id item = Some (a_id a)) \<and> a_outcome a = OPending"

definition settled :: "time \<Rightarrow> job_row list \<Rightarrow> db \<Rightarrow> db \<Rightarrow> bool" where
  "settled now items s s' \<longleftrightarrow>
     (\<exists>ls. s' = s\<lparr>defenses := update_where (lost_defense items) (put_defense now set_exhausted) (defenses s),
                 attempts := update_where (lost_attempt items) (fail_attempt now ''runner retries exhausted'') (attempts s),
                 leases := ls\<rparr>
        \<and> leases_unique ls \<and> (list_all lease_check (leases s) \<longrightarrow> list_all lease_check ls))
   \<and> (defenses_unique (defenses s) \<longrightarrow> defenses_unique (defenses s'))
   \<and> (attempts_unique (attempts s) \<longrightarrow> attempts_unique (attempts s'))
   \<and> (list_all defense_check (defenses s) \<longrightarrow> list_all defense_check (defenses s'))
   \<and> (list_all attempt_check (attempts s) \<longrightarrow> list_all attempt_check (attempts s'))"

lemma settle_expired_effect:
  assumes "settle_expired now item s = Some s'"
  shows "settled now [item] s s'"
proof -
  obtain s1 s2 where
      s1: "update_leases (\<lambda>l. l_job_id l = j_id item \<and> l_released_at l = None) (release_lease now ''expired'') s = Some s1"
    and s2: "(if j_state item = JDead \<and> j_kind item = PrepareDefense
           then update_defenses now (\<lambda>d. d_id d = j_defense_id item \<and> d_status d = DPreparing) set_exhausted s1
           else Some s1) = Some s2"
    and s3: "(if j_state item = JDead then
               (case j_attempt_id item of
                  None \<Rightarrow> Some s2
                | Some a \<Rightarrow>
                    update_attempts (\<lambda>r. a_id r = a \<and> a_outcome r = OPending)
                      (fail_attempt now ''runner retries exhausted'') s2)
             else Some s2) = Some s'"
    using assms by (auto simp: settle_expired_def bind_eq_Some_conv)
  have d: "defenses s2 = update_where (lost_defense [item]) (put_defense now set_exhausted) (defenses s)"
    "s2 = s1\<lparr>defenses := defenses s2\<rparr>"
    "defenses_unique (defenses s) \<longrightarrow> defenses_unique (defenses s2)"
    "list_all defense_check (defenses s) \<longrightarrow> list_all defense_check (defenses s2)"
    using s1 s2
    by (auto simp: table_simps lost_defense_def [abs_def] intro: list_all_update_where
          intro!: update_where_none [symmetric] split: if_splits)
  have a: "attempts s' = update_where (lost_attempt [item]) (fail_attempt now ''runner retries exhausted'') (attempts s2)"
    "s' = s2\<lparr>attempts := attempts s'\<rparr>"
    "attempts_unique (attempts s2) \<longrightarrow> attempts_unique (attempts s')"
    "list_all attempt_check (attempts s2) \<longrightarrow> list_all attempt_check (attempts s')"
    using s3
    by (auto simp: table_simps lost_attempt_def [abs_def] intro: list_all_update_where
          intro!: update_where_none [symmetric] update_where_cond_cong split: if_splits option.splits)
  obtain ls where ls: "s1 = s\<lparr>leases := ls\<rparr>" "leases_unique ls"
    "list_all lease_check (leases s) \<longrightarrow> list_all lease_check ls"
    using s1 by (auto simp: table_simps intro: list_all_update_where)
  have s2': "s2 = s\<lparr>leases := ls, defenses := update_where (lost_defense [item]) (put_defense now set_exhausted) (defenses s)\<rparr>"
    using d(2) unfolding d(1) ls(1) by simp
  then have "s' = s\<lparr>defenses := update_where (lost_defense [item]) (put_defense now set_exhausted) (defenses s),
      attempts := update_where (lost_attempt [item]) (fail_attempt now ''runner retries exhausted'') (attempts s),
      leases := ls\<rparr>"
    using a(2) unfolding a(1) by simp
  moreover have "attempts s2 = attempts s" "defenses s' = defenses s2"
    by (simp add: s2') (subst a(2), simp)
  ultimately show ?thesis
    using ls d(3,4) a(3,4) unfolding settled_def by auto
qed

lemma settled_refl: "leases_unique (leases s) \<Longrightarrow> settled now [] s s"
proof -
  assume "leases_unique (leases s)"
  moreover have "update_where (lost_defense []) f ds = ds" "update_where (lost_attempt []) g xs = xs" for f g ds xs
    by (simp_all add: lost_defense_def lost_attempt_def update_where_none)
  ultimately show ?thesis unfolding settled_def by (auto intro: exI [of _ "leases s"])
qed

lemma settled_trans:
  assumes "settled now [item] s s1" and "settled now items s1 s2"
  shows "settled now (item # items) s s2"
proof -
  have d: "update_where (lost_defense items) (put_defense now set_exhausted)
      (update_where (lost_defense [item]) (put_defense now set_exhausted) ds)
    = update_where (lost_defense (item # items)) (put_defense now set_exhausted) ds" for ds
    by (subst update_where_or) (auto simp: lost_defense_def set_exhausted_def intro!: update_where_cond_cong)
  have a: "update_where (lost_attempt items) (fail_attempt now m) (update_where (lost_attempt [item]) (fail_attempt now m) xs)
    = update_where (lost_attempt (item # items)) (fail_attempt now m) xs" for xs m
    by (subst update_where_or) (auto simp: lost_attempt_def fail_attempt_def intro!: update_where_cond_cong)
  obtain l1 l2 where "s1 = s\<lparr>defenses := update_where (lost_defense [item]) (put_defense now set_exhausted) (defenses s),
       attempts := update_where (lost_attempt [item]) (fail_attempt now ''runner retries exhausted'') (attempts s), leases := l1\<rparr>"
    "list_all lease_check (leases s) \<longrightarrow> list_all lease_check l1"
    "s2 = s1\<lparr>defenses := update_where (lost_defense items) (put_defense now set_exhausted) (defenses s1),
       attempts := update_where (lost_attempt items) (fail_attempt now ''runner retries exhausted'') (attempts s1), leases := l2\<rparr>"
    "leases_unique l2" "list_all lease_check (leases s1) \<longrightarrow> list_all lease_check l2"
    using assms unfolding settled_def by blast
  then have "\<exists>ls. s2 = s\<lparr>defenses := update_where (lost_defense (item # items)) (put_defense now set_exhausted) (defenses s),
       attempts := update_where (lost_attempt (item # items)) (fail_attempt now ''runner retries exhausted'') (attempts s),
       leases := ls\<rparr> \<and> leases_unique ls \<and> (list_all lease_check (leases s) \<longrightarrow> list_all lease_check ls)"
    by (intro exI [of _ l2]) (simp add: d a)
  with assms show ?thesis unfolding settled_def by blast
qed

lemma settle_all_effect:
  "settle_all now items s = Some s' \<Longrightarrow> leases_unique (leases s) \<Longrightarrow> settled now items s s'"
proof (induction items arbitrary: s)
  case Nil
  then show ?case by (simp add: settled_refl)
next
  case (Cons item items)
  then obtain s1 where s1: "settle_expired now item s = Some s1" "settle_all now items s1 = Some s'"
    by (auto simp: bind_eq_Some_conv)
  have "settled now [item] s s1" by (rule settle_expired_effect [OF s1(1)])
  moreover from this have "leases_unique (leases s1)" by (auto simp: settled_def)
  then have "settled now items s1 s'" using Cons.IH s1 by simp
  ultimately show ?case by (rule settled_trans)
qed

text \<open>The jobs whose lease a runner's request finds expired, in the state it puts them in.\<close>

definition reclaimed_jobs :: "time \<Rightarrow> db \<Rightarrow> job_row list" where
  "reclaimed_jobs now s = map (put_job now retry_job) (filter (lease_expired now) (jobs s))"

lemma reclaim_tx_effect:
  assumes "reclaim_tx clk runnerID slots credentialHash s = Inr s'" and "leases_unique (leases s)"
  obtains rs s2 where "s2 = s\<lparr>runners := rs, jobs := update_where (lease_expired (clk 1)) (put_job (clk 1) retry_job) (jobs s)\<rparr>"
    and "settled (clk 2) (reclaimed_jobs (clk 1) s) s2 s'"
    and "jobs_unique (jobs s2)" and "runners_unique rs" and "exists_id r_id runnerID rs"
    and "\<And>j. j \<in> set (jobs s) \<Longrightarrow> lease_expired (clk 1) j \<Longrightarrow> job_check (put_job (clk 1) retry_job j)"
    and "\<And>i. exists_id r_id i (runners s) \<Longrightarrow> exists_id r_id i rs"
proof -
  obtain s1 s2 where s1: "upsert_runner (runner_upsert_row (clk 0) runnerID slots credentialHash) s = Some s1"
    and s2: "update_jobs (clk 1) (lease_expired (clk 1)) retry_job s1 = Some s2"
    and s3: "settle_all (clk 2) (map (put_job (clk 1) retry_job) (filter (lease_expired (clk 1)) (jobs s1))) s2 = Some s'"
    using assms(1) by (auto simp: reclaim_tx_def)
  obtain rs where rs: "s1 = s\<lparr>runners := rs\<rparr>" "runners_unique rs" "exists_id r_id runnerID rs"
    "\<And>i. exists_id r_id i (runners s) \<Longrightarrow> exists_id r_id i rs"
    using upsert_runner_other_tables [OF s1] by (auto simp: runner_upsert_row_def)
  have "settled (clk 2) (reclaimed_jobs (clk 1) s) s2 s'"
    using settle_all_effect [OF s3] s2 rs assms(2) by (auto simp: update_jobs_iff reclaimed_jobs_def)
  then show thesis
    by (rule that [rotated]) (use s2 rs in \<open>auto simp: update_jobs_iff\<close>)
qed

interpretation queue_order: weak_order queue_before
  by unfold_locales (auto simp: queue_before_def split: if_splits)

lemma next_job_Some:
  assumes "next_job now locked s = Some j"
  shows "j \<in> set (jobs s)" and "available now s j" and "\<not> locked (j_id j)"
    and "\<And>q. q \<in> set (jobs s) \<Longrightarrow> available now s q \<Longrightarrow> \<not> locked (j_id q) \<Longrightarrow> \<not> queue_before q j"
proof -
  let ?av = "filter (\<lambda>j. available now s j \<and> \<not> locked (j_id j)) (jobs s)"
  obtain js where js: "slice_stable queue_before ?av = j # js"
    using assms by (auto simp: next_job_def split: list.splits)
  then have members: "set (j # js) = set ?av" by (metis set_slice_stable)
  then show "j \<in> set (jobs s)" "available now s j" "\<not> locked (j_id j)" by auto
  fix q assume "q \<in> set (jobs s)" "available now s q" "\<not> locked (j_id q)"
  then have "q \<in> set (j # js)" using members by auto
  moreover have "sorted_wrt (\<lambda>a b. \<not> queue_before b a) (j # js)"
    using queue_order.slice_stable_ordered [of ?av] js by simp
  ultimately show "\<not> queue_before q j" using queue_order.less_irrefl by auto
qed

lemma next_job_None:
  assumes "next_job now locked s = None" and "j \<in> set (jobs s)" and "available now s j"
  shows "locked (j_id j)"
proof -
  let ?av = "filter (\<lambda>j. available now s j \<and> \<not> locked (j_id j)) (jobs s)"
  have "slice_stable queue_before ?av = []"
    using assms(1) by (simp add: next_job_def split: list.splits)
  then have "set ?av = {}" by (metis set_slice_stable set_empty)
  with assms show ?thesis by auto
qed

lemma Lease_tx_cases:
  assumes "Lease_tx clk appNow locked runnerID slots credentialHash token leaseID s = Inr (s', r)"
  obtains
    (idle) "reclaim_tx clk runnerID slots credentialHash s = Inr s'" and "r = None"
      and "next_job (clk 3) locked s' = None"
  | (leased) s1 j l where "reclaim_tx clk runnerID slots credentialHash s = Inr s1" and "r = Some j"
      and "next_job (clk 3) locked s1 = Some j"
      and "l = new_lease (clk 5) s1 leaseID (j_id j) runnerID token (lease_expiry appNow)"
      and "s' = s1\<lparr>jobs := update_where (\<lambda>q. j_id q = j_id j)
                      (put_job (clk 4) (set_leased runnerID token (lease_expiry appNow))) (jobs s1),
                   leases := leases s1 @ [l]\<rparr>"
      and "lease_check l" and "leases_unique (leases s')" and "jobs_unique (jobs s')"
      and "\<And>q. q \<in> set (jobs s1) \<Longrightarrow> j_id q = j_id j \<Longrightarrow>
             validate_runner_job_transition (j_state q) JLeased
             \<and> job_check (put_job (clk 4) (set_leased runnerID token (lease_expiry appNow)) q)"
proof -
  obtain s1 where s1: "reclaim_tx clk runnerID slots credentialHash s = Inr s1"
    using assms by (auto simp: Lease_tx_def)
  show thesis
  proof (cases "next_job (clk 3) locked s1")
    case None
    then show thesis using assms s1 idle by (auto simp: Lease_tx_def)
  next
    case (Some j)
    obtain s2 where s2: "update_jobs (clk 4) (\<lambda>q. j_id q = j_id j)
               (set_leased runnerID token (lease_expiry appNow)) s1 = Some s2"
      and s3: "insert_lease (new_lease (clk 5) s2 leaseID (j_id j) runnerID token (lease_expiry appNow)) s2 = Some s'"
      and "r = Some j"
      using assms s1 Some by (auto simp: Lease_tx_def)
    have "new_lease (clk 5) s2 leaseID (j_id j) runnerID token (lease_expiry appNow)
        = new_lease (clk 5) s1 leaseID (j_id j) runnerID token (lease_expiry appNow)"
      using s2 by (auto simp: new_lease_def update_jobs_iff)
    then show thesis
      by (intro leased [OF s1 \<open>r = Some j\<close> Some refl])
        (use s2 s3 in \<open>auto simp: table_simps set_leased_def\<close>)
  qed
qed

lemma Heartbeat_cases:
  assumes "Heartbeat now job token s = (s', r)"
  obtains (refused) "s' = s" and "r = Inl ErrConflict"
  | (written) "s' = s\<lparr>jobs := update_where (live_lease now job token)
             (put_job now (\<lambda>j. j\<lparr>j_expires_at := Some (now + seconds 120), j_updated_at := now\<rparr>)) (jobs s)\<rparr>"
      and "r = (if rows_affected (live_lease now job token) (jobs s) \<noteq> 1 then Inl ErrConflict else Inr ())"
      and "jobs_unique (jobs s')"
      and "\<And>j. j \<in> set (jobs s) \<Longrightarrow> live_lease now job token j \<Longrightarrow>
             job_check (put_job now (\<lambda>j. j\<lparr>j_expires_at := Some (now + seconds 120), j_updated_at := now\<rparr>) j)"
proof -
  let ?f = "\<lambda>j. j\<lparr>j_expires_at := Some (now + seconds 120), j_updated_at := now\<rparr>"
  show thesis
  proof (cases "update_jobs now (live_lease now job token) ?f s")
    case None
    then show thesis using assms refused by (simp add: Heartbeat_def)
  next
    case (Some s1)
    then have "s' = s1"
      "r = (if rows_affected (live_lease now job token) (jobs s) \<noteq> 1 then Inl ErrConflict else Inr ())"
      using assms by (auto simp: Heartbeat_def split: if_splits)
    then show thesis
      by (intro written) (use Some in \<open>auto simp: update_jobs_iff\<close>)
  qed
qed

section \<open>Completion\<close>

text \<open>
  The columns that no completion changes, and what the completion of a preparation may do to a
  row: only the named defense changes its status, and only when it is being prepared; it starts
  with a deadline, or goes back to the teacher, or ends with an error.
\<close>

definition same_defense :: "defense_row \<Rightarrow> defense_row \<Rightarrow> bool" where
  "same_defense d d' \<longleftrightarrow>
     d_id d' = d_id d \<and> d_session_id d' = d_session_id d \<and> d_submission_id d' = d_submission_id d
   \<and> d_seed d' = d_seed d \<and> d_time_limit d' = d_time_limit d \<and> d_start_key d' = d_start_key d
   \<and> d_mode d' = d_mode d \<and> d_selected_id d' = d_selected_id d \<and> d_draft d' = d_draft d
   \<and> d_draft_version d' = d_draft_version d \<and> d_hide_mutations d' = d_hide_mutations d
   \<and> d_finished_at d' = d_finished_at d"

definition started_now :: "defense_row \<Rightarrow> defense_row \<Rightarrow> bool" where
  "started_now d d' \<longleftrightarrow>
     d_status d' = DActive
     \<and> (\<exists>t. d_started_at d' = Some t \<and> d_deadline_at d' = Some (t + seconds (d_time_limit d)))"

definition clock_kept :: "defense_row \<Rightarrow> defense_row \<Rightarrow> bool" where
  "clock_kept d d' \<longleftrightarrow> d_started_at d' = d_started_at d \<and> d_deadline_at d' = d_deadline_at d"

definition prepared_row :: "uuid \<Rightarrow> defense_row \<Rightarrow> defense_row \<Rightarrow> bool" where
  "prepared_row i d d' \<longleftrightarrow>
     same_defense d d'
   \<and> (if d_id d = i \<and> d_status d = DPreparing
      then started_now d d' \<or> (d_status d' = DReady \<or> d_status d' = DError) \<and> clock_kept d d'
      else d_status d' = d_status d \<and> clock_kept d d')"

lemma same_defense_refl [simp]: "same_defense d d"
  by (simp add: same_defense_def)

lemma clock_kept_refl [simp]: "clock_kept d d"
  by (simp add: clock_kept_def)

lemma list_all2_update_where:
  "(\<And>r. r \<in> set rs \<Longrightarrow> c r \<Longrightarrow> R r (f r)) \<Longrightarrow> (\<And>r. r \<in> set rs \<Longrightarrow> \<not> c r \<Longrightarrow> R r r)
     \<Longrightarrow> list_all2 R rs (update_where c f rs)"
  by (auto simp: update_where_def list_all2_conv_all_nth)

text \<open>The candidate rows after a completion: kept, possibly with a masked source, or added.\<close>

definition candidates_grown :: "candidate_row list \<Rightarrow> candidate_row list \<Rightarrow> bool" where
  "candidates_grown cs cs' \<longleftrightarrow>
     (\<exists>ys zs. cs' = ys @ zs
        \<and> list_all2 (\<lambda>c c'. \<exists>m. c' = c\<lparr>c_masked_source := m\<rparr> \<and> (c_masked_source c \<noteq> None \<longrightarrow> m \<noteq> None)) cs ys
        \<and> list_all (\<lambda>c. \<not> c_is_selected c) zs)
   \<and> (candidates_unique cs \<longrightarrow> candidates_unique cs')
   \<and> (list_all candidate_check cs \<longrightarrow> list_all candidate_check cs')"

lemma masked_same: "\<exists>m. c = c\<lparr>c_masked_source := m\<rparr> \<and> (c_masked_source c \<noteq> None \<longrightarrow> m \<noteq> None)"
  for c :: candidate_row
  by (intro exI [of _ "c_masked_source c"]) simp

lemma candidates_grown_refl [simp]: "candidates_grown cs cs"
  unfolding candidates_grown_def
  by (intro conjI exI [of _ cs] exI [of _ "[]"] list_all2_refl masked_same) simp_all

lemma insert_all_candidates_effect:
  "insert_all_candidates newID i n cs s = Inr s' \<Longrightarrow>
     \<exists>zs. s' = s\<lparr>candidates := candidates s @ zs\<rparr> \<and> list_all (\<lambda>c. \<not> c_is_selected c \<and> c_defense_id c = i) zs
       \<and> (candidates_unique (candidates s) \<longrightarrow> candidates_unique (candidates s @ zs))
       \<and> list_all candidate_check zs"
proof (induction cs arbitrary: n s)
  case Nil
  then show ?case by (auto intro: exI [of _ "[]"])
next
  case (Cons c cs)
  obtain row s1 where row: "candidate_of (newID n) i (int n + 1) c = Inr row"
    and s1: "insert_candidate row s = Some s1" and rest: "insert_all_candidates newID i (Suc n) cs s1 = Inr s'"
    using Cons.prems by auto
  have "\<not> c_is_selected row" "c_defense_id row = i"
    using row by (auto simp: candidate_of_def split: if_splits option.splits)
  moreover obtain zs where "s' = s1\<lparr>candidates := candidates s1 @ zs\<rparr>" "list_all candidate_check zs"
      "list_all (\<lambda>c. \<not> c_is_selected c \<and> c_defense_id c = i) zs"
      "candidates_unique (candidates s1) \<longrightarrow> candidates_unique (candidates s1 @ zs)"
    using Cons.IH [OF rest] by auto
  ultimately show ?case
    using s1 by (intro exI [of _ "row # zs"]) (auto simp: table_simps)
qed

text \<open>The defense and candidate tables after a preparation was reported.\<close>

definition prepared :: "uuid \<Rightarrow> db \<Rightarrow> db \<Rightarrow> bool" where
  "prepared i s s' \<longleftrightarrow>
     (\<exists>ds cs. s' = s\<lparr>defenses := ds, candidates := cs\<rparr>
        \<and> list_all2 (prepared_row i) (defenses s) ds \<and> candidates_grown (candidates s) cs
        \<and> (defenses_unique (defenses s) \<longrightarrow> defenses_unique ds)
        \<and> (list_all defense_check (defenses s) \<longrightarrow> list_all defense_check ds)
        \<and> (\<forall>d\<in>set ds. d_id d = i \<and> d_status d = DActive \<and> d_mode d = ''restore''
             \<and> (\<exists>q\<in>set (defenses s). d_id q = i \<and> d_status q = DPreparing) \<longrightarrow>
             (\<exists>sel. d_selected_id d = Some sel
                \<and> (\<forall>c\<in>set cs. c_id c = sel \<and> c_is_selected c \<longrightarrow> c_masked_source c \<noteq> None))))"

lemma update_preparing:
  assumes "update_defenses now (\<lambda>d. d_id d = i \<and> d_status d = DPreparing) f s = Some s'"
    and "\<And>d. d_status d = DPreparing \<Longrightarrow> same_defense d (f d)
           \<and> (started_now d (f d) \<or> (d_status (f d) = DReady \<or> d_status (f d) = DError) \<and> clock_kept d (f d))"
  obtains ds where "s' = s\<lparr>defenses := ds\<rparr>" and "list_all2 (prepared_row i) (defenses s) ds" and "defenses_unique ds"
    and "list_all defense_check (defenses s) \<longrightarrow> list_all defense_check ds"
    and "defenses_unique (defenses s) \<longrightarrow>
           (\<forall>d\<in>set ds. \<forall>q\<in>set (defenses s). d_id d = i \<and> d_id q = i \<and> d_status q = DPreparing \<longrightarrow> d = put_defense now f q)"
proof -
  let ?c = "\<lambda>d. d_id d = i \<and> d_status d = DPreparing"
  have "prepared_row i d (put_defense now f d)" if "?c d" for d
    using assms(2) [of d] that
    by (auto simp: prepared_row_def same_defense_def started_now_def clock_kept_def)
  then have rows: "list_all2 (prepared_row i) (defenses s) (update_where ?c (put_defense now f) (defenses s))"
    by (intro list_all2_update_where) (auto simp: prepared_row_def)
  have "d = put_defense now f q"
    if u: "defenses_unique (defenses s)" and d: "d \<in> set (update_where ?c (put_defense now f) (defenses s))" "d_id d = i"
      and q: "q \<in> set (defenses s)" "d_id q = i" "d_status q = DPreparing" for d q
  proof -
    obtain p where p: "p \<in> set (defenses s)" "d = (if ?c p then put_defense now f p else p)"
      using d(1) by (auto simp: update_where_mem_iff)
    have "d_id p = i"
    proof (cases "?c p")
      case False
      with p d(2) show ?thesis by (simp split: if_splits)
    qed simp
    then have "p = q"
      using u p(1) q by (auto simp: defenses_unique_def dest: unique_onD)
    with p q show ?thesis by simp
  qed
  then have the_row: "defenses_unique (defenses s) \<longrightarrow>
      (\<forall>d\<in>set (update_where ?c (put_defense now f) (defenses s)). \<forall>q\<in>set (defenses s).
         d_id d = i \<and> d_id q = i \<and> d_status q = DPreparing \<longrightarrow> d = put_defense now f q)"
    by blast
  show thesis
    by (rule that [OF _ rows _ _ the_row])
      (use assms(1) in \<open>auto simp: update_defenses_iff intro: list_all_update_where\<close>)
qed

lemma prepared_rowD: "list_all2 (prepared_row i) ds ds' \<Longrightarrow> d' \<in> set ds' \<Longrightarrow> \<exists>d\<in>set ds. prepared_row i d d'"
  by (induction rule: list_all2_induct) auto

lemma completeHide_effect:
  assumes "completeHide now i input s = Inr s'"
    and "\<And>d. d \<in> set (defenses s) \<Longrightarrow> d_id d = i \<Longrightarrow> d_mode d = ''hide_seek''"
  shows "prepared i s s'"
proof -
  obtain f where f: "update_defenses now (\<lambda>d. d_id d = i \<and> d_status d = DPreparing) f s = Some s'"
    and keep: "\<And>d. same_defense d (f d) \<and> (started_now d (f d) \<or> d_status (f d) = DReady \<and> clock_kept d (f d))"
    using assms(1)
    by (auto simp: completeHide_def Let_def set_active_def same_defense_def started_now_def clock_kept_def
          split: if_splits)
  obtain ds where ds: "s' = s\<lparr>defenses := ds\<rparr>" "list_all2 (prepared_row i) (defenses s) ds" "defenses_unique ds"
      "list_all defense_check (defenses s) \<longrightarrow> list_all defense_check ds"
    by (rule update_preparing [OF f]) (use keep in blast)+
  have "d_mode d = ''hide_seek''" if d: "d \<in> set ds" "d_id d = i" for d
    using prepared_rowD [OF ds(2) d(1)] d(2) assms(2) by (auto simp: prepared_row_def same_defense_def)
  then show ?thesis
    unfolding prepared_def using ds by (intro exI [of _ ds] exI [of _ "candidates s"]) auto
qed

lemma mask_grown:
  assumes "update_candidates (\<lambda>c. c_id c = sel \<and> c_is_selected c) (\<lambda>c. c\<lparr>c_masked_source := Some m\<rparr>) s = Some s'"
  shows "\<exists>cs. s' = s\<lparr>candidates := cs\<rparr> \<and> candidates_grown (candidates s) cs
     \<and> (\<forall>c\<in>set cs. c_id c = sel \<and> c_is_selected c \<longrightarrow> c_masked_source c \<noteq> None)"
proof -
  let ?cs = "update_where (\<lambda>c. c_id c = sel \<and> c_is_selected c) (\<lambda>c. c\<lparr>c_masked_source := Some m\<rparr>) (candidates s)"
  have "list_all2 (\<lambda>c c'. \<exists>m. c' = c\<lparr>c_masked_source := m\<rparr> \<and> (c_masked_source c \<noteq> None \<longrightarrow> m \<noteq> None)) (candidates s) ?cs"
    by (rule list_all2_update_where) (blast, rule masked_same)
  then have "candidates_grown (candidates s) ?cs"
    using assms unfolding candidates_grown_def
    by (intro conjI exI [of _ ?cs] exI [of _ "[]"]) (auto simp: update_candidates_iff intro: list_all_update_where)
  moreover have "\<forall>c\<in>set ?cs. c_id c = sel \<and> c_is_selected c \<longrightarrow> c_masked_source c \<noteq> None"
  proof (intro ballI impI)
    fix c assume "c \<in> set ?cs" "c_id c = sel \<and> c_is_selected c"
    then obtain q where "c = (if c_id q = sel \<and> c_is_selected q then q\<lparr>c_masked_source := Some m\<rparr> else q)"
      unfolding update_where_mem_iff by blast
    with \<open>c_id c = sel \<and> c_is_selected c\<close> show "c_masked_source c \<noteq> None"
      by (cases "c_id q = sel \<and> c_is_selected q") auto
  qed
  ultimately show ?thesis using assms by (intro exI [of _ ?cs]) (auto simp: update_candidates_iff)
qed

lemma completeRestore_effect:
  assumes "completeRestore clk newID i input s = Inr s'" and "defenses_unique (defenses s)"
  shows "prepared i s s'"
proof -
  let ?prep = "\<lambda>d. d_id d = i \<and> d_status d = DPreparing"
  consider
      (failed) "update_defenses (clk 3) ?prep
          (\<lambda>d. d\<lparr>d_status := DError, d_terminal_reason := Some ''worker preparation failed''\<rparr>) s = Some s'"
    | (analysed) s1 where "insert_all_candidates newID i 0 (Candidates input) s = Inr s1"
        "update_defenses (clk 3) ?prep
          (\<lambda>d. d\<lparr>d_status := DReady, d_suggested_rank := Some (SelectedIndex input + 1)\<rparr>) s1 = Some s'"
    | (masked) d sel s1 where "defense_by_id s i = Some d" "d_selected_id d = Some sel"
        "update_candidates (\<lambda>c. c_id c = sel \<and> c_is_selected c) (\<lambda>c. c\<lparr>c_masked_source := Some (MaskedSource input)\<rparr>) s = Some s1"
        "update_defenses (clk 4) ?prep (set_active (clk 4)) s1 = Some s'"
    using assms(1) by (auto simp: completeRestore_def split: if_splits option.splits)
  then show ?thesis
  proof cases
    case failed
    let ?f = "\<lambda>d. d\<lparr>d_status := DError, d_terminal_reason := Some ''worker preparation failed''\<rparr>"
    have ok: "same_defense d (?f d)
        \<and> (started_now d (?f d) \<or> (d_status (?f d) = DReady \<or> d_status (?f d) = DError) \<and> clock_kept d (?f d))" for d
      by (simp add: same_defense_def clock_kept_def)
    obtain ds where ds: "s' = s\<lparr>defenses := ds\<rparr>" "list_all2 (prepared_row i) (defenses s) ds" "defenses_unique ds"
        "list_all defense_check (defenses s) \<longrightarrow> list_all defense_check ds"
      and row: "defenses_unique (defenses s) \<longrightarrow> (\<forall>d\<in>set ds. \<forall>q\<in>set (defenses s).
           d_id d = i \<and> d_id q = i \<and> d_status q = DPreparing \<longrightarrow> d = put_defense (clk 3) ?f q)"
      by (rule update_preparing [OF failed ok])
    have "d_status d \<noteq> DActive"
      if h: "d \<in> set ds" "d_id d = i" "\<exists>q\<in>set (defenses s). d_id q = i \<and> d_status q = DPreparing" for d
    proof -
      obtain q where "q \<in> set (defenses s)" "d_id q = i \<and> d_status q = DPreparing" using h(3) by blast
      then have "d = put_defense (clk 3) ?f q" using row assms(2) h(1,2) by blast
      then show ?thesis by simp
    qed
    then show ?thesis
      unfolding prepared_def using ds by (intro exI [of _ ds] exI [of _ "candidates s"]) auto
  next
    case (analysed s1)
    obtain zs where zs: "s1 = s\<lparr>candidates := candidates s @ zs\<rparr>" "list_all (\<lambda>c. \<not> c_is_selected c \<and> c_defense_id c = i) zs"
       "candidates_unique (candidates s) \<longrightarrow> candidates_unique (candidates s @ zs)" "list_all candidate_check zs"
      using insert_all_candidates_effect [OF analysed(1)] by blast
    have "candidates_grown (candidates s) (candidates s @ zs)"
      unfolding candidates_grown_def using zs
      by (intro conjI exI [of _ "candidates s"] exI [of _ zs] list_all2_refl masked_same) (auto simp: list_all_iff)
    moreover
    let ?f = "\<lambda>d. d\<lparr>d_status := DReady, d_suggested_rank := Some (SelectedIndex input + 1)\<rparr>"
    have ok: "same_defense d (?f d)
        \<and> (started_now d (?f d) \<or> (d_status (?f d) = DReady \<or> d_status (?f d) = DError) \<and> clock_kept d (?f d))" for d
      by (simp add: same_defense_def clock_kept_def)
    obtain ds where ds: "s' = s1\<lparr>defenses := ds\<rparr>" "list_all2 (prepared_row i) (defenses s1) ds" "defenses_unique ds"
        "list_all defense_check (defenses s1) \<longrightarrow> list_all defense_check ds"
      and row: "defenses_unique (defenses s1) \<longrightarrow> (\<forall>d\<in>set ds. \<forall>q\<in>set (defenses s1).
           d_id d = i \<and> d_id q = i \<and> d_status q = DPreparing \<longrightarrow> d = put_defense (clk 3) ?f q)"
      by (rule update_preparing [OF analysed(2) ok])
    have "d_status d \<noteq> DActive"
      if h: "d \<in> set ds" "d_id d = i" "\<exists>q\<in>set (defenses s). d_id q = i \<and> d_status q = DPreparing" for d
    proof -
      obtain q where "q \<in> set (defenses s1)" "d_id q = i \<and> d_status q = DPreparing" using h(3) zs(1) by auto
      moreover have "defenses_unique (defenses s1)" using assms(2) zs(1) by simp
      ultimately have "d = put_defense (clk 3) ?f q" using row h(1,2) by blast
      then show ?thesis by simp
    qed
    ultimately show ?thesis
      unfolding prepared_def using zs(1) ds
      by (intro exI [of _ ds] exI [of _ "candidates s @ zs"]) auto
  next
    case (masked d sel s1)
    obtain cs where cs: "s1 = s\<lparr>candidates := cs\<rparr>" "candidates_grown (candidates s) cs"
        "\<forall>c\<in>set cs. c_id c = sel \<and> c_is_selected c \<longrightarrow> c_masked_source c \<noteq> None"
      using mask_grown [OF masked(3)] by blast
    obtain ds where ds: "s' = s1\<lparr>defenses := ds\<rparr>" "list_all2 (prepared_row i) (defenses s1) ds" "defenses_unique ds"
        "list_all defense_check (defenses s1) \<longrightarrow> list_all defense_check ds"
      by (rule update_preparing [OF masked(4)])
        (auto simp: same_defense_def started_now_def set_active_def)
    have d: "d \<in> set (defenses s)" "d_id d = i"
      using masked(1) by (auto simp: defense_by_id_def dest: select_one_SomeD)
    have "d_selected_id q = Some sel" if h: "q \<in> set ds" "d_id q = i" for q
    proof -
      obtain p where "p \<in> set (defenses s)" "prepared_row i p q"
        using prepared_rowD [OF ds(2) h(1)] cs(1) by auto
      with h(2) have "p = d" "d_selected_id q = d_selected_id p"
        using d assms(2) by (auto simp: prepared_row_def same_defense_def defenses_unique_def dest: unique_onD)
      with masked(2) show ?thesis by simp
    qed
    with ds cs show ?thesis
      unfolding prepared_def by (intro exI [of _ ds] exI [of _ cs]) auto
  qed
qed

text \<open>Storing the timings changes nothing that the rest of the completion looks at.\<close>

definition kept_row :: "defense_row \<Rightarrow> defense_row \<Rightarrow> bool" where
  "kept_row d d' \<longleftrightarrow> same_defense d d' \<and> d_status d' = d_status d \<and> clock_kept d d'"

lemma kept_prepared: "kept_row d d1 \<Longrightarrow> prepared_row i d1 d2 \<Longrightarrow> prepared_row i d d2"
  by (simp add: kept_row_def prepared_row_def same_defense_def clock_kept_def started_now_def split: if_splits)

lemma defenses_same: "s\<lparr>defenses := defenses s\<rparr> = s" for s :: db
  by (cases s) simp

lemma prepared_after_kept:
  assumes "list_all2 kept_row (defenses s) ds1" and "prepared i (s\<lparr>defenses := ds1\<rparr>) s'"
    and "defenses_unique (defenses s) \<longrightarrow> defenses_unique ds1"
    and "list_all defense_check (defenses s) \<longrightarrow> list_all defense_check ds1"
  shows "prepared i s s'"
proof -
  obtain ds cs where r: "s' = s\<lparr>defenses := ds, candidates := cs\<rparr>" "list_all2 (prepared_row i) ds1 ds"
     "candidates_grown (candidates s) cs" "defenses_unique ds1 \<longrightarrow> defenses_unique ds"
     "list_all defense_check ds1 \<longrightarrow> list_all defense_check ds"
    and act: "\<forall>d\<in>set ds. d_id d = i \<and> d_status d = DActive \<and> d_mode d = ''restore''
             \<and> (\<exists>q\<in>set ds1. d_id q = i \<and> d_status q = DPreparing) \<longrightarrow>
             (\<exists>sel. d_selected_id d = Some sel
                \<and> (\<forall>c\<in>set cs. c_id c = sel \<and> c_is_selected c \<longrightarrow> c_masked_source c \<noteq> None))"
    using assms(2) unfolding prepared_def by auto
  have "list_all2 (prepared_row i) (defenses s) ds"
    by (rule list_all2_trans [OF kept_prepared assms(1) r(2)])
  moreover have "\<exists>q\<in>set ds1. d_id q = i \<and> d_status q = DPreparing"
    if q: "q \<in> set (defenses s)" "d_id q = i" "d_status q = DPreparing" for q
    using list_all2_memI [OF assms(1) q(1)] q by (auto simp: kept_row_def same_defense_def)
  ultimately show ?thesis
    using r act assms(3,4) unfolding prepared_def by (intro exI [of _ ds] exI [of _ cs]) blast
qed

lemma completePreparation_effect:
  assumes "completePreparation clk newID i input s = Inr s'" and "defenses_unique (defenses s)"
  shows "prepared i s s'"
proof -
  obtain ds1 where ds1: "list_all2 kept_row (defenses s) ds1" "defenses_unique ds1"
      "list_all defense_check (defenses s) \<longrightarrow> list_all defense_check ds1"
    and rest: "(case defense_by_id (s\<lparr>defenses := ds1\<rparr>) i of
            None \<Rightarrow> Inl ErrNoRows
          | Some d \<Rightarrow>
              if d_mode d = ''hide_seek'' then completeHide (clk 3) i input (s\<lparr>defenses := ds1\<rparr>)
              else completeRestore clk newID i input (s\<lparr>defenses := ds1\<rparr>)) = Inr s'"
  proof (cases "Timings input")
    case None
    show thesis
    proof (rule that [of "defenses s"], unfold defenses_same)
      show "list_all2 kept_row (defenses s) (defenses s)" by (simp add: kept_row_def list_all2_refl)
    qed (use assms None in \<open>simp_all add: completePreparation_def\<close>)
  next
    case (Some t)
    let ?f = "\<lambda>d. d\<lparr>d_timings := Some t\<rparr>"
    let ?ds = "update_where (\<lambda>d. d_id d = i) (put_defense (clk 2) ?f) (defenses s)"
    obtain s1 where s1: "update_defenses (clk 2) (\<lambda>d. d_id d = i) ?f s = Some s1"
      and rest: "(case defense_by_id s1 i of
            None \<Rightarrow> Inl ErrNoRows
          | Some d \<Rightarrow>
              if d_mode d = ''hide_seek'' then completeHide (clk 3) i input s1
              else completeRestore clk newID i input s1) = Inr s'"
      using assms(1) Some by (auto simp: completePreparation_def)
    have "list_all2 kept_row (defenses s) ?ds"
      by (rule list_all2_update_where) (auto simp: kept_row_def same_defense_def clock_kept_def)
    then show thesis
      by (rule that) (use s1 rest in \<open>auto simp: update_defenses_iff intro: list_all_update_where\<close>)
  qed
  let ?s = "s\<lparr>defenses := ds1\<rparr>"
  obtain d where d: "defense_by_id ?s i = Some d" using rest by (auto split: option.splits)
  have mode: "d_mode q = d_mode d" if "q \<in> set ds1" "d_id q = i" for q
  proof -
    have "d \<in> set ds1 \<and> d_id d = i" using d by (auto simp: defense_by_id_def dest: select_one_SomeD)
    then have "q = d" using that ds1(2) by (auto simp: defenses_unique_def dest: unique_onD)
    then show ?thesis by simp
  qed
  have "prepared i ?s s'"
  proof (cases "d_mode d = ''hide_seek''")
    case True
    then show ?thesis using rest d mode by (intro completeHide_effect) auto
  next
    case False
    then show ?thesis using rest d ds1(2) by (intro completeRestore_effect) auto
  qed
  with ds1 show ?thesis by (intro prepared_after_kept [of s ds1]) auto
qed

text \<open>The tables after the result of an attempt was reported.\<close>

lemma completeAttempt_effect:
  assumes "completeAttempt clk goNow i attempt input s = Inr s'"
  obtains a oc ds where "attempt = Some a" and "outcome_of (Outcome input) = Some oc"
    and "ds = (if oc = OPassed
               then update_where (\<lambda>d. d_id d = i \<and> d_status d = DActive) (put_defense (clk 3) (set_passed (clk 3))) (defenses s)
               else defenses s)"
    and "s' = s\<lparr>attempts := update_where (\<lambda>r. a_id r = a \<and> a_outcome r = OPending)
                  (record_outcome (clk 2) oc input) (attempts s), defenses := ds\<rparr>"
    and "attempts_unique (attempts s')" and "list_all attempt_check (attempts s) \<longrightarrow> list_all attempt_check (attempts s')"
    and "defenses_unique (defenses s) \<longrightarrow> defenses_unique ds"
    and "list_all defense_check (defenses s) \<longrightarrow> list_all defense_check ds"
proof -
  obtain a oc s1 where a: "attempt = Some a" and oc: "outcome_of (Outcome input) = Some oc"
    and s1: "update_attempts (\<lambda>r. a_id r = a \<and> a_outcome r = OPending) (record_outcome (clk 2) oc input) s = Some s1"
    and s2: "(if Outcome input = ''passed''
               then statement (update_defenses (clk 3) (\<lambda>d. d_id d = i \<and> d_status d = DActive) (set_passed (clk 3)) s1)
               else Inr s1) = Inr s'"
    using assms by (auto simp: completeAttempt_def split: option.splits)
  have passed: "Outcome input = ''passed'' \<longleftrightarrow> oc = OPassed"
    using oc by (auto simp: outcome_of_def split: if_splits)
  show thesis
    by (rule that [OF a oc refl])
      (use s1 s2 passed in \<open>auto simp: table_simps intro!: list_all_update_where split: if_splits\<close>)
qed

text \<open>The job row after its completion, through the state \<open>running\<close>.\<close>

definition finish_job :: "(nat \<Rightarrow> time) \<Rightarrow> job_row \<Rightarrow> job_row" where
  "finish_job clk j =
     put_job (clk 5) (\<lambda>q. q\<lparr>j_state := JCompleted\<rparr>)
       (if j_state j = JLeased then put_job (clk 1) (\<lambda>q. q\<lparr>j_state := JRunning\<rparr>) j else j)"

lemma finish_job_simps [simp]:
  "j_id (finish_job clk j) = j_id j" "j_kind (finish_job clk j) = j_kind j"
  "j_defense_id (finish_job clk j) = j_defense_id j" "j_attempt_id (finish_job clk j) = j_attempt_id j"
  "j_state (finish_job clk j) = JCompleted" "j_token_hash (finish_job clk j) = j_token_hash j"
  "j_owner (finish_job clk j) = j_owner j" "j_expires_at (finish_job clk j) = j_expires_at j"
  "j_retry_count (finish_job clk j) = j_retry_count j" "j_max_retries (finish_job clk j) = j_max_retries j"
  by (simp_all add: finish_job_def)

text \<open>The statements around the body of \<open>Complete\<close>: the job passes through \<open>running\<close> and is completed.\<close>

lemma finish_job_update:
  assumes "update_jobs (clk 1) (\<lambda>q. j_id q = job \<and> j_state q = JLeased) (\<lambda>q. q\<lparr>j_state := JRunning\<rparr>) s = Some s1"
    and "jobs s2 = jobs s1"
    and "update_jobs (clk 5) (\<lambda>q. j_id q = job) (\<lambda>q. q\<lparr>j_state := JCompleted\<rparr>) s2 = Some s3"
  shows "jobs s3 = update_where (\<lambda>q. j_id q = job) (finish_job clk) (jobs s) \<and> jobs_unique (jobs s3)
    \<and> (list_all job_check (jobs s) \<longrightarrow> list_all job_check (jobs s3))"
proof -
  have s1: "jobs s1 = update_where (\<lambda>q. j_id q = job \<and> j_state q = JLeased)
      (put_job (clk 1) (\<lambda>q. q\<lparr>j_state := JRunning\<rparr>)) (jobs s)"
    using assms(1) by (auto simp: update_jobs_iff)
  have s3: "jobs s3 = update_where (\<lambda>q. j_id q = job) (put_job (clk 5) (\<lambda>q. q\<lparr>j_state := JCompleted\<rparr>)) (jobs s1)"
    and u: "jobs_unique (jobs s3)"
    and ok: "\<And>q. q \<in> set (jobs s1) \<Longrightarrow> j_id q = job \<Longrightarrow> job_check (put_job (clk 5) (\<lambda>q. q\<lparr>j_state := JCompleted\<rparr>) q)"
    using assms(2,3) by (auto simp: update_jobs_iff)
  have "jobs s3 = update_where (\<lambda>q. j_id q = job) (finish_job clk) (jobs s)"
    unfolding s3 s1 update_where_twice by (simp add: update_where_def finish_job_def)
  moreover have "list_all job_check (jobs s1)" if "list_all job_check (jobs s)"
    using assms(1) that by (auto simp: update_jobs_iff intro: list_all_update_where)
  then have "list_all job_check (jobs s) \<longrightarrow> list_all job_check (jobs s3)"
    using ok unfolding s3 by (auto intro!: list_all_update_where)
  ultimately show ?thesis using u by blast
qed

lemma Complete_tx_cases:
  assumes "Complete_tx clk goNow newID job token input s = Inr (s', j)"
    and "defenses_unique (defenses s)"
  obtains
    (again) "s' = s" and "j \<in> set (jobs s)" and "j_id j = job" and "j_state j = JCompleted"
      and "j_token_hash j = Some (sha256 token)"
  | (prepared) s1 ls where "j \<in> set (jobs s)" and "live_lease (clk 0) job token j"
      and "j_kind j = PrepareDefense" and "prepared (j_defense_id j) s s1"
      and "s' = s1\<lparr>jobs := update_where (\<lambda>q. j_id q = job) (finish_job clk) (jobs s), leases := ls\<rparr>"
      and "jobs_unique (jobs s')" and "leases_unique ls"
      and "list_all lease_check (leases s) \<longrightarrow> list_all lease_check ls"
      and "list_all job_check (jobs s) \<longrightarrow> list_all job_check (jobs s')"
  | (attempted) a oc ds ls where "j \<in> set (jobs s)" and "live_lease (clk 0) job token j"
      and "j_kind j = CheckAttempt" and "j_attempt_id j = Some a" and "outcome_of (Outcome input) = Some oc"
      and "ds = (if oc = OPassed
             then update_where (\<lambda>d. d_id d = j_defense_id j \<and> d_status d = DActive)
                    (put_defense (clk 3) (set_passed (clk 3))) (defenses s)
             else defenses s)"
      and "s' = s\<lparr>attempts := update_where (\<lambda>r. a_id r = a \<and> a_outcome r = OPending)
                    (record_outcome (clk 2) oc input) (attempts s), defenses := ds,
                  jobs := update_where (\<lambda>q. j_id q = job) (finish_job clk) (jobs s), leases := ls\<rparr>"
      and "attempts_unique (attempts s')" and "list_all attempt_check (attempts s) \<longrightarrow> list_all attempt_check (attempts s')"
      and "defenses_unique ds" and "list_all defense_check (defenses s) \<longrightarrow> list_all defense_check ds"
      and "jobs_unique (jobs s')" and "leases_unique ls"
      and "list_all lease_check (leases s) \<longrightarrow> list_all lease_check ls"
      and "list_all job_check (jobs s) \<longrightarrow> list_all job_check (jobs s')"
proof -
  have j: "select_one (completable (clk 0) job token) (jobs s) = Some j"
    using assms(1) by (auto simp: Complete_tx_def split: option.splits if_splits)
  note jD = select_one_SomeD [OF j]
  show thesis
  proof (cases "j_state j = JCompleted")
    case True
    then show thesis
      using assms(1) j jD again by (auto simp: Complete_tx_def completable_def)
  next
    case False
    then have live: "live_lease (clk 0) job token j"
      using jD by (auto simp: completable_def live_lease_def)
    obtain s1 s2 s3 where
        s1: "update_jobs (clk 1) (\<lambda>q. j_id q = job \<and> j_state q = JLeased) (\<lambda>q. q\<lparr>j_state := JRunning\<rparr>) s = Some s1"
      and s2: "(if j_kind j = PrepareDefense then completePreparation clk newID (j_defense_id j) input s1
               else completeAttempt clk goNow (j_defense_id j) (j_attempt_id j) input s1) = Inr s2"
      and s3: "update_jobs (clk 5) (\<lambda>q. j_id q = job) (\<lambda>q. q\<lparr>j_state := JCompleted\<rparr>) s2 = Some s3"
      and s4: "update_leases (\<lambda>l. l_job_id l = job \<and> l_released_at l = None) (release_lease (clk 6) ''completed'') s3 = Some s'"
      using assms(1) j False by (auto simp: Complete_tx_def)
    obtain ls where ls: "s' = s3\<lparr>leases := ls\<rparr>" "leases_unique ls"
        "list_all lease_check (leases s3) \<longrightarrow> list_all lease_check ls"
      using s4 by (auto simp: update_leases_iff intro!: list_all_update_where)
    obtain js1 where js1: "s1 = s\<lparr>jobs := js1\<rparr>" using s1 by (auto simp: update_jobs_iff)
    have s3': "s3 = s2\<lparr>jobs := jobs s3\<rparr>" using s3 by (auto simp: update_jobs_iff)
    show thesis
    proof (cases "j_kind j")
      case PrepareDefense
      then have "prepared (j_defense_id j) s1 s2"
        using s2 js1 assms(2) by (auto intro: completePreparation_effect)
      then obtain ds cs where s2': "s2 = s1\<lparr>defenses := ds, candidates := cs\<rparr>"
        and p: "prepared (j_defense_id j) s (s\<lparr>defenses := ds, candidates := cs\<rparr>)"
        unfolding prepared_def js1 by auto
      have jobs: "jobs s2 = jobs s1" by (simp add: s2')
      note fin = finish_job_update [OF s1 jobs s3]
      have s': "s' = (s\<lparr>defenses := ds, candidates := cs\<rparr>)
          \<lparr>jobs := update_where (\<lambda>q. j_id q = job) (finish_job clk) (jobs s), leases := ls\<rparr>"
        unfolding ls(1) using fin by (subst s3') (simp add: s2' js1)
      have "jobs s' = jobs s3" "leases s3 = leases s"
        by (simp add: ls(1)) (subst s3', simp add: s2' js1)
      then show thesis
        by (intro prepared [OF conjunct1 [OF jD] live PrepareDefense p s'])
          (use fin ls(2,3) in auto)
    next
      case CheckAttempt
      then have att: "completeAttempt clk goNow (j_defense_id j) (j_attempt_id j) input s1 = Inr s2"
        using s2 by simp
      obtain a oc ds where a: "j_attempt_id j = Some a" "outcome_of (Outcome input) = Some oc"
        "ds = (if oc = OPassed
             then update_where (\<lambda>d. d_id d = j_defense_id j \<and> d_status d = DActive)
                    (put_defense (clk 3) (set_passed (clk 3))) (defenses s1)
             else defenses s1)"
        and s2': "s2 = s1\<lparr>attempts := update_where (\<lambda>r. a_id r = a \<and> a_outcome r = OPending)
                    (record_outcome (clk 2) oc input) (attempts s1), defenses := ds\<rparr>"
        and ok: "attempts_unique (attempts s2)" "list_all attempt_check (attempts s1) \<longrightarrow> list_all attempt_check (attempts s2)"
        "defenses_unique (defenses s1) \<longrightarrow> defenses_unique ds"
        "list_all defense_check (defenses s1) \<longrightarrow> list_all defense_check ds"
        by (rule completeAttempt_effect [OF att])
      have jobs: "jobs s2 = jobs s1" by (simp add: s2')
      note fin = finish_job_update [OF s1 jobs s3]
      have s': "s' = s\<lparr>attempts := update_where (\<lambda>r. a_id r = a \<and> a_outcome r = OPending)
                    (record_outcome (clk 2) oc input) (attempts s), defenses := ds,
                  jobs := update_where (\<lambda>q. j_id q = job) (finish_job clk) (jobs s), leases := ls\<rparr>"
        unfolding ls(1) using fin by (subst s3') (simp add: s2' js1)
      have "jobs s' = jobs s3" "leases s3 = leases s" "attempts s' = attempts s2"
        by (simp add: ls(1), subst s3', simp add: s2' js1) (simp add: s' s2' js1)
      moreover have "defenses s1 = defenses s" "attempts s1 = attempts s" by (simp_all add: js1)
      ultimately show thesis
        by (intro attempted [OF conjunct1 [OF jD] live CheckAttempt a(1,2) _ s'])
          (use fin ls(2,3) ok a(3) assms(2) in auto)
    qed
  qed
qed

end
