(* ===== verification/Defense_Invariant.thy ===== *)
theory Defense_Invariant
  imports Defense_Effects
begin

text \<open>
  The service as a state machine: every transaction of \<open>DefenseRepository\<close> is a step, in any
  order, by any actor, with any arguments and clock readings, interleaved with arbitrary changes
  of the tables that belong to other parts of the program.  The invariant ties the job queue to
  the defenses and attempts that wait for it, and the state of a defense to its clock and its
  challenge.  It is preserved by every step.
\<close>

section \<open>Steps\<close>

inductive step :: "db \<Rightarrow> db \<Rightarrow> bool" where
  create: "Create_tx clk actor submission key i session job seed s = Inr (s', x) \<Longrightarrow> step s s'"
| expiry: "step s (expire now i s)"
| configure: "Configure_tx clk actor i mode candidateID entityMode secs wheelSize job s = Inr (s', x) \<Longrightarrow> step s s'"
| configureHide: "ConfigureHide_tx clk actor i secs mutations job s = Inr (s', x) \<Longrightarrow> step s s'"
| saveDraft: "SaveDraft now actor i answer version s = (s', r) \<Longrightarrow> step s s'"
| cancel: "Cancel_tx clk actor i s = Inr (s', x) \<Longrightarrow> step s s'"
| attempt: "Attempt_tx clk actor i key answer attemptID jobID s = Inr (s', x) \<Longrightarrow> step s s'"
| lease: "Lease_tx clk appNow locked runnerID slots credentialHash token leaseID s = Inr (s', r') \<Longrightarrow> step s s'"
| heartbeat: "Heartbeat now job token s = (s', r'') \<Longrightarrow> step s s'"
| complete: "Complete_tx clk goNow newID job token input s = Inr (s', j) \<Longrightarrow> step s s'"
| others: "step s (s\<lparr>users := us, student_records := srs, group_teachers := gts, labs := ls,
                     submission_versions := svs\<rparr>)"

definition initial :: "db \<Rightarrow> bool" where
  "initial s \<longleftrightarrow> defenses s = [] \<and> candidates s = [] \<and> attempts s = [] \<and> jobs s = [] \<and> leases s = []"

inductive reachable :: "db \<Rightarrow> bool" where
  start: "initial s \<Longrightarrow> reachable s"
| next_state: "reachable s \<Longrightarrow> step s s' \<Longrightarrow> reachable s'"

section \<open>The invariant\<close>

text \<open>Every row passes its checks and the unique indexes hold.\<close>

definition schema_ok :: "db \<Rightarrow> bool" where
  "schema_ok s \<longleftrightarrow>
     defenses_unique (defenses s) \<and> list_all defense_check (defenses s)
   \<and> candidates_unique (candidates s) \<and> list_all candidate_check (candidates s)
   \<and> attempts_unique (attempts s) \<and> list_all attempt_check (attempts s)
   \<and> jobs_unique (jobs s) \<and> list_all job_check (jobs s)
   \<and> leases_unique (leases s) \<and> list_all lease_check (leases s)"

text \<open>The clock of a defense runs from its activation on and not before.\<close>

definition clock_ok :: "defense_row \<Rightarrow> bool" where
  "clock_ok d \<longleftrightarrow>
     60 \<le> d_time_limit d \<and> d_time_limit d \<le> 1800
   \<and> (d_status d = DReady \<or> d_status d = DPreparing \<longrightarrow> d_started_at d = None \<and> d_deadline_at d = None)
   \<and> (d_status d = DActive \<or> d_status d = DPassed \<or> d_status d = DExpired \<longrightarrow>
        (\<exists>t. d_started_at d = Some t \<and> d_deadline_at d = Some (t + seconds (d_time_limit d))))"

text \<open>A job has a token exactly while it is leased or after it was completed, and bounded retries.\<close>

definition job_ok :: "job_row \<Rightarrow> bool" where
  "job_ok j \<longleftrightarrow>
     (j_state j \<in> {JQueued, JLeased, JCompleted, JCancelled, JDead})
   \<and> (j_token_hash j \<noteq> None \<longleftrightarrow> j_state j = JLeased \<or> j_state j = JCompleted)
   \<and> j_max_retries j = 3 \<and> 0 \<le> j_retry_count j
   \<and> (if j_state j = JDead then j_retry_count j = 4 else j_retry_count j \<le> 3)"

text \<open>What waits for a runner, and what the queue holds.\<close>

definition preparing_ids :: "defense_row list \<Rightarrow> uuid set" where
  "preparing_ids ds = d_id ` {d \<in> set ds. d_status d = DPreparing}"

definition pending_pairs :: "attempt_row list \<Rightarrow> (uuid \<times> uuid) set" where
  "pending_pairs xs = (\<lambda>a. (a_id a, a_defense_id a)) ` {a \<in> set xs. a_outcome a = OPending}"

definition open_prepares :: "job_row list \<Rightarrow> uuid list" where
  "open_prepares js = map j_defense_id (filter (\<lambda>j. open_job j \<and> j_kind j = PrepareDefense) js)"

definition open_checks :: "job_row list \<Rightarrow> (uuid \<times> uuid) set" where
  "open_checks js = {(a, i). \<exists>j\<in>set js. open_job j \<and> j_kind j = CheckAttempt \<and> j_attempt_id j = Some a \<and> j_defense_id j = i}"

definition queue_ok :: "db \<Rightarrow> bool" where
  "queue_ok s \<longleftrightarrow>
     preparing_ids (defenses s) = set (open_prepares (jobs s)) \<and> distinct (open_prepares (jobs s))
   \<and> pending_pairs (attempts s) = open_checks (jobs s)"

text \<open>A defense in the restore mode that is past its configuration has its challenge.\<close>

definition challenge_ok :: "db \<Rightarrow> bool" where
  "challenge_ok s \<longleftrightarrow>
     (\<forall>d\<in>set (defenses s). d_mode d = ''restore'' \<longrightarrow>
        (d_status d = DActive \<longrightarrow> d_selected_id d \<noteq> None)
      \<and> (d_status d = DPreparing \<or> d_status d = DActive \<longrightarrow>
           (\<forall>sel. d_selected_id d = Some sel \<longrightarrow>
              (\<exists>c\<in>set (candidates s). c_id c = sel \<and> c_defense_id c = d_id d \<and> c_is_selected c
                 \<and> (d_status d = DActive \<longrightarrow> c_masked_source c \<noteq> None)))))"

definition inv :: "db \<Rightarrow> bool" where
  "inv s \<longleftrightarrow>
     schema_ok s \<and> list_all clock_ok (defenses s) \<and> list_all job_ok (jobs s) \<and> queue_ok s \<and> challenge_ok s"

section \<open>Lemmas on the parts\<close>

lemma defense_unique:
  "defenses_unique ds \<Longrightarrow> d \<in> set ds \<Longrightarrow> d' \<in> set ds \<Longrightarrow> d_id d = d_id d' \<Longrightarrow> d = d'"
  by (auto simp: defenses_unique_def dest: unique_onD)

lemma job_unique: "jobs_unique js \<Longrightarrow> j \<in> set js \<Longrightarrow> j' \<in> set js \<Longrightarrow> j_id j = j_id j' \<Longrightarrow> j = j'"
  by (auto simp: jobs_unique_def dest: unique_onD)

lemma attempt_unique:
  "attempts_unique xs \<Longrightarrow> a \<in> set xs \<Longrightarrow> a' \<in> set xs \<Longrightarrow> a_id a = a_id a' \<Longrightarrow> a = a'"
  by (auto simp: attempts_unique_def dest: unique_onD)

lemma job_attempt_unique:
  "jobs_unique js \<Longrightarrow> j \<in> set js \<Longrightarrow> j' \<in> set js \<Longrightarrow> j_attempt_id j = Some a \<Longrightarrow> j_attempt_id j' = Some a \<Longrightarrow> j = j'"
  by (auto simp: jobs_unique_def dest: unique_onD)

lemma open_prepares_append [simp]: "open_prepares (xs @ ys) = open_prepares xs @ open_prepares ys"
  by (simp add: open_prepares_def)

lemma set_open_prepares:
  "set (open_prepares js) = j_defense_id ` {j \<in> set js. open_job j \<and> j_kind j = PrepareDefense}"
  by (auto simp: open_prepares_def)

lemma open_checks_append [simp]: "open_checks (xs @ ys) = open_checks xs \<union> open_checks ys"
  by (auto simp: open_checks_def)

lemma preparing_ids_append [simp]: "preparing_ids (xs @ ys) = preparing_ids xs \<union> preparing_ids ys"
  by (auto simp: preparing_ids_def)

lemma pending_pairs_append [simp]: "pending_pairs (xs @ ys) = pending_pairs xs \<union> pending_pairs ys"
  by (auto simp: pending_pairs_def)

text \<open>Updates that do not touch what the queue invariant looks at.\<close>

lemma preparing_ids_Cons:
  "preparing_ids (d # ds) = (if d_status d = DPreparing then {d_id d} else {}) \<union> preparing_ids ds"
  by (auto simp: preparing_ids_def)

lemma pending_pairs_Cons:
  "pending_pairs (a # xs) = (if a_outcome a = OPending then {(a_id a, a_defense_id a)} else {}) \<union> pending_pairs xs"
  by (auto simp: pending_pairs_def)

lemma queue_Nil [simp]:
  "preparing_ids [] = {}" "pending_pairs [] = {}" "open_prepares [] = []" "open_checks [] = {}"
  by (simp_all add: preparing_ids_def pending_pairs_def open_prepares_def open_checks_def)

lemma queue_new_job [simp]:
  "open_prepares [new_job now j PrepareDefense i x] = [i]" "open_checks [new_job now j PrepareDefense i x] = {}"
  "open_prepares [new_job now j CheckAttempt i (Some a)] = []"
  "open_checks [new_job now j CheckAttempt i (Some a)] = {(a, i)}"
  by (simp_all add: open_prepares_def open_checks_def new_job_def open_job_def)

lemma preparing_ids_kept:
  "list_all2 (\<lambda>d d'. d_id d' = d_id d \<and> (d_status d' = DPreparing \<longleftrightarrow> d_status d = DPreparing)) ds ds'
     \<Longrightarrow> preparing_ids ds' = preparing_ids ds"
  by (induction rule: list_all2_induct) (auto simp: preparing_ids_Cons)

lemma open_prepares_kept:
  "list_all2 (\<lambda>j j'. j_defense_id j' = j_defense_id j \<and> j_kind j' = j_kind j \<and> open_job j' = open_job j) js js'
     \<Longrightarrow> open_prepares js' = open_prepares js"
  by (induction rule: list_all2_induct) (auto simp: open_prepares_def)

lemma open_checks_Cons:
  "open_checks (j # js) =
     (case j_attempt_id j of
        None \<Rightarrow> {} | Some a \<Rightarrow> if open_job j \<and> j_kind j = CheckAttempt then {(a, j_defense_id j)} else {}) \<union> open_checks js"
  by (auto simp: open_checks_def split: option.splits)

lemma open_checks_kept:
  "list_all2 (\<lambda>j j'. j_defense_id j' = j_defense_id j \<and> j_kind j' = j_kind j \<and> open_job j' = open_job j
       \<and> j_attempt_id j' = j_attempt_id j) js js' \<Longrightarrow> open_checks js' = open_checks js"
  by (induction rule: list_all2_induct) (auto simp: open_checks_Cons split: option.splits)

text \<open>Closing the jobs that satisfy \<open>c\<close>.\<close>

lemma open_prepares_closed:
  assumes "\<And>j. c j \<Longrightarrow> \<not> open_job (f j)"
  shows "open_prepares (update_where c f js) = open_prepares (filter (\<lambda>j. \<not> c j) js)"
  using assms by (induction js) (auto simp: open_prepares_def update_where_Cons)

lemma open_checks_closed:
  assumes "\<And>j. c j \<Longrightarrow> \<not> open_job (f j)"
  shows "open_checks (update_where c f js) = open_checks (filter (\<lambda>j. \<not> c j) js)"
  using assms by (induction js) (auto simp: open_checks_Cons update_where_Cons split: option.splits)

lemma distinct_open_prepares_filter: "distinct (open_prepares js) \<Longrightarrow> distinct (open_prepares (filter c js))"
  by (induction js) (auto simp: open_prepares_def)

lemma open_prepare_unique:
  assumes "distinct (open_prepares js)" and "j \<in> set js" and "j' \<in> set js" and "open_job j" and "open_job j'"
    and "j_kind j = PrepareDefense" and "j_kind j' = PrepareDefense" and "j_defense_id j = j_defense_id j'"
  shows "j = j'"
  using assms by (auto simp: open_prepares_def distinct_map dest: inj_onD)

lemma preparing_ids_left:
  assumes "\<And>d. c d \<Longrightarrow> d_status (f d) \<noteq> DPreparing"
  shows "preparing_ids (update_where c f ds) = preparing_ids (filter (\<lambda>d. \<not> c d) ds)"
  using assms by (induction ds) (auto simp: preparing_ids_Cons update_where_Cons)

lemma pending_pairs_left:
  assumes "\<And>a. c a \<Longrightarrow> a_outcome (f a) \<noteq> OPending"
  shows "pending_pairs (update_where c f xs) = pending_pairs (filter (\<lambda>a. \<not> c a) xs)"
  using assms by (induction xs) (auto simp: pending_pairs_Cons update_where_Cons)

lemma preparing_ids_update_kept:
  assumes "\<And>d. c d \<Longrightarrow> d_id (f d) = d_id d \<and> (d_status (f d) = DPreparing \<longleftrightarrow> d_status d = DPreparing)"
  shows "preparing_ids (update_where c f ds) = preparing_ids ds"
  using assms by (induction ds) (auto simp: preparing_ids_Cons update_where_Cons)

lemma open_prepares_update_kept:
  assumes "\<And>j. j \<in> set js \<Longrightarrow> c j \<Longrightarrow> j_defense_id (f j) = j_defense_id j \<and> j_kind (f j) = j_kind j \<and> open_job (f j) = open_job j"
  shows "open_prepares (update_where c f js) = open_prepares js"
  using assms by (induction js) (auto simp: open_prepares_def update_where_Cons)

lemma open_checks_update_kept:
  assumes "\<And>j. j \<in> set js \<Longrightarrow> c j \<Longrightarrow> j_defense_id (f j) = j_defense_id j \<and> j_kind (f j) = j_kind j \<and> open_job (f j) = open_job j
      \<and> j_attempt_id (f j) = j_attempt_id j"
  shows "open_checks (update_where c f js) = open_checks js"
  using assms by (induction js) (auto simp: open_checks_Cons update_where_Cons split: option.splits)

lemma challenge_row:
  assumes "challenge_ok s" and "d \<in> set (defenses s)" and "d_mode d = ''restore''"
    and "d_status d = DPreparing \<or> d_status d = DActive" and "d_selected_id d = Some sel"
  obtains c where "c \<in> set (candidates s)" and "c_id c = sel" and "c_defense_id c = d_id d" and "c_is_selected c"
    and "d_status d = DActive \<Longrightarrow> c_masked_source c \<noteq> None"
  using assms unfolding challenge_ok_def by blast

section \<open>Preservation\<close>

lemmas inv_defs = inv_def schema_ok_def queue_ok_def
lemmas tables_unique_defs = defenses_unique_def candidates_unique_def attempts_unique_def jobs_unique_def leases_unique_def

lemma initial_inv: "initial s \<Longrightarrow> inv s"
  by (simp add: initial_def inv_defs challenge_ok_def tables_unique_defs)

lemma new_job_ok: "job_ok (new_job now i kind d a)" "open_job (new_job now i kind d a)"
  by (simp_all add: job_ok_def new_job_def open_job_def)

lemma Create_inv:
  assumes "inv s" and "Create_tx clk actor submission key i session job seed s = Inr (s', x)"
  shows "inv s'"
  using assms(2)
proof (cases rule: Create_tx_cases)
  case existing
  with assms(1) show ?thesis by simp
next
  case (created d j)
  have d: "d_id d = i" "d_status d = DPreparing" "d_selected_id d = None" "clock_ok d"
    by (simp_all add: created(3) new_defense_def clock_ok_def)
  have "i \<notin> preparing_ids (defenses s)"
    using created(7) d(1) by (auto simp: preparing_ids_def defenses_unique_def unique_on_append1)
  then have "queue_ok s'"
    using assms(1) d by (auto simp: created(2,4) inv_def queue_ok_def preparing_ids_Cons)
  moreover have "challenge_ok s'"
    using assms(1) d by (auto simp: created(2) inv_def challenge_ok_def)
  moreover have "schema_ok s'" "list_all clock_ok (defenses s')" "list_all job_ok (jobs s')"
    using assms(1) created(5-8) d(4) new_job_ok by (simp_all add: created(2,4) inv_def schema_ok_def)
  ultimately show ?thesis by (simp add: inv_def)
qed

lemma Configure_inv_parts:
  assumes "ready_for s actor i = Some d"
  shows "d \<in> set (defenses s)" and "d_id d = i" and "d_status d = DReady"
  using assms by (auto simp: ready_for_def split: option.splits if_splits dest!: select_one_SomeD)

lemma preparing_ids_enter:
  assumes "\<And>q. q \<in> set ds \<Longrightarrow> c q \<Longrightarrow> d_id q = i \<and> d_id (f q) = i \<and> d_status (f q) = DPreparing"
  shows "preparing_ids (update_where c f ds) = (if \<exists>q\<in>set ds. c q then {i} else {}) \<union> preparing_ids ds"
  using assms by (induction ds) (auto simp: preparing_ids_Cons update_where_Cons)

text \<open>A ready defense that goes back into preparation with a new job.\<close>

lemma queue_ok_prepare_again:
  assumes "queue_ok s" and "defenses_unique (defenses s)" and "d \<in> set (defenses s)" and "d_id d = i" and "d_status d = DReady"
    and "defenses s' = update_where c f (defenses s)"
    and "c d" and "\<And>q. q \<in> set (defenses s) \<Longrightarrow> c q \<Longrightarrow> d_id q = i" and "d_id (f d) = i" and "d_status (f d) = DPreparing"
    and "attempts s' = attempts s" and "jobs s' = jobs s @ [new_job now job PrepareDefense i None]"
  shows "queue_ok s'"
proof -
  have only: "q = d" if "q \<in> set (defenses s)" "c q" for q
    using assms(2,3) that assms(8) [OF that] by (metis assms(4) defense_unique)
  have "preparing_ids (update_where c f (defenses s)) = insert i (preparing_ids (defenses s))"
  proof -
    have "d_id q = i \<and> d_id (f q) = i \<and> d_status (f q) = DPreparing" if "q \<in> set (defenses s)" "c q" for q
      using only [OF that] assms(4,9,10) by simp
    then have "preparing_ids (update_where c f (defenses s))
        = (if \<exists>q\<in>set (defenses s). c q then {i} else {}) \<union> preparing_ids (defenses s)"
      by (rule preparing_ids_enter)
    moreover have "\<exists>q\<in>set (defenses s). c q" using assms(3,7) by blast
    ultimately show ?thesis by simp
  qed
  moreover have "i \<notin> preparing_ids (defenses s)"
  proof
    assume "i \<in> preparing_ids (defenses s)"
    then obtain q where q: "q \<in> set (defenses s)" "d_id q = i" "d_status q = DPreparing"
      by (auto simp: preparing_ids_def)
    then have "q = d" using defense_unique [OF assms(2) q(1) assms(3)] assms(4) by simp
    with q(3) assms(5) show False by simp
  qed
  ultimately show ?thesis
    using assms(1) by (auto simp: queue_ok_def assms(6,11,12))
qed

lemma ready_clock:
  "d \<in> set (defenses s) \<Longrightarrow> d_status d = DReady \<Longrightarrow> inv s \<Longrightarrow> d_started_at d = None \<and> d_deadline_at d = None"
  by (auto simp: inv_def list_all_iff clock_ok_def)

lemma ConfigureHide_inv:
  assumes "inv s" and "ConfigureHide_tx clk actor i secs mutations job s = Inr (s', x)"
  shows "inv s'"
  using assms(2)
proof (rule ConfigureHide_tx_effect)
  fix d j
  assume secs: "60 \<le> secs" "secs \<le> 1800" and "ready_for s actor i = Some d"
    and j: "j = new_job (clk 1) job PrepareDefense i None"
    and s': "s' = s\<lparr>defenses := update_where (\<lambda>d. d_id d = i)
                   (put_defense (clk 0) (set_hidden secs mutations)) (defenses s), jobs := jobs s @ [j]\<rparr>"
    and ok: "\<And>d. d \<in> set (defenses s) \<Longrightarrow> d_id d = i \<Longrightarrow> defense_check (put_defense (clk 0) (set_hidden secs mutations) d)"
       "defenses_unique (defenses s')" "job_check j" "jobs_unique (jobs s')"
  note d = Configure_inv_parts [OF \<open>ready_for s actor i = Some d\<close>]
  have uniq: "defenses_unique (defenses s)" using assms(1) by (simp add: inv_defs)
  have row: "q = d" if "q \<in> set (defenses s)" "d_id q = i" for q
    using that d uniq by (auto dest: defense_unique)
  have "queue_ok s'"
    by (rule queue_ok_prepare_again [where c = "\<lambda>d. d_id d = i" and
            f = "put_defense (clk 0) (set_hidden secs mutations)" and now = "clk 1" and job = job, OF _ uniq d])
      (use assms(1) d(2) in \<open>simp_all add: inv_def s' j set_hidden_def\<close>)
  moreover have "challenge_ok s'"
    using assms(1) by (auto simp: inv_def challenge_ok_def s' update_where_mem_iff set_hidden_def)
  moreover have "schema_ok s'"
    using assms(1) ok by (auto simp: inv_def schema_ok_def s' intro!: list_all_update_where)
  moreover have "clock_ok (put_defense (clk 0) (set_hidden secs mutations) q)"
    if "q \<in> set (defenses s)" "d_id q = i" for q
    using row [OF that] secs ready_clock [OF d(1,3) assms(1)] by (simp add: clock_ok_def set_hidden_def)
  then have "list_all clock_ok (defenses s')"
    using assms(1) by (simp add: inv_def s' list_all_update_where)
  moreover have "list_all job_ok (jobs s')"
    using assms(1) new_job_ok by (simp add: inv_def s' j)
  ultimately show "inv s'" by (simp add: inv_def)
qed

lemma challenge_ok_update:
  assumes "challenge_ok s" and "candidates s' = candidates s" and "defenses s' = update_where c f (defenses s)"
    and "\<And>d. c d \<Longrightarrow> d_status (f d) \<noteq> DPreparing \<and> d_status (f d) \<noteq> DActive
          \<or> d_status (f d) = d_status d \<and> d_mode (f d) = d_mode d \<and> d_selected_id (f d) = d_selected_id d \<and> d_id (f d) = d_id d"
  shows "challenge_ok s'"
  unfolding challenge_ok_def
proof (intro ballI impI)
  fix d' assume "d' \<in> set (defenses s')" and mode: "d_mode d' = ''restore''"
  then obtain d where d: "d \<in> set (defenses s)" "d' = (if c d then f d else d)"
    by (auto simp: assms(3) update_where_mem_iff)
  then have "d_status d' \<noteq> DPreparing \<and> d_status d' \<noteq> DActive
      \<or> d_status d' = d_status d \<and> d_mode d' = d_mode d \<and> d_selected_id d' = d_selected_id d \<and> d_id d' = d_id d"
    using assms(4) [of d] by auto
  then show "(d_status d' = DActive \<longrightarrow> d_selected_id d' \<noteq> None)
      \<and> (d_status d' = DPreparing \<or> d_status d' = DActive \<longrightarrow>
           (\<forall>sel. d_selected_id d' = Some sel \<longrightarrow>
              (\<exists>c\<in>set (candidates s'). c_id c = sel \<and> c_defense_id c = d_id d' \<and> c_is_selected c
                 \<and> (d_status d' = DActive \<longrightarrow> c_masked_source c \<noteq> None))))"
    using assms(1) d(1) mode unfolding challenge_ok_def assms(2) by auto
qed

text \<open>
  Steps that change rows of the defense table only, and none into or out of preparation: an
  expiry, a draft, and the end of a defense.
\<close>

lemma defense_update_inv:
  assumes "inv s" and s': "s' = s\<lparr>defenses := update_where c f (defenses s)\<rparr>"
    and "defenses_unique (defenses s')"
    and "\<And>d. d \<in> set (defenses s) \<Longrightarrow> c d \<Longrightarrow> defense_check (f d)"
    and "\<And>d. c d \<Longrightarrow> d_id (f d) = d_id d \<and> d_status d \<noteq> DPreparing \<and> d_status (f d) \<noteq> DPreparing"
    and "\<And>d. c d \<Longrightarrow> clock_ok d \<Longrightarrow> clock_ok (f d)"
    and "\<And>d. c d \<Longrightarrow> d_status (f d) \<noteq> DActive
          \<or> d_status (f d) = d_status d \<and> d_mode (f d) = d_mode d \<and> d_selected_id (f d) = d_selected_id d"
  shows "inv s'"
proof -
  have "preparing_ids (update_where c f (defenses s)) = preparing_ids (defenses s)"
    using assms(5) by (intro preparing_ids_update_kept) auto
  then have "queue_ok s'" using assms(1) by (simp add: s' inv_def queue_ok_def)
  moreover have "challenge_ok s'"
    using assms(1,5,7) by (intro challenge_ok_update [of s s' c f]) (auto simp: s' inv_def)
  moreover have "schema_ok s'"
    using assms(1,3,4) by (auto simp: inv_def schema_ok_def s' intro!: list_all_update_where)
  moreover have "list_all clock_ok (update_where c f (defenses s))"
    by (rule list_all_update_where) (use assms(1,6) in \<open>auto simp: inv_def list_all_iff\<close>)
  then have "list_all clock_ok (defenses s')" by (simp add: s')
  ultimately show ?thesis using assms(1) by (simp add: inv_def s')
qed

lemma expire_inv: "inv s \<Longrightarrow> inv (expire now i s)"
proof (cases rule: expire_cases [of now i s])
  case unchanged
  then show "inv s \<Longrightarrow> inv (expire now i s)" by simp
next
  case expired
  show "inv s \<Longrightarrow> inv (expire now i s)"
    by (rule defense_update_inv [OF _ expired(1)])
      (use expired in \<open>auto simp: expired_now_def set_expired_def clock_ok_def\<close>)
qed

lemma SaveDraft_inv:
  assumes "inv s" and "SaveDraft now actor i answer version s = (s', r)"
  shows "inv s'"
  using assms(2)
proof (cases rule: SaveDraft_cases)
  case refused
  with assms(1) show ?thesis by simp
next
  case (saved d)
  show ?thesis
    by (rule defense_update_inv [OF assms(1) saved(5,7)])
      (use saved(6) in \<open>auto simp: draft_open_def clock_ok_def\<close>)
qed

lemma configured_simps [simp]:
  "c_id (configured i sel w c) = c_id c" "c_defense_id (configured i sel w c) = c_defense_id c"
  "c_masked_source (configured i sel w c) = c_masked_source c"
  by (simp_all add: configured_def)

lemma catalog_candidate:
  assumes "w \<in> set (catalog_by_rank s i m)"
  shows "\<exists>c\<in>set (candidates s). c_id c = ID w \<and> c_defense_id c = i"
  using assms by (auto simp: catalog_by_rank_def wheel_candidate_def)

lemma Configure_challenge:
  assumes "challenge_ok s" and "defenses_unique (defenses s)"
    and d: "d \<in> set (defenses s)" "d_id d = i" "d_status d = DReady"
    and wheel: "sel \<in> set w" "set w \<subseteq> set (catalog_by_rank s i m)"
    and s': "candidates s' = map (configured i (ID sel) w) (candidates s)"
      "defenses s' = update_where (\<lambda>d. d_id d = i \<and> d_status d = DReady) f (defenses s)"
    and f: "d_selected_id (f d) = Some (ID sel)" "d_id (f d) = i" "d_status (f d) = DPreparing"
  shows "challenge_ok s'"
  unfolding challenge_ok_def
proof (intro ballI impI)
  fix d' assume "d' \<in> set (defenses s')" and mode: "d_mode d' = ''restore''"
  then obtain q where q: "q \<in> set (defenses s)" "d' = (if d_id q = i \<and> d_status q = DReady then f q else q)"
    by (auto simp: s'(2) update_where_mem_iff)
  show "(d_status d' = DActive \<longrightarrow> d_selected_id d' \<noteq> None)
      \<and> (d_status d' = DPreparing \<or> d_status d' = DActive \<longrightarrow>
           (\<forall>sel. d_selected_id d' = Some sel \<longrightarrow>
              (\<exists>c\<in>set (candidates s'). c_id c = sel \<and> c_defense_id c = d_id d' \<and> c_is_selected c
                 \<and> (d_status d' = DActive \<longrightarrow> c_masked_source c \<noteq> None))))"
  proof (cases "d_id q = i")
    case True
    then have "q = d" using defense_unique [OF assms(2) q(1) d(1)] d(2) by simp
    then have "d' = f d" using q d by simp
    moreover obtain c where c: "c \<in> set (candidates s)" "c_id c = ID sel" "c_defense_id c = i"
      using catalog_candidate [of sel s i m] wheel by auto
    then have "configured i (ID sel) w c \<in> set (candidates s')" by (simp add: s'(1))
    moreover have "c_is_selected (configured i (ID sel) w c)" using c wheel(1) by (simp add: configured_def)
    ultimately have "\<exists>c\<in>set (candidates s'). c_id c = ID sel \<and> c_defense_id c = i \<and> c_is_selected c"
      using c by (intro bexI [of _ "configured i (ID sel) w c"]) simp_all
    moreover note \<open>d' = f d\<close>
    ultimately show ?thesis using f by simp
  next
    case False
    then have d': "d' = q" using q by simp
    have "c_is_selected (configured i (ID sel) w c) = c_is_selected c" if "c_defense_id c = d_id q" for c
      using that False by (simp add: configured_def)
    then show ?thesis
      using assms(1) q(1) mode unfolding challenge_ok_def d' s'(1)
      by (auto simp: image_iff) (metis configured_simps)+
  qed
qed

lemma Configure_inv:
  assumes "inv s" and "Configure_tx clk actor i mode candidateID entityMode secs wheelSize job s = Inr (s', x)"
  shows "inv s'"
proof -
  have cand: "candidates_unique (candidates s)" "list_all candidate_check (candidates s)"
    and uniq: "defenses_unique (defenses s)"
    using assms(1) by (simp_all add: inv_defs)
  from assms(2) cand show ?thesis
  proof (rule Configure_tx_effect)
    fix d w sel j
    assume conf: "configure_ok mode entityMode secs wheelSize" and "ready_for s actor i = Some d"
      and j: "j = new_job (clk 2) job PrepareDefense i None"
      and wheel: "buildWheel (catalog_by_rank s i entityMode) mode candidateID (decimal (nat (d_seed d))) wheelSize = Wheel w sel"
      and s': "s' = s\<lparr>candidates := map (configured i (ID sel) w) (candidates s),
                defenses := update_where (\<lambda>d. d_id d = i \<and> d_status d = DReady)
                   (put_defense (clk 1) (set_configured (ID sel) mode secs wheelSize entityMode)) (defenses s),
                jobs := jobs s @ [j]\<rparr>"
      and ok: "candidates_unique (candidates s')" "list_all candidate_check (candidates s')"
        "\<And>d. d \<in> set (defenses s) \<Longrightarrow> d_id d = i \<Longrightarrow> d_status d = DReady
           \<Longrightarrow> defense_check (put_defense (clk 1) (set_configured (ID sel) mode secs wheelSize entityMode) d)
             \<and> references c_id (Some (ID sel)) (candidates s')"
        "defenses_unique (defenses s')" "job_check j" "jobs_unique (jobs s')"
    let ?f = "put_defense (clk 1) (set_configured (ID sel) mode secs wheelSize entityMode)"
    note d = Configure_inv_parts [OF \<open>ready_for s actor i = Some d\<close>]
    have "queue_ok s'"
      by (rule queue_ok_prepare_again [where c = "\<lambda>d. d_id d = i \<and> d_status d = DReady" and
            f = ?f and now = "clk 2" and job = job, OF _ uniq d])
        (use assms(1) d(2,3) in \<open>simp_all add: inv_def s' j set_configured_def\<close>)
    moreover have "challenge_ok s'"
      by (rule Configure_challenge [where f = ?f, OF _ uniq d buildWheel_members [OF wheel]])
        (use assms(1) d(2) in \<open>simp_all add: inv_def s' set_configured_def\<close>)
    moreover have "schema_ok s'"
      using assms(1) ok by (auto simp: inv_def schema_ok_def s' intro!: list_all_update_where)
    moreover have "clock_ok (?f q)" if "q \<in> set (defenses s)" "d_id q = i \<and> d_status q = DReady" for q
      using ready_clock [of q s] that conf assms(1) by (auto simp: clock_ok_def set_configured_def configure_ok_def)
    then have "list_all clock_ok (defenses s')"
      using assms(1) by (simp add: inv_def s' list_all_update_where)
    moreover have "list_all job_ok (jobs s')"
      using assms(1) new_job_ok by (simp add: inv_def s' j)
    ultimately show "inv s'" by (simp add: inv_def)
  qed
qed

lemma list_all_update_kept:
  "list_all p rs \<Longrightarrow> (\<And>r. c r \<Longrightarrow> p r \<Longrightarrow> p (f r)) \<Longrightarrow> list_all p (update_where c f rs)"
  by (rule list_all_update_where) (auto simp: list_all_iff)

lemma cancelled_clock: "clock_ok d \<Longrightarrow> clock_ok (put_defense now (set_cancelled now) d)"
  by (auto simp: clock_ok_def set_cancelled_def)

lemma cancelled_job: "job_ok j \<Longrightarrow> open_job j \<Longrightarrow> job_ok (put_job now (clear_job JCancelled) j)"
  by (auto simp: job_ok_def clear_job_def open_job_def)

lemma Cancel_inv:
  assumes "inv s" and "Cancel_tx clk actor i s = Inr (s', x)"
  shows "inv s'"
  using assms(2)
proof (cases rule: Cancel_tx_effect)
  case 1
  let ?js = "update_where (\<lambda>j. j_defense_id j = i \<and> open_job j) (put_job (clk 2) (clear_job JCancelled)) (jobs s)"
  have closed: "\<not> open_job (put_job (clk 2) (clear_job JCancelled) j)" for j
    by (simp add: open_job_def clear_job_def)
  have "preparing_ids (defenses s') = preparing_ids (defenses s) - {i}"
    unfolding 1(3) by (simp add: preparing_ids_left set_cancelled_def) (auto simp: preparing_ids_def open_status_def)
  moreover have "open_prepares (jobs s') = filter (\<lambda>x. x \<noteq> i) (open_prepares (jobs s))"
    unfolding 1(3) using closed
    by (simp add: open_prepares_closed) (auto simp: open_prepares_def filter_map comp_def intro!: arg_cong [of _ _ "map _"] filter_cong)
  moreover have "pending_pairs (attempts s') = {p \<in> pending_pairs (attempts s). snd p \<noteq> i}"
    unfolding 1(3) by (simp add: pending_pairs_left fail_attempt_def) (auto simp: pending_pairs_def)
  moreover have "open_checks (jobs s') = {p \<in> open_checks (jobs s). snd p \<noteq> i}"
    unfolding 1(3) using closed by (simp add: open_checks_closed) (auto simp: open_checks_def)
  ultimately have "queue_ok s'" using assms(1) by (auto simp: inv_def queue_ok_def)
  moreover have "challenge_ok s'"
    using assms(1) by (intro challenge_ok_update [of s s' "\<lambda>d. d_id d = i \<and> open_status (d_status d)"
          "put_defense (clk 0) (set_cancelled (clk 0))"]) (simp_all add: 1(3) inv_def set_cancelled_def)
  moreover have "schema_ok s'"
    using assms(1) 1(4-11) by (auto simp: inv_def schema_ok_def 1(3) intro!: list_all_update_where)
  moreover have "list_all clock_ok (defenses s')" "list_all job_ok (jobs s')"
    using assms(1) unfolding 1(3)
    by (auto simp: inv_def intro!: list_all_update_kept cancelled_clock cancelled_job)
  ultimately show ?thesis by (simp add: inv_def)
qed

lemma Attempt_inv:
  assumes "inv s" and "Attempt_tx clk actor i key answer attemptID jobID s = Inr (s', x)"
  shows "inv s'"
  using assms(2)
proof (cases rule: Attempt_tx_cases)
  case existing
  with assms(1) show ?thesis by simp
next
  case (accepted a j)
  have "pending_pairs [a] = {(attemptID, i)}"
    by (simp add: accepted(3) pending_pairs_Cons new_attempt_def)
  then have "queue_ok s'"
    using assms(1) by (simp add: accepted(4,5) inv_def queue_ok_def)
  moreover have "challenge_ok s'" using assms(1) by (simp add: accepted(5) inv_def challenge_ok_def)
  moreover have "schema_ok s'" "list_all job_ok (jobs s')"
    using assms(1) accepted(6-9) new_job_ok by (simp_all add: accepted(4,5) inv_def schema_ok_def)
  ultimately show ?thesis using assms(1) by (simp add: inv_def accepted(5))
qed

text \<open>Jobs that a reclaim gives up: their last retry is used up.\<close>

definition exhausted :: "time \<Rightarrow> job_row \<Rightarrow> bool" where
  "exhausted now j \<longleftrightarrow> lease_expired now j \<and> j_retry_count j + 1 > j_max_retries j"

lemma retry_job_simps [simp]:
  "j_id (retry_job j) = j_id j" "j_kind (retry_job j) = j_kind j" "j_defense_id (retry_job j) = j_defense_id j"
  "j_attempt_id (retry_job j) = j_attempt_id j" "j_max_retries (retry_job j) = j_max_retries j"
  "j_state (retry_job j) = (if j_retry_count j + 1 > j_max_retries j then JDead else JQueued)"
  "j_token_hash (retry_job j) = None" "j_retry_count (retry_job j) = j_retry_count j + 1"
  by (simp_all add: retry_job_def clear_job_def)

lemma lease_expired_open: "lease_expired now j \<Longrightarrow> open_job j"
  by (simp add: lease_expired_def open_job_def)

lemma retry_open: "open_job (put_job now retry_job j) \<longleftrightarrow> \<not> j_retry_count j + 1 > j_max_retries j"
  by (simp add: open_job_def)

lemma retry_ok: "job_ok j \<Longrightarrow> lease_expired now j \<Longrightarrow> job_ok (put_job now retry_job j)"
  by (auto simp: job_ok_def lease_expired_def)

lemma open_prepares_reclaim:
  "open_prepares (update_where (lease_expired now) (put_job now retry_job) js)
     = open_prepares (filter (\<lambda>j. \<not> exhausted now j) js)"
  by (induction js)
    (auto simp: open_prepares_def update_where_Cons exhausted_def retry_open dest: lease_expired_open)

lemma open_checks_reclaim:
  "open_checks (update_where (lease_expired now) (put_job now retry_job) js)
     = open_checks (filter (\<lambda>j. \<not> exhausted now j) js)"
  by (induction js)
    (auto simp: open_checks_Cons update_where_Cons exhausted_def retry_open dest: lease_expired_open split: option.splits)

lemma lost_defense_iff:
  "lost_defense (reclaimed_jobs now s) d \<longleftrightarrow>
     d_status d = DPreparing
     \<and> (\<exists>j\<in>set (jobs s). exhausted now j \<and> j_kind j = PrepareDefense \<and> j_defense_id j = d_id d)"
  by (auto simp: lost_defense_def reclaimed_jobs_def exhausted_def)

lemma lost_attempt_iff:
  "lost_attempt (reclaimed_jobs now s) a \<longleftrightarrow>
     a_outcome a = OPending \<and> (\<exists>j\<in>set (jobs s). exhausted now j \<and> j_attempt_id j = Some (a_id a))"
  by (auto simp: lost_attempt_def reclaimed_jobs_def exhausted_def)

lemma reclaim_queue:
  assumes "inv s" and "jobs s' = update_where (lease_expired now) (put_job now retry_job) (jobs s)"
    and "defenses s' = update_where (lost_defense (reclaimed_jobs now s)) (put_defense t set_exhausted) (defenses s)"
    and "attempts s' = update_where (lost_attempt (reclaimed_jobs now s)) (fail_attempt t msg) (attempts s)"
  shows "queue_ok s'"
proof -
  have q: "preparing_ids (defenses s) = set (open_prepares (jobs s))" "distinct (open_prepares (jobs s))"
    "pending_pairs (attempts s) = open_checks (jobs s)" and ju: "jobs_unique (jobs s)" and jc: "list_all job_check (jobs s)"
    using assms(1) by (simp_all add: inv_defs)
  let ?lost = "{i. \<exists>j\<in>set (jobs s). exhausted now j \<and> j_kind j = PrepareDefense \<and> j_defense_id j = i}"
  let ?gone = "{p. \<exists>j\<in>set (jobs s). exhausted now j \<and> j_attempt_id j = Some (fst p)}"
  have "preparing_ids (defenses s') = preparing_ids (defenses s) - ?lost"
    by (simp add: assms(3) preparing_ids_left set_exhausted_def lost_defense_iff) (auto simp: preparing_ids_def intro!: imageI)
  moreover have "set (open_prepares (jobs s')) = set (open_prepares (jobs s)) - ?lost"
    using open_prepare_unique [OF q(2)] lease_expired_open
    by (auto simp: assms(2) open_prepares_reclaim set_open_prepares exhausted_def)
  moreover have "distinct (open_prepares (jobs s'))"
    by (simp add: assms(2) open_prepares_reclaim distinct_open_prepares_filter q(2))
  moreover have "pending_pairs (attempts s') = pending_pairs (attempts s) - ?gone"
    by (simp add: assms(4) pending_pairs_left fail_attempt_def lost_attempt_iff) (auto simp: pending_pairs_def)
  moreover have "open_checks (jobs s') = open_checks (jobs s) - ?gone"
    unfolding assms(2) open_checks_reclaim
    using job_attempt_unique [OF ju] by (auto simp: open_checks_def) blast+
  ultimately show ?thesis using q by (simp add: queue_ok_def)
qed

lemma reclaim_inv:
  assumes "inv s" and "reclaim_tx clk runnerID slots credentialHash s = Inr s'"
  shows "inv s'"
proof -
  have lu: "leases_unique (leases s)" using assms(1) by (simp add: inv_defs)
  from assms(2) lu show ?thesis
  proof (rule reclaim_tx_effect)
    fix rs s2
    assume s2: "s2 = s\<lparr>runners := rs, jobs := update_where (lease_expired (clk 1)) (put_job (clk 1) retry_job) (jobs s)\<rparr>"
      and settled: "settled (clk 2) (reclaimed_jobs (clk 1) s) s2 s'"
      and ju: "jobs_unique (jobs s2)"
      and jc: "\<And>j. j \<in> set (jobs s) \<Longrightarrow> lease_expired (clk 1) j \<Longrightarrow> job_check (put_job (clk 1) retry_job j)"
    obtain ls where s': "s' = s2\<lparr>defenses := update_where (lost_defense (reclaimed_jobs (clk 1) s)) (put_defense (clk 2) set_exhausted) (defenses s2),
         attempts := update_where (lost_attempt (reclaimed_jobs (clk 1) s)) (fail_attempt (clk 2) ''runner retries exhausted'') (attempts s2),
         leases := ls\<rparr>" "leases_unique ls" "list_all lease_check (leases s2) \<longrightarrow> list_all lease_check ls"
      using settled unfolding settled_def by blast
    have "queue_ok s'"
      by (rule reclaim_queue [OF assms(1), of s' "clk 1" "clk 2" "''runner retries exhausted''"]) (simp_all add: s'(1) s2)
    moreover have "challenge_ok s'"
      using assms(1) by (intro challenge_ok_update [of s s' "lost_defense (reclaimed_jobs (clk 1) s)" "put_defense (clk 2) set_exhausted"])
        (simp_all add: s'(1) s2 inv_def set_exhausted_def)
    moreover have "list_all job_check (jobs s')"
      using assms(1) jc by (auto simp: s'(1) s2 inv_defs intro!: list_all_update_where)
    then have "schema_ok s'"
      using assms(1) settled ju s'(2,3) unfolding settled_def
      by (auto simp: inv_def schema_ok_def s'(1) s2)
    moreover have "list_all clock_ok (defenses s')"
      using assms(1) by (auto simp: s'(1) s2 inv_def clock_ok_def set_exhausted_def intro!: list_all_update_kept)
    moreover have "list_all job_ok (jobs s')"
      using assms(1) retry_ok by (auto simp: s'(1) s2 inv_def intro!: list_all_update_kept)
    ultimately show "inv s'" by (simp add: inv_def)
  qed
qed

text \<open>Steps that change job rows without opening or closing a job.\<close>

lemma job_update_inv:
  assumes "inv s" and s': "s' = s\<lparr>jobs := update_where c f (jobs s), leases := ls\<rparr>"
    and "jobs_unique (jobs s')" and "leases_unique ls" and "list_all lease_check ls"
    and "\<And>j. j \<in> set (jobs s) \<Longrightarrow> c j \<Longrightarrow> job_check (f j)"
    and "\<And>j. j \<in> set (jobs s) \<Longrightarrow> c j \<Longrightarrow> job_ok j \<Longrightarrow> job_ok (f j)"
    and "\<And>j. j \<in> set (jobs s) \<Longrightarrow> c j \<Longrightarrow> j_defense_id (f j) = j_defense_id j \<and> j_kind (f j) = j_kind j
           \<and> open_job (f j) = open_job j \<and> j_attempt_id (f j) = j_attempt_id j"
  shows "inv s'"
proof -
  have "open_prepares (update_where c f (jobs s)) = open_prepares (jobs s)"
    "open_checks (update_where c f (jobs s)) = open_checks (jobs s)"
    using assms(8) by (auto intro!: open_prepares_update_kept open_checks_update_kept)
  then have "queue_ok s'" using assms(1) by (simp add: s' inv_def queue_ok_def)
  moreover have "challenge_ok s'" using assms(1) by (simp add: s' inv_def challenge_ok_def)
  moreover have "list_all job_check (update_where c f (jobs s))"
    by (rule list_all_update_where) (use assms(1,6) in \<open>auto simp: inv_defs\<close>)
  then have "schema_ok s'" using assms(1,3,4,5) by (simp add: s' inv_def schema_ok_def)
  moreover have "list_all job_ok (update_where c f (jobs s))"
    by (rule list_all_update_where) (use assms(1,7) in \<open>auto simp: inv_def list_all_iff\<close>)
  ultimately show ?thesis using assms(1) by (simp add: s' inv_def)
qed

lemma Lease_inv:
  assumes "inv s" and "Lease_tx clk appNow locked runnerID slots credentialHash token leaseID s = Inr (s', r)"
  shows "inv s'"
  using assms(2)
proof (cases rule: Lease_tx_cases)
  case idle
  then show ?thesis using reclaim_inv [OF assms(1)] by blast
next
  case (leased s1 j l)
  have inv1: "inv s1" by (rule reclaim_inv [OF assms(1) leased(1)])
  have states: "j_state q = JQueued \<or> j_state q = JLeased" if "q \<in> set (jobs s1)" "j_id q = j_id j" for q
    using leased(9) [OF that] by (auto simp: validate_runner_job_transition_def)
  show ?thesis
  proof (rule job_update_inv [OF inv1 leased(5,8)])
    fix q assume q: "q \<in> set (jobs s1)" "j_id q = j_id j"
    let ?f = "put_job (clk 4) (set_leased runnerID token (lease_expiry appNow))"
    show "job_check (?f q)" using leased(9) [OF q] by simp
    show "job_ok (?f q)" if "job_ok q" using states [OF q] that by (auto simp: job_ok_def set_leased_def)
    show "j_defense_id (?f q) = j_defense_id q \<and> j_kind (?f q) = j_kind q \<and> open_job (?f q) = open_job q
       \<and> j_attempt_id (?f q) = j_attempt_id q"
      using states [OF q] by (auto simp: set_leased_def open_job_def)
  qed (use inv1 leased(6,7) in \<open>simp_all add: inv_defs leased(5)\<close>)
qed

lemma Heartbeat_inv:
  assumes "inv s" and "Heartbeat now job token s = (s', r)"
  shows "inv s'"
  using assms(2)
proof (cases rule: Heartbeat_cases)
  case refused
  with assms(1) show ?thesis by simp
next
  case written
  let ?f = "put_job now (\<lambda>j. j\<lparr>j_expires_at := Some (now + seconds 120), j_updated_at := now\<rparr>)"
  have "s' = s\<lparr>jobs := update_where (live_lease now job token) ?f (jobs s), leases := leases s\<rparr>"
    unfolding written(1) by (cases s) simp
  then show ?thesis
    by (rule job_update_inv [OF assms(1) _ written(3)])
      (use assms(1) written(4) in \<open>auto simp: inv_defs job_ok_def open_job_def\<close>)
qed

text \<open>The queue after one job has been completed.\<close>

lemma live_lease_open: "live_lease now job token j \<Longrightarrow> open_job j \<and> j_id j = job"
  by (auto simp: live_lease_def open_job_def)

lemma finish_job_closed: "\<not> open_job (finish_job clk j)"
  by (simp add: open_job_def)

lemma finish_prepares:
  assumes "inv s" and "j \<in> set (jobs s)" and "j_id j = job" and "open_job j"
  shows "set (open_prepares (update_where (\<lambda>q. j_id q = job) (finish_job clk) (jobs s)))
       = (if j_kind j = PrepareDefense then set (open_prepares (jobs s)) - {j_defense_id j} else set (open_prepares (jobs s)))"
    and "distinct (open_prepares (update_where (\<lambda>q. j_id q = job) (finish_job clk) (jobs s)))"
proof -
  have d: "distinct (open_prepares (jobs s))" and u: "jobs_unique (jobs s)"
    using assms(1) by (simp_all add: inv_defs)
  have eq: "open_prepares (update_where (\<lambda>q. j_id q = job) (finish_job clk) (jobs s))
      = open_prepares (filter (\<lambda>q. j_id q \<noteq> job) (jobs s))"
    by (simp add: open_prepares_closed finish_job_closed)
  have self: "q = j" if "q \<in> set (jobs s)" "j_id q = job" for q
    using job_unique [OF u that(1) assms(2)] that(2) assms(3) by simp
  have other: "q = j" if "q \<in> set (jobs s)" "open_job q" "j_kind q = PrepareDefense" "j_kind j = PrepareDefense"
      "j_defense_id q = j_defense_id j" for q
    using open_prepare_unique [OF d that(1) assms(2) that(2) assms(4)] that by blast
  show "set (open_prepares (update_where (\<lambda>q. j_id q = job) (finish_job clk) (jobs s)))
       = (if j_kind j = PrepareDefense then set (open_prepares (jobs s)) - {j_defense_id j} else set (open_prepares (jobs s)))"
    unfolding eq set_open_prepares
  proof (intro set_eqI iffI)
    fix x assume "x \<in> j_defense_id ` {q \<in> set (filter (\<lambda>q. j_id q \<noteq> job) (jobs s)). open_job q \<and> j_kind q = PrepareDefense}"
    then obtain q where "q \<in> set (jobs s)" "j_id q \<noteq> job" "open_job q" "j_kind q = PrepareDefense" "x = j_defense_id q" by auto
    then show "x \<in> (if j_kind j = PrepareDefense
         then j_defense_id ` {j \<in> set (jobs s). open_job j \<and> j_kind j = PrepareDefense} - {j_defense_id j}
         else j_defense_id ` {j \<in> set (jobs s). open_job j \<and> j_kind j = PrepareDefense})"
      using other [of q] assms(3) by auto
  next
    fix x assume "x \<in> (if j_kind j = PrepareDefense
         then j_defense_id ` {j \<in> set (jobs s). open_job j \<and> j_kind j = PrepareDefense} - {j_defense_id j}
         else j_defense_id ` {j \<in> set (jobs s). open_job j \<and> j_kind j = PrepareDefense})"
    then obtain q where "q \<in> set (jobs s)" "open_job q" "j_kind q = PrepareDefense" "x = j_defense_id q"
      and "j_kind j = PrepareDefense \<Longrightarrow> x \<noteq> j_defense_id j" by (auto split: if_splits)
    moreover from this have "j_id q \<noteq> job" using self [of q] by auto
    ultimately show "x \<in> j_defense_id ` {q \<in> set (filter (\<lambda>q. j_id q \<noteq> job) (jobs s)). open_job q \<and> j_kind q = PrepareDefense}"
      by auto
  qed
  show "distinct (open_prepares (update_where (\<lambda>q. j_id q = job) (finish_job clk) (jobs s)))"
    unfolding eq using d by (rule distinct_open_prepares_filter)
qed

lemma finish_checks:
  assumes "inv s" and "j \<in> set (jobs s)" and "j_id j = job" and "open_job j"
  shows "open_checks (update_where (\<lambda>q. j_id q = job) (finish_job clk) (jobs s))
       = (if j_kind j = CheckAttempt then {p \<in> open_checks (jobs s). Some (fst p) \<noteq> j_attempt_id j} else open_checks (jobs s))"
proof -
  have u: "jobs_unique (jobs s)" and c: "list_all job_check (jobs s)"
    using assms(1) by (simp_all add: inv_defs)
  have eq: "open_checks (update_where (\<lambda>q. j_id q = job) (finish_job clk) (jobs s))
      = open_checks (filter (\<lambda>q. j_id q \<noteq> job) (jobs s))"
    by (simp add: open_checks_closed finish_job_closed)
  have self: "q = j" if "q \<in> set (jobs s)" "j_id q = job" for q
    using job_unique [OF u that(1) assms(2)] that(2) assms(3) by simp
  have other: "q = j" if "q \<in> set (jobs s)" "j_attempt_id q = Some a" "j_attempt_id j = Some a" for q a
    using job_attempt_unique [OF u that(1) assms(2)] that by blast
  have "(a, i) \<in> open_checks (filter (\<lambda>q. j_id q \<noteq> job) (jobs s)) \<longleftrightarrow>
      (a, i) \<in> open_checks (jobs s) \<and> (j_kind j = CheckAttempt \<longrightarrow> Some a \<noteq> j_attempt_id j)" for a i
  proof
    assume "(a, i) \<in> open_checks (filter (\<lambda>q. j_id q \<noteq> job) (jobs s))"
    then obtain q where q: "q \<in> set (jobs s)" "j_id q \<noteq> job" "open_job q" "j_kind q = CheckAttempt"
        "j_attempt_id q = Some a" "j_defense_id q = i" by (auto simp: open_checks_def)
    then have "Some a \<noteq> j_attempt_id j" using other [of q a] assms(3) by auto
    with q show "(a, i) \<in> open_checks (jobs s) \<and> (j_kind j = CheckAttempt \<longrightarrow> Some a \<noteq> j_attempt_id j)"
      by (auto simp: open_checks_def)
  next
    assume h: "(a, i) \<in> open_checks (jobs s) \<and> (j_kind j = CheckAttempt \<longrightarrow> Some a \<noteq> j_attempt_id j)"
    then obtain q where q: "q \<in> set (jobs s)" "open_job q" "j_kind q = CheckAttempt"
        "j_attempt_id q = Some a" "j_defense_id q = i" by (auto simp: open_checks_def)
    then have "j_id q \<noteq> job" using self [of q] h by auto
    with q show "(a, i) \<in> open_checks (filter (\<lambda>q. j_id q \<noteq> job) (jobs s))"
      by (auto simp: open_checks_def)
  qed
  then show ?thesis unfolding eq by auto
qed

lemma prepared_status:
  "prepared_row i d d' \<Longrightarrow>
     d_id d' = d_id d \<and> (d_status d' = DPreparing \<longleftrightarrow> d_status d = DPreparing \<and> d_id d \<noteq> i)"
  by (auto simp: prepared_row_def same_defense_def started_now_def split: if_splits)

lemma preparing_ids_removed:
  "list_all2 (\<lambda>d d'. d_id d' = d_id d \<and> (d_status d' = DPreparing \<longleftrightarrow> d_status d = DPreparing \<and> d_id d \<noteq> i)) ds ds'
     \<Longrightarrow> preparing_ids ds' = preparing_ids ds - {i}"
  by (induction rule: list_all2_induct) (auto simp: preparing_ids_Cons)

lemma prepared_preparing:
  "list_all2 (prepared_row i) ds ds' \<Longrightarrow> preparing_ids ds' = preparing_ids ds - {i}"
proof (rule preparing_ids_removed, erule list_all2_mono)
qed (rule prepared_status)

lemma prepared_clock:
  assumes "prepared_row i d d'" and "clock_ok d"
  shows "clock_ok d'"
proof -
  have limit: "d_time_limit d' = d_time_limit d"
    using assms(1) by (simp add: prepared_row_def same_defense_def)
  consider "started_now d d'" | "d_status d' = DReady \<or> d_status d' = DError" "d_status d = DPreparing" "clock_kept d d'"
    | "d_status d' = d_status d" "clock_kept d d'"
    using assms(1) by (auto simp: prepared_row_def split: if_splits)
  then show ?thesis
  proof cases
    case 1
    then show ?thesis using assms(2) limit by (auto simp: clock_ok_def started_now_def)
  next
    case 2
    then show ?thesis using assms(2) limit by (auto simp: clock_ok_def clock_kept_def)
  next
    case 3
    then show ?thesis using assms(2) limit by (simp add: clock_ok_def clock_kept_def)
  qed
qed

lemma grown_candidate:
  assumes "candidates_grown cs cs'" and "c \<in> set cs"
  obtains m where "c\<lparr>c_masked_source := m\<rparr> \<in> set cs'" and "c_masked_source c \<noteq> None \<longrightarrow> m \<noteq> None"
proof -
  obtain ys zs where "cs' = ys @ zs"
    "list_all2 (\<lambda>c c'. \<exists>m. c' = c\<lparr>c_masked_source := m\<rparr> \<and> (c_masked_source c \<noteq> None \<longrightarrow> m \<noteq> None)) cs ys"
    using assms(1) by (auto simp: candidates_grown_def)
  with list_all2_memI [OF this(2) assms(2)] that show thesis by auto
qed

lemma prepared_challenge:
  assumes "challenge_ok s" and "prepared i s s1"
  shows "challenge_ok s1"
proof -
  obtain ds cs where s1: "s1 = s\<lparr>defenses := ds, candidates := cs\<rparr>"
    and rows: "list_all2 (prepared_row i) (defenses s) ds" and grown: "candidates_grown (candidates s) cs"
    and act: "\<forall>d\<in>set ds. d_id d = i \<and> d_status d = DActive \<and> d_mode d = ''restore''
             \<and> (\<exists>q\<in>set (defenses s). d_id q = i \<and> d_status q = DPreparing) \<longrightarrow>
             (\<exists>sel. d_selected_id d = Some sel
                \<and> (\<forall>c\<in>set cs. c_id c = sel \<and> c_is_selected c \<longrightarrow> c_masked_source c \<noteq> None))"
    using assms(2) unfolding prepared_def by auto
  show ?thesis
    unfolding challenge_ok_def
  proof (intro ballI impI)
    fix d' assume d': "d' \<in> set (defenses s1)" and mode: "d_mode d' = ''restore''"
    then have "d' \<in> set ds" by (simp add: s1)
    then obtain d where d: "d \<in> set (defenses s)" and row: "prepared_row i d d'"
      using list_all2_memD [OF rows] by blast
    have same: "d_mode d' = d_mode d" "d_selected_id d' = d_selected_id d" "d_id d' = d_id d"
      using row by (auto simp: prepared_row_def same_defense_def)
    have old: "d_status d' = DPreparing \<or> d_status d' = DActive \<Longrightarrow> d_status d = DPreparing \<or> d_status d = DActive"
      "d_status d = DActive \<Longrightarrow> d_status d' = DActive"
      using row by (auto simp: prepared_row_def started_now_def split: if_splits)
    have fresh: "d_status d' = DActive \<Longrightarrow> d_status d = DPreparing \<Longrightarrow> d_id d = i"
      using row by (auto simp: prepared_row_def split: if_splits)
    have masked: "\<exists>sel. d_selected_id d' = Some sel
        \<and> (\<forall>c\<in>set cs. c_id c = sel \<and> c_is_selected c \<longrightarrow> c_masked_source c \<noteq> None)"
      if "d_status d' = DActive" "d_status d = DPreparing"
      using act \<open>d' \<in> set ds\<close> mode that fresh [OF that] d same(3) by blast
    have found: "\<exists>c\<in>set cs. c_id c = sel \<and> c_defense_id c = d_id d' \<and> c_is_selected c
         \<and> (d_status d' = DActive \<longrightarrow> c_masked_source c \<noteq> None)"
      if h: "d_status d' = DPreparing \<or> d_status d' = DActive" "d_selected_id d' = Some sel" for sel
    proof -
      obtain c where c: "c \<in> set (candidates s)" "c_id c = sel" "c_defense_id c = d_id d" "c_is_selected c"
        "d_status d = DActive \<Longrightarrow> c_masked_source c \<noteq> None"
        using challenge_row [OF assms(1) d] mode same h old(1) by metis
      obtain m where m: "c\<lparr>c_masked_source := m\<rparr> \<in> set cs" "c_masked_source c \<noteq> None \<longrightarrow> m \<noteq> None"
        by (rule grown_candidate [OF grown c(1)])
      have "m \<noteq> None" if a: "d_status d' = DActive"
      proof (cases "d_status d = DActive")
        case True
        then show ?thesis using c(5) m(2) by blast
      next
        case False
        then have "d_status d = DPreparing" using old(1) a by blast
        from masked [OF a this] m(1) c h(2) show ?thesis by force
      qed
      with m(1) c same(3) show ?thesis by (intro bexI [of _ "c\<lparr>c_masked_source := m\<rparr>"]) simp_all
    qed
    have "d_selected_id d' \<noteq> None" if a: "d_status d' = DActive"
    proof (cases "d_status d = DActive")
      case True
      then show ?thesis using assms(1) d mode same unfolding challenge_ok_def by auto
    next
      case False
      then have "d_status d = DPreparing" using old(1) a by blast
      then show ?thesis using masked [OF a] by auto
    qed
    with found show "(d_status d' = DActive \<longrightarrow> d_selected_id d' \<noteq> None)
      \<and> (d_status d' = DPreparing \<or> d_status d' = DActive \<longrightarrow>
           (\<forall>sel. d_selected_id d' = Some sel \<longrightarrow>
              (\<exists>c\<in>set (candidates s1). c_id c = sel \<and> c_defense_id c = d_id d' \<and> c_is_selected c
                 \<and> (d_status d' = DActive \<longrightarrow> c_masked_source c \<noteq> None))))"
      by (simp add: s1)
  qed
qed

lemma finish_ok:
  assumes "inv s" and "j \<in> set (jobs s)" and "j_id j = job" and "open_job j" and "j_token_hash j \<noteq> None"
  shows "list_all job_ok (update_where (\<lambda>q. j_id q = job) (finish_job clk) (jobs s))"
proof (rule list_all_update_where)
  show "list_all job_ok (jobs s)" using assms(1) by (simp add: inv_def)
  fix q assume q: "q \<in> set (jobs s)" "j_id q = job"
  have u: "jobs_unique (jobs s)" using assms(1) by (simp add: inv_defs)
  have "q = j" using job_unique [OF u q(1) assms(2)] q(2) assms(3) by simp
  moreover have "job_ok j" using assms(1,2) by (simp add: inv_def list_all_iff)
  ultimately show "job_ok (finish_job clk q)" using assms(4,5) by (auto simp: job_ok_def open_job_def)
qed

lemma live_lease_token: "live_lease now job token j \<Longrightarrow> j_token_hash j \<noteq> None"
  by (simp add: live_lease_def)

lemma passed_clock: "d_status d = DActive \<Longrightarrow> clock_ok d \<Longrightarrow> clock_ok (put_defense now (set_passed now) d)"
  by (simp add: clock_ok_def set_passed_def)

lemma Complete_inv:
  assumes "inv s" and "Complete_tx clk goNow newID job token input s = Inr (s', j)"
  shows "inv s'"
proof -
  have du: "defenses_unique (defenses s)" using assms(1) by (simp add: inv_defs)
  from assms(2) du show ?thesis
  proof (cases rule: Complete_tx_cases)
    case again
    with assms(1) show ?thesis by simp
  next
    case (prepared s1 ls)
    have open_j: "open_job j" "j_id j = job" using live_lease_open [OF prepared(2)] by simp_all
    obtain ds cs where s1: "s1 = s\<lparr>defenses := ds, candidates := cs\<rparr>"
      and rows: "list_all2 (prepared_row (j_defense_id j)) (defenses s) ds"
      and grown: "candidates_grown (candidates s) cs" and dsu: "defenses_unique ds"
      and dsc: "list_all defense_check (defenses s) \<longrightarrow> list_all defense_check ds"
      using prepared(4) du unfolding prepared_def by auto
    have "queue_ok s'"
      using assms(1) finish_prepares [OF assms(1) prepared(1) open_j(2,1), of clk]
        finish_checks [OF assms(1) prepared(1) open_j(2,1), of clk] prepared_preparing [OF rows] prepared(3)
      by (simp add: prepared(5) s1 inv_def queue_ok_def)
    moreover have "challenge_ok s'"
      using prepared_challenge [OF _ prepared(4)] assms(1) by (simp add: prepared(5) inv_def challenge_ok_def)
    moreover have "schema_ok s'"
      using assms(1) prepared(6-9) dsu dsc grown
      by (simp add: prepared(5) s1 inv_def schema_ok_def candidates_grown_def)
    moreover have "clock_ok d'" if h: "d' \<in> set ds" for d'
    proof -
      obtain d where "d \<in> set (defenses s)" "prepared_row (j_defense_id j) d d'"
        using list_all2_memD [OF rows h] by blast
      then show ?thesis using prepared_clock assms(1) by (auto simp: inv_def list_all_iff)
    qed
    then have "list_all clock_ok (defenses s')" by (simp add: list_all_iff prepared(5) s1)
    moreover have "list_all job_ok (jobs s')"
      using finish_ok [OF assms(1) prepared(1) open_j(2,1) live_lease_token [OF prepared(2)]] by (simp add: prepared(5))
    ultimately show ?thesis by (simp add: inv_def)
  next
    case (attempted a oc ds ls)
    have open_j: "open_job j" "j_id j = job" using live_lease_open [OF attempted(2)] by simp_all
    have "oc \<noteq> OPending" using attempted(5) by (auto simp: outcome_of_def split: if_splits)
    then have pend: "pending_pairs (attempts s') = {p \<in> pending_pairs (attempts s). fst p \<noteq> a}"
      by (simp add: attempted(7) pending_pairs_left record_outcome_def) (auto simp: pending_pairs_def)
    have prep: "preparing_ids ds = preparing_ids (defenses s)"
      unfolding attempted(6) by (auto simp: set_passed_def intro!: preparing_ids_update_kept)
    have "queue_ok s'"
      using assms(1) finish_prepares [OF assms(1) attempted(1) open_j(2,1), of clk]
        finish_checks [OF assms(1) attempted(1) open_j(2,1), of clk] prep pend attempted(3,4)
      by (auto simp: attempted(7) inv_def queue_ok_def)
    moreover have "challenge_ok s'"
    proof (cases "oc = OPassed")
      case True
      then show ?thesis
        using assms(1) by (intro challenge_ok_update [of s s' "\<lambda>d. d_id d = j_defense_id j \<and> d_status d = DActive"
          "put_defense (clk 3) (set_passed (clk 3))"]) (simp_all add: attempted(6,7) inv_def set_passed_def)
    next
      case False
      then show ?thesis using assms(1) by (simp add: attempted(6,7) inv_def challenge_ok_def)
    qed
    moreover have "schema_ok s'"
      using assms(1) attempted(8-15) by (simp add: attempted(7) inv_def schema_ok_def)
    moreover have "list_all clock_ok (defenses s')"
      using assms(1) by (auto simp: attempted(6,7) inv_def intro!: list_all_update_kept passed_clock)
    moreover have "list_all job_ok (jobs s')"
      using finish_ok [OF assms(1) attempted(1) open_j(2,1) live_lease_token [OF attempted(2)]] by (simp add: attempted(7))
    ultimately show ?thesis by (simp add: inv_def)
  qed
qed

lemma others_inv:
  "inv s \<Longrightarrow> inv (s\<lparr>users := us, student_records := srs, group_teachers := gts, labs := ls, submission_versions := svs\<rparr>)"
  by (simp add: inv_defs challenge_ok_def)

lemma step_inv: "step s s' \<Longrightarrow> inv s \<Longrightarrow> inv s'"
  by (induction rule: step.induct)
    (auto intro: Create_inv expire_inv Configure_inv ConfigureHide_inv SaveDraft_inv Cancel_inv Attempt_inv
      Lease_inv Heartbeat_inv Complete_inv others_inv)

lemma reachable_inv: "reachable s \<Longrightarrow> inv s"
  by (induction rule: reachable.induct) (auto intro: initial_inv step_inv)

end
