(* ===== verification/Defense_Properties.thy ===== *)
theory Defense_Properties
  imports Defense_Invariant
begin

text \<open>
  The properties of the defense service: what holds in every reachable state, and what each
  operation promises to its caller.  A small deployment, one student with one submission, serves
  as the example on which the hypotheses are seen to hold.
\<close>

section \<open>An example\<close>

definition example_empty :: db where
  "example_empty =
     \<lparr>users = [\<lparr>u_id = ''stud'', u_status = UserActive, u_role = Some Student\<rparr>,
               \<lparr>u_id = ''prof'', u_status = UserActive, u_role = Some Teacher\<rparr>],
      student_records = [\<lparr>sr_id = ''rec'', sr_group_id = ''grp'', sr_user_id = Some ''stud'', sr_login = ''octo''\<rparr>],
      group_teachers = [\<lparr>gt_group_id = ''grp'', gt_teacher_user_id = ''prof''\<rparr>],
      labs = [\<lparr>lab_id = ''lab'', lab_code = ''l1'', lab_name = ''Lab 1''\<rparr>],
      submission_versions = [\<lparr>sv_id = ''sub'', sv_student_record_id = ''rec'', sv_lab_id = ''lab'', sv_object_key = ''k''\<rparr>],
      defenses = [], candidates = [], attempts = [], runners = [], jobs = [], leases = []\<rparr>"

definition example_clk :: "nat \<Rightarrow> time" where
  "example_clk n = int n"

definition example_defense :: defense_row where
  "example_defense =
     put_defense 1 (\<lambda>d. d\<lparr>d_status := DPreparing\<rparr>) (new_defense 0 ''def'' ''ses'' ''sub'' 7 ''key'')"

definition example_created :: db where
  "example_created =
     example_empty\<lparr>defenses := [example_defense], jobs := [new_job 2 ''job'' PrepareDefense ''def'' None]\<rparr>"

lemma example_create:
  "Create_tx example_clk ''stud'' ''sub'' ''key'' ''def'' ''ses'' ''job'' 7 example_empty = Inr (example_created, ''def'')"
  by code_simp

lemma example_reachable: "reachable example_created"
proof -
  have "reachable example_empty"
    by (rule reachable.start) (simp add: initial_def example_empty_def)
  then show ?thesis
    by (rule reachable.next_state) (rule step.create [OF example_create])
qed

text \<open>The same deployment while the student works: the defense is active, its first job done.\<close>

definition example_digest :: bytes where
  "example_digest = replicate 32 (CHR ''x'')"

definition example_candidate :: candidate_row where
  "example_candidate =
     \<lparr>c_id = ''cand'', c_defense_id = ''def'', c_rank = 1, c_function_name = ''f'', c_file_path = ''src/a.cpp'',
      c_signature = ''int f()'', c_signature_begin = 0, c_body_start = 8, c_body_end = 20, c_start_line = 1,
      c_end_line = 3, c_line_count = 3, c_source_sha256 = example_digest, c_body_sha256 = example_digest,
      c_is_selected = True, c_masked_source = Some ''int f() {}'', c_entity_type = ''function'',
      c_is_test_file = False, c_wheel_rank = Some 1\<rparr>"

definition example_working :: defense_row where
  "example_working =
     example_defense\<lparr>d_status := DActive, d_started_at := Some 0, d_deadline_at := Some (seconds 60),
                     d_selected_id := Some ''cand'', d_selection_mode := Some ''manual''\<rparr>"

definition example_job :: job_row where
  "example_job =
     (new_job 2 ''job'' PrepareDefense ''def'' None)
       \<lparr>j_state := JCompleted, j_owner := Some ''run'', j_token_hash := Some example_digest, j_expires_at := Some 9\<rparr>"

definition example_active :: db where
  "example_active =
     example_empty\<lparr>defenses := [example_working], candidates := [example_candidate], jobs := [example_job]\<rparr>"

lemma example_active_inv: "inv example_active"
proof -
  have "schema_ok example_active"
    by (simp add: schema_ok_def example_active_def example_empty_def example_working_def example_defense_def
        example_job_def example_candidate_def example_digest_def new_defense_def new_job_def tables_unique_defs
        unique_on_def defense_check_def job_check_def candidate_check_def finished_status_def deadline_check_def
        has_prefix_def put_defense_def rune_count_short)
  moreover have "list_all clock_ok (defenses example_active)"
    by (simp add: example_active_def example_working_def example_defense_def clock_ok_def new_defense_def)
  moreover have "list_all job_ok (jobs example_active)"
    by (simp add: example_active_def example_job_def job_ok_def new_job_def)
  moreover have "queue_ok example_active"
    by (simp add: example_active_def example_empty_def example_working_def example_job_def queue_ok_def preparing_ids_Cons
        open_prepares_def open_checks_Cons open_job_def new_job_def)
  moreover have "challenge_ok example_active"
    by (simp add: challenge_ok_def example_active_def example_working_def example_candidate_def example_defense_def
        new_defense_def)
  ultimately show ?thesis by (simp add: inv_def)
qed

section \<open>What holds in every reachable state\<close>

text \<open>
  C1: every state that the service can reach, by any interleaving of its transactions with any
  arguments and clock readings, satisfies the invariant: the constraints of the schema, the
  discipline of clocks, leases and retries, the match between queue and waiting work, and the
  presence of the challenge.
\<close>

theorem reachable_invariant:
  assumes "reachable s"
  shows "inv s"
  using assms by (rule reachable_inv)

theorem reachable_invariant_witness: "reachable example_created \<and> inv example_created"
  using example_reachable reachable_invariant [OF example_reachable] by blast

lemma unique_in_list:
  assumes "distinct (map f (filter p xs))" and "x \<in> f ` {y \<in> set xs. p y}"
  shows "\<exists>!y. y \<in> set xs \<and> p y \<and> f y = x"
  using assms by (auto simp: distinct_map dest: inj_onD)

text \<open>
  C2: nothing waits in vain.  In every reachable state each defense in preparation has exactly
  one open preparation job, each pending attempt exactly one open check job, and conversely
  every open job serves a defense in preparation or a pending attempt of its own defense.
\<close>

theorem queue_exact:
  assumes "reachable s"
  shows "(\<forall>d\<in>set (defenses s). d_status d = DPreparing \<longrightarrow>
            (\<exists>!j. j \<in> set (jobs s) \<and> open_job j \<and> j_kind j = PrepareDefense \<and> j_defense_id j = d_id d))
       \<and> (\<forall>a\<in>set (attempts s). a_outcome a = OPending \<longrightarrow>
            (\<exists>!j. j \<in> set (jobs s) \<and> open_job j \<and> j_attempt_id j = Some (a_id a)))
       \<and> (\<forall>j\<in>set (jobs s). open_job j \<longrightarrow>
            (case j_attempt_id j of
               None \<Rightarrow> \<exists>d\<in>set (defenses s). d_id d = j_defense_id j \<and> d_status d = DPreparing
             | Some a \<Rightarrow> \<exists>r\<in>set (attempts s). a_id r = a \<and> a_defense_id r = j_defense_id j \<and> a_outcome r = OPending))"
proof -
  have inv: "inv s" by (rule reachable_inv [OF assms])
  then have q: "preparing_ids (defenses s) = set (open_prepares (jobs s))" "distinct (open_prepares (jobs s))"
      "pending_pairs (attempts s) = open_checks (jobs s)"
    and ju: "jobs_unique (jobs s)" and jc: "list_all job_check (jobs s)"
    by (simp_all add: inv_defs)
  have kind: "j_kind j = CheckAttempt \<longleftrightarrow> j_attempt_id j \<noteq> None" if "j \<in> set (jobs s)" for j
    using jc that by (cases "j_kind j") (auto simp: list_all_iff job_check_def)
  have "\<exists>!j. j \<in> set (jobs s) \<and> open_job j \<and> j_kind j = PrepareDefense \<and> j_defense_id j = d_id d"
    if d: "d \<in> set (defenses s)" "d_status d = DPreparing" for d
  proof -
    have "d_id d \<in> set (open_prepares (jobs s))" using d q(1) by (auto simp: preparing_ids_def)
    then show ?thesis
      using unique_in_list [OF q(2) [unfolded open_prepares_def]] by (auto simp: set_open_prepares)
  qed
  moreover have "\<exists>!j. j \<in> set (jobs s) \<and> open_job j \<and> j_attempt_id j = Some (a_id a)"
    if a: "a \<in> set (attempts s)" "a_outcome a = OPending" for a
  proof -
    have "(a_id a, a_defense_id a) \<in> open_checks (jobs s)" using a q(3) by (auto simp: pending_pairs_def)
    then show ?thesis using job_attempt_unique [OF ju] by (auto simp: open_checks_def)
  qed
  moreover have "case j_attempt_id j of
               None \<Rightarrow> \<exists>d\<in>set (defenses s). d_id d = j_defense_id j \<and> d_status d = DPreparing
             | Some a \<Rightarrow> \<exists>r\<in>set (attempts s). a_id r = a \<and> a_defense_id r = j_defense_id j \<and> a_outcome r = OPending"
    if j: "j \<in> set (jobs s)" "open_job j" for j
  proof (cases "j_attempt_id j")
    case None
    then have "j_kind j = PrepareDefense" using kind [OF j(1)] by (cases "j_kind j") auto
    then have "j_defense_id j \<in> preparing_ids (defenses s)" using j q(1) by (auto simp: set_open_prepares)
    then show ?thesis using None by (auto simp: preparing_ids_def)
  next
    case (Some a)
    then have "(a, j_defense_id j) \<in> pending_pairs (attempts s)"
      using j kind [OF j(1)] q(3) by (auto simp: open_checks_def)
    then show ?thesis using Some by (auto simp: pending_pairs_def)
  qed
  ultimately show ?thesis by blast
qed

theorem queue_exact_witness:
  "example_defense \<in> set (defenses example_created) \<and> d_status example_defense = DPreparing
   \<and> (\<exists>!j. j \<in> set (jobs example_created) \<and> open_job j \<and> j_kind j = PrepareDefense \<and> j_defense_id j = d_id example_defense)"
proof -
  have "example_defense \<in> set (defenses example_created)" "d_status example_defense = DPreparing"
    by (simp_all add: example_created_def example_defense_def)
  then show ?thesis using queue_exact [OF example_reachable] by blast
qed

text \<open>
  the clock of a defense.  The time limit always lies between one minute and half an hour;
  before the activation no start and no deadline is set; from the activation on the deadline is
  exactly the start plus the limit.
\<close>

theorem clock_exact:
  assumes "reachable s" and "d \<in> set (defenses s)"
  shows "60 \<le> d_time_limit d \<and> d_time_limit d \<le> 1800
     \<and> (d_status d \<in> {DReady, DPreparing} \<longrightarrow> d_started_at d = None \<and> d_deadline_at d = None)
     \<and> (d_status d \<in> {DActive, DPassed, DExpired} \<longrightarrow>
          (\<exists>t. d_started_at d = Some t \<and> d_deadline_at d = Some (t + seconds (d_time_limit d))))"
  using reachable_inv [OF assms(1)] assms(2) by (auto simp: inv_def list_all_iff clock_ok_def)

theorem clock_exact_witness:
  "reachable example_created \<and> example_defense \<in> set (defenses example_created)
   \<and> d_started_at example_defense = None \<and> 60 \<le> d_time_limit example_defense"
proof -
  have d: "example_defense \<in> set (defenses example_created)" "d_status example_defense = DPreparing"
    by (simp_all add: example_created_def example_defense_def)
  show ?thesis using clock_exact [OF example_reachable d(1)] d example_reachable by simp
qed

text \<open>
  an active defense in the restore mode always has its challenge: the view that \<open>Get\<close> builds
  finds the selected candidate, of this very defense, with a masked source that is not empty.
\<close>

theorem active_has_challenge:
  assumes "inv s" and "d \<in> set (defenses s)" and "d_status d = DActive" and "d_mode d = ''restore''"
  shows "\<exists>ch. challenge_view s (d_selected_id d) = Some ch \<and> ch_masked_source ch \<noteq> ''''"
proof -
  have ch: "challenge_ok s" and cu: "candidates_unique (candidates s)" and cc: "list_all candidate_check (candidates s)"
    using assms(1) by (simp_all add: inv_defs)
  obtain sel where sel: "d_selected_id d = Some sel"
    using ch assms(2-4) unfolding challenge_ok_def by auto
  obtain c where c: "c \<in> set (candidates s)" "c_id c = sel" "c_masked_source c \<noteq> None"
    using challenge_row [OF ch assms(2,4) _ sel] assms(3) by metis
  have "select_one (\<lambda>q. c_id q = sel) (candidates s) = Some c"
    by (rule select_one_unique) (use cu c in \<open>simp_all add: candidates_unique_def\<close>)
  moreover obtain m where m: "c_masked_source c = Some m" using c(3) by blast
  moreover have "m \<noteq> ''''" using cc c(1) m by (auto simp: list_all_iff candidate_check_def)
  ultimately show ?thesis by (simp add: challenge_view_def sel)
qed

theorem active_has_challenge_witness:
  "inv example_active \<and> (\<exists>ch. challenge_view example_active (d_selected_id example_working) = Some ch)"
proof -
  have "example_working \<in> set (defenses example_active)" "d_status example_working = DActive" "d_mode example_working = ''restore''"
    by (simp_all add: example_active_def example_working_def example_defense_def new_defense_def)
  then show ?thesis using active_has_challenge [OF example_active_inv] example_active_inv by blast
qed

section \<open>How a defense develops\<close>

text \<open>
  The life of a defense, row by row.  \<open>moves\<close> lists the changes of status that the operations make;
  they are a part of what the trigger would allow.
\<close>

fun moves :: "defense_status \<Rightarrow> defense_status \<Rightarrow> bool" where
  "moves DReady b = (b = DPreparing \<or> b = DCancelled)"
| "moves DPreparing b = (b = DReady \<or> b = DActive \<or> b = DError \<or> b = DCancelled)"
| "moves DActive b = (b = DPassed \<or> b = DExpired \<or> b = DCancelled)"
| "moves a b = False"

definition same_clock :: "defense_row \<Rightarrow> defense_row \<Rightarrow> bool" where
  "same_clock d d' \<longleftrightarrow>
     d_started_at d' = d_started_at d \<and> d_deadline_at d' = d_deadline_at d \<and> d_time_limit d' = d_time_limit d
   \<and> d_mode d' = d_mode d \<and> d_selected_id d' = d_selected_id d \<and> d_hide_mutations d' = d_hide_mutations d"

definition row_step :: "defense_row \<Rightarrow> defense_row \<Rightarrow> bool" where
  "row_step d d' \<longleftrightarrow>
     d_id d' = d_id d \<and> d_session_id d' = d_session_id d \<and> d_submission_id d' = d_submission_id d
   \<and> d_seed d' = d_seed d \<and> d_start_key d' = d_start_key d
   \<and> (d_status d' = d_status d \<or> moves (d_status d) (d_status d'))
   \<and> (d_status d = DActive \<or> \<not> open_status (d_status d) \<longrightarrow> same_clock d d')
   \<and> (\<not> open_status (d_status d) \<longrightarrow> d_draft d' = d_draft d \<and> d_draft_version d' = d_draft_version d
        \<and> d_finished_at d' = d_finished_at d)"

definition rows_step :: "db \<Rightarrow> db \<Rightarrow> bool" where
  "rows_step s s' \<longleftrightarrow> (\<forall>d\<in>set (defenses s). \<exists>d'\<in>set (defenses s'). row_step d d')"

lemma row_step_refl [simp]: "row_step d d"
  by (simp add: row_step_def same_clock_def)

lemma rows_step_same: "set (defenses s) \<subseteq> set (defenses s') \<Longrightarrow> rows_step s s'"
  unfolding rows_step_def using row_step_refl by blast

lemma rows_step_update:
  assumes "defenses s' = update_where c f (defenses s)"
    and "\<And>d. d \<in> set (defenses s) \<Longrightarrow> c d \<Longrightarrow> row_step d (f d)"
  shows "rows_step s s'"
  unfolding rows_step_def
proof
  fix d assume d: "d \<in> set (defenses s)"
  let ?d = "if c d then f d else d"
  have "?d \<in> set (defenses s')" using update_where_memI [OF d, of c f] assms(1) by simp
  moreover have "row_step d ?d" using assms(2) d by simp
  ultimately show "\<exists>d'\<in>set (defenses s'). row_step d d'" by blast
qed

lemmas row_step_defs = row_step_def same_clock_def open_status_def

lemma prepared_row_step: "prepared_row i d d' \<Longrightarrow> row_step d d'"
  by (auto simp: prepared_row_def same_defense_def started_now_def clock_kept_def row_step_defs split: if_splits)

lemma prepared_rows_step:
  assumes "prepared i s s1" and "defenses s' = defenses s1"
  shows "rows_step s s'"
  unfolding rows_step_def
proof
  fix d assume d: "d \<in> set (defenses s)"
  have "list_all2 (prepared_row i) (defenses s) (defenses s')"
    using assms by (auto simp: prepared_def)
  from list_all2_memI [OF this d] show "\<exists>d'\<in>set (defenses s'). row_step d d'"
    using prepared_row_step by blast
qed

lemma expire_rows_step: "rows_step s (expire now i s)"
proof (cases rule: expire_cases [of now i s])
  case unchanged
  then show ?thesis by (simp add: rows_step_same)
next
  case expired
  then show ?thesis
    by (intro rows_step_update [of _ "expired_now now i" "put_defense now (set_expired now)"])
      (auto simp: row_step_defs set_expired_def expired_now_def)
qed

lemma Configure_rows_step:
  assumes "Configure_tx clk actor i mode candidateID entityMode secs wheelSize job s = Inr (s', x)" and "inv s"
  shows "rows_step s s'"
proof -
  have "candidates_unique (candidates s)" "list_all candidate_check (candidates s)"
    using assms(2) by (simp_all add: inv_defs)
  then obtain sel where "defenses s' = update_where (\<lambda>d. d_id d = i \<and> d_status d = DReady)
       (put_defense (clk 1) (set_configured sel mode secs wheelSize entityMode)) (defenses s)"
    by (rule Configure_tx_effect [OF assms(1)]) simp
  then show ?thesis by (rule rows_step_update) (auto simp: row_step_defs set_configured_def)
qed

lemma ConfigureHide_rows_step:
  assumes "ConfigureHide_tx clk actor i secs mutations job s = Inr (s', x)" and "inv s"
  shows "rows_step s s'"
  using assms(1)
proof (cases rule: ConfigureHide_tx_effect)
  case (1 d j)
  have ready: "q = d" if "q \<in> set (defenses s)" "d_id q = i" for q
    using that assms(2) Configure_inv_parts [OF 1(5)] by (intro defense_unique) (auto simp: inv_defs)
  have "defenses s' = update_where (\<lambda>d. d_id d = i) (put_defense (clk 0) (set_hidden secs mutations)) (defenses s)"
    by (simp add: 1(7))
  then show ?thesis
  proof (rule rows_step_update)
    fix q assume "q \<in> set (defenses s)" "d_id q = i"
    then have "d_status q = DReady" using ready Configure_inv_parts [OF 1(5)] by simp
    then show "row_step q (put_defense (clk 0) (set_hidden secs mutations) q)"
      by (simp add: row_step_defs set_hidden_def)
  qed
qed

lemma Lease_rows_step:
  assumes "Lease_tx clk appNow locked runnerID slots credentialHash token leaseID s = Inr (s', r)" and "inv s"
  shows "rows_step s s'"
proof -
  obtain s1 where s1: "reclaim_tx clk runnerID slots credentialHash s = Inr s1" "defenses s' = defenses s1"
    using assms(1) by (cases rule: Lease_tx_cases) auto
  have "leases_unique (leases s)" using assms(2) by (simp add: inv_defs)
  then have "\<exists>items. defenses s1 = update_where (lost_defense items) (put_defense (clk 2) set_exhausted) (defenses s)"
    by (rule reclaim_tx_effect [OF s1(1)]) (auto simp: settled_def)
  then obtain items where "defenses s' = update_where (lost_defense items) (put_defense (clk 2) set_exhausted) (defenses s)"
    using s1(2) by auto
  then show ?thesis by (rule rows_step_update) (auto simp: row_step_defs set_exhausted_def lost_defense_def)
qed

lemma Complete_rows_step:
  assumes "Complete_tx clk goNow newID job token input s = Inr (s', j)" and "inv s"
  shows "rows_step s s'"
proof -
  have u: "defenses_unique (defenses s)" using assms(2) by (simp add: inv_defs)
  show ?thesis
    using assms(1) u
  proof (cases rule: Complete_tx_cases)
    case again
    then show ?thesis by (simp add: rows_step_same)
  next
    case (prepared s1 ls)
    then show ?thesis by (intro prepared_rows_step [OF prepared(4)]) simp
  next
    case (attempted a oc ds ls)
    show ?thesis
    proof (cases "oc = OPassed")
      case True
      then have "defenses s' = update_where (\<lambda>d. d_id d = j_defense_id j \<and> d_status d = DActive)
          (put_defense (clk 3) (set_passed (clk 3))) (defenses s)"
        using attempted by simp
      then show ?thesis by (rule rows_step_update) (auto simp: row_step_defs set_passed_def)
    next
      case False
      then show ?thesis using attempted by (simp add: rows_step_same)
    qed
  qed
qed

lemma step_rows: "step s s' \<Longrightarrow> inv s \<Longrightarrow> rows_step s s'"
proof (induction rule: step.induct)
  case (create clk actor submission key i session job seed s s' x)
  from create(1) show ?case by (cases rule: Create_tx_cases) (auto intro: rows_step_same)
next
  case (saveDraft now actor i answer version s s' r)
  from saveDraft(1) show ?case
  proof (cases rule: SaveDraft_cases)
    case refused
    then show ?thesis by (simp add: rows_step_same)
  next
    case (saved d)
    then have "defenses s' = update_where (\<lambda>d. draft_open s now actor i d \<and> d_draft_version d = version)
             (put_defense now (\<lambda>d. d\<lparr>d_draft := Some answer, d_draft_version := d_draft_version d + 1, d_updated_at := now\<rparr>))
             (defenses s)"
      by simp
    then show ?thesis by (rule rows_step_update) (auto simp: row_step_defs draft_open_def)
  qed
next
  case (cancel clk actor i s s' x)
  have "defenses s' = update_where (\<lambda>d. d_id d = i \<and> open_status (d_status d))
                   (put_defense (clk 0) (set_cancelled (clk 0))) (defenses s)"
    by (rule Cancel_tx_effect [OF cancel(1)]) simp
  then show ?case by (rule rows_step_update) (auto simp: row_step_defs set_cancelled_def)
next
  case (attempt clk actor i key answer attemptID jobID s s' x)
  from attempt(1) show ?case by (cases rule: Attempt_tx_cases) (auto intro: rows_step_same)
next
  case (heartbeat now job token s s' r)
  from heartbeat(1) show ?case by (cases rule: Heartbeat_cases) (auto intro: rows_step_same)
next
  case (others s)
  then show ?case by (simp add: rows_step_same)
qed (auto intro: expire_rows_step Configure_rows_step ConfigureHide_rows_step Lease_rows_step Complete_rows_step)


text \<open>Along a run: the changes of status chain up, the clock and the end are final.\<close>

definition row_run :: "defense_row \<Rightarrow> defense_row \<Rightarrow> bool" where
  "row_run d d' \<longleftrightarrow>
     d_id d' = d_id d \<and> d_submission_id d' = d_submission_id d \<and> d_seed d' = d_seed d
   \<and> moves\<^sup>*\<^sup>* (d_status d) (d_status d')
   \<and> (d_status d = DActive \<or> \<not> open_status (d_status d) \<longrightarrow>
        same_clock d d' \<and> (d_status d' = DActive \<or> \<not> open_status (d_status d')))
   \<and> (\<not> open_status (d_status d) \<longrightarrow>
        d_status d' = d_status d \<and> d_draft d' = d_draft d \<and> d_finished_at d' = d_finished_at d)"

lemma moves_closed: "moves a b \<Longrightarrow> open_status a \<and> (a = DActive \<longrightarrow> \<not> open_status b)"
  by (cases a) (auto simp: open_status_def)

lemma row_run_refl: "row_run d d"
  by (simp add: row_run_def same_clock_def)

lemma row_run_step:
  assumes run: "row_run d d1" and one: "row_step d1 d2"
  shows "row_run d d2"
proof -
  have "moves\<^sup>*\<^sup>* (d_status d1) (d_status d2)"
    using one by (auto simp: row_step_def)
  then have "moves\<^sup>*\<^sup>* (d_status d) (d_status d2)"
    using run by (auto simp: row_run_def intro: rtranclp_trans)
  moreover have "d_status d2 = DActive \<or> \<not> open_status (d_status d2)"
    if "d_status d1 = DActive \<or> \<not> open_status (d_status d1)"
    using one that moves_closed [of "d_status d1" "d_status d2"] unfolding row_step_def by metis
  moreover have "d_status d2 = d_status d1" if "\<not> open_status (d_status d1)"
    using one that moves_closed unfolding row_step_def by blast
  ultimately show ?thesis
    using run one unfolding row_run_def row_step_def same_clock_def by metis
qed

text \<open>
  C3: the life of a defense.  Whatever happens after a reachable state, in any interleaving, a
  defense stays with its identity, its submission and its seed; its status changes only along
  \<open>moves\<close>; once it is active its mode, its challenge and its deadline never change again, so the
  time for the answer is neither extended nor shortened; and a defense that has ended keeps its
  status, its draft and its end for ever.
\<close>

theorem defense_life:
  assumes "reachable s" and "step\<^sup>*\<^sup>* s s'" and "d \<in> set (defenses s)"
  shows "\<exists>d'\<in>set (defenses s'). row_run d d'"
proof -
  have "inv s" by (rule reachable_inv [OF assms(1)])
  from assms(2) have "inv s' \<and> (\<exists>d'\<in>set (defenses s'). row_run d d')"
  proof (induction rule: rtranclp_induct)
    case base
    show ?case using \<open>inv s\<close> assms(3) row_run_refl by blast
  next
    case (step s1 s2)
    then obtain d1 where d1: "d1 \<in> set (defenses s1)" "row_run d d1" and inv1: "inv s1" by blast
    from step_rows [OF step(2) inv1] d1(1) obtain d2 where "d2 \<in> set (defenses s2)" "row_step d1 d2"
      by (auto simp: rows_step_def)
    then show ?case using row_run_step [OF d1(2)] step_inv [OF step(2) inv1] by blast
  qed
  then show ?thesis ..
qed

theorem defense_life_witness:
  "\<exists>d'\<in>set (defenses (expire 5 ''def'' example_created)). row_run example_defense d'"
proof -
  have "example_defense \<in> set (defenses example_created)" by (simp add: example_created_def)
  moreover have "step\<^sup>*\<^sup>* example_created (expire 5 ''def'' example_created)"
    by (rule r_into_rtranclp) (rule step.expiry)
  ultimately show ?thesis using defense_life [OF example_reachable] by blast
qed

end
