(* ===== verification/Defense_Contracts.thy ===== *)
theory Defense_Contracts
  imports Defense_Properties
begin

text \<open>
  What each operation of the defense service promises to its caller: cancellation always works
  and cleans up, a runner that lost its lease can neither prolong nor report, a report counts
  once, drafts are locked optimistically, attempts are numbered and counted once, a defense is
  passed only by a passing attempt, time runs out, and nobody sees what is not meant for him.
\<close>

section \<open>The reference to the selected candidate\<close>

definition selected_ok :: "db \<Rightarrow> bool" where
  "selected_ok s \<longleftrightarrow> (\<forall>d\<in>set (defenses s). references c_id (d_selected_id d) (candidates s))"

lemma references_mono:
  "references k x rs \<Longrightarrow> k ` set rs \<subseteq> k ` set rs' \<Longrightarrow> references k x rs'"
  by (cases x) (auto simp: references_def exists_id_iff)

lemma selected_ok_by:
  assumes "selected_ok s" and "c_id ` set (candidates s) \<subseteq> c_id ` set (candidates s')"
    and "\<And>d'. d' \<in> set (defenses s') \<Longrightarrow> d_selected_id d' = None
           \<or> (\<exists>d\<in>set (defenses s). d_selected_id d' = d_selected_id d)
           \<or> references c_id (d_selected_id d') (candidates s')"
  shows "selected_ok s'"
  unfolding selected_ok_def
proof
  fix d' assume "d' \<in> set (defenses s')"
  from assms(3) [OF this] show "references c_id (d_selected_id d') (candidates s')"
  proof (elim disjE bexE)
    assume "d_selected_id d' = None"
    then show ?thesis by (simp add: references_def)
  next
    fix d assume "d \<in> set (defenses s)" "d_selected_id d' = d_selected_id d"
    then show ?thesis using assms(1,2) references_mono by (metis selected_ok_def)
  qed
qed

lemma selected_ok_update:
  assumes "selected_ok s" and "defenses s' = update_where c f (defenses s)"
    and "c_id ` set (candidates s) \<subseteq> c_id ` set (candidates s')"
    and "\<And>d. d \<in> set (defenses s) \<Longrightarrow> c d \<Longrightarrow> d_selected_id (f d) = None \<or> d_selected_id (f d) = d_selected_id d
           \<or> references c_id (d_selected_id (f d)) (candidates s')"
  shows "selected_ok s'"
  using assms(1,3)
proof (rule selected_ok_by)
  fix d' assume "d' \<in> set (defenses s')"
  then obtain d where "d \<in> set (defenses s)" "d' = (if c d then f d else d)"
    by (auto simp: assms(2) set_update_where)
  then show "d_selected_id d' = None \<or> (\<exists>d\<in>set (defenses s). d_selected_id d' = d_selected_id d)
           \<or> references c_id (d_selected_id d') (candidates s')"
    using assms(4) [of d] by (cases "c d") auto
qed

lemma selected_ok_same: "selected_ok s \<Longrightarrow> defenses s' = defenses s \<Longrightarrow> candidates s' = candidates s \<Longrightarrow> selected_ok s'"
  by (simp add: selected_ok_def)

lemma grown_ids: "candidates_grown cs cs' \<Longrightarrow> c_id ` set cs \<subseteq> c_id ` set cs'"
proof
  fix x assume grown: "candidates_grown cs cs'" and "x \<in> c_id ` set cs"
  then obtain c where c: "c \<in> set cs" "x = c_id c" by blast
  from grown obtain ys zs where "cs' = ys @ zs"
    and ys: "list_all2 (\<lambda>c c'. \<exists>m. c' = c\<lparr>c_masked_source := m\<rparr> \<and> (c_masked_source c \<noteq> None \<longrightarrow> m \<noteq> None)) cs ys"
    unfolding candidates_grown_def by blast
  moreover from list_all2_memI [OF ys c(1)] obtain c' where "c' \<in> set ys" "c_id c' = c_id c" by auto
  ultimately have "c' \<in> set cs'" "x = c_id c'" using c(2) by simp_all
  then show "x \<in> c_id ` set cs'" by blast
qed

lemma step_selected: "step s s' \<Longrightarrow> inv s \<Longrightarrow> selected_ok s \<Longrightarrow> selected_ok s'"
proof (induction rule: step.induct)
  case (create clk actor submission key i session job seed s s' x)
  from create(1) show ?case
  proof (cases rule: Create_tx_cases)
    case (created d j)
    then show ?thesis using create(3) by (auto simp: selected_ok_def references_def new_defense_def)
  qed (use create in simp)
next
  case (expiry s now i)
  show ?case
  proof (cases rule: expire_cases [of now i s])
    case expired
    show ?thesis
      by (rule selected_ok_update [OF expiry(2), of _ "expired_now now i" "put_defense now (set_expired now)"])
        (auto simp: expired set_expired_def)
  qed (use expiry in simp)
next
  case (configure clk actor i mode candidateID entityMode secs wheelSize job s s' x)
  have c: "candidates_unique (candidates s)" "list_all candidate_check (candidates s)"
    using configure(2) by (simp_all add: inv_defs)
  obtain sel w where s': "defenses s' = update_where (\<lambda>d. d_id d = i \<and> d_status d = DReady)
         (put_defense (clk 1) (set_configured sel mode secs wheelSize entityMode)) (defenses s)"
      "candidates s' = map (configured i sel w) (candidates s)"
    and ref: "\<forall>d\<in>set (defenses s). d_id d = i \<and> d_status d = DReady \<longrightarrow> references c_id (Some sel) (candidates s')"
    by (rule Configure_tx_effect [OF configure(1) c]) auto
  have "c_id ` set (candidates s) \<subseteq> c_id ` set (candidates s')" by (auto simp: s'(2) image_image)
  then show ?case
    by (rule selected_ok_update [OF configure(3) s'(1)]) (use ref in \<open>auto simp: set_configured_def\<close>)
next
  case (configureHide clk actor i secs mutations job s s' x)
  from configureHide(1) show ?case
  proof (cases rule: ConfigureHide_tx_effect)
    case (1 d j)
    then have "defenses s' = update_where (\<lambda>d. d_id d = i) (put_defense (clk 0) (set_hidden secs mutations)) (defenses s)"
      by simp
    then show ?thesis by (rule selected_ok_update [OF configureHide(3)]) (auto simp: 1(7) set_hidden_def)
  qed
next
  case (saveDraft now actor i answer version s s' r)
  from saveDraft(1) show ?case
  proof (cases rule: SaveDraft_cases)
    case (saved d)
    then have "defenses s' = update_where (\<lambda>d. draft_open s now actor i d \<and> d_draft_version d = version)
             (put_defense now (\<lambda>d. d\<lparr>d_draft := Some answer, d_draft_version := d_draft_version d + 1, d_updated_at := now\<rparr>))
             (defenses s)"
      by simp
    then show ?thesis by (rule selected_ok_update [OF saveDraft(3)]) (auto simp: saved(5))
  qed (use saveDraft in simp)
next
  case (cancel clk actor i s s' x)
  have s': "defenses s' = update_where (\<lambda>d. d_id d = i \<and> open_status (d_status d))
       (put_defense (clk 0) (set_cancelled (clk 0))) (defenses s) \<and> candidates s' = candidates s"
    by (rule Cancel_tx_effect [OF cancel(1)]) simp
  show ?case by (rule selected_ok_update [OF cancel(3) conjunct1 [OF s']]) (auto simp: s' set_cancelled_def)
next
  case (attempt clk actor i key answer attemptID jobID s s' x)
  from attempt(1) show ?case
    by (cases rule: Attempt_tx_cases) (auto intro: selected_ok_same [OF attempt(3)])
next
  case (lease clk appNow locked runnerID slots credentialHash token leaseID s s' r)
  obtain s1 where s1: "reclaim_tx clk runnerID slots credentialHash s = Inr s1" "defenses s' = defenses s1"
      "candidates s' = candidates s1"
    using lease(1) by (cases rule: Lease_tx_cases) auto
  have "leases_unique (leases s)" using lease(2) by (simp add: inv_defs)
  then have "candidates s1 = candidates s
      \<and> (\<exists>items. defenses s1 = update_where (lost_defense items) (put_defense (clk 2) set_exhausted) (defenses s))"
    by (rule reclaim_tx_effect [OF s1(1)]) (auto simp: settled_def)
  then obtain items where
      s': "defenses s' = update_where (lost_defense items) (put_defense (clk 2) set_exhausted) (defenses s)"
      "candidates s' = candidates s"
    using s1 by auto
  show ?case by (rule selected_ok_update [OF lease(3) s'(1)]) (auto simp: s'(2) set_exhausted_def)
next
  case (heartbeat now job token s s' r)
  from heartbeat(1) show ?case by (cases rule: Heartbeat_cases) (auto intro: selected_ok_same [OF heartbeat(3)])
next
  case (complete clk goNow newID job token input s s' j)
  have u: "defenses_unique (defenses s)" using complete(2) by (simp add: inv_defs)
  show ?case
    using complete(1) u
  proof (cases rule: Complete_tx_cases)
    case again
    with complete show ?thesis by simp
  next
    case (prepared s1 ls)
    then have "list_all2 (prepared_row (j_defense_id j)) (defenses s) (defenses s')"
        "candidates_grown (candidates s) (candidates s')"
      by (auto simp: prepared_def)
    then show ?thesis
      by (intro selected_ok_by [OF complete(3)] grown_ids)
        (auto dest!: prepared_rowD simp: prepared_row_def same_defense_def)
  next
    case (attempted a oc ds ls)
    show ?thesis
    proof (cases "oc = OPassed")
      case True
      then have "defenses s' = update_where (\<lambda>d. d_id d = j_defense_id j \<and> d_status d = DActive)
          (put_defense (clk 3) (set_passed (clk 3))) (defenses s)"
        using attempted by simp
      then show ?thesis by (rule selected_ok_update [OF complete(3)]) (auto simp: attempted(7) set_passed_def)
    next
      case False
      then show ?thesis using attempted by (intro selected_ok_same [OF complete(3)]) simp_all
    qed
  qed
next
  case (others s)
  then show ?case by (simp add: selected_ok_def)
qed

lemma reachable_selected: "reachable s \<Longrightarrow> selected_ok s"
proof (induction rule: reachable.induct)
  case (start s)
  then show ?case by (simp add: initial_def selected_ok_def)
next
  case (next_state s s')
  then show ?case using step_selected reachable_inv by blast
qed


section \<open>Cancellation\<close>

text \<open>A defense may always be ended: the row passes its checks and the statement goes through.\<close>

definition ended :: "time \<Rightarrow> defense_status \<Rightarrow> string \<Rightarrow> defense_row \<Rightarrow> defense_row" where
  "ended t st reason d = d\<lparr>d_status := st, d_finished_at := Some t, d_terminal_reason := Some reason\<rparr>"

lemma ended_check:
  assumes "defense_check d" and "finished_status st"
  shows "defense_check (put_defense t (ended t st reason) d)"
proof -
  have "deadline_check (put_defense t (ended t st reason) d) = deadline_check d"
    by (simp add: deadline_check_def ended_def split: option.split)
  then show ?thesis
    using assms by (auto simp: defense_check_def ended_def put_defense_def)
qed

lemma ended_statement:
  assumes "inv s" and "selected_ok s" and "finished_status st"
    and "\<And>d. c d \<Longrightarrow> validate_defense_transition (d_status d) st"
  shows "update_defenses t c (ended t st reason) s
    = Some (s\<lparr>defenses := update_where c (put_defense t (ended t st reason)) (defenses s)\<rparr>)"
proof -
  have "\<not> open_status st" using assms(3) by (auto simp: finished_status_def open_status_def)
  then have "defenses_unique (update_where c (put_defense t (ended t st reason)) (defenses s))"
    using assms(1) unfolding defenses_unique_def inv_defs
    by (auto intro!: unique_on_update_where simp: ended_def)
  moreover have "defense_check (put_defense t (ended t st reason) d)" if "d \<in> set (defenses s)" for d
    using that assms(1,3) ended_check by (auto simp: inv_defs list_all_iff)
  ultimately show ?thesis
    using assms(2,4) by (auto simp: update_defenses_iff selected_ok_def ended_def)
qed

lemma cancel_attempt_statement:
  assumes "attempts_unique (attempts s)" and "list_all attempt_check (attempts s)"
  shows "\<exists>s1. update_attempts (\<lambda>a. a_defense_id a = i \<and> a_outcome a = OPending) (fail_attempt t m) s = Some s1"
  using assms
  by (auto simp: update_attempts_iff list_all_iff fail_attempt_def attempt_check_def attempts_unique_def
      intro!: unique_on_update_where)

lemma cancel_job_statement:
  assumes "jobs_unique (jobs s)" and "list_all job_check (jobs s)"
  shows "\<exists>s1. update_jobs t (\<lambda>j. j_defense_id j = i \<and> open_job j) (clear_job JCancelled) s = Some s1"
proof -
  let ?c = "\<lambda>j. j_defense_id j = i \<and> open_job j"
  have "jobs_unique (update_where ?c (put_job t (clear_job JCancelled)) (jobs s))"
    using assms by (auto simp: jobs_unique_def clear_job_def intro!: unique_on_update_where)
  moreover have "validate_runner_job_transition (j_state j) JCancelled" if "?c j" for j
    using that by (auto simp: validate_runner_job_transition_def open_job_def)
  moreover have "job_check (put_job t (clear_job JCancelled) j)" if "j \<in> set (jobs s)" "?c j" for j
    using that assms(2) by (auto simp: list_all_iff clear_job_def job_check_def put_job_def)
  ultimately show ?thesis
    by (simp add: update_jobs_iff) (simp add: clear_job_def references_def)
qed

lemma cancel_lease_statement:
  assumes "leases_unique (leases s)" and "list_all lease_check (leases s)"
  shows "\<exists>s1. update_leases (\<lambda>l. c l \<and> l_released_at l = None) (release_lease t r) s = Some s1"
  using assms
  by (auto simp: update_leases_iff list_all_iff release_lease_def lease_check_def leases_unique_def
      intro!: unique_on_update_where)

lemma update_where_left: "q \<in> set (update_where c f rs) \<Longrightarrow> (\<And>r. c r \<Longrightarrow> \<not> c (f r)) \<Longrightarrow> \<not> c q"
  by (auto simp: set_update_where)

lemma update_where_others:
  "(\<And>r. c r \<Longrightarrow> \<not> p r \<and> \<not> p (f r)) \<Longrightarrow> filter p (update_where c f rs) = filter p rs"
  by (induction rs) (auto simp: update_where_Cons)

lemma Cancel_tx_total:
  assumes "reachable s" and "may_cancel s actor i"
  obtains s' where "Cancel_tx clk actor i s = Inr (s', i)"
proof -
  have inv: "inv s" by (rule reachable_inv [OF assms(1)])
  then have ok: "attempts_unique (attempts s)" "list_all attempt_check (attempts s)" "jobs_unique (jobs s)"
      "list_all job_check (jobs s)" "leases_unique (leases s)" "list_all lease_check (leases s)"
    by (simp_all add: inv_defs)
  let ?c = "\<lambda>d. d_id d = i \<and> open_status (d_status d)"
  have "set_cancelled t = ended t DCancelled ''cancelled by user''" for t
    by (simp add: fun_eq_iff set_cancelled_def ended_def)
  then obtain s1 where s1: "update_defenses (clk 0) ?c (set_cancelled (clk 0)) s = Some s1"
      "attempts s1 = attempts s" "jobs s1 = jobs s" "leases s1 = leases s"
    using ended_statement [OF inv reachable_selected [OF assms(1)], of DCancelled ?c]
    by (auto simp: finished_status_def validate_defense_transition_def open_status_def)
  obtain s2 where s2: "update_attempts (\<lambda>a. a_defense_id a = i \<and> a_outcome a = OPending)
        (fail_attempt (clk 1) ''defense cancelled'') s1 = Some s2"
    using cancel_attempt_statement [of s1 i "clk 1" "''defense cancelled''"] ok s1 by auto
  then have t2: "jobs s2 = jobs s" "leases s2 = leases s" using s1 by (auto simp: update_attempts_iff)
  obtain s3 where s3: "update_jobs (clk 2) (\<lambda>j. j_defense_id j = i \<and> open_job j) (clear_job JCancelled) s2 = Some s3"
    using cancel_job_statement [of s2 "clk 2" i] ok t2 by auto
  then have t3: "leases s3 = leases s" using t2 by (auto simp: update_jobs_iff)
  obtain s4 where "update_leases
      (\<lambda>l. list_ex (\<lambda>j. j_id j = l_job_id l \<and> j_defense_id j = i) (jobs s3) \<and> l_released_at l = None)
      (release_lease (clk 3) ''cancelled'') s3 = Some s4"
    using cancel_lease_statement [of s3 "\<lambda>l. list_ex (\<lambda>j. j_id j = l_job_id l \<and> j_defense_id j = i) (jobs s3)"
        "clk 3" "''cancelled''"] ok t3 by auto
  then show thesis using that s1(1) s2 s3 assms(2) by (simp add: Cancel_tx_def)
qed

text \<open>
  C4: whoever may cancel an open defense can do so at any time: in a reachable state the
  transaction never fails, whatever the clock shows and whatever runners are doing, and it leaves
  the defense cancelled, with no open job, no pending attempt and no lease in force on its jobs;
  the rows of all other defenses stay as they are.
\<close>

theorem cancel_cleans_up:
  assumes "reachable s" and "may_cancel s actor i"
  shows "\<exists>s'. Cancel_tx clk actor i s = Inr (s', i)
     \<and> (\<forall>d\<in>set (defenses s'). d_id d = i \<longrightarrow> \<not> open_status (d_status d))
     \<and> (\<exists>d\<in>set (defenses s'). d_id d = i \<and> d_status d = DCancelled)
     \<and> (\<forall>j\<in>set (jobs s'). j_defense_id j = i \<longrightarrow>
          \<not> open_job j \<and> (\<forall>l\<in>set (leases s'). l_job_id l = j_id j \<longrightarrow> l_released_at l \<noteq> None))
     \<and> (\<forall>a\<in>set (attempts s'). a_defense_id a = i \<longrightarrow> a_outcome a \<noteq> OPending)
     \<and> filter (\<lambda>d. d_id d \<noteq> i) (defenses s') = filter (\<lambda>d. d_id d \<noteq> i) (defenses s)
     \<and> filter (\<lambda>a. a_defense_id a \<noteq> i) (attempts s') = filter (\<lambda>a. a_defense_id a \<noteq> i) (attempts s)
     \<and> filter (\<lambda>j. j_defense_id j \<noteq> i) (jobs s') = filter (\<lambda>j. j_defense_id j \<noteq> i) (jobs s)"
proof -
  obtain s' where tx: "Cancel_tx clk actor i s = Inr (s', i)" by (rule Cancel_tx_total [OF assms])
  obtain d where d: "d \<in> set (defenses s)" "d_id d = i" "open_status (d_status d)"
    using assms(2) by (auto simp: may_cancel_def split: option.splits dest: select_one_SomeD)
  show ?thesis
  proof (rule Cancel_tx_effect [OF tx])
    let ?js = "update_where (\<lambda>j. j_defense_id j = i \<and> open_job j) (put_job (clk 2) (clear_job JCancelled)) (jobs s)"
    assume s': "s' = s\<lparr>defenses := update_where (\<lambda>d. d_id d = i \<and> open_status (d_status d))
                   (put_defense (clk 0) (set_cancelled (clk 0))) (defenses s),
                attempts := update_where (\<lambda>a. a_defense_id a = i \<and> a_outcome a = OPending)
                   (fail_attempt (clk 1) ''defense cancelled'') (attempts s),
                jobs := ?js,
                leases := update_where
                   (\<lambda>l. list_ex (\<lambda>j. j_id j = l_job_id l \<and> j_defense_id j = i) ?js \<and> l_released_at l = None)
                   (release_lease (clk 3) ''cancelled'') (leases s)\<rparr>"
    have ds: "defenses s' = update_where (\<lambda>d. d_id d = i \<and> open_status (d_status d))
                   (put_defense (clk 0) (set_cancelled (clk 0))) (defenses s)"
      and as: "attempts s' = update_where (\<lambda>a. a_defense_id a = i \<and> a_outcome a = OPending)
                   (fail_attempt (clk 1) ''defense cancelled'') (attempts s)"
      and js: "jobs s' = ?js" by (simp_all add: s')
    have ls: "leases s' = update_where
        (\<lambda>l. list_ex (\<lambda>j. j_id j = l_job_id l \<and> j_defense_id j = i) ?js \<and> l_released_at l = None)
        (release_lease (clk 3) ''cancelled'') (leases s)"
      by (simp add: s')
    show ?thesis
    proof (intro exI [of _ s'] conjI tx ballI impI)
      have "put_defense (clk 0) (set_cancelled (clk 0)) d \<in> set (defenses s')"
        using d by (auto simp: s' set_update_where)
      then show "\<exists>d\<in>set (defenses s'). d_id d = i \<and> d_status d = DCancelled"
        by (rule bexI [rotated]) (simp add: d(2) set_cancelled_def)
      fix q assume "q \<in> set (defenses s')" "d_id q = i"
      moreover from this(1) have "\<not> (d_id q = i \<and> open_status (d_status q))"
        unfolding ds by (rule update_where_left) (simp add: set_cancelled_def open_status_def)
      ultimately show "\<not> open_status (d_status q)" by blast
    next
      fix j assume "j \<in> set (jobs s')" "j_defense_id j = i"
      moreover from this(1) have "\<not> (j_defense_id j = i \<and> open_job j)"
        unfolding js by (rule update_where_left) (simp add: clear_job_def open_job_def)
      ultimately show "\<not> open_job j" by blast
    next
      fix j l assume "j \<in> set (jobs s')" "j_defense_id j = i" "l \<in> set (leases s')" "l_job_id l = j_id j"
      moreover from this(3) have
        "\<not> (list_ex (\<lambda>j. j_id j = l_job_id l \<and> j_defense_id j = i) (jobs s') \<and> l_released_at l = None)"
        unfolding ls js by (rule update_where_left) (simp add: release_lease_def)
      ultimately show "l_released_at l \<noteq> None" by (auto simp: list_ex_iff)
    next
      fix a assume "a \<in> set (attempts s')" "a_defense_id a = i"
      moreover from this(1) have "\<not> (a_defense_id a = i \<and> a_outcome a = OPending)"
        unfolding as by (rule update_where_left) (simp add: fail_attempt_def)
      ultimately show "a_outcome a \<noteq> OPending" by blast
    next
      show "filter (\<lambda>d. d_id d \<noteq> i) (defenses s') = filter (\<lambda>d. d_id d \<noteq> i) (defenses s)"
        unfolding ds by (rule update_where_others) (simp add: set_cancelled_def)
      show "filter (\<lambda>a. a_defense_id a \<noteq> i) (attempts s') = filter (\<lambda>a. a_defense_id a \<noteq> i) (attempts s)"
        unfolding as by (rule update_where_others) (simp add: fail_attempt_def)
      show "filter (\<lambda>j. j_defense_id j \<noteq> i) (jobs s') = filter (\<lambda>j. j_defense_id j \<noteq> i) (jobs s)"
        unfolding js by (rule update_where_others) (simp add: clear_job_def)
    qed
  qed
qed

theorem cancel_cleans_up_witness:
  "may_cancel example_created ''prof'' ''def''
   \<and> (\<exists>s'. Cancel_tx example_clk ''prof'' ''def'' example_created = Inr (s', ''def'')
        \<and> (\<exists>d\<in>set (defenses s'). d_id d = ''def'' \<and> d_status d = DCancelled))"
proof -
  have "may_cancel example_created ''prof'' ''def''" by code_simp
  then show ?thesis using cancel_cleans_up [OF example_reachable] by blast
qed


section \<open>Time runs out\<close>

lemma expire_eq:
  assumes "inv s" and "selected_ok s"
  shows "expire now i s = s\<lparr>defenses := update_where (expired_now now i) (put_defense now (set_expired now)) (defenses s)\<rparr>"
proof -
  have "set_expired now = ended now DExpired ''deadline reached''"
    by (simp add: fun_eq_iff set_expired_def ended_def)
  then show ?thesis
    using ended_statement [OF assms, of DExpired "expired_now now i"]
    by (auto simp: expire_def finished_status_def validate_defense_transition_def expired_now_def)
qed

lemma hideView_fields:
  "hideView s actor v = Inr w \<Longrightarrow> v_status w = v_status v \<and> v_deadline_at w = v_deadline_at v \<and> v_id w = v_id v"
  by (auto simp: hideView_def Let_def split: option.splits if_splits)

lemma read_defense_row:
  assumes "read_defense s actor i = Inr v"
  obtains d where "d \<in> set (defenses s)" and "d_id d = i" and "v_status v = d_status d" and "v_deadline_at v = d_deadline_at d"
proof -
  obtain d sr l where vis: "visible_defense s actor i = Some (d, sr, l)" and h: "hideView s actor (base_view s d sr l) = Inr v"
    using assms by (auto simp: read_defense_def split: option.splits)
  have "d \<in> set (defenses s) \<and> d_id d = i"
    using vis by (auto simp: visible_defense_def defense_by_id_def split: option.splits if_splits dest: select_one_SomeD)
  then show thesis using that hideView_fields [OF h] by (auto simp: base_view_def)
qed

text \<open>
  C5: a reading of a defense never shows it active after its deadline, and reading it at or
  after the deadline ends it: the row, and the view of it, are then expired.  The two conditions
  on the state hold in every reachable state.
\<close>

theorem deadline_enforced:
  assumes "inv s" and "selected_ok s" and "Get now actor i s = (s', Inr v)"
  shows "(v_status v = DActive \<longrightarrow> (\<exists>t. v_deadline_at v = Some t \<and> now < t))
     \<and> (\<forall>d\<in>set (defenses s'). d_id d = i \<and> d_status d = DActive \<longrightarrow> (\<exists>t. d_deadline_at d = Some t \<and> now < t))
     \<and> (\<forall>d\<in>set (defenses s). d_id d = i \<and> d_status d = DActive \<and> (\<exists>t\<le>now. d_deadline_at d = Some t) \<longrightarrow>
          v_status v = DExpired)"
proof -
  have s': "defenses s' = update_where (expired_now now i) (put_defense now (set_expired now)) (defenses s)"
    and v: "read_defense s' actor i = Inr v"
    using assms(3) by (auto simp: Get_def Let_def expire_eq [OF assms(1,2)])
  have clock: "\<exists>t. d_deadline_at d = Some t" if "d \<in> set (defenses s)" "d_status d = DActive" for d
    using assms(1) that by (auto simp: inv_def list_all_iff clock_ok_def)
  have late: "\<exists>t. d_deadline_at d = Some t \<and> now < t" if d: "d \<in> set (defenses s')" "d_id d = i" "d_status d = DActive" for d
  proof -
    obtain q where q: "q \<in> set (defenses s)" "d = (if expired_now now i q then put_defense now (set_expired now) q else q)"
      using d(1) by (auto simp: s' set_update_where)
    then have "d = q" "\<not> expired_now now i q" using d(3) by (auto simp: set_expired_def split: if_splits)
    then show ?thesis using d clock [of q] q(1) by (auto simp: expired_now_def)
  qed
  obtain e where e: "e \<in> set (defenses s')" "d_id e = i" "v_status v = d_status e" "v_deadline_at v = d_deadline_at e"
    by (rule read_defense_row [OF v])
  have "v_status v = DExpired"
    if d: "d \<in> set (defenses s)" "d_id d = i" "d_status d = DActive" "\<exists>t\<le>now. d_deadline_at d = Some t" for d
  proof -
    have "expired_now now i d" using d by (auto simp: expired_now_def)
    obtain q where q: "q \<in> set (defenses s)" "e = (if expired_now now i q then put_defense now (set_expired now) q else q)"
      using e(1) by (auto simp: s' set_update_where)
    then have "d_id q = d_id d" using e(2) d(2) by (auto simp: set_expired_def split: if_splits)
    then have "q = d" using assms(1) q(1) d(1) defense_unique by (auto simp: inv_defs)
    then show ?thesis using q(2) e(3) \<open>expired_now now i d\<close> by (simp add: set_expired_def)
  qed
  then show ?thesis using late e by auto
qed

lemma example_active_selected: "selected_ok example_active"
  by (simp add: selected_ok_def example_active_def example_working_def example_candidate_def references_def exists_id_def)

theorem deadline_enforced_witness:
  "\<exists>v. snd (Get (seconds 60) ''stud'' ''def'' example_active) = Inr v \<and> v_status v = DExpired"
proof -
  have "\<not> isl (snd (Get (seconds 60) ''stud'' ''def'' example_active))" by code_simp
  then obtain v where v: "snd (Get (seconds 60) ''stud'' ''def'' example_active) = Inr v" by (metis sum.collapse(2))
  then have "Get (seconds 60) ''stud'' ''def'' example_active
      = (fst (Get (seconds 60) ''stud'' ''def'' example_active), Inr v)"
    by (metis prod.collapse)
  note deadline_enforced [OF example_active_inv example_active_selected this]
  moreover have "example_working \<in> set (defenses example_active)" "d_id example_working = ''def''"
      "d_status example_working = DActive" "d_deadline_at example_working = Some (seconds 60)"
    by (simp_all add: example_active_def example_working_def example_defense_def new_defense_def)
  ultimately show ?thesis using v by fastforce
qed

section \<open>Drafts\<close>

text \<open>
  C6: drafts are saved under optimistic locking.  Saving works only for the student the defense
  belongs to, while it is active and before its deadline, and only against the current version;
  it stores the answer and counts the version up by one, so that of two writers who started from
  the same version the second is refused and changes nothing.
\<close>

theorem draft_locking:
  assumes "inv s" and "SaveDraft now actor i answer version s = (s', Inr (version', when))"
  shows "version' = version + 1 \<and> when = now
     \<and> (\<exists>d\<in>set (defenses s). d_id d = i \<and> d_status d = DActive \<and> belongs_to s actor d \<and> d_draft_version d = version
          \<and> (\<exists>t>now. d_deadline_at d = Some t))
     \<and> (\<forall>d\<in>set (defenses s'). d_id d = i \<longrightarrow> d_draft d = Some answer \<and> d_draft_version d = version')
     \<and> SaveDraft now' actor' i answer' version s' = (s', Inl ErrConflict)"
  using assms(2)
proof (cases rule: SaveDraft_cases)
  case (saved d)
  have d: "d_id d = i" "d_status d = DActive" "belongs_to s actor d" "\<exists>t>now. d_deadline_at d = Some t"
    using saved(2) by (auto simp: draft_open_def split: option.splits)
  have new: "q' = put_defense now (\<lambda>d. d\<lparr>d_draft := Some answer, d_draft_version := d_draft_version d + 1, d_updated_at := now\<rparr>) d"
    if q': "q' \<in> set (defenses s')" "d_id q' = i" for q'
  proof -
    obtain q where q: "q \<in> set (defenses s)" "q' = (if draft_open s now actor i q \<and> d_draft_version q = version
        then put_defense now (\<lambda>d. d\<lparr>d_draft := Some answer, d_draft_version := d_draft_version d + 1, d_updated_at := now\<rparr>) q
        else q)"
      using q'(1) by (auto simp: saved(5) set_update_where)
    then have "d_id q = d_id d" using q'(2) d(1) by (auto split: if_splits)
    then have "q = d" using assms(1) q(1) saved(1) defense_unique by (auto simp: inv_defs)
    then show ?thesis using q(2) saved(2,3) by simp
  qed
  then have row: "d_draft q = Some answer \<and> d_draft_version q = version + 1" if "q \<in> set (defenses s')" "d_id q = i" for q
    using that saved(3) by fastforce
  then have "select_one (\<lambda>d. draft_open s' now' actor' i d \<and> d_draft_version d = version) (defenses s') = None"
    by (auto simp: select_one_None_iff draft_open_def)
  then have "SaveDraft now' actor' i answer' version s' = (s', Inl ErrConflict)" by (simp add: SaveDraft_def)
  moreover have "version' = version + 1" "when = now" using saved(4) by simp_all
  ultimately show ?thesis using saved(1,3) d row by blast
qed (simp)

theorem draft_locking_witness:
  "\<exists>s'. SaveDraft 5 ''stud'' ''def'' ''text'' 1 example_active = (s', Inr (2, 5))
      \<and> SaveDraft 6 ''stud'' ''def'' ''other'' 1 s' = (s', Inl ErrConflict)"
proof -
  have "snd (SaveDraft 5 ''stud'' ''def'' ''text'' 1 example_active) = Inr (2, 5)" by code_simp
  then obtain s' where "SaveDraft 5 ''stud'' ''def'' ''text'' 1 example_active = (s', Inr (2, 5))"
    by (metis prod.collapse)
  then show ?thesis using draft_locking [OF example_active_inv] by blast
qed


section \<open>Attempts\<close>

lemma next_attempt_no_greater:
  assumes "b \<in> set (attempts s)" and "a_defense_id b = i"
  shows "a_no b < next_attempt_no s i"
proof -
  have bound: "n \<le> fold max ns n \<and> (\<forall>x\<in>set ns. x \<le> fold max ns n)" for ns and n :: int
    by (induction ns arbitrary: n) (auto simp: max_def dest: spec, (metis linear order_trans)+)
  have "a_no b \<in> set (map a_no (filter (\<lambda>a. a_defense_id a = i) (attempts s)))" using assms by auto
  then show ?thesis using bound [of 0] unfolding next_attempt_no_def by (metis zle_add1_eq_le)
qed

lemma Attempt_tx_again:
  assumes "attempts_unique (attempts s)" and "a \<in> set (attempts s)" and "a_defense_id a = i" and "a_key a = key"
  shows "Attempt_tx clk actor i key answer attemptID jobID s \<in> {Inl ErrConflict, Inr (s, a_id a)}"
proof -
  obtain b where b: "select_one (\<lambda>a. a_defense_id a = i \<and> a_key a = key) (attempts s) = Some b"
    using assms(2-4) by (cases "select_one (\<lambda>a. a_defense_id a = i \<and> a_key a = key) (attempts s)")
      (auto simp: select_one_None_iff)
  have "b = a"
    by (rule unique_onD [of "\<lambda>_. True" "\<lambda>a. (a_defense_id a, a_key a)" "attempts s"])
      (use assms select_one_SomeD [OF b] in \<open>auto simp: attempts_unique_def\<close>)
  then show ?thesis using b by (simp add: Attempt_tx_def)
qed

text \<open>
  C9: an attempt is accepted only from the student the defense belongs to, while it is active
  and before its deadline.  A new attempt is pending, has a number above all earlier ones of its
  defense and a check job of its own, and is accepted only when no earlier one is pending.  The
  key makes it idempotent: sending it again, with whatever answer, yields the same attempt or is
  refused, and changes nothing.
\<close>

theorem attempt_accepted:
  assumes "inv s" and "Attempt_tx clk actor i key answer attemptID jobID s = Inr (s', x)"
  shows "(\<exists>d\<in>set (defenses s). d_id d = i \<and> d_status d = DActive \<and> belongs_to s actor d
            \<and> (\<exists>t>clk 0. d_deadline_at d = Some t))
     \<and> (\<exists>a\<in>set (attempts s'). a_id a = x \<and> a_defense_id a = i \<and> a_key a = key)
     \<and> (s' = s \<or> (\<exists>a. attempts s' = attempts s @ [a] \<and> a_id a = x \<and> a_answer a = answer \<and> a_outcome a = OPending
            \<and> (\<forall>b\<in>set (attempts s). a_defense_id b = i \<longrightarrow> a_no b < a_no a \<and> a_outcome b \<noteq> OPending)
            \<and> jobs s' = jobs s @ [new_job (clk 2) jobID CheckAttempt i (Some x)]))
     \<and> Attempt_tx clk' actor' i key answer' attemptID' jobID' s' \<in> {Inl ErrConflict, Inr (s', x)}"
proof -
  have open_d: "\<exists>d\<in>set (defenses s). d_id d = i \<and> d_status d = DActive \<and> belongs_to s actor d
      \<and> (\<exists>t>clk 0. d_deadline_at d = Some t)" if "list_ex (draft_open s (clk 0) actor i) (defenses s)"
    using that by (fastforce simp: list_ex_iff draft_open_def split: option.splits)
  show ?thesis
    using assms(2)
  proof (cases rule: Attempt_tx_cases)
    case (existing a)
    have "Attempt_tx clk' actor' i key answer' attemptID' jobID' s \<in> {Inl ErrConflict, Inr (s, a_id a)}"
      by (rule Attempt_tx_again) (use assms(1) existing in \<open>simp_all add: inv_defs\<close>)
    then show ?thesis using existing open_d by blast
  next
    case (accepted a j)
    have a: "a_id a = x" "a_defense_id a = i" "a_key a = key" "a_answer a = answer" "a_outcome a = OPending"
        "a_no a = next_attempt_no s i"
      using accepted(1) by (simp_all add: accepted(3) new_attempt_def)
    have "attempts_unique (attempts s')" using accepted(8) by (simp add: accepted(5))
    then have "Attempt_tx clk' actor' i key answer' attemptID' jobID' s' \<in> {Inl ErrConflict, Inr (s', a_id a)}"
      by (rule Attempt_tx_again) (use a in \<open>simp_all add: accepted(5)\<close>)
    moreover have "a_no b < a_no a \<and> a_outcome b \<noteq> OPending" if "b \<in> set (attempts s)" "a_defense_id b = i" for b
      using next_attempt_no_greater [OF that] that a accepted(8)
      by (auto simp: attempts_unique_def unique_on_append1)
    ultimately show ?thesis
      using a accepted(1,2,4) open_d by (auto simp: accepted(5))
  qed
qed


lemma example_attempt:
  "\<exists>s' x. Attempt_tx example_clk ''stud'' ''def'' ''k1'' ''ans'' ''att'' ''job2'' example_active = Inr (s', x)"
  by (simp add: Attempt_tx_def example_active_def example_empty_def example_working_def example_defense_def new_defense_def
      example_job_def new_job_def draft_open_def belongs_to_def defense_record_def submission_by_id_def record_of_def
      table_simps example_clk_def seconds_def insert_attempt_def insert_job_def new_attempt_def attempt_check_def job_check_def
      attempts_unique_def jobs_unique_def exists_id_def references_def put_defense_def next_attempt_no_def statement_def)

theorem attempt_accepted_witness:
  "\<exists>s' x. Attempt_tx example_clk ''stud'' ''def'' ''k1'' ''ans'' ''att'' ''job2'' example_active = Inr (s', x)
      \<and> (\<exists>a\<in>set (attempts s'). a_id a = x \<and> a_defense_id a = ''def'' \<and> a_key a = ''k1'')"
proof -
  obtain s' x where tx: "Attempt_tx example_clk ''stud'' ''def'' ''k1'' ''ans'' ''att'' ''job2'' example_active = Inr (s', x)"
    using example_attempt by blast
  moreover have "\<exists>a\<in>set (attempts s'). a_id a = x \<and> a_defense_id a = ''def'' \<and> a_key a = ''k1''"
    by (rule attempt_accepted [OF example_active_inv tx, THEN conjunct2, THEN conjunct1])
  ultimately show ?thesis by blast
qed

section \<open>Leases\<close>

lemma wrong_token_refused:
  assumes "jobs_unique (jobs s)" and "\<And>q. q \<in> set (jobs s) \<Longrightarrow> j_id q = job \<Longrightarrow> j_token_hash q \<noteq> Some (sha256 token)"
  shows "Complete_tx clk goNow newID job token input s = Inl ErrConflict"
    and "Heartbeat now job token s = (s, Inl ErrConflict)"
proof -
  have "select_one (completable (clk 0) job token) (jobs s) = None"
    using assms(2) by (auto simp: select_one_None_iff completable_def)
  then show "Complete_tx clk goNow newID job token input s = Inl ErrConflict" by (simp add: Complete_tx_def)
  have none: "\<not> live_lease now job token q" if "q \<in> set (jobs s)" for q
    using assms(2) that by (auto simp: live_lease_def)
  then have "update_where (live_lease now job token) f (jobs s) = jobs s" for f by (rule update_where_none)
  then have "update_jobs now (live_lease now job token) f s = Some s" for f
    using none assms(1) by (auto simp: update_jobs_iff)
  moreover have "rows_affected (live_lease now job token) (jobs s) = 0"
    using none by (simp add: rows_affected_def filter_empty_conv)
  ultimately show "Heartbeat now job token s = (s, Inl ErrConflict)" by (simp add: Heartbeat_def)
qed

lemma reclaimed_job:
  assumes "reclaim_tx clk runnerID slots credentialHash s = Inr s1" and "inv s"
  shows "jobs s1 = update_where (lease_expired (clk 1)) (put_job (clk 1) retry_job) (jobs s)"
    and "jobs_unique (jobs s1)" and "submission_versions s1 = submission_versions s"
proof -
  have "leases_unique (leases s)" using assms(2) by (simp add: inv_defs)
  then have "jobs s1 = update_where (lease_expired (clk 1)) (put_job (clk 1) retry_job) (jobs s)
      \<and> jobs_unique (jobs s1) \<and> submission_versions s1 = submission_versions s"
    by (rule reclaim_tx_effect [OF assms(1)]) (auto simp: settled_def)
  then show "jobs s1 = update_where (lease_expired (clk 1)) (put_job (clk 1) retry_job) (jobs s)"
    "jobs_unique (jobs s1)" "submission_versions s1 = submission_versions s" by blast+
qed

lemma leased_row:
  assumes "inv s" and "Lease_tx clk appNow locked runnerID slots credentialHash token leaseID s = Inr (s', r)"
    and "q' \<in> set (jobs s')"
  obtains q where "q \<in> set (jobs s)" and "j_id q' = j_id q"
    and "q' = (if lease_expired (clk 1) q then put_job (clk 1) retry_job q else q)
       \<or> (\<exists>j. r = Some j \<and> j_id j = j_id q'
            \<and> q' = put_job (clk 4) (set_leased runnerID token (lease_expiry appNow))
                (if lease_expired (clk 1) q then put_job (clk 1) retry_job q else q))"
  using assms(2)
proof (cases rule: Lease_tx_cases)
  case idle
  then show thesis using that assms(3) reclaimed_job [OF idle(1) assms(1)] by (auto simp: set_update_where)
next
  case (leased s1 j l)
  then obtain q1 where q1: "q1 \<in> set (jobs s1)"
      "q' = (if j_id q1 = j_id j then put_job (clk 4) (set_leased runnerID token (lease_expiry appNow)) q1 else q1)"
    using assms(3) by (auto simp: set_update_where)
  then obtain q where q: "q \<in> set (jobs s)" "q1 = (if lease_expired (clk 1) q then put_job (clk 1) retry_job q else q)"
    using reclaimed_job [OF leased(1) assms(1)] by (auto simp: set_update_where)
  have "j_id q1 = j_id q" by (simp add: q(2))
  moreover have "j_id q' = j_id q1" using q1(2) by (simp add: set_leased_def)
  ultimately show thesis
    using that [OF q(1)] q1(2) leased(2) unfolding q(2) by (cases "j_id q1 = j_id j") auto
qed



text \<open>The example deployment while the job is leased to a runner that has gone silent.\<close>

definition example_lost_job :: job_row where
  "example_lost_job =
     (new_job 2 ''job'' PrepareDefense ''def'' None)
       \<lparr>j_state := JLeased, j_owner := Some ''run'', j_token_hash := Some (sha256 ''old''), j_expires_at := Some 9\<rparr>"

definition example_runner :: runner_row where
  "example_runner = runner_upsert_row 3 ''run'' 1 example_digest"

definition example_lost :: db where
  "example_lost = example_created\<lparr>jobs := [example_lost_job], runners := [example_runner]\<rparr>"

definition example_later :: "nat \<Rightarrow> time" where
  "example_later n = 10 + int n"

lemma example_lost_inv: "inv example_lost"
proof -
  have "schema_ok example_lost"
    by (simp add: schema_ok_def example_lost_def example_created_def example_empty_def example_defense_def
        example_lost_job_def new_defense_def new_job_def tables_unique_defs
        unique_on_def defense_check_def job_check_def finished_status_def deadline_check_def put_defense_def)
  moreover have "list_all clock_ok (defenses example_lost)"
    by (simp add: example_lost_def example_created_def example_defense_def clock_ok_def new_defense_def)
  moreover have "list_all job_ok (jobs example_lost)"
    by (simp add: example_lost_def example_lost_job_def job_ok_def new_job_def)
  moreover have "queue_ok example_lost"
    by (simp add: example_lost_def example_created_def example_empty_def example_defense_def example_lost_job_def queue_ok_def
        preparing_ids_Cons open_prepares_def open_checks_Cons open_job_def new_job_def new_defense_def)
  moreover have "challenge_ok example_lost"
    by (simp add: challenge_ok_def example_lost_def example_created_def example_defense_def new_defense_def)
  ultimately show ?thesis by (simp add: inv_def)
qed

lemmas example_lease_simps =
  Lease_tx_def reclaim_tx_def upsert_runner_def checked_def exists_id_def runner_upsert_row_def row_check_def runner_check_def rune_count_short
  runners_unique_def table_simps example_digest_def update_jobs_def job_trigger_def lease_expired_def retry_job_def
  clear_job_def references_def jobs_unique_def job_check_def validate_runner_job_transition_def settle_expired_def
  update_leases_def leases_unique_def next_job_def available_def defense_by_id_def submission_by_id_def slice_stable_def
  set_leased_def insert_lease_def new_lease_def lease_check_def lease_expiry_def seconds_def rows_affected_def
  example_later_def statement_def

lemma example_release:
  "\<exists>s' r. Lease_tx example_later 10 (\<lambda>_. False) ''run'' 1 example_digest ''new'' ''lease'' example_lost = Inr (s', r)"
  by (simp add: example_lease_simps example_lost_def example_created_def example_empty_def example_defense_def
      example_lost_job_def example_runner_def new_defense_def new_job_def put_defense_def)


text \<open>
  C7: a lease is exclusive and follows the queue.  The job that a runner gets was queued or its
  lease had run out, never one that another runner still holds; it now belongs to this runner,
  under this token and for two minutes; no available job that was free comes before it in
  priority and age; and the rows of all leases still in force stay as they are.
\<close>

theorem lease_exclusive:
  assumes "inv s" and "Lease_tx clk appNow locked runnerID slots credentialHash token leaseID s = Inr (s', Some j)"
  shows "(\<forall>q\<in>set (jobs s). j_id q = j_id j \<longrightarrow> j_state q = JQueued \<or> lease_expired (clk 1) q)
     \<and> (\<exists>q\<in>set (jobs s'). j_id q = j_id j \<and> j_state q = JLeased \<and> j_owner q = Some runnerID
          \<and> j_token_hash q = Some (sha256 token) \<and> j_expires_at q = Some (appNow + seconds 120))
     \<and> (\<forall>q\<in>set (jobs s'). available (clk 3) s' q \<and> \<not> locked (j_id q) \<longrightarrow> \<not> queue_before q j)
     \<and> (\<forall>q\<in>set (jobs s). j_state q = JLeased \<and> \<not> lease_expired (clk 1) q \<longrightarrow> q \<in> set (jobs s'))"
  using assms(2)
proof (cases rule: Lease_tx_cases)
  case (leased s1 k l)
  then have [simp]: "k = j" by simp
  note re = reclaimed_job [OF leased(1) assms(1)]
  note nj = next_job_Some [OF leased(3) [unfolded \<open>k = j\<close>]]
  let ?f = "put_job (clk 4) (set_leased runnerID token (lease_expiry appNow))"
  have row: "(if lease_expired (clk 1) q then put_job (clk 1) retry_job q else q) \<in> set (jobs s1)" if "q \<in> set (jobs s)" for q
    using that update_where_memI [of q "jobs s" "lease_expired (clk 1)" "put_job (clk 1) retry_job"] by (simp add: re(1))
  have jobs': "jobs s' = update_where (\<lambda>q. j_id q = j_id j) ?f (jobs s1)"
    and same: "defenses s' = defenses s1" "submission_versions s' = submission_versions s1"
    using leased(5) by simp_all
  have job_ok: "job_ok q" if "q \<in> set (jobs s)" for q using assms(1) that by (simp add: inv_def list_all_iff)
  have taken: "j_state q = JQueued \<or> lease_expired (clk 1) q" if q: "q \<in> set (jobs s)" "j_id q = j_id j" for q
  proof (cases "lease_expired (clk 1) q")
    case False
    then have "q \<in> set (jobs s1)" using row [OF q(1)] by simp
    then have "q = j" using job_unique [OF re(2)] nj(1) q(2) by blast
    then show ?thesis using nj(2) job_ok [OF q(1)] by (auto simp: available_def job_ok_def)
  qed simp
  moreover have "?f j \<in> set (jobs s')" using nj(1) by (auto simp: jobs' set_update_where)
  then have "\<exists>q\<in>set (jobs s'). j_id q = j_id j \<and> j_state q = JLeased \<and> j_owner q = Some runnerID
          \<and> j_token_hash q = Some (sha256 token) \<and> j_expires_at q = Some (appNow + seconds 120)"
    by (rule bexI [rotated]) (simp add: set_leased_def lease_expiry_def)
  moreover have "\<not> queue_before q j" if q: "q \<in> set (jobs s')" "available (clk 3) s' q" "\<not> locked (j_id q)" for q
  proof -
    have "j_state q \<noteq> JLeased" using q(2) by (auto simp: available_def)
    then have "q \<in> set (jobs s1)" using q(1) by (auto simp: jobs' set_update_where set_leased_def split: if_splits)
    moreover have "available (clk 3) s1 q"
      using q(2) by (auto simp: available_def defense_by_id_def submission_by_id_def same split: option.splits)
    ultimately show ?thesis using nj(4) q(3) by blast
  qed
  moreover have "q \<in> set (jobs s')" if q: "q \<in> set (jobs s)" "j_state q = JLeased" "\<not> lease_expired (clk 1) q" for q
  proof -
    have "j_id q \<noteq> j_id j" using taken [OF q(1)] q by auto
    then show ?thesis using row [OF q(1)] q(3) by (auto simp: jobs' set_update_where image_iff)
  qed
  ultimately show ?thesis by blast
qed simp

theorem lease_exclusive_witness:
  "\<exists>s' j. Lease_tx example_later 10 (\<lambda>_. False) ''run'' 1 example_digest ''new'' ''lease'' example_lost = Inr (s', Some j)
      \<and> (\<exists>q\<in>set (jobs s'). j_id q = j_id j \<and> j_state q = JLeased \<and> j_owner q = Some ''run'')"
proof -
  have "\<exists>s' j. Lease_tx example_later 10 (\<lambda>_. False) ''run'' 1 example_digest ''new'' ''lease'' example_lost = Inr (s', Some j)"
    by (simp add: example_lease_simps example_lost_def example_created_def example_empty_def example_defense_def
        example_lost_job_def example_runner_def new_defense_def new_job_def put_defense_def)
  then obtain s' j where
      tx: "Lease_tx example_later 10 (\<lambda>_. False) ''run'' 1 example_digest ''new'' ''lease'' example_lost = Inr (s', Some j)"
    by blast
  have "\<exists>q\<in>set (jobs s'). j_id q = j_id j \<and> j_state q = JLeased \<and> j_owner q = Some ''run''"
    using lease_exclusive [OF example_lost_inv tx] by blast
  then show ?thesis using tx by blast
qed


section \<open>Reports\<close>

text \<open>
  a report counts once.  After a completion went through, reporting again under the same
  token, with whatever content and at whatever time, succeeds and changes nothing, so that a
  runner may retry when the answer was lost; the lease can no longer be prolonged, and no other
  token is accepted for the job.
\<close>

theorem complete_once:
  assumes "inv s" and "Complete_tx clk goNow newID job token input s = Inr (s', j)"
  shows "(\<exists>q. Complete_tx clk' goNow' newID' job token input' s' = Inr (s', q)
            \<and> j_id q = job \<and> j_attempt_id q = j_attempt_id j)
     \<and> snd (Heartbeat now job token s') = Inl ErrConflict
     \<and> (sha256 other \<noteq> sha256 token \<longrightarrow> Complete_tx clk' goNow' newID' job other input' s' = Inl ErrConflict)"
proof -
  have inv': "inv s'" by (rule Complete_inv [OF assms])
  then have ju: "jobs_unique (jobs s')" by (simp add: inv_defs)
  have u: "defenses_unique (defenses s)" using assms(1) by (simp add: inv_defs)
  have fin: "?thesis" if q: "q \<in> set (jobs s')" "j_id q = job" "j_state q = JCompleted" "j_token_hash q = Some (sha256 token)"
      "j_attempt_id q = j_attempt_id j" for q
  proof -
    have only: "r = q" if "r \<in> set (jobs s')" "j_id r = job" for r using job_unique [OF ju that(1) q(1)] that(2) q(2) by simp
    have "completable (clk' 0) job token q" using q by (simp add: completable_def)
    then obtain r where r: "select_one (completable (clk' 0) job token) (jobs s') = Some r"
      using q(1) by (cases "select_one (completable (clk' 0) job token) (jobs s')") (auto simp: select_one_None_iff)
    then have "r = q" using only [of r] select_one_SomeD [OF r] by (auto simp: completable_def)
    then have "Complete_tx clk' goNow' newID' job token input' s' = Inr (s', q)"
      using r q(3) by (simp add: Complete_tx_def)
    moreover have "\<not> live_lease now job token r" if "r \<in> set (jobs s')" for r
      using only [OF that] q(3) by (auto simp: live_lease_def)
    then have "rows_affected (live_lease now job token) (jobs s') = 0"
      by (simp add: rows_affected_def filter_empty_conv)
    then have "snd (Heartbeat now job token s') = Inl ErrConflict"
      by (auto simp: Heartbeat_def split: option.splits)
    moreover have "Complete_tx clk' goNow' newID' job other input' s' = Inl ErrConflict" if "sha256 other \<noteq> sha256 token"
      by (rule wrong_token_refused [OF ju]) (use only q(4) that in auto)
    ultimately show ?thesis using q(2,5) by blast
  qed
  show ?thesis
    using assms(2) u
  proof (cases rule: Complete_tx_cases)
    case again
    then show ?thesis by (intro fin) simp_all
  next
    case (prepared s1 ls)
    have "finish_job clk j \<in> set (jobs s')"
      using prepared(1,2) by (auto simp: prepared(5) set_update_where live_lease_def)
    then show ?thesis by (rule fin) (use prepared(2) in \<open>simp_all add: live_lease_def\<close>)
  next
    case (attempted a oc ds ls)
    have "finish_job clk j \<in> set (jobs s')"
      using attempted(1,2) by (auto simp: attempted(7) set_update_where live_lease_def)
    then show ?thesis by (rule fin) (use attempted(2) in \<open>simp_all add: live_lease_def\<close>)
  qed
qed

definition example_report :: Completion where
  "example_report =
     \<lparr>Timings = None, ReferenceRes = None, HideVal = None, Outcome = ''error'', Candidates = [], SelectedIndex = 0,
      MaskedSource = '''', ConfigureResult = JNull, BuildResult = JNull, CTestResult = JNull\<rparr>"

theorem complete_once_witness:
  "\<exists>s' j. Complete_tx example_clk 0 (\<lambda>_. ''new'') ''job'' ''old'' example_report example_lost = Inr (s', j)
      \<and> (\<exists>q. Complete_tx example_later 0 (\<lambda>_. ''new'') ''job'' ''old'' example_report s' = Inr (s', q))"
proof -
  have "\<exists>s' j. Complete_tx example_clk 0 (\<lambda>_. ''new'') ''job'' ''old'' example_report example_lost = Inr (s', j)"
    by (simp add: Complete_tx_def completePreparation_def completeRestore_def completable_def example_report_def
        example_lease_simps example_lost_def example_created_def example_empty_def example_defense_def example_clk_def
        example_lost_job_def example_runner_def new_defense_def new_job_def put_defense_def
        update_defenses_def defense_trigger_def validate_defense_transition_def defenses_unique_def defense_check_def
        finished_status_def deadline_check_def unique_on_def)
  then obtain s' j where tx: "Complete_tx example_clk 0 (\<lambda>_. ''new'') ''job'' ''old'' example_report example_lost = Inr (s', j)"
    by blast
  have "\<exists>q. Complete_tx example_later 0 (\<lambda>_. ''new'') ''job'' ''old'' example_report s' = Inr (s', q)"
    using complete_once [OF example_lost_inv tx] by blast
  then show ?thesis using tx by blast
qed


section \<open>Passing\<close>

definition passed_ok :: "db \<Rightarrow> bool" where
  "passed_ok s \<longleftrightarrow>
     (\<forall>d\<in>set (defenses s). d_status d = DPassed \<longrightarrow>
        (\<exists>a\<in>set (attempts s). a_defense_id a = d_id d \<and> a_outcome a = OPassed))"

definition passed_kept :: "db \<Rightarrow> db \<Rightarrow> bool" where
  "passed_kept s s' \<longleftrightarrow> (\<forall>a\<in>set (attempts s). a_outcome a = OPassed \<longrightarrow> a \<in> set (attempts s'))"

lemma passed_ok_by:
  assumes "passed_ok s" and "passed_kept s s'"
    and "\<And>d'. d' \<in> set (defenses s') \<Longrightarrow> d_status d' = DPassed \<Longrightarrow>
           \<exists>d\<in>set (defenses s). d_id d = d_id d' \<and> d_status d = DPassed"
  shows "passed_ok s'"
  unfolding passed_ok_def
proof (intro ballI impI)
  fix d' assume "d' \<in> set (defenses s')" "d_status d' = DPassed"
  from assms(3) [OF this] obtain d where d: "d \<in> set (defenses s)" "d_id d = d_id d'" "d_status d = DPassed" by blast
  from d(1,3) assms(1) obtain a where "a \<in> set (attempts s)" "a_defense_id a = d_id d" "a_outcome a = OPassed"
    unfolding passed_ok_def by blast
  with assms(2) d(2) show "\<exists>a\<in>set (attempts s'). a_defense_id a = d_id d' \<and> a_outcome a = OPassed"
    unfolding passed_kept_def by metis
qed

lemma passed_ok_update:
  assumes "passed_ok s" and "passed_kept s s'" and "defenses s' = update_where c f (defenses s)"
    and "\<And>d. c d \<Longrightarrow> d_id (f d) = d_id d \<and> d_status (f d) \<noteq> DPassed"
  shows "passed_ok s'"
  using assms(1,2)
proof (rule passed_ok_by)
  fix d' assume d': "d' \<in> set (defenses s')" "d_status d' = DPassed"
  then obtain d where "d \<in> set (defenses s)" "d' = (if c d then f d else d)"
    by (auto simp: assms(3) set_update_where)
  then show "\<exists>d\<in>set (defenses s). d_id d = d_id d' \<and> d_status d = DPassed"
    using assms(4) [of d] d'(2) by (auto split: if_splits)
qed

lemma passed_kept_same: "attempts s' = attempts s \<Longrightarrow> passed_kept s s'"
  by (simp add: passed_kept_def)

lemma passed_kept_update:
  "attempts s' = update_where c f (attempts s) \<Longrightarrow> (\<And>a. c a \<Longrightarrow> a_outcome a = OPending) \<Longrightarrow> passed_kept s s'"
  by (fastforce simp: passed_kept_def set_update_where image_iff)

lemma Complete_passed:
  assumes "inv s" and "passed_ok s" and "Complete_tx clk goNow newID job token input s = Inr (s', j)"
  shows "passed_ok s'"
proof -
  have u: "defenses_unique (defenses s)" using assms(1) by (simp add: inv_defs)
  show ?thesis
    using assms(3) u
  proof (cases rule: Complete_tx_cases)
    case again
    with assms(2) show ?thesis by simp
  next
    case (prepared s1 ls)
    then have rows: "list_all2 (prepared_row (j_defense_id j)) (defenses s) (defenses s')" and "attempts s' = attempts s"
      by (auto simp: prepared_def)
    show ?thesis
      using assms(2) passed_kept_same [OF \<open>attempts s' = attempts s\<close>]
    proof (rule passed_ok_by)
      fix d' assume "d' \<in> set (defenses s')" "d_status d' = DPassed"
      then show "\<exists>d\<in>set (defenses s). d_id d = d_id d' \<and> d_status d = DPassed"
        using prepared_rowD [OF rows]
        by (fastforce simp: prepared_row_def same_defense_def started_now_def split: if_splits)
    qed
  next
    case (attempted a oc ds ls)
    let ?c = "\<lambda>r. a_id r = a \<and> a_outcome r = OPending"
    have as: "attempts s' = update_where ?c (record_outcome (clk 2) oc input) (attempts s)" by (simp add: attempted(7))
    then have kept: "passed_kept s s'" by (rule passed_kept_update) simp
    show ?thesis
    proof (cases "oc = OPassed")
      case False
      then have "defenses s' = defenses s" using attempted(6) by (simp add: attempted(7))
      then show ?thesis using kept assms(2) by (intro passed_ok_by [OF assms(2)]) auto
    next
      case True
      have "open_job j" using attempted(2) live_lease_open by blast
      then have "(a, j_defense_id j) \<in> open_checks (jobs s)" using attempted(1,3,4) by (auto simp: open_checks_def)
      then have "(a, j_defense_id j) \<in> pending_pairs (attempts s)" using assms(1) by (simp add: inv_defs)
      then obtain r where r: "r \<in> set (attempts s)" "a_id r = a" "a_defense_id r = j_defense_id j" "a_outcome r = OPending"
        by (auto simp: pending_pairs_def)
      have new: "record_outcome (clk 2) oc input r \<in> set (attempts s')"
        using r update_where_memI [OF r(1), of ?c "record_outcome (clk 2) oc input"] by (simp add: as)
      show ?thesis
        unfolding passed_ok_def
      proof (intro ballI impI)
        fix d' assume d': "d' \<in> set (defenses s')" "d_status d' = DPassed"
        then obtain d where d: "d \<in> set (defenses s)" "d_id d' = d_id d" "d_status d = DPassed \<or> d_id d = j_defense_id j"
          using True by (auto simp: attempted(6,7) set_update_where set_passed_def split: if_splits)
        from d(3) show "\<exists>a\<in>set (attempts s'). a_defense_id a = d_id d' \<and> a_outcome a = OPassed"
        proof
          assume "d_status d = DPassed"
          with d(1) assms(2) obtain b where "b \<in> set (attempts s)" "a_defense_id b = d_id d" "a_outcome b = OPassed"
            by (auto simp: passed_ok_def)
          with kept d(2) show ?thesis unfolding passed_kept_def by metis
        next
          assume "d_id d = j_defense_id j"
          with new r(3) d(2) True show ?thesis by (intro bexI [OF _ new]) (simp add: record_outcome_def Let_def)
        qed
      qed
    qed
  qed
qed

lemma step_passed: "step s s' \<Longrightarrow> inv s \<Longrightarrow> passed_ok s \<Longrightarrow> passed_ok s'"
proof (induction rule: step.induct)
  case (create clk actor submission key i session job seed s s' x)
  from create(1) show ?case
  proof (cases rule: Create_tx_cases)
    case (created d j)
    then show ?thesis using create(3) by (auto simp: passed_ok_def)
  qed (use create in simp)
next
  case (expiry s now i)
  show ?case
  proof (cases rule: expire_cases [of now i s])
    case expired
    show ?thesis
      by (rule passed_ok_update [OF expiry(2), of _ "expired_now now i" "put_defense now (set_expired now)"])
        (auto simp: expired set_expired_def passed_kept_def)
  qed (use expiry in simp)
next
  case (configure clk actor i mode candidateID entityMode secs wheelSize job s s' x)
  have c: "candidates_unique (candidates s)" "list_all candidate_check (candidates s)"
    using configure(2) by (simp_all add: inv_defs)
  obtain sel where s': "defenses s' = update_where (\<lambda>d. d_id d = i \<and> d_status d = DReady)
         (put_defense (clk 1) (set_configured sel mode secs wheelSize entityMode)) (defenses s)" "attempts s' = attempts s"
    by (rule Configure_tx_effect [OF configure(1) c]) simp
  show ?case by (rule passed_ok_update [OF configure(3) passed_kept_same [OF s'(2)] s'(1)]) (simp add: set_configured_def)
next
  case (configureHide clk actor i secs mutations job s s' x)
  from configureHide(1) show ?case
  proof (cases rule: ConfigureHide_tx_effect)
    case (1 d j)
    then have s': "defenses s' = update_where (\<lambda>d. d_id d = i) (put_defense (clk 0) (set_hidden secs mutations)) (defenses s)"
        "attempts s' = attempts s"
      by simp_all
    show ?thesis by (rule passed_ok_update [OF configureHide(3) passed_kept_same [OF s'(2)] s'(1)]) (simp add: set_hidden_def)
  qed
next
  case (saveDraft now actor i answer version s s' r)
  from saveDraft(1) show ?case
  proof (cases rule: SaveDraft_cases)
    case (saved d)
    then have s': "defenses s' = update_where (\<lambda>d. draft_open s now actor i d \<and> d_draft_version d = version)
             (put_defense now (\<lambda>d. d\<lparr>d_draft := Some answer, d_draft_version := d_draft_version d + 1, d_updated_at := now\<rparr>))
             (defenses s)" "attempts s' = attempts s"
      by simp_all
    show ?thesis by (rule passed_ok_update [OF saveDraft(3) passed_kept_same [OF s'(2)] s'(1)]) (simp add: draft_open_def)
  qed (use saveDraft in simp)
next
  case (cancel clk actor i s s' x)
  have s': "defenses s' = update_where (\<lambda>d. d_id d = i \<and> open_status (d_status d))
       (put_defense (clk 0) (set_cancelled (clk 0))) (defenses s)"
      "attempts s' = update_where (\<lambda>a. a_defense_id a = i \<and> a_outcome a = OPending)
         (fail_attempt (clk 1) ''defense cancelled'') (attempts s)"
    by (rule Cancel_tx_effect [OF cancel(1)], simp)+
  have "passed_kept s s'" using s'(2) by (rule passed_kept_update) simp
  then show ?case by (rule passed_ok_update [OF cancel(3) _ s'(1)]) (simp add: set_cancelled_def)
next
  case (attempt clk actor i key answer attemptID jobID s s' x)
  from attempt(1) show ?case by (cases rule: Attempt_tx_cases) (use attempt(3) in \<open>auto simp: passed_ok_def\<close>)
next
  case (lease clk appNow locked runnerID slots credentialHash token leaseID s s' r)
  obtain s1 where s1: "reclaim_tx clk runnerID slots credentialHash s = Inr s1" "defenses s' = defenses s1" "attempts s' = attempts s1"
    using lease(1) by (cases rule: Lease_tx_cases) auto
  have "leases_unique (leases s)" using lease(2) by (simp add: inv_defs)
  then have "\<exists>items. defenses s' = update_where (lost_defense items) (put_defense (clk 2) set_exhausted) (defenses s)
      \<and> attempts s' = update_where (lost_attempt items) (fail_attempt (clk 2) ''runner retries exhausted'') (attempts s)"
    by (rule reclaim_tx_effect [OF s1(1)]) (use s1 in \<open>auto simp: settled_def\<close>)
  then obtain items where s': "defenses s' = update_where (lost_defense items) (put_defense (clk 2) set_exhausted) (defenses s)"
      "attempts s' = update_where (lost_attempt items) (fail_attempt (clk 2) ''runner retries exhausted'') (attempts s)"
    by blast
  have "passed_kept s s'" using s'(2) by (rule passed_kept_update) (simp add: lost_attempt_def)
  then show ?case by (rule passed_ok_update [OF lease(3) _ s'(1)]) (simp add: set_exhausted_def)
next
  case (heartbeat now job token s s' r)
  from heartbeat(1) show ?case by (cases rule: Heartbeat_cases) (use heartbeat(3) in \<open>auto simp: passed_ok_def\<close>)
next
  case (complete clk goNow newID job token input s s' j)
  then show ?case using Complete_passed by blast
next
  case (others s)
  then show ?case by (simp add: passed_ok_def)
qed

text \<open>
  C10: no defense is passed without a passing attempt.  In every reachable state a passed defense
  has an attempt of its own that a runner reported as passed.
\<close>

theorem passed_by_attempt:
  assumes "reachable s"
  shows "\<forall>d\<in>set (defenses s). d_status d = DPassed \<longrightarrow>
           (\<exists>a\<in>set (attempts s). a_defense_id a = d_id d \<and> a_outcome a = OPassed)"
proof -
  from assms have "passed_ok s"
  proof (induction rule: reachable.induct)
    case (start s)
    then show ?case by (simp add: initial_def passed_ok_def)
  next
    case (next_state s s')
    then show ?case using step_passed reachable_inv by blast
  qed
  then show ?thesis by (simp add: passed_ok_def)
qed

theorem passed_by_attempt_witness: "reachable example_created \<and> passed_ok example_created"
  using example_reachable passed_by_attempt [OF example_reachable] by (simp add: passed_ok_def)

end
