(* ===== verification/Defense_Reads.thy ===== *)
theory Defense_Reads
  imports Defense_Contracts
begin

text \<open>
  The read-only side of \<open>DefenseRepository\<close> in \<open>infrastructure/postgres/defense.go\<close>: the list of
  defenses that wait for a teacher, the candidate catalog, the access to the sources of a
  submission and the history of attempts.  The theory shows that readers see only what their role
  entitles them to, and that a student never sees what would give the hidden errors away.

  The order of texts in the database depends on its collation, which is the parameter \<open>collate\<close>.
\<close>

section \<open>Operations\<close>

record DefenseSourceAccess =
  sa_mode :: string
  sa_mutations :: "Mutation list"
  sa_student_view :: bool
  sa_object_key :: string
  sa_selected_file :: string
  sa_body_begin :: int
  sa_body_end :: int
  sa_mask_selected :: bool

text \<open>The condition of the first query of \<open>SourceAccess\<close>.\<close>

definition may_read_sources :: "db \<Rightarrow> user_row \<Rightarrow> student_record_row \<Rightarrow> defense_row \<Rightarrow> bool" where
  "may_read_sources s u sr d \<longleftrightarrow>
     (owner_of u sr \<and> d_status d \<in> {DActive, DPassed, DFailed, DExpired})
   \<or> (staff_of s u sr \<and> d_status d \<in> {DReady, DPreparing, DActive, DPassed, DFailed, DExpired})"

definition selected_candidate :: "db \<Rightarrow> defense_row \<Rightarrow> candidate_row option" where
  "selected_candidate s d =
     (case d_selected_id d of None \<Rightarrow> None | Some i \<Rightarrow> select_one (\<lambda>c. c_id c = i) (candidates s))"

definition hidden_elsewhere :: "db \<Rightarrow> defense_row \<Rightarrow> bool" where
  "hidden_elsewhere s d \<longleftrightarrow>
     list_ex (\<lambda>other. d_submission_id other = d_submission_id d \<and> d_mode other = ''hide_seek'') (defenses s)"

definition access_of :: "db \<Rightarrow> user_row \<Rightarrow> submission_row \<Rightarrow> defense_row \<Rightarrow> DefenseSourceAccess" where
  "access_of s u sv d =
     (let base = \<lparr>sa_mode = d_mode d, sa_mutations = d_hide_mutations d, sa_student_view = (u_role u = Some Student),
                  sa_object_key = sv_object_key sv, sa_selected_file = '''', sa_body_begin = 0, sa_body_end = 0,
                  sa_mask_selected = False\<rparr>;
          found = (case selected_candidate s d of
                     None \<Rightarrow> base
                   | Some c \<Rightarrow> base\<lparr>sa_selected_file := c_file_path c, sa_body_begin := c_body_start c,
                                   sa_body_end := c_body_end c, sa_mask_selected := True\<rparr>)
      in if d_mode d = ''hide_seek'' then found\<lparr>sa_mask_selected := False\<rparr> else found)"

definition SourceAccess :: "db \<Rightarrow> uuid \<Rightarrow> uuid \<Rightarrow> DefenseSourceAccess result" where
  "SourceAccess s actor i =
     (case (defense_by_id s i, active_user s actor) of
        (Some d, Some u) \<Rightarrow>
          (case defense_record s d of
             Some (sv, sr) \<Rightarrow>
               if \<not> may_read_sources s u sr d then Inl ErrForbidden
               else
                 (let access = access_of s u sv d in
                  if sa_student_view access \<and> sa_mode access \<noteq> ''hide_seek'' \<and> hidden_elsewhere s d
                  then Inl ErrForbidden else Inr access)
           | None \<Rightarrow> Inl ErrForbidden)
      | _ \<Rightarrow> Inl ErrForbidden)"

definition catalog_before :: "(string \<Rightarrow> string \<Rightarrow> bool) \<Rightarrow> candidate_row \<Rightarrow> candidate_row \<Rightarrow> bool" where
  "catalog_before collate a b =
     (if c_file_path a \<noteq> c_file_path b then collate (c_file_path a) (c_file_path b)
      else if c_start_line a \<noteq> c_start_line b then c_start_line a < c_start_line b
      else c_rank a < c_rank b)"

definition candidateCatalog :: "(string \<Rightarrow> string \<Rightarrow> bool) \<Rightarrow> db \<Rightarrow> uuid \<Rightarrow> WheelCandidate list" where
  "candidateCatalog collate s i =
     map wheel_candidate
       (slice_stable (catalog_before collate) (filter (\<lambda>c. c_defense_id c = i) (candidates s)))"

text \<open>The identifiers that the query of \<open>PendingConfiguration\<close> selects, oldest first.\<close>

definition waiting_for :: "db \<Rightarrow> uuid \<Rightarrow> uuid list" where
  "waiting_for s actor =
     map d_id (slice_stable (\<lambda>a b. d_created_at a < d_created_at b)
       (filter (\<lambda>d. d_status d = DReady
            \<and> (case (active_user s actor, defense_record s d) of
                 (Some u, Some (sv, sr)) \<Rightarrow> staff_of s u sr
               | _ \<Rightarrow> False)) (defenses s)))"

fun pending_views ::
  "(nat \<Rightarrow> time) \<Rightarrow> (string \<Rightarrow> string \<Rightarrow> bool) \<Rightarrow> uuid \<Rightarrow> nat \<Rightarrow> uuid list \<Rightarrow> db \<Rightarrow> db \<times> Defense list result" where
  "pending_views clk collate actor n [] s = (s, Inr [])"
| "pending_views clk collate actor n (i # is) s =
     (case Get (clk n) actor i s of
        (s1, Inl e) \<Rightarrow> (s1, Inl e)
      | (s1, Inr v) \<Rightarrow>
          (case pending_views clk collate actor (Suc n) is s1 of
             (s2, Inl e) \<Rightarrow> (s2, Inl e)
           | (s2, Inr vs) \<Rightarrow> (s2, Inr (v\<lparr>v_catalog := candidateCatalog collate s1 i\<rparr> # vs))))"

definition PendingConfiguration ::
  "(nat \<Rightarrow> time) \<Rightarrow> (string \<Rightarrow> string \<Rightarrow> bool) \<Rightarrow> uuid \<Rightarrow> db \<Rightarrow> db \<times> Defense list result" where
  "PendingConfiguration clk collate actor s = pending_views clk collate actor 0 (waiting_for s actor) s"

fun outcome_text :: "attempt_outcome \<Rightarrow> string" where
  "outcome_text OPending = ''pending''"
| "outcome_text OPassed = ''passed''"
| "outcome_text OFailed = ''failed''"
| "outcome_text OError = ''error''"

definition history_row :: "db \<Rightarrow> uuid \<Rightarrow> string \<Rightarrow> string \<Rightarrow> string \<Rightarrow> string \<Rightarrow> attempt_row \<Rightarrow> bool" where
  "history_row s actor groupID studentRecordID labID outcome a \<longleftrightarrow>
     (case (defense_by_id s (a_defense_id a), active_user s actor) of
        (Some d, Some u) \<Rightarrow>
          (case defense_record s d of
             Some (sv, sr) \<Rightarrow>
               (groupID = '''' \<or> sr_group_id sr = groupID) \<and> (studentRecordID = '''' \<or> sr_id sr = studentRecordID)
             \<and> (labID = '''' \<or> sv_lab_id sv = labID) \<and> (outcome = '''' \<or> outcome_text (a_outcome a) = outcome)
             \<and> staff_of s u sr
           | None \<Rightarrow> False)
      | _ \<Rightarrow> False)"

definition History ::
  "db \<Rightarrow> uuid \<Rightarrow> string \<Rightarrow> string \<Rightarrow> string \<Rightarrow> string \<Rightarrow> int \<Rightarrow> Attempt list" where
  "History s actor groupID studentRecordID labID outcome limit =
     (let n = (if limit < 1 \<or> limit > 100 then 50 else limit) in
      map attempt_view
        (take (nat n)
          (slice_stable (\<lambda>a b. a_accepted_at a > a_accepted_at b)
            (filter (history_row s actor groupID studentRecordID labID outcome) (attempts s)))))"

interpretation newest_first: weak_order "\<lambda>a b :: attempt_row. a_accepted_at a > a_accepted_at b"
  by unfold_locales auto

section \<open>Who sees what\<close>

lemma active_user_in: "active_user s actor = Some u \<Longrightarrow> u \<in> set (users s) \<and> u_id u = actor \<and> u_status u = UserActive"
  by (auto simp: active_user_def dest: select_one_SomeD)

lemma defense_by_id_in: "defense_by_id s i = Some d \<Longrightarrow> d \<in> set (defenses s) \<and> d_id d = i"
  by (auto simp: defense_by_id_def dest: select_one_SomeD)

definition entitled :: "db \<Rightarrow> uuid \<Rightarrow> defense_row \<Rightarrow> bool" where
  "entitled s actor d \<longleftrightarrow>
     (\<exists>u\<in>set (users s). u_id u = actor \<and> u_status u = UserActive
        \<and> (\<exists>sv sr. defense_record s d = Some (sv, sr) \<and> may_view s u sr))"

text \<open>
  C11: nobody reads a defense, its sources or an attempt without being an active user who is an
  administrator, a teacher of the student's group, or the student the record is linked to.
\<close>

theorem reads_are_entitled:
  "(\<forall>now v s'. Get now actor i s = (s', Inr v) \<longrightarrow> (\<exists>d\<in>set (defenses s'). d_id d = i \<and> entitled s' actor d))
 \<and> (\<forall>access. SourceAccess s actor i = Inr access \<longrightarrow> (\<exists>d\<in>set (defenses s). d_id d = i \<and> entitled s actor d))
 \<and> (\<forall>v. GetAttempt s actor i = Inr v \<longrightarrow>
      (\<exists>a\<in>set (attempts s). \<exists>d\<in>set (defenses s). a_id a = i \<and> d_id d = a_defense_id a \<and> entitled s actor d))"
proof (intro conjI allI impI)
  fix now v s' assume "Get now actor i s = (s', Inr v)"
  then have "read_defense s' actor i = Inr v" by (auto simp: Get_def Let_def)
  then show "\<exists>d\<in>set (defenses s'). d_id d = i \<and> entitled s' actor d"
    unfolding read_defense_def visible_defense_def entitled_def
    by (fastforce split: option.splits if_splits dest: active_user_in defense_by_id_in)
next
  fix access assume "SourceAccess s actor i = Inr access"
  then show "\<exists>d\<in>set (defenses s). d_id d = i \<and> entitled s actor d"
    unfolding SourceAccess_def entitled_def
    by (fastforce simp: may_read_sources_def may_view_def split: option.splits if_splits dest: active_user_in defense_by_id_in)
next
  fix v assume "GetAttempt s actor i = Inr v"
  then show "\<exists>a\<in>set (attempts s). \<exists>d\<in>set (defenses s). a_id a = i \<and> d_id d = a_defense_id a \<and> entitled s actor d"
    unfolding GetAttempt_def entitled_def
    by (fastforce split: option.splits if_splits dest: active_user_in defense_by_id_in select_one_SomeD)
qed

theorem reads_are_entitled_witness:
  "\<not> isl (snd (Get 5 ''stud'' ''def'' example_created))
   \<and> (\<exists>d\<in>set (defenses (fst (Get 5 ''stud'' ''def'' example_created))).
        d_id d = ''def'' \<and> entitled (fst (Get 5 ''stud'' ''def'' example_created)) ''stud'' d)"
proof -
  have ok: "\<not> isl (snd (Get 5 ''stud'' ''def'' example_created))" by code_simp
  then obtain v where "snd (Get 5 ''stud'' ''def'' example_created) = Inr v" by (metis sum.collapse(2))
  then have "Get 5 ''stud'' ''def'' example_created = (fst (Get 5 ''stud'' ''def'' example_created), Inr v)"
    by (metis prod.collapse)
  then show ?thesis using reads_are_entitled ok by blast
qed


text \<open>The view for a user who is neither teacher nor administrator.\<close>

lemma hideView_student:
  assumes "hideView s actor v = Inr w" and "select_one (\<lambda>u. u_id u = actor) (users s) = Some u"
    and "u_role u \<noteq> Some Teacher" and "u_role u \<noteq> Some Admin" and "v_mutations v = []" and "v_hide_report v = None"
    and "defense_by_id s (v_id v) = Some d" and "d_submission_id d = v_submission_id v"
  shows "v_mutations w = [] \<and> v_hide_report w = None
     \<and> (hidden_elsewhere s d \<longrightarrow> v_challenge w = None \<and> v_wheel w = [])
     \<and> (d_mode d = ''hide_seek'' \<longrightarrow> v_preparation_error w \<in> {'''', student_message} \<and> v_selected_id w = None)
     \<and> (hidden_elsewhere s d \<and> d_mode d \<noteq> ''hide_seek'' \<longrightarrow> v_draft w = '''')"
  using assms
  by (cases "d_mode d = ''hide_seek''") (auto simp: hideView_def Let_def hidden_elsewhere_def split: if_splits)

lemma active_user_role:
  assumes "unique_on (\<lambda>_. True) u_id (users s)" and "active_user s actor = Some u"
  shows "select_one (\<lambda>u. u_id u = actor) (users s) = Some u"
  by (rule select_one_unique [OF assms(1)]) (use active_user_in [OF assms(2)] in auto)

text \<open>
  a student never sees where the errors are.  What \<open>Get\<close> shows a student carries no
  mutations and no report; when this defense, or another one of the same submission, is a
  hide-and-seek, it shows no challenge and no wheel, and instead of a technical error only the
  fixed message; and the sources of a submission that has a hide-and-seek defense are readable to
  the student only through that defense, which does not reveal them.
\<close>

theorem student_sees_no_secrets:
  assumes "unique_on (\<lambda>_. True) u_id (users s)" and "active_user s actor = Some u" and "u_role u = Some Student"
  shows "(\<forall>v. read_defense s actor i = Inr v \<longrightarrow>
            v_mutations v = [] \<and> v_hide_report v = None
          \<and> (\<forall>d. defense_by_id s i = Some d \<longrightarrow>
               (hidden_elsewhere s d \<longrightarrow> v_challenge v = None \<and> v_wheel v = [])
             \<and> (d_mode d = ''hide_seek'' \<longrightarrow> v_preparation_error v \<in> {'''', student_message})))
       \<and> (\<forall>access d. SourceAccess s actor i = Inr access \<and> defense_by_id s i = Some d \<and> hidden_elsewhere s d \<longrightarrow>
            d_mode d = ''hide_seek'' \<and> \<not> sa_mask_selected access)"
proof (intro conjI allI impI)
  fix v assume "read_defense s actor i = Inr v"
  then obtain d sr l where vis: "visible_defense s actor i = Some (d, sr, l)"
    and h: "hideView s actor (base_view s d sr l) = Inr v"
    by (auto simp: read_defense_def split: option.splits)
  have d: "defense_by_id s i = Some d" using vis by (auto simp: visible_defense_def split: option.splits if_splits)
  have row: "defense_by_id s (v_id (base_view s d sr l)) = Some d"
    using d defense_by_id_in [OF d] by (simp add: base_view_def)
  have fields: "v_mutations (base_view s d sr l) = []" "v_hide_report (base_view s d sr l) = None"
      "d_submission_id d = v_submission_id (base_view s d sr l)"
    by (simp_all add: base_view_def)
  have role: "u_role u \<noteq> Some Teacher" "u_role u \<noteq> Some Admin" using assms(3) by simp_all
  have all: "v_mutations v = [] \<and> v_hide_report v = None \<and> (hidden_elsewhere s d \<longrightarrow> v_challenge v = None \<and> v_wheel v = [])
      \<and> (d_mode d = ''hide_seek'' \<longrightarrow> v_preparation_error v \<in> {'''', student_message})"
    using hideView_student [OF h active_user_role [OF assms(1,2)] role fields(1,2) row fields(3)] by blast
  then show "v_mutations v = []" "v_hide_report v = None" by simp_all
  fix d' assume "defense_by_id s i = Some d'"
  then have "d' = d" using d by simp
  then show "hidden_elsewhere s d' \<Longrightarrow> v_challenge v = None" "hidden_elsewhere s d' \<Longrightarrow> v_wheel v = []"
    "d_mode d' = ''hide_seek'' \<Longrightarrow> v_preparation_error v \<in> {'''', student_message}"
    using all by simp_all
next
  fix access d assume a: "SourceAccess s actor i = Inr access \<and> defense_by_id s i = Some d \<and> hidden_elsewhere s d"
  then obtain sv sr where acc: "access = access_of s u sv d"
      "\<not> (sa_student_view access \<and> sa_mode access \<noteq> ''hide_seek'' \<and> hidden_elsewhere s d)"
    using assms(2) by (auto simp: SourceAccess_def Let_def split: option.splits if_splits)
  have fields: "sa_student_view access" "sa_mode access = d_mode d"
    using assms(3) by (auto simp: acc(1) access_of_def Let_def split: option.splits)
  show "d_mode d = ''hide_seek''" using acc(2) fields a by simp
  then show "\<not> sa_mask_selected access" by (simp add: acc(1) access_of_def Let_def)
qed

theorem student_sees_no_secrets_witness:
  "\<exists>v. read_defense example_created ''stud'' ''def'' = Inr v \<and> v_mutations v = [] \<and> v_hide_report v = None"
proof -
  have u: "unique_on (\<lambda>_. True) u_id (users example_created)"
    "active_user example_created ''stud'' = Some \<lparr>u_id = ''stud'', u_status = UserActive, u_role = Some Student\<rparr>"
    by code_simp+
  have "\<not> isl (read_defense example_created ''stud'' ''def'')" by code_simp
  then obtain v where v: "read_defense example_created ''stud'' ''def'' = Inr v" by (metis sum.collapse(2))
  with student_sees_no_secrets [OF u, of "''def''"] show ?thesis by simp
qed

text \<open>
  the history is bounded, newest first, and confined to the staff's own students: at most a
  hundred attempts, each matching every filter that is set, and each from a group that the reader
  teaches unless he is an administrator.
\<close>

theorem history_confined:
  "length (History s actor groupID studentRecordID labID outcome limit) \<le> 100
 \<and> sorted_wrt (\<lambda>x y. at_accepted_at x \<ge> at_accepted_at y) (History s actor groupID studentRecordID labID outcome limit)
 \<and> (\<forall>v\<in>set (History s actor groupID studentRecordID labID outcome limit).
      \<exists>a d u sv sr. a \<in> set (attempts s) \<and> v = attempt_view a \<and> d \<in> set (defenses s) \<and> d_id d = a_defense_id a
        \<and> defense_record s d = Some (sv, sr) \<and> u \<in> set (users s) \<and> u_id u = actor \<and> u_status u = UserActive \<and> staff_of s u sr
        \<and> (groupID = '''' \<or> sr_group_id sr = groupID) \<and> (outcome = '''' \<or> outcome_text (a_outcome a) = outcome))"
proof -
  let ?lt = "\<lambda>a b. a_accepted_at a > a_accepted_at b"
  let ?rows = "slice_stable ?lt (filter (history_row s actor groupID studentRecordID labID outcome) (attempts s))"
  let ?n = "nat (if limit < 1 \<or> limit > 100 then 50 else limit)"
  have h: "History s actor groupID studentRecordID labID outcome limit = map attempt_view (take ?n ?rows)"
    by (simp add: History_def Let_def)
  have "length (take ?n ?rows) \<le> 100" by auto
  moreover have "sorted_wrt (\<lambda>a b. \<not> ?lt b a) ?rows" by (rule newest_first.slice_stable_ordered)
  then have "sorted_wrt (\<lambda>a b. \<not> ?lt b a) (take ?n ?rows)" by (rule sorted_wrt_take)
  then have "sorted_wrt (\<lambda>x y. at_accepted_at x \<ge> at_accepted_at y) (map attempt_view (take ?n ?rows))"
    by (simp add: sorted_wrt_map attempt_view_def not_less)
  moreover have "\<exists>a d u sv sr. a \<in> set (attempts s) \<and> v = attempt_view a \<and> d \<in> set (defenses s) \<and> d_id d = a_defense_id a
        \<and> defense_record s d = Some (sv, sr) \<and> u \<in> set (users s) \<and> u_id u = actor \<and> u_status u = UserActive \<and> staff_of s u sr
        \<and> (groupID = '''' \<or> sr_group_id sr = groupID) \<and> (outcome = '''' \<or> outcome_text (a_outcome a) = outcome)"
    if v: "v \<in> set (map attempt_view (take ?n ?rows))" for v
  proof -
    obtain a where a: "a \<in> set ?rows" "v = attempt_view a" using v by (auto dest: in_set_takeD)
    then have "a \<in> set (attempts s)" "history_row s actor groupID studentRecordID labID outcome a" by auto
    then show ?thesis
      using a(2) active_user_in defense_by_id_in unfolding history_row_def
      by (fastforce split: option.splits)
  qed
  ultimately show ?thesis unfolding h by simp
qed


definition example_tried :: db where
  "example_tried = example_active\<lparr>attempts := [new_attempt 5 ''att'' ''def'' 1 ''k'' ''ans'']\<rparr>"

theorem history_confined_witness:
  "\<exists>v\<in>set (History example_tried ''prof'' '''' '''' '''' ''pending'' 10).
     \<exists>a\<in>set (attempts example_tried). v = attempt_view a \<and> outcome_text (a_outcome a) = ''pending''"
proof -
  have "History example_tried ''prof'' '''' '''' '''' ''pending'' 10 = [attempt_view (new_attempt 5 ''att'' ''def'' 1 ''k'' ''ans'')]"
    by (simp add: History_def slice_stable_def history_row_def example_tried_def example_active_def example_empty_def
        example_working_def example_defense_def new_defense_def put_defense_def new_attempt_def defense_by_id_def active_user_def
        defense_record_def submission_by_id_def record_of_def staff_of_def teaches_def table_simps)
  then obtain v where v: "v \<in> set (History example_tried ''prof'' '''' '''' '''' ''pending'' 10)" by auto
  then have "\<exists>a\<in>set (attempts example_tried). v = attempt_view a \<and> outcome_text (a_outcome a) = ''pending''"
    using history_confined [of example_tried "''prof''" "''''" "''''" "''''" "''pending''" 10] by blast
  then show ?thesis using v by blast
qed

end
