(* ===== verification/Storage_Keys.thy ===== *)
theory Storage_Keys
  imports Domain
begin

text \<open>
  Object keys of \<open>application/storage/storage.go\<close>: a key is a namespace, a canonical UUID and
  an extension, and it is the only thing that is ever turned into a path of the object store.
\<close>

datatype Key = Key (key_string: string)

definition OriginalArchives :: string where
  "OriginalArchives = ''original-archives''"

definition NormalizedSubmissions :: string where
  "NormalizedSubmissions = ''normalized-submissions''"

definition SafeLogs :: string where
  "SafeLogs = ''safe-logs''"

lemmas namespace_defs = OriginalArchives_def NormalizedSubmissions_def SafeLogs_def

text \<open>\<open>extensionPattern\<close>: a dot and one to eleven lower-case letters or digits.\<close>

definition lower_alnum :: "char \<Rightarrow> bool" where
  "lower_alnum c \<longleftrightarrow> (97 \<le> ord_of c \<and> ord_of c \<le> 122) \<or> (48 \<le> ord_of c \<and> ord_of c \<le> 57)"

fun extension_pattern :: "string \<Rightarrow> bool" where
  "extension_pattern [] = False"
| "extension_pattern (c # s) =
     (c = CHR ''.'' \<and> 1 \<le> length s \<and> length s \<le> 11 \<and> list_all lower_alnum s)"

definition NewKey :: "string \<Rightarrow> string \<Rightarrow> string \<Rightarrow> Key result" where
  "NewKey namespace opaqueID extension =
     (if namespace \<noteq> OriginalArchives \<and> namespace \<noteq> NormalizedSubmissions \<and> namespace \<noteq> SafeLogs
      then Inl (ErrText ''unsupported object namespace'')
      else if \<not> uuid_pattern opaqueID then Inl (ErrText ''object id must be a canonical UUID'')
      else if \<not> extension_pattern extension then Inl (ErrText ''invalid object extension'')
      else Inr (Key (namespace @ ''/'' @ opaqueID @ extension)))"

definition ParseKey :: "string \<Rightarrow> Key result" where
  "ParseKey value =
     (case split_byte (CHR ''/'') value of
        [a, b] \<Rightarrow>
          (case last_index_byte b (CHR ''.'') of
             None \<Rightarrow> Inl (ErrText ''object key has no extension'')
           | Some dot \<Rightarrow> NewKey a (take dot b) (drop dot b))
      | _ \<Rightarrow> Inl (ErrText ''invalid object key''))"

record Object =
  ob_key :: Key
  ob_size :: int
  ob_sha256 :: bytes
  ob_content_type :: string
  ob_created_at :: time

section \<open>Lemmas\<close>

lemma last_index_byte_None: "last_index_byte s c = None \<longleftrightarrow> c \<notin> set s"
  by (induction s) (auto split: option.splits)

lemma last_index_byte_append:
  "c \<notin> set t \<Longrightarrow> last_index_byte (s @ c # t) c = Some (length s)"
  by (induction s) (auto simp: last_index_byte_None split: option.splits)

lemma last_index_byte_Some:
  "last_index_byte s c = Some i \<Longrightarrow> i < length s \<and> s ! i = c"
  by (induction s arbitrary: i) (auto split: option.splits if_splits)

lemma lower_alnum_no_dot: "list_all lower_alnum s \<Longrightarrow> CHR ''.'' \<notin> set s \<and> CHR ''/'' \<notin> set s"
  by (auto simp: list_all_iff lower_alnum_def)

lemma uuid_pattern_chars:
  assumes "uuid_pattern s"
  shows "CHR ''/'' \<notin> set s" and "length s = 36"
proof -
  obtain a b c d e where s: "s = a @ ''-'' @ b @ ''-'' @ c @ ''-'' @ d @ ''-'' @ e"
    and g: "uuid_pattern_groups [a, b, c, d, e]"
    using assms by (auto simp: uuid_pattern_iff)
  have "CHR ''/'' \<notin> set x" if "list_all lower_hex x" for x
    using that by (auto simp: list_all_iff lower_hex_def)
  with g show "CHR ''/'' \<notin> set s" by (auto simp: s hex_group_def)
  from g show "length s = 36" by (simp add: s hex_group_def)
qed

lemma NewKey_Inr:
  "NewKey ns i e = Inr k \<longleftrightarrow>
     ns \<in> {OriginalArchives, NormalizedSubmissions, SafeLogs} \<and> uuid_pattern i \<and> extension_pattern e
     \<and> k = Key (ns @ ''/'' @ i @ e)"
  by (auto simp: NewKey_def)

lemma namespace_no_slash:
  "ns \<in> {OriginalArchives, NormalizedSubmissions, SafeLogs} \<Longrightarrow> CHR ''/'' \<notin> set ns"
  by (auto simp: namespace_defs)

lemma split_key:
  assumes "NewKey ns i e = Inr k"
  shows "split_byte (CHR ''/'') (key_string k) = [ns, i @ e]"
proof -
  have "CHR ''/'' \<notin> set (i @ e)"
    using assms uuid_pattern_chars [of i] lower_alnum_no_dot
    by (cases e) (auto simp: NewKey_Inr)
  then show ?thesis
    using assms namespace_no_slash [of ns] by (simp add: NewKey_Inr split_byte_append)
qed

text \<open>
  \<open>ParseKey\<close> and \<open>NewKey\<close> are inverse to each other: \<open>ParseKey\<close> accepts a string with
  result \<open>k\<close> exactly when the string is the text of \<open>k\<close> and \<open>k\<close> is a key that \<open>NewKey\<close> makes
  from some namespace, identifier and extension.
\<close>

theorem ParseKey_NewKey:
  "ParseKey s = Inr k \<longleftrightarrow> key_string k = s \<and> (\<exists>ns i e. NewKey ns i e = Inr k)"
proof
  assume p: "ParseKey s = Inr k"
  then obtain a b where ab: "split_byte (CHR ''/'') s = [a, b]"
    by (auto simp: ParseKey_def split: list.splits)
  with p obtain dot where d: "last_index_byte b (CHR ''.'') = Some dot"
    and k: "NewKey a (take dot b) (drop dot b) = Inr k"
    by (auto simp: ParseKey_def split: option.splits)
  have "s = a @ ''/'' @ b" using join_split_byte [of "CHR ''/''" s] ab by simp
  then have "key_string k = s" using k by (simp add: NewKey_Inr)
  with k show "key_string k = s \<and> (\<exists>ns i e. NewKey ns i e = Inr k)" by blast
next
  assume "key_string k = s \<and> (\<exists>ns i e. NewKey ns i e = Inr k)"
  then obtain ns i e where k: "NewKey ns i e = Inr k" and s: "key_string k = s" by blast
  obtain t where e: "e = CHR ''.'' # t" and t: "CHR ''.'' \<notin> set t"
    using k lower_alnum_no_dot by (cases e) (auto simp: NewKey_Inr)
  have "last_index_byte (i @ e) (CHR ''.'') = Some (length i)"
    using t by (simp add: e last_index_byte_append)
  then show "ParseKey s = Inr k"
    using split_key [OF k] k by (simp add: ParseKey_def s)
qed

text \<open>
  the text of a key that was parsed consists of exactly two path elements, neither of them
  empty, \<open>.\<close> or \<open>..\<close>: joined to the storage root it names a file one directory below it.
\<close>

theorem ParseKey_safe:
  assumes "ParseKey s = Inr k"
  shows "safe_elements s \<and> length (split_byte (CHR ''/'') s) = 2"
proof -
  obtain a b where ab: "split_byte (CHR ''/'') s = [a, b]"
    using assms by (auto simp: ParseKey_def split: list.splits)
  with assms obtain dot where "NewKey a (take dot b) (drop dot b) = Inr k"
    by (auto simp: ParseKey_def split: option.splits)
  then have "a \<in> {OriginalArchives, NormalizedSubmissions, SafeLogs}" "uuid_pattern (take dot b)"
    by (auto simp: NewKey_Inr)
  then have "plain_element a" "36 \<le> length b"
    using uuid_pattern_chars(2) [of "take dot b"] by (auto simp: plain_element_def namespace_defs)
  then show ?thesis using ab by (auto simp: safe_elements_def plain_element_def)
qed

theorem ParseKey_safe_witness:
  "safe_elements ''safe-logs/01890a5d-ac96-774b-bcce-b302099a8057.zip''
   \<and> length (split_byte (CHR ''/'') ''safe-logs/01890a5d-ac96-774b-bcce-b302099a8057.zip'') = 2"
  by (rule ParseKey_safe [of _ "Key ''safe-logs/01890a5d-ac96-774b-bcce-b302099a8057.zip''"])
    (simp add: ParseKey_def NewKey_def namespace_defs uuid_pattern_def hex_group_def lower_hex_def
      lower_alnum_def)

end
