(* ===== verification/File_Storage.thy ===== *)
theory File_Storage
  imports Storage_Keys Go_Crypto
begin

text \<open>
  The object store: the interface \<open>FileStorage\<close> of \<open>application/storage/storage.go\<close>, the local store
  behind it (\<open>infrastructure/objectstore/local/local.go\<close>), and the contract that the clients of the
  interface rely on.

  The state of the local store is the directory tree below its root, as far as the store looks at
  it: the namespaces that exist and the entries in them, by their path relative to the root.  Every
  call of the operating system and every check of the context may fail; a function of the type
  \<open>faults\<close> says which of the calls of an operation do, by their number, and with which text.
\<close>

section \<open>Readers\<close>

text \<open>
  An \<open>io.Reader\<close> is the sequence of answers to \<open>Read\<close>; an exhausted one answers \<open>io.EOF\<close>.
\<close>

datatype read_end = More | EOF | ReadError go_error

type_synonym reader = "(bytes \<times> read_end) list"

type_synonym faults = "nat \<Rightarrow> string option"

text \<open>\<open>io.LimitReader\<close>: at most \<open>n\<close> bytes, then the end.\<close>

fun LimitReader :: "int \<Rightarrow> reader \<Rightarrow> reader" where
  "LimitReader n [] = []"
| "LimitReader n ((b, e) # r) =
     (if n \<le> 0 then []
      else if int (length b) > n then [(take (nat n) b, More)]
      else (b, e) # LimitReader (n - int (length b)) r)"

text \<open>
  \<open>copyContext\<close>: what was written, and the error.  In the round \<open>n\<close> the check of the context is the
  fault \<open>2 n\<close> and the write the fault \<open>2 n + 1\<close>; a write that fails is counted as writing nothing,
  and the destinations, files and hashes, never write short.
\<close>

fun copyContext :: "faults \<Rightarrow> nat \<Rightarrow> reader \<Rightarrow> bytes \<times> go_error option" where
  "copyContext ctx n [] = ([], map_option ErrText (ctx (2 * n)))"
| "copyContext ctx n ((b, e) # r) =
     (case ctx (2 * n) of
        Some x \<Rightarrow> ([], Some (ErrText x))
      | None \<Rightarrow>
          (case (if b = [] then None else ctx (2 * n + 1)) of
             Some x \<Rightarrow> ([], Some (ErrText x))
           | None \<Rightarrow>
               (case e of
                  EOF \<Rightarrow> (b, None)
                | ReadError x \<Rightarrow> (b, Some x)
                | More \<Rightarrow> (let (w, x) = copyContext ctx (Suc n) r in (b @ w, x)))))"

text \<open>What a reader delivers when it is read to its end.\<close>

fun delivers :: "reader \<Rightarrow> bytes option" where
  "delivers [] = Some []"
| "delivers ((b, More) # r) = map_option (\<lambda>c. b @ c) (delivers r)"
| "delivers ((b, EOF) # r) = Some b"
| "delivers ((b, ReadError x) # r) = None"

definition bytes_reader :: "bytes \<Rightarrow> reader" where
  "bytes_reader b = [(b, More)]"

lemma copyContext_delivers:
  "copyContext ctx n r = (w, None) \<Longrightarrow> delivers r = Some w"
  by (induction r arbitrary: n w rule: delivers.induct) (auto split: option.splits prod.splits if_splits)

lemma copyContext_no_faults:
  "delivers r = Some w \<Longrightarrow> copyContext (\<lambda>_. None) n r = (w, None)"
  by (induction r arbitrary: n w rule: delivers.induct) auto

text \<open>A limit above the length changes nothing, and what comes through below it is the beginning.\<close>

lemma LimitReader_delivers:
  "delivers r = Some w \<Longrightarrow> int (length w) \<le> n \<Longrightarrow> delivers (LimitReader n r) = Some w"
proof (induction r arbitrary: n w rule: delivers.induct)
  case (2 b r)
  then obtain c where c: "delivers r = Some c" "w = b @ c" by auto
  then have "delivers (LimitReader (n - int (length b)) r) = Some c" using 2 by simp
  moreover have "b = [] \<and> c = []" if "n \<le> 0"
    using that 2(3) c(2) by (simp flip: length_0_conv)
  ultimately show ?case using c 2(3) by auto
next
  case (3 b r)
  then show ?case by (cases w) auto
qed auto

lemma LimitReader_length:
  "delivers (LimitReader n r) = Some w \<Longrightarrow> int (length w) \<le> max 0 n"
proof (induction r arbitrary: n w rule: delivers.induct)
  case (2 b r)
  then show ?case by (fastforce split: if_splits)
qed (auto split: if_splits)

lemma LimitReader_short:
  "delivers (LimitReader n r) = Some w \<Longrightarrow> int (length w) < n \<Longrightarrow> delivers r = Some w"
proof (induction r arbitrary: n w rule: delivers.induct)
  case (2 b r)
  then show ?case by (auto split: if_splits)
qed (auto split: if_splits)

section \<open>The interface\<close>

record PutOptions =
  po_size :: int
  po_content_type :: string

text \<open>
  \<open>FileStorage\<close>: the methods on a store whose state has the type \<open>'s\<close>.  \<open>TemporaryURLStorage\<close> extends
  it, so that the method is an option.
\<close>

record ('s, 'e) FileStorage =
  Put :: "'e \<Rightarrow> Key \<Rightarrow> reader \<Rightarrow> PutOptions \<Rightarrow> 's \<Rightarrow> 's \<times> Object result"
  Open :: "'e \<Rightarrow> Key \<Rightarrow> 's \<Rightarrow> (bytes \<times> Object) result"
  Stat :: "'e \<Rightarrow> Key \<Rightarrow> 's \<Rightarrow> Object result"
  List :: "'e \<Rightarrow> string \<Rightarrow> 's \<Rightarrow> Object list result"
  Delete :: "'e \<Rightarrow> Key \<Rightarrow> 's \<Rightarrow> 's \<times> unit result"
  Check :: "'e \<Rightarrow> 's \<Rightarrow> unit result"
  TemporaryGetURL :: "('e \<Rightarrow> Key \<Rightarrow> int \<Rightarrow> 's \<Rightarrow> string result) option"

definition IsRetryable :: "go_error \<Rightarrow> bool" where
  "IsRetryable e \<longleftrightarrow> e = ErrUnavailable"

text \<open>
  What clients rely on, for the keys that \<open>NewKey\<close> makes.  \<open>content s k\<close> is the object stored under
  \<open>k\<close>.  A \<open>Put\<close> never replaces an object and never publishes a part of one; when it reports an error
  the object may be there in full.
\<close>

definition valid_key :: "Key \<Rightarrow> bool" where
  "valid_key k \<longleftrightarrow> (\<exists>ns i e. NewKey ns i e = Inr k)"

locale file_storage =
  fixes F :: "('s, 'e) FileStorage" and content :: "'s \<Rightarrow> Key \<Rightarrow> bytes option" and tidy :: "'s \<Rightarrow> bool"
  assumes put_ok: "tidy s \<Longrightarrow> valid_key k \<Longrightarrow> Put F e k r opts s = (s', Inr obj) \<Longrightarrow>
      tidy s' \<and> content s k = None
      \<and> (\<exists>b. delivers r = Some b \<and> int (length b) = po_size opts
            \<and> (\<forall>k'. valid_key k' \<longrightarrow> content s' k' = ((content s)(k \<mapsto> b)) k')
            \<and> ob_key obj = k \<and> ob_size obj = int (length b) \<and> ob_sha256 obj = sha256 b)"
    and put_error: "tidy s \<Longrightarrow> valid_key k \<Longrightarrow> Put F e k r opts s = (s', Inl x) \<Longrightarrow>
      tidy s'
      \<and> (\<forall>k'. valid_key k' \<longrightarrow> content s' k' = content s k'
           \<or> k' = k \<and> content s k = None
             \<and> (\<exists>b. content s' k = Some b \<and> delivers r = Some b \<and> int (length b) = po_size opts))"
    and open_ok: "valid_key k \<Longrightarrow> Open F e k s = Inr (b, obj) \<Longrightarrow>
      content s k = Some b \<and> ob_key obj = k \<and> ob_sha256 obj = sha256 b"
    and open_missing: "valid_key k \<Longrightarrow> Open F e k s = Inl ErrNotFound \<Longrightarrow> content s k = None"
    and stat_ok: "valid_key k \<Longrightarrow> Stat F e k s = Inr obj \<Longrightarrow>
      \<exists>b. content s k = Some b \<and> ob_key obj = k \<and> ob_sha256 obj = sha256 b"
    and list_ok: "tidy s \<Longrightarrow> List F e ns s = Inr objs \<Longrightarrow> ns \<in> {OriginalArchives, NormalizedSubmissions, SafeLogs} \<Longrightarrow>
      (\<forall>obj\<in>set objs. valid_key (ob_key obj))
      \<and> {k. valid_key k \<and> has_prefix (key_string k) (ns @ ''/'') \<and> content s k \<noteq> None} = ob_key ` set objs"
    and delete_ok: "tidy s \<Longrightarrow> valid_key k \<Longrightarrow> Delete F e k s = (s', Inr u) \<Longrightarrow>
      tidy s' \<and> (\<forall>k'. valid_key k' \<longrightarrow> content s' k' = ((content s)(k := None)) k')"
    and delete_error: "tidy s \<Longrightarrow> valid_key k \<Longrightarrow> Delete F e k s = (s', Inl x) \<Longrightarrow> s' = s"

section \<open>The store as a write-once map\<close>

text \<open>
  The specification of a store: a map from keys to contents.  A \<open>Put\<close> may do nothing, or add what its
  reader delivers under a free key; a \<open>Delete\<close> may do nothing or remove its key.
\<close>

datatype store_op = PutOp Key reader int | DeleteOp Key

fun spec_step :: "store_op \<Rightarrow> (Key \<Rightarrow> bytes option) \<Rightarrow> (Key \<Rightarrow> bytes option) \<Rightarrow> bool" where
  "spec_step (PutOp k r n) m m' \<longleftrightarrow> m' = m \<or> (\<exists>b. m k = None \<and> delivers r = Some b \<and> int (length b) = n \<and> m' = m(k \<mapsto> b))"
| "spec_step (DeleteOp k) m m' \<longleftrightarrow> m' = m \<or> m' = m(k := None)"

inductive spec_trace :: "(Key \<Rightarrow> bytes option) \<Rightarrow> store_op list \<Rightarrow> (Key \<Rightarrow> bytes option) \<Rightarrow> bool" where
  spec_end: "spec_trace m [] m"
| spec_more: "spec_trace m ops m' \<Longrightarrow> spec_step a m' m'' \<Longrightarrow> spec_trace m (ops @ [a]) m''"

text \<open>The calls that a store gets, with whatever result and whatever faults of the environment.\<close>

inductive store_trace :: "('s, 'e) FileStorage \<Rightarrow> 's \<Rightarrow> store_op list \<Rightarrow> 's \<Rightarrow> bool" for F :: "('s, 'e) FileStorage" where
  trace_end: "store_trace F s [] s"
| trace_put: "store_trace F s ops s' \<Longrightarrow> valid_key k \<Longrightarrow> Put F e k r opts s' = (s'', res) \<Longrightarrow>
    store_trace F s (ops @ [PutOp k r (po_size opts)]) s''"
| trace_delete: "store_trace F s ops s' \<Longrightarrow> valid_key k \<Longrightarrow> Delete F e k s' = (s'', res) \<Longrightarrow>
    store_trace F s (ops @ [DeleteOp k]) s''"

definition objects :: "('s \<Rightarrow> Key \<Rightarrow> bytes option) \<Rightarrow> 's \<Rightarrow> Key \<Rightarrow> bytes option" where
  "objects content s k = (if valid_key k then content s k else None)"

context file_storage
begin

lemma put_step:
  assumes "tidy s" and "valid_key k" and "Put F e k r opts s = (s', res)"
  shows "tidy s' \<and> spec_step (PutOp k r (po_size opts)) (objects content s) (objects content s')"
proof (cases res)
  case (Inl x)
  note p = put_error [OF assms(1,2) assms(3) [unfolded Inl]]
  show ?thesis
  proof (cases "content s' k = content s k")
    case True
    then have "objects content s' = objects content s" using p by (auto simp: objects_def fun_eq_iff)
    then show ?thesis using p by simp
  next
    case False
    then obtain b where b: "content s k = None" "content s' k = Some b" "delivers r = Some b" "int (length b) = po_size opts"
      using p assms(2) by auto
    have "objects content s' = (objects content s)(k \<mapsto> b)" using p b assms(2) by (auto simp: objects_def fun_eq_iff)
    then show ?thesis using p b assms(2) by (auto simp: objects_def)
  qed
next
  case (Inr obj)
  from put_ok [OF assms(1,2) assms(3) [unfolded Inr]] obtain b where p: "tidy s'" "content s k = None" "delivers r = Some b"
      "int (length b) = po_size opts" "\<forall>k'. valid_key k' \<longrightarrow> content s' k' = ((content s)(k \<mapsto> b)) k'" by blast
  then have "objects content s' = (objects content s)(k \<mapsto> b)" using assms(2) by (auto simp: objects_def fun_eq_iff)
  then show ?thesis using p assms(2) by (auto simp: objects_def)
qed

lemma delete_step:
  assumes "tidy s" and "valid_key k" and "Delete F e k s = (s', res)"
  shows "tidy s' \<and> spec_step (DeleteOp k) (objects content s) (objects content s')"
proof (cases res)
  case (Inl x)
  then show ?thesis using delete_error [OF assms(1,2)] assms by auto
next
  case (Inr u)
  then have "tidy s'" "objects content s' = (objects content s)(k := None)"
    using delete_ok [OF assms(1,2)] assms(2,3) by (auto simp: objects_def fun_eq_iff)
  then show ?thesis by simp
qed

lemma trace_refines:
  "store_trace F s ops s' \<Longrightarrow> tidy s \<Longrightarrow> tidy s' \<and> spec_trace (objects content s) ops (objects content s')"
proof (induction rule: store_trace.induct)
  case trace_end
  then show ?case by (simp add: spec_end)
next
  case trace_put
  then show ?case using put_step spec_more by blast
next
  case trace_delete
  then show ?case using delete_step spec_more by blast
qed

end

section \<open>The local store\<close>

datatype node = Regular bytes time | Irregular

record lfs =
  root_is_dir :: "bool option"
  dirs :: "string list"
  entries :: "(string \<times> node) list"

text \<open>
  What the environment decides during one operation: the faults of the calls, those of the copying
  loop, the suffix that \<open>os.CreateTemp\<close> finds, and the time.
\<close>

record local_env =
  le_faults :: faults
  le_copy :: faults
  le_tmp :: string
  le_now :: time

definition int64 :: "int \<Rightarrow> int" where
  "int64 x = (x + 2 ^ 63) mod 2 ^ 64 - 2 ^ 63"

definition fault :: "local_env \<Rightarrow> nat \<Rightarrow> string \<Rightarrow> unit result" where
  "fault env n what = (case le_faults env n of None \<Rightarrow> Inr () | Some x \<Rightarrow> Inl (ErrText (what @ x)))"

definition key_dir :: "Key \<Rightarrow> string" where
  "key_dir k = takeWhile (\<lambda>c. c \<noteq> CHR ''/'') (key_string k)"

definition object_of :: "Key \<Rightarrow> bytes \<Rightarrow> time \<Rightarrow> bytes \<Rightarrow> string \<Rightarrow> Object" where
  "object_of key b mtime hash contentType =
     \<lparr>ob_key = key, ob_size = int (length b), ob_sha256 = hash, ob_content_type = contentType, ob_created_at = mtime\<rparr>"

definition remove_entry :: "string \<Rightarrow> lfs \<Rightarrow> lfs" where
  "remove_entry p s = s\<lparr>entries := filter (\<lambda>(q, _). q \<noteq> p) (entries s)\<rparr>"

definition make_dir :: "string \<Rightarrow> lfs \<Rightarrow> lfs" where
  "make_dir d s = (if List.member (dirs s) d then s else s\<lparr>dirs := dirs s @ [d]\<rparr>)"

text \<open>
  \<open>Put\<close> writes the upload to a temporary file in the namespace and publishes it by a link, which
  fails when there is an entry of that name.  \<open>publish\<close> is what happens after the copy.  The deferred
  removal of the temporary file ignores its own error.
\<close>

definition temporary_path :: "local_env \<Rightarrow> Key \<Rightarrow> string" where
  "temporary_path env key = key_dir key @ ''/.upload-'' @ le_tmp env"

definition upload :: "local_env \<Rightarrow> Key \<Rightarrow> reader \<Rightarrow> PutOptions \<Rightarrow> bytes \<times> go_error option" where
  "upload env key source options = copyContext (le_copy env) 0 (LimitReader (int64 (po_size options + 1)) source)"

definition publish :: "local_env \<Rightarrow> Key \<Rightarrow> PutOptions \<Rightarrow> bytes \<Rightarrow> lfs \<Rightarrow> lfs \<times> Object result" where
  "publish env key options b s =
     (case fault env 3 ''restrict object: '' of
        Inl e \<Rightarrow> (s, Inl e)
      | Inr _ \<Rightarrow>
          if map_of (entries s) (key_string key) \<noteq> None then (s, Inl ErrExists)
          else
            (case fault env 4 ''publish object: '' of
               Inl e \<Rightarrow> (s, Inl e)
             | Inr _ \<Rightarrow>
                 (s\<lparr>entries := entries s @ [(key_string key, Regular b (le_now env))]\<rparr>,
                  bind_result (fault env 5 ''stat published object: '') (\<lambda>_.
                    Inr (object_of key b (le_now env) (sha256 b) (po_content_type options))))))"

definition finish_upload :: "local_env \<Rightarrow> Key \<Rightarrow> PutOptions \<Rightarrow> bytes \<Rightarrow> go_error option \<Rightarrow> lfs \<Rightarrow> lfs \<times> Object result" where
  "finish_upload env key options b copyErr s =
     (case copyErr of
        Some e \<Rightarrow> (s, Inl e)
      | None \<Rightarrow>
          (case fault env 2 ''close object: '' of
             Inl e \<Rightarrow> (s, Inl e)
           | Inr _ \<Rightarrow>
               if int (length b) \<noteq> po_size options then (s, Inl (ErrText ''object size mismatch''))
               else publish env key options b s))"

definition Put_local :: "local_env \<Rightarrow> Key \<Rightarrow> reader \<Rightarrow> PutOptions \<Rightarrow> lfs \<Rightarrow> lfs \<times> Object result" where
  "Put_local env key source options s =
     (if po_size options < 0 then (s, Inl (ErrText ''object size cannot be negative''))
      else
        (case fault env 0 ''create namespace: '' of
           Inl e \<Rightarrow> (s, Inl e)
         | Inr _ \<Rightarrow>
             (let s1 = make_dir (key_dir key) s; temporaryPath = temporary_path env key in
              case bind_result (fault env 1 ''create upload: '')
                     (\<lambda>_. ensure (map_of (entries s1) temporaryPath = None) (ErrText ''create upload: file exists'')) of
                Inl e \<Rightarrow> (s1, Inl e)
              | Inr _ \<Rightarrow>
                  (let (b, copyErr) = upload env key source options;
                       s2 = s1\<lparr>entries := entries s1 @ [(temporaryPath, Regular b (le_now env))]\<rparr>;
                       (s3, r) = finish_upload env key options b copyErr s2 in
                   (if le_faults env 6 = None then remove_entry temporaryPath s3 else s3, r)))))"

definition digest_local :: "local_env \<Rightarrow> bytes \<Rightarrow> bytes result" where
  "digest_local env b = (case copyContext (le_copy env) 0 (bytes_reader b) of (w, None) \<Rightarrow> Inr (sha256 w) | (_, Some e) \<Rightarrow> Inl e)"

definition Open_local :: "local_env \<Rightarrow> Key \<Rightarrow> lfs \<Rightarrow> (bytes \<times> Object) result" where
  "Open_local env key s =
     bind_result (fault env 0 '''') (\<lambda>_.
       case map_of (entries s) (key_string key) of
         None \<Rightarrow> Inl ErrNotFound
       | Some node \<Rightarrow>
           bind_result (fault env 1 ''open object: '') (\<lambda>_.
           bind_result (fault env 2 ''stat object: '') (\<lambda>_.
             case node of
               Irregular \<Rightarrow> Inl (ErrText ''stored object is not a regular file'')
             | Regular b mtime \<Rightarrow>
                 bind_result (digest_local env b) (\<lambda>hash.
                 bind_result (fault env 3 '''') (\<lambda>_.
                   Inr (b, object_of key b mtime hash ''application/octet-stream''))))))"

definition Stat_local :: "local_env \<Rightarrow> Key \<Rightarrow> lfs \<Rightarrow> Object result" where
  "Stat_local env key s =
     bind_result (Open_local env key s) (\<lambda>(_, obj). bind_result (fault env 4 ''close object: '') (\<lambda>_. Inr obj))"

text \<open>The faults of a later call: those after the first \<open>n\<close>.\<close>

definition later :: "nat \<Rightarrow> local_env \<Rightarrow> local_env" where
  "later n env = env\<lparr>le_faults := \<lambda>i. le_faults env (i + n)\<rparr>"

text \<open>\<open>os.ReadDir\<close>: the entries of the directory by name.\<close>

definition ReadDir :: "string \<Rightarrow> lfs \<Rightarrow> (string \<times> node) list" where
  "ReadDir ns s =
     sort_key fst (map (\<lambda>(p, n). (drop (length ns + 1) p, n))
       (filter (\<lambda>(p, _). has_prefix p (ns @ ''/'') \<and> CHR ''/'' \<notin> set (drop (length ns + 1) p)) (entries s)))"

fun list_entries :: "local_env \<Rightarrow> string \<Rightarrow> lfs \<Rightarrow> (string \<times> node) list \<Rightarrow> Object list result" where
  "list_entries env ns s [] = Inr []"
| "list_entries env ns s ((name, node) # rest) =
     bind_result (fault env 0 '''') (\<lambda>_.
       if node = Irregular then Inl (ErrText ''storage namespace contains a non-regular entry'')
       else
         (case ParseKey (ns @ ''/'' @ name) of
            Inl _ \<Rightarrow> Inl (ErrText ''invalid stored key'')
          | Inr key \<Rightarrow>
              bind_result (Stat_local (later 1 env) key s) (\<lambda>metadata.
              bind_result (list_entries (later 6 env) ns s rest) (\<lambda>objs. Inr (metadata # objs)))))"

definition List_local :: "local_env \<Rightarrow> string \<Rightarrow> lfs \<Rightarrow> Object list result" where
  "List_local env ns s =
     bind_result (fault env 0 '''') (\<lambda>_.
       if \<not> List.member (dirs s) ns then Inr []
       else bind_result (fault env 1 ''list namespace: '') (\<lambda>_. list_entries (later 2 env) ns s (ReadDir ns s)))"

definition Delete_local :: "local_env \<Rightarrow> Key \<Rightarrow> lfs \<Rightarrow> lfs \<times> unit result" where
  "Delete_local env key s =
     (case fault env 0 '''' of
        Inl e \<Rightarrow> (s, Inl e)
      | Inr _ \<Rightarrow>
          if map_of (entries s) (key_string key) = None then (s, Inr ())
          else
            (case fault env 1 ''delete object: '' of
               Inl e \<Rightarrow> (s, Inl e)
             | Inr _ \<Rightarrow> (remove_entry (key_string key) s, Inr ())))"

definition Check_local :: "local_env \<Rightarrow> lfs \<Rightarrow> unit result" where
  "Check_local env s =
     bind_result (fault env 0 '''') (\<lambda>_.
     bind_result (fault env 1 ''local storage: '') (\<lambda>_.
       case root_is_dir s of
         None \<Rightarrow> Inl (ErrText ''local storage: no such file or directory'')
       | Some d \<Rightarrow> if d then Inr () else Inl (ErrText ''local storage root is not a directory'')))"

definition local_storage :: "(lfs, local_env) FileStorage" where
  "local_storage =
     \<lparr>Put = Put_local, Open = Open_local, Stat = Stat_local, List = List_local, Delete = Delete_local, Check = Check_local,
      TemporaryGetURL = None\<rparr>"

section \<open>The local store meets the contract\<close>

definition content_local :: "lfs \<Rightarrow> Key \<Rightarrow> bytes option" where
  "content_local s k = (case map_of (entries s) (key_string k) of Some (Regular b t) \<Rightarrow> Some b | _ \<Rightarrow> None)"

definition tidy_local :: "lfs \<Rightarrow> bool" where
  "tidy_local s \<longleftrightarrow> distinct (map fst (entries s)) \<and> (\<forall>(p, n)\<in>set (entries s). takeWhile (\<lambda>c. c \<noteq> CHR ''/'') p \<in> set (dirs s))"

lemma valid_key_parts:
  assumes "valid_key k"
  shows "\<exists>ns c rest. key_string k = ns @ ''/'' @ c # rest \<and> ns \<in> {OriginalArchives, NormalizedSubmissions, SafeLogs}
     \<and> CHR ''/'' \<notin> set ns \<and> CHR ''/'' \<notin> set (c # rest) \<and> c \<noteq> CHR ''.'' \<and> key_dir k = ns"
proof -
  obtain ns i e where k: "NewKey ns i e = Inr k" using assms by (auto simp: valid_key_def)
  then have ns: "ns \<in> {OriginalArchives, NormalizedSubmissions, SafeLogs}" and i: "uuid_pattern i" and e: "extension_pattern e"
    and s: "key_string k = ns @ ''/'' @ i @ e" by (auto simp: NewKey_Inr)
  obtain a b c d f where g: "i = a @ ''-'' @ b @ ''-'' @ c @ ''-'' @ d @ ''-'' @ f" "uuid_pattern_groups [a, b, c, d, f]"
    using i by (auto simp: uuid_pattern_iff)
  then obtain x a' where a: "a = x # a'" "lower_hex x" by (cases a) (auto simp: hex_group_def)
  then have "x \<noteq> CHR ''.''" by (auto simp: lower_hex_def)
  moreover have "CHR ''/'' \<notin> set (i @ e)"
    using uuid_pattern_chars [OF i] e lower_alnum_no_dot by (cases e) auto
  moreover have "key_dir k = ns"
    using namespace_no_slash [OF ns] by (auto simp: key_dir_def s takeWhile_append)
  moreover obtain rest where "i @ e = x # rest" using g(1) a(1) by simp
  ultimately show ?thesis using ns namespace_no_slash [OF ns] s by metis
qed

lemma first_slash: "CHR ''/'' \<notin> set a \<Longrightarrow> CHR ''/'' \<notin> set b \<Longrightarrow> a @ CHR ''/'' # x = b @ CHR ''/'' # y \<longleftrightarrow> a = b \<and> x = y"
  by (induction a arbitrary: b; case_tac b) auto

lemma last_slash:
  assumes "CHR ''/'' \<notin> set x" and "CHR ''/'' \<notin> set y" and "a @ CHR ''/'' # x = b @ CHR ''/'' # y"
  shows "x = y"
proof -
  have "rev x @ CHR ''/'' # rev a = rev y @ CHR ''/'' # rev b" using arg_cong [OF assms(3), of rev] by simp
  then show ?thesis using first_slash [of "rev x" "rev y" "rev a" "rev b"] assms(1,2) by simp
qed

lemma temporary_no_key:
  assumes "valid_key k" and "valid_key k'"
  shows "temporary_path env k \<noteq> key_string k'"
proof -
  obtain ns c rest where k: "CHR ''/'' \<notin> set ns" "key_dir k = ns" using valid_key_parts [OF assms(1)] by blast
  obtain ns' c' rest' where k': "key_string k' = ns' @ ''/'' @ c' # rest'" "CHR ''/'' \<notin> set ns'" "c' \<noteq> CHR ''.''"
    using valid_key_parts [OF assms(2)] by blast
  show ?thesis
  proof
    assume "temporary_path env k = key_string k'"
    then have "ns @ CHR ''/'' # (''.upload-'' @ le_tmp env) = ns' @ CHR ''/'' # (c' # rest')"
      using k k' by (simp add: temporary_path_def)
    with k'(3) show False using first_slash [OF k(1) k'(2)] by auto
  qed
qed

lemma map_of_filter_other: "map_of (filter (\<lambda>(q, _). q \<noteq> p) xs) q = (if q = p then None else map_of xs q)"
  by (induction xs) auto

lemma content_remove:
  "content_local (remove_entry p s) k = (if key_string k = p then None else content_local s k)"
  by (simp add: content_local_def remove_entry_def map_of_filter_other)

lemma content_snoc:
  "map_of (entries s) p = None \<Longrightarrow>
   content_local (s\<lparr>entries := entries s @ [(p, Regular b t)]\<rparr>) k = (if key_string k = p then Some b else content_local s k)"
  by (auto simp: content_local_def map_add_def split: option.splits)

lemma tidy_snoc:
  "tidy_local s \<Longrightarrow> map_of (entries s) p = None \<Longrightarrow> takeWhile (\<lambda>c. c \<noteq> CHR ''/'') p \<in> set (dirs s) \<Longrightarrow>
   tidy_local (s\<lparr>entries := entries s @ [(p, n)]\<rparr>)"
  by (auto simp: tidy_local_def map_of_eq_None_iff)

lemma tidy_remove: "tidy_local s \<Longrightarrow> tidy_local (remove_entry p s)"
  by (auto simp: tidy_local_def remove_entry_def distinct_map intro: inj_on_subset)

lemma tidy_make_dir: "tidy_local s \<Longrightarrow> tidy_local (make_dir d s)"
  by (auto simp: tidy_local_def make_dir_def)

lemma entries_make_dir [simp]: "entries (make_dir d s) = entries s" "content_local (make_dir d s) = content_local s"
  by (auto simp: make_dir_def content_local_def fun_eq_iff)

lemma make_dir_mem: "d \<in> set (dirs (make_dir d s))"
  by (auto simp: make_dir_def)

lemma mod_or_less:
  fixes x m :: int
  assumes "0 \<le> x" and "0 < m"
  shows "x mod m = x \<or> x mod m \<le> x - m"
proof (cases "x < m")
  case False
  then have "(x - m) mod m \<le> x - m" using assms by (intro zmod_le_nonneg_dividend) simp
  then show ?thesis by simp
qed (use assms in simp)

lemma upload_delivers:
  assumes "upload env k r opts = (b, None)" and "int (length b) = po_size opts"
  shows "delivers r = Some b"
proof -
  let ?n = "int64 (po_size opts + 1)"
  have d: "delivers (LimitReader ?n r) = Some b" using assms(1) copyContext_delivers by (simp add: upload_def)
  show ?thesis
  proof (cases "?n = po_size opts + 1")
    case True
    then show ?thesis using LimitReader_short [OF d] assms(2) by simp
  next
    case False
    moreover have "(po_size opts + 1 + 2 ^ 63) mod 2 ^ 64 = po_size opts + 1 + 2 ^ 63
        \<or> (po_size opts + 1 + 2 ^ 63) mod 2 ^ 64 \<le> po_size opts + 1 + 2 ^ 63 - 2 ^ 64"
      by (rule mod_or_less) (use assms(2) in simp_all)
    ultimately have "?n < po_size opts" "po_size opts \<noteq> 0"
      using assms(2) by (auto simp: int64_def)
    then show ?thesis using LimitReader_length [OF d] assms(2) by auto
  qed
qed

lemma publish_effect:
  assumes "publish env k opts b s = (s', r)"
  shows "(s' = s \<and> isl r) \<or>
    (map_of (entries s) (key_string k) = None \<and> s' = s\<lparr>entries := entries s @ [(key_string k, Regular b (le_now env))]\<rparr>
     \<and> (isl r \<or> r = Inr (object_of k b (le_now env) (sha256 b) (po_content_type opts))))"
proof (cases "fault env 3 ''restrict object: ''")
  case (Inr u)
  then show ?thesis
    using assms by (cases "fault env 4 ''publish object: ''"; cases "fault env 5 ''stat published object: ''")
      (auto simp: publish_def split: if_splits)
qed (use assms in \<open>auto simp: publish_def\<close>)

text \<open>Put either changes no object or publishes all that the reader delivers under a free key.\<close>

definition published :: "local_env \<Rightarrow> Key \<Rightarrow> reader \<Rightarrow> PutOptions \<Rightarrow> lfs \<Rightarrow> lfs \<Rightarrow> Object result \<Rightarrow> bool" where
  "published env k r opts s s' res \<longleftrightarrow>
     content_local s k = None
   \<and> (\<exists>b. delivers r = Some b \<and> int (length b) = po_size opts
         \<and> (\<forall>k'. valid_key k' \<longrightarrow> content_local s' k' = (if k' = k then Some b else content_local s k'))
         \<and> (isl res \<or> res = Inr (object_of k b (le_now env) (sha256 b) (po_content_type opts))))"

lemma Put_uploaded:
  assumes "tidy_local s" and "valid_key k" and "map_of (entries s) p = None" and "p = temporary_path env k" and "key_dir k \<in> set (dirs s)"
    and "s2 = s\<lparr>entries := entries s @ [(p, Regular b t)]\<rparr>" and "publish env k opts b s2 = (s3, r)"
    and "upload env k rd opts = (b, None)" and "int (length b) = po_size opts"
    and "s' = (if c then remove_entry p s3 else s3)"
  shows "tidy_local s' \<and> ((isl r \<and> (\<forall>k'. valid_key k' \<longrightarrow> content_local s' k' = content_local s k')) \<or> published env k rd opts s s' r)"
proof -
  obtain ns c' rest where ns: "key_string k = ns @ ''/'' @ c' # rest" "CHR ''/'' \<notin> set ns" "key_dir k = ns"
    using valid_key_parts [OF assms(2)] by blast
  have pk: "p \<noteq> key_string k'" if "valid_key k'" for k' using temporary_no_key [OF assms(2) that] assms(4) by auto
  have dir: "takeWhile (\<lambda>c. c \<noteq> CHR ''/'') p \<in> set (dirs s)" "takeWhile (\<lambda>c. c \<noteq> CHR ''/'') (key_string k) \<in> set (dirs s)"
    using assms(4,5) ns by (auto simp: temporary_path_def takeWhile_append key_dir_def)
  have t2: "tidy_local s2" using tidy_snoc [OF assms(1,3) dir(1)] assms(6) by simp
  have c2: "content_local s2 k' = content_local s k'" if "valid_key k'" for k'
    using content_snoc [OF assms(3), of b t k'] pk [OF that] assms(6) by auto
  from publish_effect [OF assms(7)] show ?thesis
  proof
    assume a: "s3 = s2 \<and> isl r"
    then have "tidy_local s'" using t2 tidy_remove assms(10) by auto
    moreover have "content_local s' k' = content_local s k'" if "valid_key k'" for k'
      using a c2 [OF that] pk [OF that] assms(10) by (auto simp: content_remove)
    ultimately show ?thesis using a by blast
  next
    assume a: "map_of (entries s2) (key_string k) = None \<and> s3 = s2\<lparr>entries := entries s2 @ [(key_string k, Regular b (le_now env))]\<rparr>
     \<and> (isl r \<or> r = Inr (object_of k b (le_now env) (sha256 b) (po_content_type opts)))"
    have "tidy_local s3" using tidy_snoc [OF t2] a dir(2) assms(6) by simp
    then have "tidy_local s'" using tidy_remove assms(10) by auto
    moreover have "content_local s' k' = (if k' = k then Some b else content_local s k')" if "valid_key k'" for k'
      using a c2 [OF that] pk [OF that] assms(10) content_snoc [of s2 "key_string k" b "le_now env" k'] Key.expand [of k' k]
      by (auto simp: content_remove)
    moreover have "content_local s k = None" using a c2 [OF assms(2)] by (simp add: content_local_def)
    ultimately show ?thesis using a upload_delivers [OF assms(8,9)] assms(9) unfolding published_def by blast
  qed
qed

text \<open>How far \<open>Put\<close> gets: to the temporary file, to the link, or through.\<close>

lemma Put_local_cases:
  assumes "Put_local env k rd opts s = (s', r)" and u: "upload env k rd opts = (b, ce)"
    and s1: "s1 = make_dir (key_dir k) s" and p: "p = temporary_path env k"
    and s2: "s2 = s1\<lparr>entries := entries s1 @ [(p, Regular b (le_now env))]\<rparr>"
  obtains (early) "s' = s \<or> s' = s1" "isl r"
    | (failed) "map_of (entries s1) p = None" "s' = (if le_faults env 6 = None then remove_entry p s2 else s2)" "isl r"
    | (linked) s3 where "map_of (entries s1) p = None" "ce = None" "int (length b) = po_size opts" "publish env k opts b s2 = (s3, r)"
        "s' = (if le_faults env 6 = None then remove_entry p s3 else s3)"
proof (cases "po_size opts < 0 \<or> isl (fault env 0 ''create namespace: '') \<or> isl (fault env 1 ''create upload: '') \<or> map_of (entries s1) p \<noteq> None")
  case True
  then have "(s' = s \<or> s' = s1) \<and> isl r"
    using assms(1) s1 p by (auto simp: Put_local_def Let_def isl_def split: if_splits sum.splits)
  then show thesis using early by blast
next
  case False
  then obtain x y where ok: "\<not> po_size opts < 0" "fault env 0 ''create namespace: '' = Inr x" "fault env 1 ''create upload: '' = Inr y" "map_of (entries s1) p = None"
    by (metis isl_def sumE)
  obtain s3 r3 where q3: "finish_upload env k opts b ce s2 = (s3, r3)" by (cases "finish_upload env k opts b ce s2")
  have "Put_local env k rd opts s = (if le_faults env 6 = None then remove_entry p s3 else s3, r3)"
    using ok u q3 by (simp add: Put_local_def Let_def s1 [symmetric] p [symmetric] s2)
  then have s': "s' = (if le_faults env 6 = None then remove_entry p s3 else s3)" "r = r3" using assms(1) by simp_all
  show thesis
  proof (cases "ce = None \<and> \<not> isl (fault env 2 ''close object: '') \<and> int (length b) = po_size opts")
    case True
    then have "publish env k opts b s2 = (s3, r)" using q3 s'(2) by (auto simp: finish_upload_def isl_def split: sum.splits)
    with True ok s' show thesis using linked by blast
  next
    case False
    then have "s3 = s2 \<and> isl r3" using q3 by (auto simp: finish_upload_def isl_def split: option.splits sum.splits if_splits)
    with ok s' show thesis using failed by blast
  qed
qed

lemma Put_local_effect:
  assumes "tidy_local s" and "valid_key k" and "Put_local env k rd opts s = (s', r)"
  shows "tidy_local s' \<and> ((isl r \<and> (\<forall>k'. valid_key k' \<longrightarrow> content_local s' k' = content_local s k')) \<or> published env k rd opts s s' r)"
proof -
  define s1 where "s1 = make_dir (key_dir k) s"
  define p where "p = temporary_path env k"
  obtain b ce where u: "upload env k rd opts = (b, ce)" by (cases "upload env k rd opts")
  define s2 where "s2 = s1\<lparr>entries := entries s1 @ [(p, Regular b (le_now env))]\<rparr>"
  have 1: "tidy_local s1" "content_local s1 = content_local s" "key_dir k \<in> set (dirs s1)"
    using tidy_make_dir [OF assms(1)] make_dir_mem by (simp_all add: s1_def)
  have pk: "p \<noteq> key_string k'" if "valid_key k'" for k' using temporary_no_key [OF assms(2) that] p_def by auto
  from assms(3) u s1_def p_def s2_def show ?thesis
  proof (cases rule: Put_local_cases)
    case early
    then show ?thesis using 1 assms(1) by auto
  next
    case failed
    obtain ns where ns: "CHR ''/'' \<notin> set ns" "key_dir k = ns" using valid_key_parts [OF assms(2)] by blast
    have "takeWhile (\<lambda>c. c \<noteq> CHR ''/'') p \<in> set (dirs s1)"
      using ns 1(3) by (auto simp: p_def temporary_path_def takeWhile_append)
    then have "tidy_local s2" using tidy_snoc [OF 1(1) failed(1)] by (simp add: s2_def)
    moreover have "content_local s2 k' = content_local s k'" if "valid_key k'" for k'
      using content_snoc [OF failed(1), of b "le_now env" k'] pk [OF that] 1(2) by (auto simp: s2_def)
    ultimately show ?thesis using failed(2,3) pk tidy_remove by (auto simp: content_remove)
  next
    case (linked s3)
    have "published env k rd opts s s' r = published env k rd opts s1 s' r" using 1(2) by (simp add: published_def)
    then show ?thesis
      using Put_uploaded [OF 1(1) assms(2) linked(1) p_def 1(3) s2_def linked(4) _ linked(3,5), of rd] u linked(2) 1(2) by simp
  qed
qed

lemma fault_not_found [simp]: "fault env n what \<noteq> Inl ErrNotFound"
  by (simp add: fault_def split: option.splits)

lemma digest_local_Inr [simp]: "digest_local env b = Inr h \<Longrightarrow> h = sha256 b"
  using copyContext_delivers [of "le_copy env" 0 "bytes_reader b"]
  by (auto simp: digest_local_def bytes_reader_def split: prod.splits option.splits)

lemma copy_bytes_error: "copyContext ctx 0 (bytes_reader b) = (w, Some e) \<Longrightarrow> e \<noteq> ErrNotFound"
  by (auto simp: bytes_reader_def split: option.splits if_splits)

lemma digest_local_not_found [simp]: "digest_local env b \<noteq> Inl ErrNotFound"
  using copy_bytes_error [of "le_copy env" b] by (auto simp: digest_local_def split: prod.splits option.splits)

lemma Open_local_Inr:
  assumes "Open_local env k s = Inr (b, obj)"
  shows "content_local s k = Some b \<and> ob_key obj = k \<and> ob_sha256 obj = sha256 b"
proof -
  obtain n where n: "map_of (entries s) (key_string k) = Some n" using assms by (auto simp: Open_local_def split: option.splits)
  then show ?thesis
    using assms by (cases n) (auto simp: Open_local_def content_local_def object_of_def dest!: digest_local_Inr)
qed

lemma Stat_local_Inr:
  "Stat_local env k s = Inr obj \<Longrightarrow> \<exists>b. content_local s k = Some b \<and> ob_key obj = k \<and> ob_sha256 obj = sha256 b"
  by (auto simp: Stat_local_def dest!: Open_local_Inr)

lemma Open_local_missing: "Open_local env k s = Inl ErrNotFound \<Longrightarrow> content_local s k = None"
  by (auto simp: Open_local_def bind_result_eq_Inl content_local_def split: option.splits node.splits)

lemma list_entries_Inr:
  assumes "list_entries env ns s es = Inr objs"
  shows "map (\<lambda>obj. key_string (ob_key obj)) objs = map (\<lambda>(name, n). ns @ ''/'' @ name) es
     \<and> list_all (\<lambda>(name, n). n \<noteq> Irregular) es
     \<and> (\<forall>obj\<in>set objs. valid_key (ob_key obj) \<and> content_local s (ob_key obj) \<noteq> None)"
  using assms
proof (induction env ns s es arbitrary: objs rule: list_entries.induct)
  case (2 env ns s name n rest)
  then obtain u key obj objs' where o: "fault env 0 '''' = Inr u" "n \<noteq> Irregular" "ParseKey (ns @ ''/'' @ name) = Inr key"
      "Stat_local (later 1 env) key s = Inr obj" "list_entries (later 6 env) ns s rest = Inr objs'" "objs = obj # objs'"
    by (auto split: sum.splits if_splits)
  have "key_string key = ns @ ''/'' @ name \<and> valid_key key"
    using o(3) by (simp add: ParseKey_NewKey valid_key_def)
  with Stat_local_Inr [OF o(4)] 2(1) [OF o(2,3,5)] o(2,6) show ?case by auto
qed simp

lemma has_prefix_split: "has_prefix p q \<longleftrightarrow> p = q @ drop (length q) p"
  unfolding has_prefix_def by (metis append_eq_conv_conj append_take_drop_id)

lemma ReadDir_mem:
  "(name, n) \<in> set (ReadDir ns s) \<longleftrightarrow> CHR ''/'' \<notin> set name \<and> (ns @ ''/'' @ name, n) \<in> set (entries s)"
proof -
  have "(name, n) \<in> set (ReadDir ns s) \<longleftrightarrow>
      (\<exists>p. (p, n) \<in> set (entries s) \<and> has_prefix p (ns @ ''/'') \<and> CHR ''/'' \<notin> set (drop (length ns + 1) p) \<and> name = drop (length ns + 1) p)"
    by (auto simp: ReadDir_def image_iff split_beta)
  also have "\<dots> \<longleftrightarrow> (\<exists>p. (p, n) \<in> set (entries s) \<and> p = ns @ ''/'' @ name \<and> CHR ''/'' \<notin> set name)"
    using has_prefix_split [of _ "ns @ ''/''"] by fastforce
  finally show ?thesis by blast
qed

lemma List_local_Inr:
  assumes "tidy_local s" and "List_local env ns s = Inr objs" and "ns \<in> {OriginalArchives, NormalizedSubmissions, SafeLogs}"
  shows "(\<forall>obj\<in>set objs. valid_key (ob_key obj))
     \<and> {k. valid_key k \<and> has_prefix (key_string k) (ns @ ''/'') \<and> content_local s k \<noteq> None} = ob_key ` set objs"
proof -
  have ns: "CHR ''/'' \<notin> set ns" by (rule namespace_no_slash [OF assms(3)])
  have fl: "\<exists>name n. key_string k = ns @ ''/'' @ name \<and> (name, n) \<in> set (ReadDir ns s) \<and> ns \<in> set (dirs s)"
    if vk: "valid_key k" and hp: "has_prefix (key_string k) (ns @ ''/'')" and ct: "content_local s k \<noteq> None" for k
  proof -
    obtain ns' c rest where k: "key_string k = ns' @ ''/'' @ c # rest" "CHR ''/'' \<notin> set ns'" "CHR ''/'' \<notin> set (c # rest)"
      using valid_key_parts [OF vk] by blast
    obtain rest' where "key_string k = ns @ ''/'' @ rest'" using hp by (metis append.assoc has_prefix_split)
    then have e: "ns' = ns" "rest' = c # rest" using first_slash [OF k(2) ns, of "c # rest" rest'] k(1) by auto
    obtain n where n: "(key_string k, n) \<in> set (entries s)"
      using ct by (auto simp: content_local_def split: option.splits dest: map_of_SomeD)
    moreover have "takeWhile (\<lambda>c. c \<noteq> CHR ''/'') (key_string k) = ns" using k(1) ns e by (auto simp: takeWhile_append)
    ultimately have "ns \<in> set (dirs s)" using assms(1) by (auto simp: tidy_local_def)
    then show ?thesis using n k e by (intro exI [of _ "c # rest"] exI [of _ n]) (simp add: ReadDir_mem)
  qed
  show ?thesis
  proof (cases "ns \<in> set (dirs s)")
    case False
    then have "objs = []" using assms(2) by (auto simp: List_local_def)
    moreover have "content_local s k = None" if "valid_key k" "has_prefix (key_string k) (ns @ ''/'')" for k
      using fl [OF that] False by blast
    ultimately show ?thesis by auto
  next
    case True
    then have "list_entries (later 2 env) ns s (ReadDir ns s) = Inr objs" using assms(2) by (auto simp: List_local_def)
    from list_entries_Inr [OF this] have l: "map (\<lambda>obj. key_string (ob_key obj)) objs = map (\<lambda>(name, n). ns @ ''/'' @ name) (ReadDir ns s)"
      and v: "\<forall>obj\<in>set objs. valid_key (ob_key obj) \<and> content_local s (ob_key obj) \<noteq> None" by blast+
    have l': "(\<lambda>obj. key_string (ob_key obj)) ` set objs = (\<lambda>(name, n). ns @ ''/'' @ name) ` set (ReadDir ns s)"
      using arg_cong [OF l, of set] by simp
    have "k \<in> ob_key ` set objs" if "valid_key k" "has_prefix (key_string k) (ns @ ''/'')" "content_local s k \<noteq> None" for k
    proof -
      have "key_string k \<in> (\<lambda>(name, n). ns @ ''/'' @ name) ` set (ReadDir ns s)" using fl [OF that] by force
      then have "key_string k \<in> (\<lambda>obj. key_string (ob_key obj)) ` set objs" using l' by simp
      then show ?thesis using Key.expand by force
    qed
    moreover have "has_prefix (key_string (ob_key obj)) (ns @ ''/'')" if "obj \<in> set objs" for obj
    proof -
      have "key_string (ob_key obj) \<in> (\<lambda>(name, n). ns @ ''/'' @ name) ` set (ReadDir ns s)" using l' that by blast
      then show ?thesis by (auto simp: has_prefix_def)
    qed
    ultimately show ?thesis using v by blast
  qed
qed

lemma Delete_local_effect:
  "Delete_local env k s = (s', Inr u) \<Longrightarrow> s' = s \<and> map_of (entries s) (key_string k) = None \<or> s' = remove_entry (key_string k) s"
  "Delete_local env k s = (s', Inl x) \<Longrightarrow> s' = s"
  by (auto simp: Delete_local_def split: sum.splits if_splits)

lemma Put_local_Inr:
  assumes "tidy_local s" and "valid_key k" and "Put_local e k r opts s = (s', Inr obj)"
  shows "tidy_local s' \<and> content_local s k = None
      \<and> (\<exists>b. delivers r = Some b \<and> int (length b) = po_size opts
            \<and> (\<forall>k'. valid_key k' \<longrightarrow> content_local s' k' = ((content_local s)(k \<mapsto> b)) k')
            \<and> ob_key obj = k \<and> ob_size obj = int (length b) \<and> ob_sha256 obj = sha256 b)"
  using Put_local_effect [OF assms] by (auto simp: published_def object_of_def)

lemma Put_local_Inl:
  assumes "tidy_local s" and "valid_key k" and "Put_local e k r opts s = (s', Inl x)"
  shows "tidy_local s' \<and> (\<forall>k'. valid_key k' \<longrightarrow> content_local s' k' = content_local s k'
           \<or> k' = k \<and> content_local s k = None
             \<and> (\<exists>b. content_local s' k = Some b \<and> delivers r = Some b \<and> int (length b) = po_size opts))"
proof -
  have "content_local s' k' = content_local s k'
      \<or> k' = k \<and> content_local s k = None
        \<and> (\<exists>b. content_local s' k = Some b \<and> delivers r = Some b \<and> int (length b) = po_size opts)" if "valid_key k'" for k'
    using Put_local_effect [OF assms] that by (cases "k' = k") (auto simp: published_def)
  then show ?thesis using Put_local_effect [OF assms] by blast
qed

lemma Delete_local_Inr:
  assumes "tidy_local s" and "Delete_local e k s = (s', Inr u)"
  shows "tidy_local s' \<and> (\<forall>k'. valid_key k' \<longrightarrow> content_local s' k' = ((content_local s)(k := None)) k')"
  using Delete_local_effect(1) [OF assms(2)] tidy_remove [OF assms(1)] Key.expand [of _ k] assms(1)
  by (auto simp: content_remove) (auto simp: content_local_def)

lemma local_storage_sel:
  "Put local_storage = Put_local" "Open local_storage = Open_local" "Stat local_storage = Stat_local"
  "List local_storage = List_local" "Delete local_storage = Delete_local"
  by (simp_all add: local_storage_def)

interpretation lfs: file_storage local_storage content_local tidy_local
  by (unfold_locales; unfold local_storage_sel)
    (rule Put_local_Inr Put_local_Inl Open_local_Inr Open_local_missing Stat_local_Inr List_local_Inr Delete_local_Inr
      Delete_local_effect(2); assumption)+

section \<open>Properties of the local store\<close>

text \<open>
  C34: The local store implements the write-once map, whatever system calls fail: any sequence of uploads
  and deletions with any results leaves the objects in a state that the specification allows.  In
  particular no object is ever seen in part, replaced, or stored with another size than announced.
\<close>

theorem local_store_refines:
  assumes "store_trace local_storage s ops s'" and "tidy_local s"
  shows "tidy_local s' \<and> spec_trace (objects content_local s) ops (objects content_local s')"
  by (rule lfs.trace_refines [OF assms])

text \<open>
  An upload that succeeds can be read back: \<open>Open\<close> returns the bytes that the reader delivered and
  an object with their digest, as long as no call fails, and \<open>Put\<close> reported the same digest.
\<close>

theorem local_put_open:
  assumes "tidy_local s" and "valid_key k" and "Put_local env k r opts s = (s', Inr obj)"
    and "le_faults env' = (\<lambda>_. None)" and "le_copy env' = (\<lambda>_. None)"
  shows "\<exists>b obj'. delivers r = Some b \<and> Open_local env' k s' = Inr (b, obj')
     \<and> ob_sha256 obj = sha256 b \<and> ob_sha256 obj' = sha256 b \<and> ob_size obj = int (length b) \<and> ob_size obj' = int (length b)"
proof -
  obtain b where b: "delivers r = Some b" "content_local s' k = Some b" "ob_size obj = int (length b)" "ob_sha256 obj = sha256 b"
    using Put_local_Inr [OF assms(1-3)] assms(2) by auto
  then obtain t where "map_of (entries s') (key_string k) = Some (Regular b t)"
    by (auto simp: content_local_def split: option.splits node.splits)
  then have "Open_local env' k s' = Inr (b, object_of k b t (sha256 b) ''application/octet-stream'')"
    using assms(4,5) by (simp add: Open_local_def fault_def digest_local_def copyContext_no_faults bytes_reader_def)
  with b show ?thesis by (auto simp: object_of_def)
qed

lemma list_entries_bad:
  assumes "(name, n) \<in> set es" and "isl (ParseKey (ns @ ''/'' @ name))"
  shows "isl (list_entries env ns s es)"
proof (rule ccontr)
  assume "\<not> ?thesis"
  then obtain objs where o: "list_entries env ns s es = Inr objs" by (metis isl_def sumE)
  note l = list_entries_Inr [OF o]
  have "ns @ ''/'' @ name \<in> set (map (\<lambda>(name, n). ns @ ''/'' @ name) es)" using assms(1) by force
  then obtain obj where obj: "obj \<in> set objs" "key_string (ob_key obj) = ns @ ''/'' @ name"
    unfolding conjunct1 [OF l, symmetric] by auto
  then have "ParseKey (ns @ ''/'' @ name) = Inr (ob_key obj)" using l by (auto simp: ParseKey_NewKey valid_key_def)
  with assms(2) show False by simp
qed

text \<open>
  While an upload is under way, or after one whose temporary file could not be removed, its namespace
  cannot be listed: the name of the temporary file is no object key, and \<open>List\<close> fails on it instead
  of skipping it.
\<close>

theorem temporary_blocks_listing:
  assumes "(ns @ ''/.upload-'' @ suffix, n) \<in> set (entries s)" and "CHR ''/'' \<notin> set suffix" and "ns \<in> set (dirs s)"
  shows "isl (List_local env ns s)"
proof -
  have "(''.upload-'' @ suffix, n) \<in> set (ReadDir ns s)" using assms(1,2) by (simp add: ReadDir_mem)
  moreover have "isl (ParseKey (ns @ ''/'' @ ''.upload-'' @ suffix))"
  proof (rule ccontr)
    assume "\<not> ?thesis"
    then obtain k where "ParseKey (ns @ ''/'' @ ''.upload-'' @ suffix) = Inr k" by (metis isl_def sumE)
    then have k: "valid_key k" "key_string k = ns @ CHR ''/'' # ''.upload-'' @ suffix" by (auto simp: ParseKey_NewKey valid_key_def)
    obtain ns' c rest where p: "key_string k = ns' @ ''/'' @ c # rest" "CHR ''/'' \<notin> set (c # rest)" "c \<noteq> CHR ''.''"
      using valid_key_parts [OF k(1)] by blast
    have "c # rest = ''.upload-'' @ suffix"
      by (rule last_slash [of "c # rest" "''.upload-'' @ suffix" ns' ns]) (use p k(2) assms(2) in simp_all)
    with p(3) show False by simp
  qed
  ultimately have "isl (list_entries (later 2 env) ns s (ReadDir ns s))" by (rule list_entries_bad)
  then show ?thesis using assms(3) by (cases "fault env 0 ''''"; cases "fault env 1 ''list namespace: ''") (auto simp: List_local_def)
qed

section \<open>An example\<close>

definition ex_key :: Key where
  "ex_key = Key ''original-archives/018f47de-6c8b-7c41-9f5d-c68c7fbf6a52.zip''"

definition ex_env :: "nat option \<Rightarrow> local_env" where
  "ex_env broken = \<lparr>le_faults = (\<lambda>n. if Some n = broken then Some ''io'' else None), le_copy = (\<lambda>_. None), le_tmp = ''7'', le_now = 5\<rparr>"

definition ex_start :: lfs where
  "ex_start = \<lparr>root_is_dir = Some True, dirs = [], entries = []\<rparr>"

definition ex_holding :: "Key \<Rightarrow> lfs" where
  "ex_holding k = \<lparr>root_is_dir = Some True, dirs = [key_dir k], entries = [(key_string k, Regular ''zip'' 5)]\<rparr>"

definition ex_opts :: PutOptions where
  "ex_opts = \<lparr>po_size = 3, po_content_type = ''application/zip''\<rparr>"

lemma ex_key_parse: "ParseKey (key_string ex_key) = Inr ex_key"
  by code_simp

lemma ex_key_valid: "valid_key ex_key"
  using ex_key_parse by (auto simp: ParseKey_NewKey valid_key_def)

lemma ex_key_dir: "key_dir ex_key = OriginalArchives"
  by code_simp

lemma ex_tidy: "tidy_local ex_start" "tidy_local (ex_holding k)"
  by (simp_all add: tidy_local_def ex_start_def ex_holding_def key_dir_def)

lemma ex_content: "content_local ex_start k = None" "content_local (ex_holding k) k' = (if k' = k then Some ''zip'' else None)"
  using Key.expand [of k' k] by (auto simp: content_local_def ex_start_def ex_holding_def)

lemma ex_upload: "upload env k (bytes_reader ''zip'') ex_opts = copyContext (le_copy env) 0 [(''zip'', More)]"
  by (simp add: upload_def ex_opts_def int64_def bytes_reader_def)

lemma ex_put:
  assumes "valid_key k"
  shows "Put_local (ex_env None) k (bytes_reader ''zip'') ex_opts ex_start
     = (ex_holding k, Inr (object_of k ''zip'' 5 (sha256 ''zip'') ''application/zip''))"
proof -
  have "temporary_path (ex_env None) k \<noteq> key_string k" by (rule temporary_no_key [OF assms assms])
  then show ?thesis
    by (simp add: Put_local_def Let_def ex_start_def make_dir_def fault_def ex_env_def finish_upload_def publish_def
        ex_upload remove_entry_def ex_holding_def) (simp add: ex_opts_def)
qed

theorem local_store_refines_witness:
  "\<exists>s'. store_trace local_storage ex_start [PutOp ex_key (bytes_reader ''zip'') 3] s'
     \<and> spec_trace (objects content_local ex_start) [PutOp ex_key (bytes_reader ''zip'') 3] (objects content_local s')
     \<and> content_local s' ex_key = Some ''zip''"
proof -
  have "store_trace local_storage ex_start ([] @ [PutOp ex_key (bytes_reader ''zip'') (po_size ex_opts)]) (ex_holding ex_key)"
    by (rule trace_put [OF trace_end ex_key_valid ex_put [OF ex_key_valid, folded local_storage_sel(1)]])
  then have t: "store_trace local_storage ex_start [PutOp ex_key (bytes_reader ''zip'') 3] (ex_holding ex_key)" by (simp add: ex_opts_def)
  moreover have "content_local (ex_holding ex_key) ex_key = Some ''zip''" by (simp add: ex_content)
  ultimately show ?thesis using local_store_refines [OF t ex_tidy(1)] by blast
qed

theorem local_put_open_witness:
  "\<exists>obj. Open_local (ex_env None) ex_key (ex_holding ex_key) = Inr (''zip'', obj) \<and> ob_sha256 obj = sha256 ''zip''"
  using local_put_open [OF ex_tidy(1) ex_key_valid ex_put [OF ex_key_valid], of "ex_env None"] by (auto simp: ex_env_def bytes_reader_def)

theorem temporary_blocks_listing_witness:
  "\<exists>s' obj. Put_local (ex_env (Some 6)) ex_key (bytes_reader ''zip'') ex_opts ex_start = (s', Inr obj)
     \<and> isl (List_local (ex_env None) OriginalArchives s')"
proof -
  have "temporary_path (ex_env (Some 6)) ex_key \<noteq> key_string ex_key" by (rule temporary_no_key [OF ex_key_valid ex_key_valid])
  then have "\<exists>s' obj. Put_local (ex_env (Some 6)) ex_key (bytes_reader ''zip'') ex_opts ex_start = (s', Inr obj)
      \<and> (temporary_path (ex_env (Some 6)) ex_key, Regular ''zip'' 5) \<in> set (entries s') \<and> OriginalArchives \<in> set (dirs s')"
    by (simp add: Put_local_def Let_def ex_start_def make_dir_def ex_key_dir fault_def ex_env_def finish_upload_def publish_def
        ex_upload) (simp add: ex_opts_def)
  then obtain s' obj where p: "Put_local (ex_env (Some 6)) ex_key (bytes_reader ''zip'') ex_opts ex_start = (s', Inr obj)"
    "(temporary_path (ex_env (Some 6)) ex_key, Regular ''zip'' 5) \<in> set (entries s')" "OriginalArchives \<in> set (dirs s')" by blast
  then show ?thesis
    using temporary_blocks_listing [of OriginalArchives "''7''" "Regular ''zip'' 5" s' "ex_env None"]
    by (auto simp: temporary_path_def ex_key_dir ex_env_def)
qed

end
