(* ===== verification/Importer.thy ===== *)
theory Importer
  imports Go_Text "HOL-Library.Word" "HOL-Library.Signed_Division"
begin

unbundle bit_operations_syntax

text \<open>
  Package \<open>application/importer\<close>: the checks on an uploaded ZIP archive and its split into one
  normalized project archive per assignment (\<open>archive.go\<close>), and the conversion of an ordinary
  project ZIP into the canonical form (\<open>student_archive.go\<close>).

  The ZIP container and the JSON manifest are read and written by Go's \<open>archive/zip\<close> and
  \<open>encoding/json\<close>; their byte formats are parameters here.  \<open>open_zip\<close> gives the directory of an
  archive, \<open>write_zip\<close> the bytes of an archive with the given entries, \<open>decode_manifest\<close> and
  \<open>encode_manifest\<close> convert manifests.  An entry carries the sizes its header declares, as 64-bit
  words, and the bytes that reading it yields, or \<open>None\<close> when reading fails.  Texts of errors that
  are Russian in the source are given in English.
\<close>

section \<open>Data\<close>

record ZipFile =
  zf_name :: string
  zf_mode :: "32 word"
  zf_uncompressed :: "64 word"
  zf_compressed :: "64 word"
  zf_content :: "bytes option"

text \<open>\<open>fs.FileMode\<close>: the permission bits are the lowest nine, the directory bit is the highest.\<close>

definition perm :: "32 word \<Rightarrow> 32 word" where
  "perm m = m AND 511"

definition special_mode :: "32 word \<Rightarrow> bool" where
  "special_mode m \<longleftrightarrow> m AND (NOT (perm m)) \<noteq> 0"

definition is_dir :: "32 word \<Rightarrow> bool" where
  "is_dir m \<longleftrightarrow> bit m 31"

record Limits =
  MaxCompressedBytes :: int
  MaxUncompressedBytes :: int
  MaxFiles :: int
  MaxRatio :: int
  MaxManifestBytes :: int

definition DefaultLimits :: Limits where
  "DefaultLimits =
     \<lparr>MaxCompressedBytes = 100 * 1048576, MaxUncompressedBytes = 500 * 1048576, MaxFiles = 10000,
      MaxRatio = 100, MaxManifestBytes = 1048576\<rparr>"

record Item =
  it_lab_code :: string
  it_login :: string
  it_project_path :: string
  it_time_limit :: "int option"
  it_time_limit_deprecated :: "int option"
  it_top_n :: "int option"

record Manifest =
  mf_schema_version :: int
  mf_kind :: string
  mf_group_code :: string
  mf_lab_code :: string
  mf_login :: string
  mf_project_path :: string
  mf_version_label :: string
  mf_source :: string
  mf_source_reference :: string
  mf_commit_sha :: string
  mf_time_limit :: "int option"
  mf_time_limit_deprecated :: "int option"
  mf_top_n :: "int option"
  mf_items :: "Item list"

record Project =
  pr_item :: Item
  pr_archive :: bytes
  pr_file_count :: nat
  pr_size :: nat

record Analysis =
  an_manifest :: Manifest
  an_manifest_json :: bytes
  an_projects :: "Project list"
  an_total :: int

definition ManifestName :: string where
  "ManifestName = ''cppdefense-manifest.json''"

section \<open>Names and codes\<close>

definition safeName :: "string \<Rightarrow> string result" where
  "safeName name =
     (if name = '''' \<or> contains name [CHR 0x5C] \<or> has_prefix name ''/'' \<or> List.member name (CHR 0x00)
         \<or> \<not> utf8_valid name
      then Inl (ErrText ''unsafe ZIP path'')
      else
        (let cleaned = clean name in
         if cleaned = ''.'' \<or> cleaned = ''..'' \<or> has_prefix cleaned ''../'' \<or> cleaned \<noteq> trim_suffix name ''/''
         then Inl (ErrText ''unsafe ZIP path'') else Inr cleaned))"

definition is_lower :: "char \<Rightarrow> bool" where
  "is_lower c \<longleftrightarrow> 97 \<le> ord_of c \<and> ord_of c \<le> 122"

definition is_upper :: "char \<Rightarrow> bool" where
  "is_upper c \<longleftrightarrow> 65 \<le> ord_of c \<and> ord_of c \<le> 90"

definition is_digit :: "char \<Rightarrow> bool" where
  "is_digit c \<longleftrightarrow> 48 \<le> ord_of c \<and> ord_of c \<le> 57"

text \<open>
  The loops over the runes of the value compare each rune with ASCII letters and digits.  A byte
  above 127 belongs to a rune above 127, so that the loops over the bytes decide the same.
\<close>

definition validCode :: "string \<Rightarrow> bool" where
  "validCode v =
     (if length v < 1 \<or> length v > 64 \<or> hd v = CHR ''-'' \<or> last v = CHR ''-'' then False
      else list_all (\<lambda>c. is_lower c \<or> is_digit c \<or> c = CHR ''-'') v)"

definition validLogin :: "string \<Rightarrow> bool" where
  "validLogin v =
     (if length v < 1 \<or> length v > 39 \<or> hd v = CHR ''-'' \<or> last v = CHR ''-'' \<or> contains v ''--'' then False
      else list_all (\<lambda>c. is_lower c \<or> is_upper c \<or> is_digit c \<or> c = CHR ''-'') v)"

section \<open>Reading an archive\<close>

text \<open>
  The loop over the directory: the names seen so far by their folded form, the total size and the
  files by name, each name at most once.  Sizes are converted to \<open>int64\<close> as Go converts them.
\<close>

record scan =
  sc_case_names :: "(string \<times> string) list"
  sc_total :: int
  sc_files :: "(string \<times> ZipFile) list"

definition put :: "string \<Rightarrow> 'v \<Rightarrow> (string \<times> 'v) list \<Rightarrow> (string \<times> 'v) list" where
  "put k v m = (k, v) # filter (\<lambda>e. fst e \<noteq> k) m"

definition size_checks :: "Limits \<Rightarrow> ZipFile \<Rightarrow> int \<Rightarrow> int result" where
  "size_checks limits f t =
     (if uint (zf_uncompressed f) > MaxUncompressedBytes limits then Inl (ErrText ''entry is too large'')
      else
        (let t' = t + sint (zf_uncompressed f) in
         if t' > MaxUncompressedBytes limits then Inl (ErrText ''archive exceeds uncompressed size limit'')
         else
           (let compressed = (if sint (zf_compressed f) = 0 then 1 else sint (zf_compressed f)) in
            if sint (zf_uncompressed f) sdiv compressed > MaxRatio limits then Inl (ErrText ''suspicious compression ratio'')
            else Inr t')))"

definition scan_entry :: "(string \<Rightarrow> string) \<Rightarrow> Limits \<Rightarrow> ZipFile \<Rightarrow> scan \<Rightarrow> scan result" where
  "scan_entry ul limits f sc =
     bind_result (safeName (zf_name f)) (\<lambda>name.
       bind_result (case map_of (sc_case_names sc) (to_lower ul name) of
          Some previous \<Rightarrow>
            if previous \<noteq> name then Inl (ErrText ''case-insensitive path collision'') else Inr ()
        | None \<Rightarrow> Inr ()) (\<lambda>_.
       let sc' = sc\<lparr>sc_case_names := put (to_lower ul name) name (sc_case_names sc)\<rparr> in
       if special_mode (zf_mode f) \<and> \<not> is_dir (zf_mode f) then Inl (ErrText ''unsupported ZIP entry type'')
       else if is_dir (zf_mode f) then Inr sc'
       else if equal_fold_ascii (ext name) ''.zip'' then Inl (ErrText ''nested ZIP is forbidden'')
       else
         bind_result (size_checks limits f (sc_total sc')) (\<lambda>t.
         Inr (sc'\<lparr>sc_total := t, sc_files := put name f (sc_files sc')\<rparr>))))"


fun scan_entries :: "(string \<Rightarrow> string) \<Rightarrow> Limits \<Rightarrow> ZipFile list \<Rightarrow> scan \<Rightarrow> scan result" where
  "scan_entries ul limits [] sc = Inr sc"
| "scan_entries ul limits (f # fs) sc = bind_result (scan_entry ul limits f sc) (scan_entries ul limits fs)"

definition empty_scan :: scan where
  "empty_scan = \<lparr>sc_case_names = [], sc_total = 0, sc_files = []\<rparr>"

definition readFile :: "ZipFile \<Rightarrow> int \<Rightarrow> bytes result" where
  "readFile f limit =
     (case zf_content f of
        None \<Rightarrow> Inl (ErrText ''read ZIP entry'')
      | Some content \<Rightarrow> Inr (take (nat (limit + 1)) content))"

text \<open>
  \<open>normalizeProject\<close>: the files below the root, in the order of their names, each under its name
  relative to the root.
\<close>

definition source_suffix :: "(string \<Rightarrow> string) \<Rightarrow> string \<Rightarrow> bool" where
  "source_suffix ul rel \<longleftrightarrow>
     List.member [''.c'', ''.cc'', ''.cpp'', ''.cxx'', ''.h'', ''.hh'', ''.hpp'', ''.hxx''] (to_lower ul (ext rel))"

definition project_names :: "(string \<times> ZipFile) list \<Rightarrow> string \<Rightarrow> string list" where
  "project_names files root =
     filter (\<lambda>name. has_prefix name (root @ ''/'') \<and> trim_prefix name (root @ ''/'') \<noteq> '''') (map fst files)"

fun copy_entries :: "(string \<times> ZipFile) list \<Rightarrow> string \<Rightarrow> string list \<Rightarrow> (string \<times> bytes) list result" where
  "copy_entries files prefix [] = Inr []"
| "copy_entries files prefix (name # names) =
     (case map_of files name of
        None \<Rightarrow> Inl (ErrText ''nil pointer'')
      | Some f \<Rightarrow>
          (case zf_content f of
             None \<Rightarrow> Inl (ErrText ''read ZIP entry'')
           | Some content \<Rightarrow>
               bind_result (copy_entries files prefix names) (\<lambda>es. Inr ((trim_prefix name prefix, content) # es))))"

definition normalizeProject ::
  "(string \<Rightarrow> string) \<Rightarrow> ((string \<times> bytes) list \<Rightarrow> bytes result) \<Rightarrow> (string \<times> ZipFile) list \<Rightarrow> string \<Rightarrow> Item
     \<Rightarrow> Project result" where
  "normalizeProject ul write_zip files root item =
     (let prefix = root @ ''/''; names = project_names files root in
      if \<not> (list_ex (\<lambda>name. trim_prefix name prefix = ''CMakeLists.txt'') names
             \<and> list_ex (\<lambda>name. source_suffix ul (trim_prefix name prefix)) names)
      then Inl (ErrText ''project requires root CMakeLists.txt and C/C++ source'')
      else
        bind_result (copy_entries files prefix (sort names)) (\<lambda>entries.
        bind_result (write_zip entries) (\<lambda>archive.
        Inr \<lparr>pr_item = item, pr_archive = archive, pr_file_count = length names,
             pr_size = sum_list (map (\<lambda>e. length (snd e)) entries)\<rparr>)))"

text \<open>The loop over the items of the manifest: roots and assignments seen so far, folded.\<close>

definition overlapping :: "string \<Rightarrow> string \<Rightarrow> bool" where
  "overlapping a b \<longleftrightarrow> has_prefix (a @ ''/'') (b @ ''/'') \<or> has_prefix (b @ ''/'') (a @ ''/'')"

definition assignment_key :: "(string \<Rightarrow> string) \<Rightarrow> Item \<Rightarrow> string" where
  "assignment_key ul item = to_lower ul (it_login item) @ [CHR 0x00] @ it_lab_code item"

fun scan_items ::
  "(string \<Rightarrow> string) \<Rightarrow> ((string \<times> bytes) list \<Rightarrow> bytes result) \<Rightarrow> (string \<times> ZipFile) list \<Rightarrow> string list \<Rightarrow> string list
     \<Rightarrow> Item list \<Rightarrow> Project list result" where
  "scan_items ul write_zip files seenProjects seenAssignments [] = Inr []"
| "scan_items ul write_zip files seenProjects seenAssignments (item # items) =
     (case safeName (trim_suffix (it_project_path item) ''/'') of
        Inl e \<Rightarrow> Inl (ErrText ''manifest item is invalid'')
      | Inr root \<Rightarrow>
          if \<not> validCode (it_lab_code item) \<or> \<not> validLogin (it_login item)
          then Inl (ErrText ''manifest item is invalid'')
          else if List.member seenProjects (to_lower ul root) \<or> List.member seenAssignments (assignment_key ul item)
          then Inl (ErrText ''duplicate project or student/lab assignment'')
          else if list_ex (overlapping (to_lower ul root)) seenProjects
          then Inl (ErrText ''overlapping project directories'')
          else
            bind_result (normalizeProject ul write_zip files root item) (\<lambda>project.
            bind_result
              (scan_items ul write_zip files (to_lower ul root # seenProjects) (assignment_key ul item # seenAssignments) items)
              (\<lambda>projects. Inr (project # projects))))"

definition manifest_items :: "string \<Rightarrow> Manifest \<Rightarrow> Item list" where
  "manifest_items expectedKind m =
     (if expectedKind = ''lab''
      then [\<lparr>it_lab_code = mf_lab_code m, it_login = mf_login m, it_project_path = mf_project_path m,
             it_time_limit = None, it_time_limit_deprecated = None, it_top_n = None\<rparr>]
      else mf_items m)"

definition Analyze ::
  "(string \<Rightarrow> string) \<Rightarrow> (bytes \<Rightarrow> ZipFile list result) \<Rightarrow> ((string \<times> bytes) list \<Rightarrow> bytes result)
     \<Rightarrow> (bytes \<Rightarrow> Manifest result) \<Rightarrow> bytes \<Rightarrow> string \<Rightarrow> Limits \<Rightarrow> Analysis result" where
  "Analyze ul open_zip write_zip decode_manifest data expectedKind limits =
     (if int (length data) > MaxCompressedBytes limits then Inl (ErrText ''archive exceeds compressed size limit'')
      else
        bind_result (open_zip data) (\<lambda>entries.
        if entries = [] \<or> int (length entries) > MaxFiles limits then Inl (ErrText ''archive file count is outside limits'')
        else
          bind_result (scan_entries ul limits entries empty_scan) (\<lambda>sc.
          case map_of (sc_files sc) ManifestName of
            None \<Rightarrow> Inl (ErrText ''valid root manifest is required'')
          | Some mfile \<Rightarrow>
              if sint (zf_uncompressed mfile) > MaxManifestBytes limits then Inl (ErrText ''valid root manifest is required'')
              else
                (case readFile mfile (MaxManifestBytes limits) of
                   Inl e \<Rightarrow> Inl (ErrText ''manifest must be valid UTF-8 within size limit'')
                 | Inr manifestJSON \<Rightarrow>
                     if \<not> utf8_valid manifestJSON then Inl (ErrText ''manifest must be valid UTF-8 within size limit'')
                     else
                       bind_result (decode_manifest manifestJSON) (\<lambda>manifest.
                       if mf_schema_version manifest \<noteq> 1 \<or> mf_kind manifest \<noteq> expectedKind
                          \<or> (expectedKind \<noteq> ''group'' \<and> expectedKind \<noteq> ''lab'')
                       then Inl (ErrText ''manifest version or kind mismatch'')
                       else
                         (let items = manifest_items expectedKind manifest in
                          if items = [] \<or> length items > 10000 \<or> \<not> validCode (mf_group_code manifest)
                          then Inl (ErrText ''manifest group or item count is invalid'')
                          else
                            bind_result (scan_items ul write_zip (sc_files sc) [] [] items) (\<lambda>projects.
                            Inr \<lparr>an_manifest = manifest, an_manifest_json = manifestJSON, an_projects = projects,
                                 an_total = sc_total sc\<rparr>)))))))"


section \<open>Archives of single projects\<close>

definition deadlinePattern :: "string \<Rightarrow> bool" where
  "deadlinePattern v \<longleftrightarrow>
     has_prefix v ''deadline_'' \<and> drop 9 v \<noteq> '''' \<and> list_all is_digit (drop 9 v)"

definition commitSHAPattern :: "string \<Rightarrow> bool" where
  "commitSHAPattern v \<longleftrightarrow>
     (length v = 40 \<or> length v = 64) \<and> list_all (\<lambda>c. is_digit c \<or> (97 \<le> ord_of c \<and> ord_of c \<le> 102)) v"

record ProjectArchiveMetadata =
  md_group_code :: string
  md_lab_code :: string
  md_login :: string
  md_version_label :: string
  md_source :: string
  md_source_reference :: string
  md_commit_sha :: string

definition check_metadata :: "ProjectArchiveMetadata \<Rightarrow> unit result" where
  "check_metadata m =
     (if \<not> validCode (md_group_code m) then Inl (ErrText ''no valid group for the account'')
      else if \<not> validCode (md_lab_code m) \<or> \<not> deadlinePattern (md_version_label m)
      then Inl (ErrText ''invalid lab code or deadline branch'')
      else if trim_space (md_login m) = '''' \<or> length (md_login m) > 100 then Inl (ErrText ''invalid login'')
      else if md_source m \<noteq> ''student_zip'' \<and> md_source m \<noteq> ''teacher_import'' then Inl (ErrText ''invalid source'')
      else if length (md_source_reference m) = 0 \<or> length (md_source_reference m) > 255
        \<or> contains_any (md_source_reference m) [CHR 0x00, CHR 0x0D, CHR 0x0A]
      then Inl (ErrText ''invalid source reference'')
      else if md_commit_sha m \<noteq> '''' \<and> \<not> commitSHAPattern (md_commit_sha m) then Inl (ErrText ''invalid commit SHA'')
      else Inr ())"

text \<open>
  The loop over the directory of a project ZIP.  Unlike in \<open>Analyze\<close>, directories are skipped
  before the names are compared; every \<open>CMakeLists.txt\<close> is remembered.
\<close>

record project_scan =
  ps_case_names :: "(string \<times> string) list"
  ps_total :: int
  ps_files :: "(string \<times> ZipFile) list"
  ps_cmake :: "string list"

definition project_entry :: "(string \<Rightarrow> string) \<Rightarrow> Limits \<Rightarrow> ZipFile \<Rightarrow> project_scan \<Rightarrow> project_scan result" where
  "project_entry ul limits f ps =
     bind_result (safeName (zf_name f)) (\<lambda>name.
       if is_dir (zf_mode f) then Inr ps
       else if special_mode (zf_mode f) then Inl (ErrText ''unsupported ZIP entry type'')
       else
         bind_result (case map_of (ps_case_names ps) (to_lower ul name) of
            Some previous \<Rightarrow> if previous \<noteq> name then Inl (ErrText ''paths differ only in case'') else Inr ()
          | None \<Rightarrow> Inr ()) (\<lambda>_.
         if equal_fold_ascii (ext name) ''.zip'' then Inl (ErrText ''nested ZIP is forbidden'')
         else
           bind_result (size_checks limits f (ps_total ps)) (\<lambda>t.
           Inr \<lparr>ps_case_names = put (to_lower ul name) name (ps_case_names ps), ps_total = t,
                ps_files = put name f (ps_files ps),
                ps_cmake = (if base name = ''CMakeLists.txt'' then ps_cmake ps @ [name] else ps_cmake ps)\<rparr>)))"

fun project_entries :: "(string \<Rightarrow> string) \<Rightarrow> Limits \<Rightarrow> ZipFile list \<Rightarrow> project_scan \<Rightarrow> project_scan result" where
  "project_entries ul limits [] ps = Inr ps"
| "project_entries ul limits (f # fs) ps = bind_result (project_entry ul limits f ps) (project_entries ul limits fs)"

definition empty_project_scan :: project_scan where
  "empty_project_scan = \<lparr>ps_case_names = [], ps_total = 0, ps_files = [], ps_cmake = []\<rparr>"

definition depth :: "string \<Rightarrow> nat" where
  "depth name = length (filter (\<lambda>c. c = CHR ''/'') name)"

text \<open>The root of the project: the directory of the one \<open>CMakeLists.txt\<close> that lies highest.\<close>

definition project_root :: "string list \<Rightarrow> string result" where
  "project_root cmake =
     (case slice_stable (\<lambda>a b. depth a < depth b) cmake of
        [] \<Rightarrow> Inl (ErrText ''no root CMakeLists.txt'')
      | [a] \<Rightarrow> Inr (trim_suffix a ''CMakeLists.txt'')
      | a # b # _ \<Rightarrow>
          if depth b = depth a then Inl (ErrText ''several possible project roots'')
          else Inr (trim_suffix a ''CMakeLists.txt''))"

definition skipped :: "string \<Rightarrow> bool" where
  "skipped relative \<longleftrightarrow> relative = '''' \<or> has_prefix relative ''.git/'' \<or> has_prefix relative ''__MACOSX/''"

definition canonical_names :: "(string \<times> ZipFile) list \<Rightarrow> string \<Rightarrow> string list" where
  "canonical_names files rootPrefix =
     filter (\<lambda>name. \<not> skipped (trim_prefix name rootPrefix))
       (sort (filter (\<lambda>name. has_prefix name rootPrefix \<and> name \<noteq> ManifestName) (map fst files)))"

definition manifest_of :: "ProjectArchiveMetadata \<Rightarrow> Manifest" where
  "manifest_of m =
     \<lparr>mf_schema_version = 1, mf_kind = ''lab'', mf_group_code = md_group_code m, mf_lab_code = md_lab_code m,
      mf_login = md_login m, mf_project_path = ''project'', mf_version_label = md_version_label m,
      mf_source = md_source m, mf_source_reference = md_source_reference m, mf_commit_sha = md_commit_sha m,
      mf_time_limit = None, mf_time_limit_deprecated = None, mf_top_n = None, mf_items = []\<rparr>"

definition canonical_entries ::
  "(Manifest \<Rightarrow> bytes) \<Rightarrow> ProjectArchiveMetadata \<Rightarrow> (string \<times> ZipFile) list \<Rightarrow> string \<Rightarrow> (string \<times> bytes) list result" where
  "canonical_entries encode_manifest m files rootPrefix =
     bind_result (copy_entries files rootPrefix (canonical_names files rootPrefix)) (\<lambda>es.
     Inr ((ManifestName, encode_manifest (manifest_of m)) # map (\<lambda>(rel, content). (''project/'' @ rel, content)) es))"

definition prepareProjectArchive ::
  "(string \<Rightarrow> string) \<Rightarrow> (bytes \<Rightarrow> ZipFile list result) \<Rightarrow> ((string \<times> bytes) list \<Rightarrow> bytes result)
     \<Rightarrow> (bytes \<Rightarrow> Manifest result) \<Rightarrow> (Manifest \<Rightarrow> bytes) \<Rightarrow> bytes \<Rightarrow> ProjectArchiveMetadata \<Rightarrow> Limits
     \<Rightarrow> (bytes \<times> Analysis) result" where
  "prepareProjectArchive ul open_zip write_zip decode_manifest encode_manifest data m limits =
     bind_result (check_metadata m) (\<lambda>_.
     if int (length data) > MaxCompressedBytes limits then Inl (ErrText ''archive exceeds compressed size limit'')
     else
       bind_result (open_zip data) (\<lambda>entries.
       if entries = [] \<or> int (length entries) > MaxFiles limits then Inl (ErrText ''archive file count is outside limits'')
       else
         bind_result (project_entries ul limits entries empty_project_scan) (\<lambda>ps.
         bind_result (project_root (ps_cmake ps)) (\<lambda>rootPrefix.
         bind_result (canonical_entries encode_manifest m (ps_files ps) rootPrefix) (\<lambda>es.
         bind_result (write_zip es) (\<lambda>canonical.
         bind_result (Analyze ul open_zip write_zip decode_manifest canonical ''lab'' limits) (\<lambda>analysis.
         Inr (canonical, analysis))))))))"

text \<open>\<open>strings.LastIndex\<close>; \<open>None\<close> stands for -1.\<close>

fun last_index :: "string \<Rightarrow> string \<Rightarrow> nat option" where
  "last_index [] sub = (if sub = [] then Some 0 else None)"
| "last_index (c # s) sub =
     (case last_index s sub of
        Some i \<Rightarrow> Some (Suc i)
      | None \<Rightarrow> if has_prefix (c # s) sub then Some 0 else None)"

definition studentArchiveName :: "(string \<Rightarrow> string) \<Rightarrow> string \<Rightarrow> string \<Rightarrow> (string \<times> string) result" where
  "studentArchiveName ul filename login =
     (let b = base (map (\<lambda>c. if c = CHR 0x5C then CHR ''/'' else c) (trim_space filename)) in
      if length b = 0 \<or> length b > 255 \<or> contains_any b [CHR 0x00, CHR 0x0D, CHR 0x0A]
      then Inl (ErrText ''archive name is invalid or longer than 255'')
      else if \<not> has_suffix (to_lower ul b) ''.zip'' then Inl (ErrText ''the file must have the extension .zip'')
      else
        (let lowerStem = to_lower ul (take (length b - 4) b);
             marker = ''-'' @ to_lower ul login @ ''-deadline_''
         in case last_index lowerStem marker of
              None \<Rightarrow> Inl (ErrText ''archive name must name lab, login and deadline'')
            | Some position \<Rightarrow>
                if position = 0 then Inl (ErrText ''archive name must name lab, login and deadline'')
                else if position + 1 + length login + 1 > length lowerStem
                then Inl (ErrText ''panic: slice bounds out of range'')
                else
                  (let labCode = take position lowerStem;
                       versionLabel = drop (position + 1 + length login + 1) lowerStem
                   in if \<not> validCode labCode \<or> \<not> deadlinePattern versionLabel
                      then Inl (ErrText ''invalid lab code or deadline in the archive name'')
                      else Inr (labCode, versionLabel))))"

definition PrepareStudentArchive ::
  "(string \<Rightarrow> string) \<Rightarrow> (bytes \<Rightarrow> ZipFile list result) \<Rightarrow> ((string \<times> bytes) list \<Rightarrow> bytes result)
     \<Rightarrow> (bytes \<Rightarrow> Manifest result) \<Rightarrow> (Manifest \<Rightarrow> bytes) \<Rightarrow> bytes \<Rightarrow> string \<Rightarrow> string \<Rightarrow> string \<Rightarrow> Limits
     \<Rightarrow> (bytes \<times> Analysis) result" where
  "PrepareStudentArchive ul open_zip write_zip decode_manifest encode_manifest data filename login groupCode limits =
     bind_result (studentArchiveName ul filename login) (\<lambda>(labCode, versionLabel).
     prepareProjectArchive ul open_zip write_zip decode_manifest encode_manifest data
       \<lparr>md_group_code = groupCode, md_lab_code = labCode, md_login = login, md_version_label = versionLabel,
        md_source = ''student_zip'', md_source_reference = base filename, md_commit_sha = ''''\<rparr> limits)"

definition PrepareGitHubArchive ::
  "(string \<Rightarrow> string) \<Rightarrow> (bytes \<Rightarrow> ZipFile list result) \<Rightarrow> ((string \<times> bytes) list \<Rightarrow> bytes result)
     \<Rightarrow> (bytes \<Rightarrow> Manifest result) \<Rightarrow> (Manifest \<Rightarrow> bytes) \<Rightarrow> bytes \<Rightarrow> ProjectArchiveMetadata \<Rightarrow> Limits
     \<Rightarrow> (bytes \<times> Analysis) result" where
  "PrepareGitHubArchive ul open_zip write_zip decode_manifest encode_manifest data m limits =
     prepareProjectArchive ul open_zip write_zip decode_manifest encode_manifest data
       (m\<lparr>md_source := ''teacher_import''\<rparr>) limits"


section \<open>Safe names\<close>

lemma safeName_iff:
  "safeName name = Inr c \<longleftrightarrow>
     name \<noteq> '''' \<and> \<not> contains name [CHR 0x5C] \<and> \<not> has_prefix name ''/'' \<and> CHR 0x00 \<notin> set name \<and> utf8_valid name
   \<and> c = clean name \<and> clean name \<noteq> ''.'' \<and> clean name \<noteq> ''..'' \<and> \<not> has_prefix (clean name) ''../''
   \<and> clean name = trim_suffix name ''/''"
  unfolding safeName_def Let_def List.member_iff by (simp split: if_split) metis

lemma trim_suffix_cases: "trim_suffix s p = s \<or> s = trim_suffix s p @ p"
  by (auto simp: trim_suffix_def has_suffix_iff)

lemma split_byte_snoc: "split_byte c (s @ [c]) = split_byte c s @ [[]]"
  by (induction s) (auto split: list.splits)

lemma clean_elements_trailing:
  "clean_elements r acc (es @ [[]]) = clean_elements r acc es"
  by (induction r acc es rule: clean_elements.induct) (auto split: list.splits)

lemma clean_trailing_slash:
  assumes "s \<noteq> ''''" and "\<not> has_prefix s ''/''"
  shows "clean (s @ ''/'') = clean s"
proof -
  have "\<not> has_prefix (s @ ''/'') ''/''" using assms by (cases s) (auto simp: has_prefix_def)
  then show ?thesis
    using assms split_byte_snoc [of "CHR ''/''" s] clean_elements_trailing [of False "[]"]
    by (simp add: clean_def)
qed

lemma safeName_elements:
  assumes "safeName name = Inr c"
  shows "safe_elements c \<and> c = clean c \<and> (name = c \<or> name = c @ ''/'')"
proof -
  have c: "c = clean name" and "name \<noteq> ''''" "\<not> has_prefix name ''/''" "clean name \<noteq> ''.''" "clean name \<noteq> ''..''"
      "\<not> has_prefix (clean name) ''../''" "clean name = trim_suffix name ''/''"
    using iffD1 [OF safeName_iff assms] by blast+
  then have h: "name \<noteq> ''''" "\<not> has_prefix name ''/''" "c = clean name" "c \<noteq> ''.''" "c \<noteq> ''..''" "\<not> has_prefix c ''../''"
      "c = trim_suffix name ''/''"
    unfolding c by blast+
  have name: "name = c \<or> name = c @ ''/''" using trim_suffix_cases [of name "''/''"] h(7) by auto
  have "c \<noteq> ''''" using name h(1,2) by (auto simp: has_prefix_def)
  have np: "\<not> has_prefix c ''/''" using name h(2) \<open>c \<noteq> ''''\<close> by (cases c) (auto simp: has_prefix_def)
  have cl: "c = clean c"
    using name
  proof
    assume "name = c @ ''/''"
    then show ?thesis using h(3) clean_trailing_slash [OF \<open>c \<noteq> ''''\<close> np] by simp
  qed (use h(3) in simp)
  then have "safe_elements c" using np h(4,5,6) by (rule clean_relative_safe)
  then show ?thesis using cl name by blast
qed

lemma contains_single: "contains s [x] \<longleftrightarrow> x \<in> set s"
  by (induction s) (auto simp: has_prefix_def)

text \<open>
  a name of an archive entry that passes is a relative path without empty, \<open>.\<close> or \<open>..\<close>
  elements, backslashes or NUL, up to a trailing slash of a directory; and every such name passes.
\<close>

theorem safeName_exact:
  "safeName name = Inr c \<longleftrightarrow>
     (name = c \<or> name = c @ ''/'') \<and> safe_elements c \<and> CHR 0x5C \<notin> set c \<and> CHR 0x00 \<notin> set c \<and> utf8_valid name"
  (is "?l \<longleftrightarrow> ?r")
proof
  assume ?l
  then have "utf8_valid name" "CHR 0x5C \<notin> set name" "CHR 0x00 \<notin> set name"
    by (simp_all add: safeName_iff contains_single)
  moreover note safeName_elements [OF \<open>?l\<close>]
  moreover from this have "set c \<subseteq> set name" by auto
  ultimately show ?r by blast
next
  assume r: ?r
  then have safe: "list_all plain_element (split_byte (CHR ''/'') c)" by (simp add: safe_elements_def)
  have cl: "clean c = c" using r safe_elements_clean by blast
  have ne: "c \<noteq> ''''" using safe by (auto simp: plain_element_def)
  have np: "\<not> has_prefix c ''/''"
  proof
    assume "has_prefix c ''/''"
    then obtain t where "c = CHR ''/'' # t" by (auto simp: has_prefix_iff)
    with safe show False by (simp add: plain_element_def)
  qed
  have dots: "c \<noteq> ''.''" "c \<noteq> ''..''" using safe by (auto simp: plain_element_def)
  have up: "\<not> has_prefix c ''../''"
  proof
    assume "has_prefix c ''../''"
    then obtain t where "c = ''..'' @ CHR ''/'' # t" by (auto simp: has_prefix_iff)
    with safe show False using split_byte_append [of "CHR ''/''" "''..''" t] by (simp add: plain_element_def)
  qed
  have last: "\<not> has_suffix c ''/''"
  proof
    assume "has_suffix c ''/''"
    then obtain t where "c = t @ ''/''" by (auto simp: has_suffix_iff)
    with safe show False by (simp add: split_byte_snoc plain_element_def)
  qed
  have "\<not> has_prefix name ''/''" "name \<noteq> ''''" using r np ne by (cases c; auto simp: has_prefix_def)+
  moreover have "clean name = c" "trim_suffix name ''/'' = c"
    using r cl clean_trailing_slash [OF ne np] last by (auto simp: trim_suffix_def has_suffix_def)
  ultimately have "clean name = c" "trim_suffix name ''/'' = c" "\<not> has_prefix name ''/''" "name \<noteq> ''''" by blast+
  moreover have "set name \<subseteq> insert (CHR ''/'') (set c)" using r by auto
  then have "CHR 0x5C \<notin> set name" "CHR 0x00 \<notin> set name" using r by auto
  ultimately show ?l unfolding safeName_iff contains_single using r dots up by simp
qed


theorem safeName_exact_witness: "safeName ''src/main.cpp'' = Inr ''src/main.cpp'' \<and> isl (safeName ''../main.cpp'')"
proof -
  have "safe_elements ''src/main.cpp''" "utf8_valid ''src/main.cpp''" by code_simp+
  then have "safeName ''src/main.cpp'' = Inr ''src/main.cpp''" by (subst safeName_exact) simp
  moreover have "isl (safeName ''../main.cpp'')" by code_simp
  ultimately show ?thesis by blast
qed

section \<open>Limits\<close>

lemma sint_small:
  fixes w :: "64 word"
  assumes "uint w < 2 ^ 63"
  shows "sint w = uint w"
  using assms by (simp add: sint_uint signed_take_bit_int_eq_self order_trans [of _ 0])

lemma div_bound:
  fixes k c m :: int
  assumes "0 < c" and "k div c \<le> m"
  shows "k < (m + 1) * c"
proof -
  have "k div c * c + k mod c = k" "k mod c < c" using assms(1) by simp_all
  moreover have "(k div c + 1) * c = k div c * c + c" by (simp add: algebra_simps)
  ultimately have "k < (k div c + 1) * c" by linarith
  also have "\<dots> \<le> (m + 1) * c" using assms by (intro mult_right_mono) simp_all
  finally show ?thesis .
qed

lemma size_checks_iff:
  assumes "0 \<le> MaxUncompressedBytes limits" and "MaxUncompressedBytes limits < 2 ^ 63"
    and "size_checks limits f t = Inr t'"
  shows "t' = t + uint (zf_uncompressed f) \<and> t' \<le> MaxUncompressedBytes limits
    \<and> (uint (zf_compressed f) < 2 ^ 63 \<longrightarrow>
         uint (zf_uncompressed f) < (MaxRatio limits + 1) * max 1 (uint (zf_compressed f)))"
proof -
  have small: "uint (zf_uncompressed f) \<le> MaxUncompressedBytes limits"
    using assms(3) by (simp add: size_checks_def split: if_splits)
  then have u: "sint (zf_uncompressed f) = uint (zf_uncompressed f)"
    using assms(2) by (intro sint_small) simp
  have "uint (zf_uncompressed f) < (MaxRatio limits + 1) * max 1 (uint (zf_compressed f))" if "uint (zf_compressed f) < 2 ^ 63"
  proof -
    let ?c = "max 1 (uint (zf_compressed f))"
    have c: "(if sint (zf_compressed f) = 0 then 1 else sint (zf_compressed f)) = ?c"
    proof -
      have "0 \<le> uint (zf_compressed f)" by simp
      then have "uint (zf_compressed f) = 0 \<or> 1 \<le> uint (zf_compressed f)" by linarith
      then show ?thesis using sint_small [OF that] by auto
    qed
    have "uint (zf_uncompressed f) sdiv ?c = uint (zf_uncompressed f) div ?c"
    proof -
      have "uint (zf_uncompressed f) = 0 \<or> 0 < uint (zf_uncompressed f)"
        using uint_ge_0 [of "zf_uncompressed f"] by linarith
      then show ?thesis by (auto simp: signed_divide_int_eq_divide_int sgn_if)
    qed
    then have "uint (zf_uncompressed f) div ?c \<le> MaxRatio limits"
      using assms(3) unfolding size_checks_def Let_def c u by (simp split: if_splits)
    then show ?thesis by (rule div_bound [rotated]) simp
  qed
  then show ?thesis using assms(3) u by (auto simp: size_checks_def Let_def split: if_splits)
qed


text \<open>What the loop over the directory has established about the entries it has passed.\<close>

definition declared_size :: "ZipFile \<Rightarrow> int" where
  "declared_size f = (if is_dir (zf_mode f) then 0 else uint (zf_uncompressed f))"

definition entry_ok :: "Limits \<Rightarrow> ZipFile \<Rightarrow> bool" where
  "entry_ok limits f \<longleftrightarrow>
     (\<exists>n. safeName (zf_name f) = Inr n)
   \<and> (\<not> is_dir (zf_mode f) \<longrightarrow>
        \<not> special_mode (zf_mode f)
      \<and> (uint (zf_compressed f) < 2 ^ 63 \<longrightarrow>
           uint (zf_uncompressed f) < (MaxRatio limits + 1) * max 1 (uint (zf_compressed f))))"

definition entry_name :: "ZipFile \<Rightarrow> string" where
  "entry_name f = (case safeName (zf_name f) of Inr n \<Rightarrow> n | Inl e \<Rightarrow> '''')"

definition scanned :: "(string \<Rightarrow> string) \<Rightarrow> Limits \<Rightarrow> ZipFile list \<Rightarrow> scan \<Rightarrow> bool" where
  "scanned ul limits fs sc \<longleftrightarrow>
     list_all (entry_ok limits) fs
   \<and> sc_total sc = sum_list (map declared_size fs)
   \<and> (fs \<noteq> [] \<longrightarrow> sc_total sc \<le> MaxUncompressedBytes limits)
   \<and> (\<forall>f\<in>set fs. map_of (sc_case_names sc) (to_lower ul (entry_name f)) = Some (entry_name f))
   \<and> (\<forall>n f. map_of (sc_files sc) n = Some f \<longrightarrow> f \<in> set fs \<and> \<not> is_dir (zf_mode f) \<and> safeName (zf_name f) = Inr n)
   \<and> distinct (map fst (sc_files sc))"

lemma map_of_put: "map_of (put k v m) x = (if x = k then Some v else map_of m x)"
proof -
  have "map_of (filter (\<lambda>e. fst e \<noteq> k) m) x = map_of m x" if "x \<noteq> k"
    using that by (induction m) auto
  then show ?thesis by (simp add: put_def)
qed

lemma distinct_put: "distinct (map fst m) \<Longrightarrow> distinct (map fst (put k v m))"
  by (auto simp: put_def distinct_map_filter)

lemma scanned_step:
  assumes "0 \<le> MaxUncompressedBytes limits" and "MaxUncompressedBytes limits < 2 ^ 63"
    and "scanned ul limits fs sc" and "scan_entry ul limits f sc = Inr sc'"
  shows "scanned ul limits (fs @ [f]) sc'"
proof -
  let ?n = "entry_name f"
  obtain n where n: "safeName (zf_name f) = Inr n" using assms(4) by (auto simp: scan_entry_def)
  then have [simp]: "entry_name f = n" by (simp add: entry_name_def)
  let ?sc = "sc\<lparr>sc_case_names := put (to_lower ul n) n (sc_case_names sc)\<rparr>"
  have coll: "\<And>p. map_of (sc_case_names sc) (to_lower ul n) = Some p \<Longrightarrow> p = n"
    using assms(4) n by (auto simp: scan_entry_def split: option.splits if_splits)
  have names: "map_of (sc_case_names ?sc) (to_lower ul (entry_name g)) = Some (entry_name g)" if "g \<in> set (fs @ [f])" for g
    using that assms(3) coll by (auto simp: scanned_def map_of_put)
  have rest: "(if special_mode (zf_mode f) \<and> \<not> is_dir (zf_mode f) then Inl (ErrText ''unsupported ZIP entry type'')
       else if is_dir (zf_mode f) then Inr ?sc
       else if equal_fold_ascii (ext n) ''.zip'' then Inl (ErrText ''nested ZIP is forbidden'')
       else bind_result (size_checks limits f (sc_total ?sc)) (\<lambda>t.
         Inr (?sc\<lparr>sc_total := t, sc_files := put n f (sc_files ?sc)\<rparr>))) = Inr sc'"
    using assms(4) n by (auto simp: scan_entry_def Let_def split: option.splits if_splits)
  show ?thesis
  proof (cases "is_dir (zf_mode f)")
    case True
    then have "sc' = ?sc" using rest by simp
    then show ?thesis
      using assms(1,3) names n True by (cases "fs = []") (auto simp: scanned_def entry_ok_def declared_size_def)
  next
    case False
    then obtain t where t: "size_checks limits f (sc_total sc) = Inr t" "\<not> special_mode (zf_mode f)"
        "sc' = ?sc\<lparr>sc_total := t, sc_files := put n f (sc_files sc)\<rparr>"
      using rest by (auto split: if_splits)
    note sz = size_checks_iff [OF assms(1,2) t(1)]
    have "map_of (sc_files sc') m = Some g \<Longrightarrow> g \<in> set (fs @ [f]) \<and> \<not> is_dir (zf_mode g) \<and> safeName (zf_name g) = Inr m" for m g
      using assms(3) n False by (auto simp: t(3) map_of_put scanned_def split: if_splits)
    moreover have "distinct (map fst (sc_files sc'))" using assms(3) by (simp add: t(3) scanned_def distinct_put)
    moreover have "entry_ok limits f" using n False t(2) sz by (simp add: entry_ok_def)
    ultimately show ?thesis
      using assms(3) names sz False unfolding scanned_def by (simp add: t(3) declared_size_def)
  qed
qed

lemma scanned_entries:
  assumes "0 \<le> MaxUncompressedBytes limits" and "MaxUncompressedBytes limits < 2 ^ 63"
  shows "scanned ul limits fs sc \<Longrightarrow> scan_entries ul limits gs sc = Inr sc' \<Longrightarrow> scanned ul limits (fs @ gs) sc'"
proof (induction gs arbitrary: fs sc)
  case Nil
  then show ?case by simp
next
  case (Cons g gs)
  then obtain sc1 where sc1: "scan_entry ul limits g sc = Inr sc1" "scan_entries ul limits gs sc1 = Inr sc'" by auto
  have "scanned ul limits (fs @ [g]) sc1" by (rule scanned_step [OF assms Cons.prems(1) sc1(1)])
  from Cons.IH [OF this sc1(2)] show ?case by simp
qed

lemma scanned_empty: "scanned ul limits [] empty_scan"
  by (simp add: scanned_def empty_scan_def)

lemma Analyze_parts:
  assumes "Analyze ul open_zip write_zip decode_manifest data expectedKind limits = Inr an"
  obtains entries sc mfile where "int (length data) \<le> MaxCompressedBytes limits" and "open_zip data = Inr entries"
    and "entries \<noteq> []" and "int (length entries) \<le> MaxFiles limits" and "scan_entries ul limits entries empty_scan = Inr sc"
    and "map_of (sc_files sc) ManifestName = Some mfile" and "decode_manifest (an_manifest_json an) = Inr (an_manifest an)"
    and "expectedKind = ''group'' \<or> expectedKind = ''lab''" and "mf_kind (an_manifest an) = expectedKind"
    and "validCode (mf_group_code (an_manifest an))" and "an_total an = sc_total sc"
    and "scan_items ul write_zip (sc_files sc) [] [] (manifest_items expectedKind (an_manifest an)) = Inr (an_projects an)"
    and "manifest_items expectedKind (an_manifest an) \<noteq> []" and "length (manifest_items expectedKind (an_manifest an)) \<le> 10000"
proof -
  have data: "\<not> int (length data) > MaxCompressedBytes limits" using assms by (simp add: Analyze_def split: if_splits)
  obtain entries where e: "open_zip data = Inr entries" using assms data by (auto simp: Analyze_def)
  have ne: "\<not> (entries = [] \<or> int (length entries) > MaxFiles limits)"
    using assms data e by (simp add: Analyze_def split: if_splits)
  obtain sc where sc: "scan_entries ul limits entries empty_scan = Inr sc"
    using assms data e ne by (auto simp: Analyze_def)
  obtain mfile where mf: "map_of (sc_files sc) ManifestName = Some mfile"
    using assms data e ne sc by (cases "map_of (sc_files sc) ManifestName") (auto simp: Analyze_def)
  obtain mj where mj: "readFile mfile (MaxManifestBytes limits) = Inr mj"
    using assms data e ne sc mf by (cases "readFile mfile (MaxManifestBytes limits)") (auto simp: Analyze_def split: if_splits)
  show thesis
    by (rule that [OF _ e _ _ sc mf])
      (use assms data e ne sc mf mj in \<open>auto simp: Analyze_def Let_def split: if_splits\<close>)
qed



section \<open>Projects\<close>

text \<open>The entries that a project archive gets.\<close>

lemma copy_entries_iff:
  "copy_entries files prefix names = Inr es \<longleftrightarrow>
     list_all2 (\<lambda>name e. \<exists>f content. map_of files name = Some f \<and> zf_content f = Some content
        \<and> e = (trim_prefix name prefix, content)) names es"
  by (induction names arbitrary: es) (auto simp: list_all2_Cons1 split: option.splits)

lemma set_project_names:
  "name \<in> set (project_names files root) \<longleftrightarrow>
     name \<in> fst ` set files \<and> (\<exists>rel. rel \<noteq> '''' \<and> name = root @ ''/'' @ rel)"
  by (auto simp: project_names_def has_prefix_iff trim_prefix_def)

lemma safe_elements_append:
  "safe_elements (a @ ''/'' @ b) \<longleftrightarrow> safe_elements a \<and> safe_elements b"
proof -
  have "split_byte c (a @ c # b) = split_byte c a @ split_byte c b" for c
    by (induction a) (auto split: list.splits)
  then show ?thesis by (simp add: safe_elements_def)
qed

lemma append_le_cancel: "p @ a \<le> p @ b \<longleftrightarrow> a \<le> (b :: string)"
  by (induction p) auto

lemma relative_names:
  assumes "distinct (map fst files)"
  obtains rels where "sort (project_names files root) = map (\<lambda>r. root @ ''/'' @ r) rels" and "sorted rels" and "distinct rels"
    and "\<And>r. r \<in> set rels \<longleftrightarrow> r \<noteq> '''' \<and> root @ ''/'' @ r \<in> fst ` set files"
proof -
  let ?rels = "map (\<lambda>n. trim_prefix n (root @ ''/'')) (sort (project_names files root))"
  have whole: "root @ ''/'' @ trim_prefix n (root @ ''/'') = n" if "n \<in> set (project_names files root)" for n
    using that by (auto simp: set_project_names trim_prefix_def has_prefix_iff)
  then have eq: "sort (project_names files root) = map (\<lambda>r. root @ ''/'' @ r) ?rels"
    unfolding map_map by (intro map_idI [symmetric]) simp
  have "sorted (map (\<lambda>r. root @ ''/'' @ r) ?rels)" unfolding eq [symmetric] by simp
  then have so: "sorted ?rels"
    using append_le_cancel [of "root @ ''/''"] by (simp add: sorted_wrt_map)
  have "distinct (map (\<lambda>r. root @ ''/'' @ r) ?rels)"
    unfolding eq [symmetric] using assms by (simp add: project_names_def)
  then have di: "distinct ?rels" using distinct_map by blast
  have "r \<in> set ?rels \<longleftrightarrow> r \<noteq> '''' \<and> root @ ''/'' @ r \<in> fst ` set files" for r
  proof -
    have "r \<in> set ?rels \<longleftrightarrow> root @ ''/'' @ r \<in> set (sort (project_names files root))"
      by (subst (2) eq) auto
    then show ?thesis by (auto simp: set_project_names)
  qed
  then show thesis using that [OF eq so di] by blast
qed

text \<open>
  the normalized archive of a project holds exactly the files below the project's root, each
  once, under its path relative to the root and with its bytes unchanged; the paths are safe and
  sorted, and among them are a \<open>CMakeLists.txt\<close> at the top and a C or C++ source.
\<close>

theorem normalizeProject_exact:
  assumes "scanned ul limits entries sc" and "normalizeProject ul write_zip (sc_files sc) root item = Inr p"
  shows "\<exists>es. write_zip es = Inr (pr_archive p)
     \<and> sorted (map fst es) \<and> distinct (map fst es) \<and> pr_file_count p = length es
     \<and> (\<forall>rel content. (rel, content) \<in> set es \<longrightarrow>
          (\<exists>f. map_of (sc_files sc) (root @ ''/'' @ rel) = Some f \<and> zf_content f = Some content) \<and> safe_elements rel)
     \<and> (\<forall>rel. rel \<noteq> '''' \<and> map_of (sc_files sc) (root @ ''/'' @ rel) \<noteq> None \<longrightarrow> rel \<in> fst ` set es)
     \<and> ''CMakeLists.txt'' \<in> fst ` set es \<and> (\<exists>rel\<in>fst ` set es. source_suffix ul rel)"
proof -
  let ?prefix = "root @ ''/''"
  let ?names = "project_names (sc_files sc) root"
  have cm: "list_ex (\<lambda>name. trim_prefix name ?prefix = ''CMakeLists.txt'') ?names"
    and src: "list_ex (\<lambda>name. source_suffix ul (trim_prefix name ?prefix)) ?names"
    using assms(2) by (auto simp: normalizeProject_def Let_def split: if_splits)
  obtain es where es: "copy_entries (sc_files sc) ?prefix (sort ?names) = Inr es" "write_zip es = Inr (pr_archive p)"
      "pr_file_count p = length ?names"
    using assms(2) cm src by (auto simp: normalizeProject_def Let_def)
  have di: "distinct (map fst (sc_files sc))" using assms(1) by (simp add: scanned_def)
  obtain rels where rels: "sort ?names = map (\<lambda>r. root @ ''/'' @ r) rels" "sorted rels" "distinct rels"
      "\<And>r. r \<in> set rels \<longleftrightarrow> r \<noteq> '''' \<and> root @ ''/'' @ r \<in> fst ` set (sc_files sc)"
    by (rule relative_names [OF di, of root]) blast
  have cut: "trim_prefix (root @ ''/'' @ r) ?prefix = r" for r by (simp add: trim_prefix_def has_prefix_def)
  have l2: "list_all2 (\<lambda>r e. \<exists>f content. map_of (sc_files sc) (root @ ''/'' @ r) = Some f \<and> zf_content f = Some content
        \<and> e = (r, content)) rels es"
    using es(1) unfolding copy_entries_iff rels(1) list_all2_map1 cut .
  then have fst_es: "map fst es = rels" by (induction rule: list_all2_induct) auto
  have "length ?names = length rels" using arg_cong [OF rels(1), of length] by simp
  then have "pr_file_count p = length es" using es(3) list_all2_lengthD [OF l2] by simp
  moreover have "(\<exists>f. map_of (sc_files sc) (root @ ''/'' @ rel) = Some f \<and> zf_content f = Some content) \<and> safe_elements rel"
    if e: "(rel, content) \<in> set es" for rel content
  proof -
    obtain f where f: "map_of (sc_files sc) (root @ ''/'' @ rel) = Some f" "zf_content f = Some content"
      using list_all2_memD [OF l2 e] by auto
    then have "safeName (zf_name f) = Inr (root @ ''/'' @ rel)" using assms(1) unfolding scanned_def by blast
    then have "safe_elements (root @ ''/'' @ rel)" using safeName_elements by blast
    then show ?thesis using f safe_elements_append by blast
  qed
  moreover have "rel \<in> fst ` set es" if "rel \<noteq> ''''" "map_of (sc_files sc) (root @ ''/'' @ rel) \<noteq> None" for rel
  proof -
    have "root @ ''/'' @ rel \<in> fst ` set (sc_files sc)" using that(2) by (simp add: map_of_eq_None_iff)
    then have "rel \<in> set (map fst es)" using rels(4) that(1) fst_es by simp
    then show ?thesis by simp
  qed
  moreover have mem: "trim_prefix n ?prefix \<in> fst ` set es" if "n \<in> set ?names" for n
  proof -
    have "n \<in> set (sort ?names)" using that by simp
    then obtain r where "r \<in> set rels" "n = root @ ''/'' @ r" unfolding rels(1) by auto
    then show ?thesis using cut fst_es by (metis list.set_map)
  qed
  moreover have "''CMakeLists.txt'' \<in> fst ` set es" using cm mem unfolding list_ex_iff by metis
  moreover have "\<exists>rel\<in>fst ` set es. source_suffix ul rel" using src mem unfolding list_ex_iff by blast
  ultimately show ?thesis
    using es(2) rels(2,3) unfolding fst_es [symmetric] by (intro exI [of _ es]) blast
qed


text \<open>Folding a path folds its parts: the slash is a letter of its own that folding keeps.\<close>

definition folds_parts :: "(string \<Rightarrow> string) \<Rightarrow> bool" where
  "folds_parts ul \<longleftrightarrow> (\<forall>a b. to_lower ul (a @ ''/'' @ b) = to_lower ul a @ ''/'' @ to_lower ul b)"

definition item_root :: "Item \<Rightarrow> string" where
  "item_root item = (case safeName (trim_suffix (it_project_path item) ''/'') of Inr r \<Rightarrow> r | Inl e \<Rightarrow> '''')"

lemma scan_items_Cons:
  assumes "scan_items ul write_zip files seenP seenA (item # items) = Inr ps"
  obtains p ps' where "ps = p # ps'" and "safeName (trim_suffix (it_project_path item) ''/'') = Inr (item_root item)"
    and "validCode (it_lab_code item)" and "validLogin (it_login item)"
    and "to_lower ul (item_root item) \<notin> set seenP" and "assignment_key ul item \<notin> set seenA"
    and "\<forall>q\<in>set seenP. \<not> overlapping (to_lower ul (item_root item)) q"
    and "normalizeProject ul write_zip files (item_root item) item = Inr p"
    and "scan_items ul write_zip files (to_lower ul (item_root item) # seenP) (assignment_key ul item # seenA) items = Inr ps'"
proof -
  obtain root where root: "safeName (trim_suffix (it_project_path item) ''/'') = Inr root"
    using assms by (auto split: sum.splits)
  then have [simp]: "item_root item = root" by (simp add: item_root_def)
  show thesis
    using assms root that by (auto simp: List.member_iff list_ex_iff split: if_splits)
qed

lemma scan_items_apart:
  assumes "scan_items ul write_zip files seenP seenA items = Inr ps"
  shows "sorted_wrt (\<lambda>a b. \<not> overlapping (to_lower ul (item_root b)) (to_lower ul (item_root a))
            \<and> assignment_key ul a \<noteq> assignment_key ul b) items
     \<and> (\<forall>item\<in>set items. (\<forall>q\<in>set seenP. \<not> overlapping (to_lower ul (item_root item)) q) \<and> assignment_key ul item \<notin> set seenA)
     \<and> list_all2 (\<lambda>item p. normalizeProject ul write_zip files (item_root item) item = Inr p
            \<and> validCode (it_lab_code item) \<and> validLogin (it_login item)) items ps"
  using assms
proof (induction items arbitrary: seenP seenA ps)
  case Nil
  then show ?case by simp
next
  case (Cons item items)
  from Cons.prems show ?case
  proof (cases rule: scan_items_Cons)
    case (1 p ps')
    from Cons.IH [OF 1(9)] show ?thesis using 1 by auto
  qed
qed

lemma overlapping_fold:
  assumes "folds_parts ul" and "root1 @ ''/'' @ r1 = root2 @ ''/'' @ r2"
  shows "overlapping (to_lower ul root1) (to_lower ul root2)"
proof -
  have "(root1 @ ''/'') @ r1 = (root2 @ ''/'') @ r2" using assms(2) by simp
  then obtain u where "root1 @ ''/'' = (root2 @ ''/'') @ u \<or> (root1 @ ''/'') @ u = root2 @ ''/''"
    unfolding append_eq_append_conv2 [of "root1 @ ''/''"] by blast
  then consider "root1 @ ''/'' = root2 @ ''/'' @ u" | "root2 @ ''/'' = root1 @ ''/'' @ u"
    unfolding append_assoc by metis
  then show ?thesis
  proof cases
    case 1
    then have "to_lower ul root1 @ ''/'' @ to_lower ul '''' = to_lower ul root2 @ ''/'' @ to_lower ul u"
      using assms(1) unfolding folds_parts_def by (metis append_Nil2)
    then show ?thesis by (auto simp: overlapping_def has_prefix_iff to_lower_def ascii_def)
  next
    case 2
    then have "to_lower ul root2 @ ''/'' @ to_lower ul '''' = to_lower ul root1 @ ''/'' @ to_lower ul u"
      using assms(1) unfolding folds_parts_def by (metis append_Nil2)
    then show ?thesis by (auto simp: overlapping_def has_prefix_iff to_lower_def ascii_def)
  qed
qed

lemma normalizeProject_item: "normalizeProject ul write_zip files root item = Inr p \<Longrightarrow> pr_item p = item"
  by (auto simp: normalizeProject_def Let_def split: if_splits)

text \<open>
  C13: the projects of an accepted archive do not share files and do not repeat an assignment.
  No file of the archive lies in two projects, no student has two projects for the same lab,
  whatever the case of the login, and there is one project per item with valid codes and logins.
\<close>

theorem projects_disjoint:
  assumes "folds_parts ul" and "scan_items ul write_zip files [] [] items = Inr ps"
  shows "length ps = length items
     \<and> (\<forall>i j. i < j \<and> j < length items \<longrightarrow>
          set (project_names files (item_root (items ! i))) \<inter> set (project_names files (item_root (items ! j))) = {}
        \<and> (to_lower ul (it_login (items ! i)), it_lab_code (items ! i)) \<noteq> (to_lower ul (it_login (items ! j)), it_lab_code (items ! j)))
     \<and> (\<forall>i<length items. pr_item (ps ! i) = items ! i \<and> validCode (it_lab_code (items ! i)) \<and> validLogin (it_login (items ! i)))"
proof -
  note ap = scan_items_apart [OF assms(2)]
  have two: "set (project_names files (item_root (items ! i))) \<inter> set (project_names files (item_root (items ! j))) = {}"
    "(to_lower ul (it_login (items ! i)), it_lab_code (items ! i)) \<noteq> (to_lower ul (it_login (items ! j)), it_lab_code (items ! j))"
    if ij: "i < j" "j < length items" for i j
  proof -
    have no: "\<not> overlapping (to_lower ul (item_root (items ! j))) (to_lower ul (item_root (items ! i)))"
      and key: "assignment_key ul (items ! i) \<noteq> assignment_key ul (items ! j)"
      using ap ij by (auto simp: sorted_wrt_iff_nth_less)
    show "set (project_names files (item_root (items ! i))) \<inter> set (project_names files (item_root (items ! j))) = {}"
      using no overlapping_fold [OF assms(1)] unfolding set_project_names disjoint_iff by metis
    show "(to_lower ul (it_login (items ! i)), it_lab_code (items ! i)) \<noteq> (to_lower ul (it_login (items ! j)), it_lab_code (items ! j))"
      using key by (auto simp: assignment_key_def)
  qed
  moreover have "pr_item (ps ! i) = items ! i \<and> validCode (it_lab_code (items ! i)) \<and> validLogin (it_login (items ! i))"
    if "i < length items" for i
    using ap that normalizeProject_item by (auto simp: list_all2_conv_all_nth)
  ultimately show ?thesis using ap by (auto dest: list_all2_lengthD)
qed


section \<open>An example archive\<close>

definition zip_limits :: Limits where
  "zip_limits =
     \<lparr>MaxCompressedBytes = 100, MaxUncompressedBytes = 500, MaxFiles = 10, MaxRatio = 100, MaxManifestBytes = 20\<rparr>"

definition zip_entry :: "string \<Rightarrow> bytes \<Rightarrow> ZipFile" where
  "zip_entry name content =
     \<lparr>zf_name = name, zf_mode = 384, zf_uncompressed = of_nat (length content), zf_compressed = of_nat (length content),
      zf_content = Some content\<rparr>"

definition zip_entries :: "ZipFile list" where
  "zip_entries =
     [zip_entry ''cppdefense-manifest.json'' ''{}'', zip_entry ''lab/CMakeLists.txt'' ''project(x)'',
      zip_entry ''lab/src/main.cpp'' ''int main(){}'']"

definition zip_manifest :: Manifest where
  "zip_manifest =
     \<lparr>mf_schema_version = 1, mf_kind = ''lab'', mf_group_code = ''g1'', mf_lab_code = ''lab1'', mf_login = ''Octo-Cat'',
      mf_project_path = ''lab/'', mf_version_label = '''', mf_source = '''', mf_source_reference = '''', mf_commit_sha = '''',
      mf_time_limit = None, mf_time_limit_deprecated = None, mf_top_n = None, mf_items = []\<rparr>"

definition zip_files :: "(string \<times> ZipFile) list" where
  "zip_files =
     [(''lab/src/main.cpp'', zip_entry ''lab/src/main.cpp'' ''int main(){}''),
      (''lab/CMakeLists.txt'', zip_entry ''lab/CMakeLists.txt'' ''project(x)''),
      (''cppdefense-manifest.json'', zip_entry ''cppdefense-manifest.json'' ''{}'')]"

abbreviation lower_all :: "string \<Rightarrow> string" where
  "lower_all \<equiv> map lower_char"

lemma lower_all_folds: "folds_parts lower_all"
  by (auto simp: folds_parts_def to_lower_def lower_char_def)

lemma zip_analysis:
  "\<not> isl (Analyze lower_all (\<lambda>_. Inr zip_entries) (\<lambda>es. Inr (concat (map fst es))) (\<lambda>_. Inr zip_manifest) ''zip'' ''lab'' zip_limits)"
  by code_simp


lemma zip_scan: "\<exists>sc. scan_entries lower_all zip_limits zip_entries empty_scan = Inr sc \<and> sc_files sc = zip_files"
proof -
  have "map_sum id sc_files (scan_entries lower_all zip_limits zip_entries empty_scan) = Inr zip_files" by code_simp
  then show ?thesis by (cases "scan_entries lower_all zip_limits zip_entries empty_scan") auto
qed

definition zip_item :: Item where
  "zip_item = hd (manifest_items ''lab'' zip_manifest)"

theorem normalizeProject_exact_witness:
  "\<exists>p. normalizeProject lower_all (\<lambda>es. Inr (concat (map fst es))) zip_files ''lab'' zip_item = Inr p
      \<and> (\<exists>es :: (string \<times> bytes) list. concat (map fst es) = pr_archive p \<and> ''CMakeLists.txt'' \<in> fst ` set es)"
proof -
  obtain sc where sc: "scan_entries lower_all zip_limits zip_entries empty_scan = Inr sc" "sc_files sc = zip_files"
    using zip_scan by blast
  have ok: "scanned lower_all zip_limits zip_entries sc"
    using scanned_entries [OF _ _ scanned_empty sc(1)] by (simp add: zip_limits_def)
  have "\<not> isl (normalizeProject lower_all (\<lambda>es. Inr (concat (map fst es))) zip_files ''lab'' zip_item)" by code_simp
  then obtain p where p: "normalizeProject lower_all (\<lambda>es. Inr (concat (map fst es))) zip_files ''lab'' zip_item = Inr p"
    by (metis sum.collapse(2))
  then have "normalizeProject lower_all (\<lambda>es. Inr (concat (map fst es))) (sc_files sc) ''lab'' zip_item = Inr p"
    by (simp only: sc(2))
  from normalizeProject_exact [OF ok this]
  have "\<exists>es :: (string \<times> bytes) list. Inr (concat (map fst es)) = (Inr (pr_archive p) :: bytes result) \<and> ''CMakeLists.txt'' \<in> fst ` set es"
    by (elim exE conjE) (rule exI, rule conjI, assumption, assumption)
  then obtain es :: "(string \<times> bytes) list" where "Inr (concat (map fst es)) = (Inr (pr_archive p) :: bytes result)"
      "''CMakeLists.txt'' \<in> fst ` set es" by blast
  then have "concat (map fst es) = pr_archive p \<and> ''CMakeLists.txt'' \<in> fst ` set es" by simp
  then show ?thesis using p by blast
qed

theorem projects_disjoint_witness:
  "\<exists>ps. scan_items lower_all (\<lambda>es. Inr (concat (map fst es))) zip_files [] [] [zip_item] = Inr ps
      \<and> length ps = 1 \<and> pr_item (ps ! 0) = zip_item"
proof -
  have "\<not> isl (scan_items lower_all (\<lambda>es. Inr (concat (map fst es))) zip_files [] [] [zip_item])" by code_simp
  then obtain ps where ps: "scan_items lower_all (\<lambda>es. Inr (concat (map fst es))) zip_files [] [] [zip_item] = Inr ps"
    by (metis sum.collapse(2))
  from projects_disjoint [OF lower_all_folds ps] ps show ?thesis by auto
qed

end
