(* ===== verification/Roster.thy ===== *)
theory Roster
  imports Importer
begin

text \<open>
  The roster document of \<open>application/roster/roster.go\<close>: a teacher uploads the organization, its
  groups and their students as JSON, and \<open>Parse\<close> normalizes and checks it.

  The JSON decoder is the parameter \<open>decode\<close>: the document it reads from the start of the data,
  with unknown fields refused, and whether nothing but white space follows it.  The loops over the
  groups and students are structural recursions that carry the maps \<open>seenGroups\<close> and
  \<open>seenStudents\<close>.  Errors carry an English text in place of the Russian one of the source.
\<close>

section \<open>The document\<close>

record Organization =
  ro_github_login :: string
  ro_name :: string

record RosterStudent =
  rst_full_name :: string
  rst_github_login :: string

record RosterGroup =
  rg_code :: string
  rg_name :: string
  rg_students :: "RosterStudent list"

record Document =
  rd_schema_version :: int
  rd_organization :: Organization
  rd_groups :: "RosterGroup list"

text \<open>
  The regular expressions: an alphanumeric byte, and possibly up to \<open>n\<close> alphanumeric bytes or
  hyphens followed by an alphanumeric byte.
\<close>

definition inner_hyphens :: "(char \<Rightarrow> bool) \<Rightarrow> nat \<Rightarrow> string \<Rightarrow> bool" where
  "inner_hyphens alnum n v \<longleftrightarrow>
     (case v of
        [] \<Rightarrow> False
      | c # rest \<Rightarrow>
          alnum c
        \<and> (rest = '''' \<or> length (butlast rest) \<le> n
             \<and> list_all (\<lambda>d. alnum d \<or> d = CHR ''-'') (butlast rest) \<and> alnum (last rest)))"

definition githubLoginPattern :: "string \<Rightarrow> bool" where
  "githubLoginPattern v \<longleftrightarrow> inner_hyphens (\<lambda>c. is_upper c \<or> is_lower c \<or> is_digit c) 37 v"

definition codePattern :: "string \<Rightarrow> bool" where
  "codePattern v \<longleftrightarrow> inner_hyphens (\<lambda>c. is_lower c \<or> is_digit c) 62 v"

definition validGitHubLogin :: "string \<Rightarrow> bool" where
  "validGitHubLogin v \<longleftrightarrow> githubLoginPattern v \<and> \<not> contains v ''--''"

section \<open>Parsing\<close>

definition normal_student :: "(string \<Rightarrow> string) \<Rightarrow> RosterStudent \<Rightarrow> RosterStudent" where
  "normal_student ul st =
     \<lparr>rst_full_name = trim_space (rst_full_name st),
      rst_github_login = to_lower ul (trim_space (rst_github_login st))\<rparr>"

fun parse_students ::
  "(string \<Rightarrow> string) \<Rightarrow> string \<Rightarrow> (string \<times> string) list \<Rightarrow> RosterStudent list
   \<Rightarrow> (RosterStudent list \<times> (string \<times> string) list) result" where
  "parse_students ul code seen [] = Inr ([], seen)"
| "parse_students ul code seen (st # sts) =
     (let student = normal_student ul st in
      if rst_full_name student = '''' \<or> rune_count (rst_full_name student) > 200
         \<or> \<not> validGitHubLogin (rst_github_login student)
      then Inl (ErrText ''student has an invalid full_name or github_login'')
      else if map_of seen (rst_github_login student) \<noteq> None
      then Inl (ErrText ''GitHub login is repeated'')
      else bind_result (parse_students ul code ((rst_github_login student, code) # seen) sts) (\<lambda>(rest, seen').
        Inr (student # rest, seen')))"

fun parse_groups ::
  "(string \<Rightarrow> string) \<Rightarrow> string list \<Rightarrow> (string \<times> string) list \<Rightarrow> RosterGroup list \<Rightarrow> RosterGroup list result" where
  "parse_groups ul seenGroups seenStudents [] = Inr []"
| "parse_groups ul seenGroups seenStudents (g # gs) =
     (let code = to_lower ul (trim_space (rg_code g)); name = trim_space (rg_name g) in
      if \<not> codePattern code \<or> name = '''' then Inl (ErrText ''group has an invalid code or name'')
      else if List.member seenGroups code then Inl (ErrText ''group is repeated'')
      else if length (rg_students g) > 10000 then Inl (ErrText ''too many students in the group'')
      else bind_result (parse_students ul code seenStudents (rg_students g)) (\<lambda>(students, seen).
        bind_result (parse_groups ul (code # seenGroups) seen gs) (\<lambda>rest.
          Inr (\<lparr>rg_code = code, rg_name = name, rg_students = students\<rparr> # rest))))"

definition Parse ::
  "(bytes \<Rightarrow> (Document \<times> bool) result) \<Rightarrow> (string \<Rightarrow> string) \<Rightarrow> bytes \<Rightarrow> Document result" where
  "Parse decode ul data =
     (case decode data of
        Inl e \<Rightarrow> Inl (ErrText ''JSON does not match the format'')
      | Inr (document, eof) \<Rightarrow>
          if \<not> eof then Inl (ErrText ''extra data after the JSON document'')
          else if rd_schema_version document \<noteq> 1 then Inl (ErrText ''only schema_version=1 is supported'')
          else
            (let organization =
                   \<lparr>ro_github_login = to_lower ul (trim_space (ro_github_login (rd_organization document))),
                    ro_name = trim_space (ro_name (rd_organization document))\<rparr> in
             if \<not> validGitHubLogin (ro_github_login organization) \<or> ro_name organization = ''''
             then Inl (ErrText ''organization needs a valid github_login and name'')
             else if rd_groups document = [] \<or> length (rd_groups document) > 200
             then Inl (ErrText ''groups must hold 1 to 200 groups'')
             else bind_result (parse_groups ul [] [] (rd_groups document)) (\<lambda>groups.
               Inr (document\<lparr>rd_organization := organization, rd_groups := groups\<rparr>))))"

section \<open>What is accepted\<close>

lemma inner_hyphens_iff:
  "inner_hyphens alnum n v \<longleftrightarrow>
     v \<noteq> '''' \<and> length v \<le> n + 2 \<and> alnum (hd v) \<and> alnum (last v)
   \<and> list_all (\<lambda>c. alnum c \<or> c = CHR ''-'') v"
proof (cases v)
  case (Cons c rest)
  show ?thesis
  proof (cases rest rule: rev_cases)
    case (snoc mid d)
    with Cons show ?thesis by (auto simp: inner_hyphens_def)
  qed (use Cons in \<open>auto simp: inner_hyphens_def\<close>)
qed (simp add: inner_hyphens_def)

lemma codePattern_validCode: "codePattern v = validCode v"
proof (cases "v = ''''")
  case False
  have hyphen: "\<not> is_lower (CHR ''-'')" "\<not> is_digit (CHR ''-'')"
    by (simp_all add: is_lower_def is_digit_def)
  show ?thesis
  proof (cases "list_all (\<lambda>c. is_lower c \<or> is_digit c \<or> c = CHR ''-'') v")
    case True
    then have "\<forall>c\<in>set v. is_lower c \<or> is_digit c \<longleftrightarrow> c \<noteq> CHR ''-''"
      using hyphen by (auto simp: list_all_iff)
    then have ends: "is_lower (hd v) \<or> is_digit (hd v) \<longleftrightarrow> hd v \<noteq> CHR ''-''"
      "is_lower (last v) \<or> is_digit (last v) \<longleftrightarrow> last v \<noteq> CHR ''-''"
      using False by simp_all
    have "length v \<le> 62 + 2 \<longleftrightarrow> \<not> length v > 64" by linarith
    with ends True False show ?thesis
      by (simp add: codePattern_def validCode_def inner_hyphens_iff disj_assoc Suc_le_eq [symmetric])
  qed (simp add: codePattern_def validCode_def inner_hyphens_iff disj_assoc)
qed (simp add: codePattern_def inner_hyphens_def validCode_def)

lemma validGitHubLogin_validLogin: "validGitHubLogin v = validLogin v"
proof (cases "v = ''''")
  case False
  let ?a = "\<lambda>c. is_upper c \<or> is_lower c \<or> is_digit c"
  have hyphen: "\<not> ?a (CHR ''-'')" by (simp add: is_lower_def is_digit_def is_upper_def)
  have letters: "list_all (\<lambda>c. is_lower c \<or> is_upper c \<or> is_digit c \<or> c = CHR ''-'') v
      \<longleftrightarrow> list_all (\<lambda>c. ?a c \<or> c = CHR ''-'') v"
    by (auto simp: list_all_iff)
  show ?thesis
  proof (cases "list_all (\<lambda>c. ?a c \<or> c = CHR ''-'') v")
    case True
    then have "\<forall>c\<in>set v. ?a c \<longleftrightarrow> c \<noteq> CHR ''-''" using hyphen by (auto simp: list_all_iff)
    then have ends: "?a (hd v) \<longleftrightarrow> hd v \<noteq> CHR ''-''" "?a (last v) \<longleftrightarrow> last v \<noteq> CHR ''-''"
      using False by simp_all
    have "length v \<le> 37 + 2 \<longleftrightarrow> \<not> length v > 39" by linarith
    with ends True False letters show ?thesis
      by (auto simp: validGitHubLogin_def githubLoginPattern_def validLogin_def inner_hyphens_iff)
  qed (use letters in \<open>simp add: validGitHubLogin_def githubLoginPattern_def validLogin_def inner_hyphens_iff\<close>)
qed (simp add: validGitHubLogin_def githubLoginPattern_def inner_hyphens_def validLogin_def)

text \<open>
  The specification: the normalized document, and what an acceptable document is, without any order
  in which the parts are looked at.
\<close>

definition normal_group :: "(string \<Rightarrow> string) \<Rightarrow> RosterGroup \<Rightarrow> RosterGroup" where
  "normal_group ul g =
     \<lparr>rg_code = to_lower ul (trim_space (rg_code g)), rg_name = trim_space (rg_name g),
      rg_students = map (normal_student ul) (rg_students g)\<rparr>"

definition normal_document :: "(string \<Rightarrow> string) \<Rightarrow> Document \<Rightarrow> Document" where
  "normal_document ul d =
     d\<lparr>rd_organization :=
         \<lparr>ro_github_login = to_lower ul (trim_space (ro_github_login (rd_organization d))),
          ro_name = trim_space (ro_name (rd_organization d))\<rparr>,
       rd_groups := map (normal_group ul) (rd_groups d)\<rparr>"

definition roster_logins :: "RosterGroup list \<Rightarrow> string list" where
  "roster_logins gs = map rst_github_login (concat (map rg_students gs))"

definition student_ok :: "RosterStudent \<Rightarrow> bool" where
  "student_ok st \<longleftrightarrow>
     rst_full_name st \<noteq> '''' \<and> rune_count (rst_full_name st) \<le> 200 \<and> validLogin (rst_github_login st)"

definition group_ok :: "RosterGroup \<Rightarrow> bool" where
  "group_ok g \<longleftrightarrow>
     validCode (rg_code g) \<and> rg_name g \<noteq> '''' \<and> length (rg_students g) \<le> 10000 \<and> list_all student_ok (rg_students g)"

definition roster_ok :: "Document \<Rightarrow> bool" where
  "roster_ok d \<longleftrightarrow>
     rd_schema_version d = 1
   \<and> validLogin (ro_github_login (rd_organization d)) \<and> ro_name (rd_organization d) \<noteq> ''''
   \<and> 1 \<le> length (rd_groups d) \<and> length (rd_groups d) \<le> 200 \<and> list_all group_ok (rd_groups d)
   \<and> distinct (map rg_code (rd_groups d)) \<and> distinct (roster_logins (rd_groups d))"

text \<open>
  A loop that remembers the keys it has seen accepts the items that pass their check, have different
  keys and none that was seen before.
\<close>

definition fresh :: "('a \<Rightarrow> bool) \<Rightarrow> ('a \<Rightarrow> 'k) \<Rightarrow> 'k set \<Rightarrow> 'a list \<Rightarrow> bool" where
  "fresh ok key seen xs \<longleftrightarrow> list_all ok xs \<and> distinct (map key xs) \<and> key ` set xs \<inter> seen = {}"

lemma fresh_Nil [simp]: "fresh ok key seen []"
  by (simp add: fresh_def)

lemma fresh_Cons [simp]:
  "fresh ok key seen (x # xs) \<longleftrightarrow> ok x \<and> key x \<notin> seen \<and> fresh ok key (insert (key x) seen) xs"
  by (auto simp: fresh_def)

lemma fresh_append [simp]:
  "fresh ok key seen (xs @ ys) \<longleftrightarrow> fresh ok key seen xs \<and> fresh ok key (key ` set xs \<union> seen) ys"
  by (induction xs arbitrary: seen) (auto simp: insert_commute Un_insert_right)

lemma freshD: "fresh ok key seen xs \<Longrightarrow> list_all ok xs"
  by (simp add: fresh_def)

lemma parse_students_iff:
  "parse_students ul code seen sts = Inr (out, seen') \<longleftrightarrow>
     out = map (normal_student ul) sts \<and> fresh student_ok rst_github_login (fst ` set seen) out
   \<and> seen' = rev (map (\<lambda>st. (rst_github_login st, code)) out) @ seen"
proof (induction sts arbitrary: seen out seen')
  case Nil
  then show ?case by auto
next
  case (Cons st sts)
  let ?st = "normal_student ul st"
  have "parse_students ul code seen (st # sts) =
      (if \<not> student_ok ?st then Inl (ErrText ''student has an invalid full_name or github_login'')
       else if rst_github_login ?st \<in> fst ` set seen then Inl (ErrText ''GitHub login is repeated'')
       else bind_result (parse_students ul code ((rst_github_login ?st, code) # seen) sts) (\<lambda>(rest, seen').
         Inr (?st # rest, seen')))"
    by (simp add: Let_def student_ok_def validGitHubLogin_validLogin map_of_eq_None_iff not_le)
  then have "parse_students ul code seen (st # sts) = Inr (out, seen') \<longleftrightarrow>
      student_ok ?st \<and> rst_github_login ?st \<notin> fst ` set seen
    \<and> (\<exists>rest. parse_students ul code ((rst_github_login ?st, code) # seen) sts = Inr (rest, seen') \<and> out = ?st # rest)"
    by (simp split: prod.splits) blast
  also have "\<dots> \<longleftrightarrow> student_ok ?st \<and> rst_github_login ?st \<notin> fst ` set seen
    \<and> out = ?st # map (normal_student ul) sts
    \<and> fresh student_ok rst_github_login (insert (rst_github_login ?st) (fst ` set seen)) (map (normal_student ul) sts)
    \<and> seen' = rev (map (\<lambda>st. (rst_github_login st, code)) (map (normal_student ul) sts)) @ (rst_github_login ?st, code) # seen"
    unfolding Cons.IH list.set image_insert fst_conv by blast
  finally show ?case by (cases out) auto
qed

lemma parse_groups_iff:
  "parse_groups ul groups seen gs = Inr out \<longleftrightarrow>
     out = map (normal_group ul) gs \<and> fresh group_ok rg_code (set groups) out
   \<and> fresh student_ok rst_github_login (fst ` set seen) (concat (map rg_students out))"
proof (induction gs arbitrary: groups seen out)
  case Nil
  then show ?case by auto
next
  case (Cons g gs)
  let ?g = "normal_group ul g"
  let ?c = "rg_code ?g"
  let ?ok = "validCode ?c \<and> rg_name ?g \<noteq> '''' \<and> length (rg_students ?g) \<le> 10000"
  have head: "to_lower ul (trim_space (rg_code g)) = ?c" "trim_space (rg_name g) = rg_name ?g"
    "map (normal_student ul) (rg_students g) = rg_students ?g"
    "length (rg_students g) = length (rg_students ?g)"
    by (simp_all add: normal_group_def)
  have eta: "\<lparr>rg_code = ?c, rg_name = rg_name ?g, rg_students = rg_students ?g\<rparr> = ?g" by simp
  have seen': "fst ` set (rev (map (\<lambda>st. (rst_github_login st, ?c)) xs) @ seen) = rst_github_login ` set xs \<union> fst ` set seen"
    for xs by (simp add: image_Un image_image)
  have ok: "group_ok ?g \<longleftrightarrow> ?ok \<and> list_all student_ok (rg_students ?g)" by (auto simp: group_ok_def)
  have "parse_groups ul groups seen (g # gs) =
      (if \<not> validCode ?c \<or> rg_name ?g = '''' then Inl (ErrText ''group has an invalid code or name'')
       else if ?c \<in> set groups then Inl (ErrText ''group is repeated'')
       else if length (rg_students ?g) > 10000 then Inl (ErrText ''too many students in the group'')
       else bind_result (parse_students ul ?c seen (rg_students g)) (\<lambda>(students, seen).
         bind_result (parse_groups ul (?c # groups) seen gs) (\<lambda>rest.
           Inr (\<lparr>rg_code = ?c, rg_name = rg_name ?g, rg_students = students\<rparr> # rest))))"
    unfolding parse_groups.simps Let_def head codePattern_validCode List.member_iff ..
  then have "parse_groups ul groups seen (g # gs) = Inr out \<longleftrightarrow> ?ok \<and> ?c \<notin> set groups
     \<and> (\<exists>students seen' rest. parse_students ul ?c seen (rg_students g) = Inr (students, seen')
        \<and> parse_groups ul (?c # groups) seen' gs = Inr rest
        \<and> out = \<lparr>rg_code = ?c, rg_name = rg_name ?g, rg_students = students\<rparr> # rest)"
    by (simp add: not_le split: prod.splits) (auto simp: not_less)
  also have "\<dots> \<longleftrightarrow> ?ok \<and> ?c \<notin> set groups \<and> fresh student_ok rst_github_login (fst ` set seen) (rg_students ?g)
     \<and> (\<exists>rest. rest = map (normal_group ul) gs \<and> fresh group_ok rg_code (insert ?c (set groups)) rest
        \<and> fresh student_ok rst_github_login (rst_github_login ` set (rg_students ?g) \<union> fst ` set seen) (concat (map rg_students rest))
        \<and> out = ?g # rest)"
    unfolding parse_students_iff Cons.IH head by (simp add: eta image_Un image_image)
  also have "\<dots> \<longleftrightarrow> out = ?g # map (normal_group ul) gs \<and> group_ok ?g \<and> ?c \<notin> set groups
     \<and> fresh student_ok rst_github_login (fst ` set seen) (rg_students ?g)
     \<and> fresh group_ok rg_code (insert ?c (set groups)) (map (normal_group ul) gs)
     \<and> fresh student_ok rst_github_login (rst_github_login ` set (rg_students ?g) \<union> fst ` set seen)
         (concat (map rg_students (map (normal_group ul) gs)))"
    using freshD [of student_ok rst_github_login _ "rg_students ?g"] unfolding ok by blast
  finally show ?case
    by (cases "out = ?g # map (normal_group ul) gs") auto
qed

lemma group_students_ok: "list_all group_ok gs \<Longrightarrow> list_all student_ok (concat (map rg_students gs))"
  by (induction gs) (auto simp: group_ok_def)

text \<open>
  C38: a roster is accepted exactly when it decodes without extra data and its normalized form is
  acceptable: version one, a valid organization, one to two hundred groups with pairwise different
  valid codes, at most ten thousand students each, every student named and with a valid login, and
  no login twice in the whole roster.  The accepted document is that normalized form.
\<close>

theorem Parse_exact:
  "Parse decode ul data = Inr d \<longleftrightarrow>
     (\<exists>raw. decode data = Inr (raw, True) \<and> d = normal_document ul raw \<and> roster_ok d)"
proof -
  have "Parse decode ul data = Inr d \<longleftrightarrow>
      (\<exists>raw groups. decode data = Inr (raw, True) \<and> parse_groups ul [] [] (rd_groups raw) = Inr groups
        \<and> d = (normal_document ul raw)\<lparr>rd_groups := groups\<rparr>
        \<and> rd_schema_version raw = 1 \<and> validLogin (ro_github_login (rd_organization d))
        \<and> ro_name (rd_organization d) \<noteq> '''' \<and> rd_groups raw \<noteq> [] \<and> length (rd_groups raw) \<le> 200)"
    by (auto simp: Parse_def Let_def normal_document_def validGitHubLogin_validLogin split: sum.splits prod.splits if_splits)
  also have "\<dots> \<longleftrightarrow> (\<exists>raw. decode data = Inr (raw, True) \<and> d = normal_document ul raw \<and> roster_ok d)"
    by (auto simp: parse_groups_iff roster_ok_def normal_document_def Suc_le_eq roster_logins_def fresh_def group_students_ok
        simp flip: map_map)
  finally show ?thesis .
qed

text \<open>
  the roster and the importer agree on names.  The regular expressions of the roster accept
  exactly the group codes and GitHub logins that the loops of the importer accept, so that every
  student of an accepted roster can be named by an import.
\<close>

theorem roster_importer_agree:
  "codePattern v = validCode v \<and> validGitHubLogin v = validLogin v"
  by (simp add: codePattern_validCode validGitHubLogin_validLogin)

end
