(* ===== verification/Account_Schema.thy ===== *)
theory Account_Schema
  imports Schema Roster
begin

text \<open>
  The tables of accounts, sessions, groups and rosters from \<open>infrastructure/postgres/migrations\<close>,
  with the columns that \<open>auth.go\<close>, \<open>session.go\<close>, \<open>admin.go\<close> and \<open>rosters.go\<close> read or write, and the
  statements on them.

  A statement fails (\<open>None\<close>) when a check, a unique index, a foreign key or the trigger
  \<open>validate_user_transition\<close> refuses it.  The deferred trigger \<open>users_active_identity\<close> is checked by
  \<open>commit\<close> for the users a transaction inserted or whose status it assigned.  The columns \<open>login\<close>,
  \<open>code\<close> and \<open>github_login_expected\<close> have the type \<open>citext\<close>, which compares the images under the
  folding \<open>ci\<close> of the database.  \<open>length\<close> in a check constraint counts characters.  A group is
  archived when its \<open>archived_at\<close> is set, as the check on its status demands.
\<close>

section \<open>Tables\<close>

datatype record_status = Unclaimed | Claimed | Archived

datatype record_source = Manual | GroupImport

record account_row =
  acc_id :: uuid
  acc_status :: user_status
  acc_role :: "user_role option"
  acc_display_name :: "string option"
  acc_rejection_reason :: "string option"
  acc_blocked_at :: "time option"
  acc_created_at :: time
  acc_updated_at :: time
  acc_version :: int

record identity_row =
  gi_id :: uuid
  gi_user_id :: uuid
  gi_github_user_id :: int
  gi_login :: string
  gi_display_name :: "string option"
  gi_avatar_url :: "string option"
  gi_verified_at :: time
  gi_updated_at :: time

record flow_row =
  fl_id :: uuid
  fl_state_hash :: bytes
  fl_verifier :: bytes
  fl_return_path :: string
  fl_expires_at :: time
  fl_consumed_at :: "time option"
  fl_created_at :: time

record session_row =
  ws_id :: uuid
  ws_user_id :: uuid
  ws_token_hash :: bytes
  ws_csrf_hash :: bytes
  ws_view_role :: "user_role option"
  ws_view_target :: "uuid option"
  ws_created_at :: time
  ws_expires_at :: time
  ws_revoked_at :: "time option"

record organization_row =
  og_id :: uuid
  og_github_login :: string
  og_name :: string
  og_updated_at :: time

record group_row =
  gr_id :: uuid
  gr_organization_id :: "uuid option"
  gr_code :: string
  gr_name :: string
  gr_is_demo :: bool
  gr_archived_at :: "time option"
  gr_updated_at :: time
  gr_version :: int

record teacher_row =
  te_group_id :: uuid
  te_user_id :: uuid
  te_assigned_by :: "uuid option"

record member_row =
  sm_id :: uuid
  sm_group_id :: uuid
  sm_user_id :: "uuid option"
  sm_login :: string
  sm_status :: record_status
  sm_source :: record_source
  sm_full_name :: "string option"
  sm_updated_at :: time
  sm_archived_at :: "time option"
  sm_version :: int

record idempotency_row =
  ir_id :: uuid
  ir_principal_id :: uuid
  ir_route :: string
  ir_key :: uuid
  ir_request_hash :: bytes
  ir_response_user :: "string option"
  ir_created_at :: time
  ir_expires_at :: time

record adb =
  accounts :: "account_row list"
  identities :: "identity_row list"
  legacy_identities :: "uuid list"
  flows :: "flow_row list"
  sessions :: "session_row list"
  organizations :: "organization_row list"
  groups :: "group_row list"
  teachers :: "teacher_row list"
  members :: "member_row list"
  idempotency :: "idempotency_row list"

section \<open>Constraints\<close>

definition account_check :: "account_row \<Rightarrow> bool" where
  "account_check a \<longleftrightarrow>
     acc_version a \<ge> 1 \<and> (acc_status a = UserActive \<longrightarrow> acc_role a \<noteq> None)
   \<and> (acc_status a = UserRejected) = (acc_rejection_reason a \<noteq> None)
   \<and> (acc_status a = UserBlocked) = (acc_blocked_at a \<noteq> None)"

definition identity_check :: "identity_row \<Rightarrow> bool" where
  "identity_check g \<longleftrightarrow>
     gi_github_user_id g > 0 \<and> 1 \<le> rune_count (gi_login g) \<and> rune_count (gi_login g) \<le> 100"

definition flow_check :: "flow_row \<Rightarrow> bool" where
  "flow_check f \<longleftrightarrow>
     length (fl_state_hash f) = 32
   \<and> has_prefix (fl_return_path f) ''/'' \<and> \<not> has_prefix (fl_return_path f) ''//''
   \<and> fl_expires_at f > fl_created_at f
   \<and> (case fl_consumed_at f of None \<Rightarrow> True | Some t \<Rightarrow> t \<ge> fl_created_at f)"

definition session_check :: "session_row \<Rightarrow> bool" where
  "session_check w \<longleftrightarrow>
     length (ws_token_hash w) = 32 \<and> length (ws_csrf_hash w) = 32 \<and> ws_expires_at w > ws_created_at w
   \<and> (ws_view_role w = None) = (ws_view_target w = None)"

definition organization_check :: "organization_row \<Rightarrow> bool" where
  "organization_check g \<longleftrightarrow>
     1 \<le> rune_count (og_github_login g) \<and> rune_count (og_github_login g) \<le> 100
   \<and> 1 \<le> rune_count (og_name g) \<and> rune_count (og_name g) \<le> 200"

definition group_check :: "group_row \<Rightarrow> bool" where
  "group_check g \<longleftrightarrow>
     1 \<le> rune_count (gr_code g) \<and> rune_count (gr_code g) \<le> 64
   \<and> 1 \<le> rune_count (gr_name g) \<and> rune_count (gr_name g) \<le> 200 \<and> gr_version g \<ge> 1"

definition member_check :: "member_row \<Rightarrow> bool" where
  "member_check m \<longleftrightarrow>
     1 \<le> rune_count (sm_login m) \<and> rune_count (sm_login m) \<le> 100 \<and> sm_version m \<ge> 1
   \<and> (case sm_full_name m of None \<Rightarrow> True | Some n \<Rightarrow> 1 \<le> rune_count n \<and> rune_count n \<le> 200)
   \<and> (sm_status m = Claimed \<and> sm_user_id m \<noteq> None \<or> sm_status m = Unclaimed \<and> sm_user_id m = None
      \<or> sm_status m = Archived)
   \<and> (sm_status m = Archived) = (sm_archived_at m \<noteq> None)"

definition idempotency_check :: "idempotency_row \<Rightarrow> bool" where
  "idempotency_check r \<longleftrightarrow> length (ir_request_hash r) = 32 \<and> ir_expires_at r > ir_created_at r"

definition accounts_unique :: "account_row list \<Rightarrow> bool" where
  "accounts_unique xs \<longleftrightarrow> unique_on (\<lambda>_. True) acc_id xs"

definition identities_unique :: "identity_row list \<Rightarrow> bool" where
  "identities_unique xs \<longleftrightarrow>
     unique_on (\<lambda>_. True) gi_id xs \<and> unique_on (\<lambda>_. True) gi_user_id xs
   \<and> unique_on (\<lambda>_. True) gi_github_user_id xs"

definition flows_unique :: "flow_row list \<Rightarrow> bool" where
  "flows_unique xs \<longleftrightarrow> unique_on (\<lambda>_. True) fl_id xs \<and> unique_on (\<lambda>_. True) fl_state_hash xs"

definition sessions_unique :: "session_row list \<Rightarrow> bool" where
  "sessions_unique xs \<longleftrightarrow> unique_on (\<lambda>_. True) ws_id xs \<and> unique_on (\<lambda>_. True) ws_token_hash xs"

definition organizations_unique :: "(string \<Rightarrow> string) \<Rightarrow> organization_row list \<Rightarrow> bool" where
  "organizations_unique ci xs \<longleftrightarrow>
     unique_on (\<lambda>_. True) og_id xs \<and> unique_on (\<lambda>_. True) (\<lambda>g. ci (og_github_login g)) xs"

definition groups_unique :: "(string \<Rightarrow> string) \<Rightarrow> group_row list \<Rightarrow> bool" where
  "groups_unique ci xs \<longleftrightarrow>
     unique_on (\<lambda>_. True) gr_id xs \<and> unique_on (\<lambda>_. True) (\<lambda>g. ci (gr_code g)) xs"

definition members_unique :: "(string \<Rightarrow> string) \<Rightarrow> member_row list \<Rightarrow> bool" where
  "members_unique ci xs \<longleftrightarrow>
     unique_on (\<lambda>_. True) sm_id xs
   \<and> unique_on (\<lambda>m. sm_user_id m \<noteq> None) sm_user_id xs
   \<and> unique_on (\<lambda>m. sm_status m \<noteq> Archived) (\<lambda>m. (sm_group_id m, ci (sm_login m))) xs"

definition idempotency_unique :: "idempotency_row list \<Rightarrow> bool" where
  "idempotency_unique xs \<longleftrightarrow>
     unique_on (\<lambda>_. True) ir_id xs
   \<and> unique_on (\<lambda>_. True) (\<lambda>r. (ir_principal_id r, ir_route r, ir_key r)) xs"

section \<open>Statements\<close>

definition user_trigger :: "time \<Rightarrow> account_row \<Rightarrow> account_row \<Rightarrow> account_row option" where
  "user_trigger now old new =
     (if acc_status new = acc_status old then Some new
      else if \<not> validate_user_transition (acc_status old) (acc_status new) then None
      else Some (new\<lparr>acc_version := acc_version old + 1, acc_updated_at := now\<rparr>))"

definition update_accounts ::
  "time \<Rightarrow> (account_row \<Rightarrow> bool) \<Rightarrow> (account_row \<Rightarrow> account_row) \<Rightarrow> adb \<Rightarrow> adb option" where
  "update_accounts now c f s =
     map_option (\<lambda>xs. s\<lparr>accounts := xs\<rparr>)
       (checked accounts_unique
         (exec_update c (\<lambda>old. Option.bind (user_trigger now old (f old)) (row_check account_check)) (accounts s)))"

definition insert_account :: "account_row \<Rightarrow> adb \<Rightarrow> adb option" where
  "insert_account a s =
     (if account_check a \<and> accounts_unique (accounts s @ [a])
      then Some (s\<lparr>accounts := accounts s @ [a]\<rparr>) else None)"

definition update_identities ::
  "(identity_row \<Rightarrow> bool) \<Rightarrow> (identity_row \<Rightarrow> identity_row) \<Rightarrow> adb \<Rightarrow> adb option" where
  "update_identities c f s =
     map_option (\<lambda>xs. s\<lparr>identities := xs\<rparr>)
       (checked identities_unique (exec_update c (\<lambda>g. row_check identity_check (f g)) (identities s)))"

definition insert_identity :: "identity_row \<Rightarrow> adb \<Rightarrow> adb option" where
  "insert_identity g s =
     (if identity_check g \<and> exists_id acc_id (gi_user_id g) (accounts s) \<and> identities_unique (identities s @ [g])
      then Some (s\<lparr>identities := identities s @ [g]\<rparr>) else None)"

definition update_flows :: "(flow_row \<Rightarrow> bool) \<Rightarrow> (flow_row \<Rightarrow> flow_row) \<Rightarrow> adb \<Rightarrow> adb option" where
  "update_flows c f s =
     map_option (\<lambda>xs. s\<lparr>flows := xs\<rparr>)
       (checked flows_unique (exec_update c (\<lambda>g. row_check flow_check (f g)) (flows s)))"

definition insert_flow :: "flow_row \<Rightarrow> adb \<Rightarrow> adb option" where
  "insert_flow f s =
     (if flow_check f \<and> flows_unique (flows s @ [f]) then Some (s\<lparr>flows := flows s @ [f]\<rparr>) else None)"

definition update_sessions :: "(session_row \<Rightarrow> bool) \<Rightarrow> (session_row \<Rightarrow> session_row) \<Rightarrow> adb \<Rightarrow> adb option" where
  "update_sessions c f s =
     map_option (\<lambda>xs. s\<lparr>sessions := xs\<rparr>)
       (checked sessions_unique (exec_update c (\<lambda>w. row_check session_check (f w)) (sessions s)))"

definition insert_session :: "session_row \<Rightarrow> adb \<Rightarrow> adb option" where
  "insert_session w s =
     (if session_check w \<and> exists_id acc_id (ws_user_id w) (accounts s) \<and> sessions_unique (sessions s @ [w])
      then Some (s\<lparr>sessions := sessions s @ [w]\<rparr>) else None)"

definition update_members ::
  "(string \<Rightarrow> string) \<Rightarrow> (member_row \<Rightarrow> bool) \<Rightarrow> (member_row \<Rightarrow> member_row) \<Rightarrow> adb \<Rightarrow> adb option" where
  "update_members ci c f s =
     map_option (\<lambda>xs. s\<lparr>members := xs\<rparr>)
       (checked (members_unique ci)
         (exec_update c
           (\<lambda>m. row_check (\<lambda>m. member_check m \<and> exists_id gr_id (sm_group_id m) (groups s)
                   \<and> references acc_id (sm_user_id m) (accounts s)) (f m)) (members s)))"

definition insert_member :: "(string \<Rightarrow> string) \<Rightarrow> member_row \<Rightarrow> adb \<Rightarrow> adb option" where
  "insert_member ci m s =
     (if member_check m \<and> exists_id gr_id (sm_group_id m) (groups s) \<and> references acc_id (sm_user_id m) (accounts s)
         \<and> members_unique ci (members s @ [m])
      then Some (s\<lparr>members := members s @ [m]\<rparr>) else None)"

definition insert_idempotency :: "idempotency_row \<Rightarrow> adb \<Rightarrow> adb option" where
  "insert_idempotency r s =
     (if idempotency_check r \<and> exists_id acc_id (ir_principal_id r) (accounts s)
         \<and> idempotency_unique (idempotency s @ [r])
      then Some (s\<lparr>idempotency := idempotency s @ [r]\<rparr>) else None)"

text \<open>\<open>insert into organizations ... on conflict(github_login) do update\<close>, with the identifier it returns.\<close>

definition upsert_organization ::
  "(string \<Rightarrow> string) \<Rightarrow> organization_row \<Rightarrow> adb \<Rightarrow> (adb \<times> uuid) option" where
  "upsert_organization ci g s =
     (case select_one (\<lambda>q. ci (og_github_login q) = ci (og_github_login g)) (organizations s) of
        Some old \<Rightarrow>
          map_option (\<lambda>xs. (s\<lparr>organizations := xs\<rparr>, og_id old))
            (checked (organizations_unique ci)
              (exec_update (\<lambda>q. ci (og_github_login q) = ci (og_github_login g))
                (\<lambda>q. row_check organization_check (q\<lparr>og_name := og_name g, og_updated_at := og_updated_at g\<rparr>))
                (organizations s)))
      | None \<Rightarrow>
          if organization_check g \<and> organizations_unique ci (organizations s @ [g])
          then Some (s\<lparr>organizations := organizations s @ [g]\<rparr>, og_id g) else None)"

text \<open>\<open>insert into groups ... on conflict(code) do update\<close>: an archived group becomes active again.\<close>

definition upsert_group :: "(string \<Rightarrow> string) \<Rightarrow> group_row \<Rightarrow> adb \<Rightarrow> (adb \<times> uuid) option" where
  "upsert_group ci g s =
     (if \<not> references og_id (gr_organization_id g) (organizations s) then None
      else
        (case select_one (\<lambda>q. ci (gr_code q) = ci (gr_code g)) (groups s) of
           Some old \<Rightarrow>
             map_option (\<lambda>xs. (s\<lparr>groups := xs\<rparr>, gr_id old))
               (checked (groups_unique ci)
                 (exec_update (\<lambda>q. ci (gr_code q) = ci (gr_code g))
                   (\<lambda>q. row_check group_check
                      (q\<lparr>gr_organization_id := gr_organization_id g, gr_name := gr_name g, gr_archived_at := None,
                         gr_updated_at := gr_updated_at g, gr_version := gr_version q + 1\<rparr>)) (groups s)))
         | None \<Rightarrow>
             if group_check g \<and> groups_unique ci (groups s @ [g])
             then Some (s\<lparr>groups := groups s @ [g]\<rparr>, gr_id g) else None))"

text \<open>\<open>insert into group_teachers ... on conflict do nothing\<close>, with whether a row was added.\<close>

definition insert_teacher :: "teacher_row \<Rightarrow> adb \<Rightarrow> (adb \<times> bool) option" where
  "insert_teacher t s =
     (if list_ex (\<lambda>q. te_group_id q = te_group_id t \<and> te_user_id q = te_user_id t) (teachers s) then Some (s, False)
      else if exists_id gr_id (te_group_id t) (groups s) \<and> exists_id acc_id (te_user_id t) (accounts s)
          \<and> references acc_id (te_assigned_by t) (accounts s)
      then Some (s\<lparr>teachers := teachers s @ [t]\<rparr>, True) else None)"

text \<open>The end of a transaction: the users it touched have an identity if they are active.\<close>

definition has_identity :: "adb \<Rightarrow> uuid \<Rightarrow> bool" where
  "has_identity s u \<longleftrightarrow> list_ex (\<lambda>g. gi_user_id g = u) (identities s) \<or> List.member (legacy_identities s) u"

definition commit :: "(uuid \<Rightarrow> bool) \<Rightarrow> adb \<Rightarrow> adb option" where
  "commit touched s =
     (if list_all (\<lambda>a. touched (acc_id a) \<and> acc_status a = UserActive \<longrightarrow> has_identity s (acc_id a)) (accounts s)
      then Some s else None)"

end
