(* ===== verification/Accounts.thy ===== *)
theory Accounts
  imports Account_Schema
begin

text \<open>
  The repositories on the account tables: \<open>infrastructure/postgres/auth.go\<close> (OAuth flows, sign-in
  with GitHub, approval and rejection of pending accounts under idempotency keys), \<open>admin.go\<close> (roles,
  blocking, teachers) and \<open>rosters.go\<close> (preview and import of a roster).

  An operation takes the identifiers it generates and the readings \<open>clk 0\<close>, \<open>clk 1\<close>, ... of the
  database clock by its statements as arguments.  A transaction that fails leaves the state as it
  was; one that commits and then reads the user again returns the new state whatever the reading
  gives.  A query without a total order picks the first row of the table among its candidates.
\<close>

section \<open>Users\<close>

record Profile =
  pf_id :: int
  pf_login :: string
  pf_display_name :: string
  pf_avatar_url :: string

record Identity =
  idn_subject :: string
  idn_login :: string
  idn_verified_at :: time

record User =
  usr_id :: uuid
  usr_status :: user_status
  usr_role :: "user_role option"
  usr_display_name :: "string option"
  usr_identity :: Identity
  usr_created_at :: time

record Flow =
  flw_state_hash :: bytes
  flw_encrypted_verifier :: bytes
  flw_return_path :: string
  flw_expires_at :: time

definition nullableString :: "string \<Rightarrow> string option" where
  "nullableString v = (if trim_space v = '''' then None else Some v)"

definition account :: "adb \<Rightarrow> uuid \<Rightarrow> account_row option" where
  "account s i = select_one (\<lambda>a. acc_id a = i) (accounts s)"

definition identity_of :: "adb \<Rightarrow> uuid \<Rightarrow> identity_row option" where
  "identity_of s i = select_one (\<lambda>g. gi_user_id g = i) (identities s)"

definition format_int :: "int \<Rightarrow> string" where
  "format_int n = (if n < 0 then ''-'' @ decimal (nat (- n)) else decimal (nat n))"

definition queryUser :: "adb \<Rightarrow> uuid \<Rightarrow> User result" where
  "queryUser s i =
     (case (account s i, identity_of s i) of
        (Some a, Some g) \<Rightarrow>
          Inr \<lparr>usr_id = acc_id a, usr_status = acc_status a, usr_role = acc_role a,
               usr_display_name = acc_display_name a,
               usr_identity = \<lparr>idn_subject = format_int (gi_github_user_id g), idn_login = gi_login g,
                               idn_verified_at = gi_verified_at g\<rparr>,
               usr_created_at = acc_created_at a\<rparr>
      | _ \<Rightarrow> Inl ErrNoRows)"

definition queryUserByGitHubID :: "adb \<Rightarrow> int \<Rightarrow> User result" where
  "queryUserByGitHubID s githubID =
     (case select_one (\<lambda>g. gi_github_user_id g = githubID) (identities s) of
        None \<Rightarrow> Inl ErrNoRows
      | Some g \<Rightarrow> queryUser s (gi_user_id g))"

definition UserByID :: "adb \<Rightarrow> uuid \<Rightarrow> User result" where
  "UserByID s i = queryUser s i"

definition then_user :: "adb \<Rightarrow> (adb \<times> uuid) result \<Rightarrow> adb \<times> User result" where
  "then_user s r = (case r of Inl e \<Rightarrow> (s, Inl e) | Inr (s', i) \<Rightarrow> (s', UserByID s' i))"

section \<open>OAuth flows\<close>

definition CreateFlow :: "time \<Rightarrow> uuid \<Rightarrow> Flow \<Rightarrow> adb \<Rightarrow> adb result" where
  "CreateFlow now i flow s =
     statement (insert_flow
       \<lparr>fl_id = i, fl_state_hash = flw_state_hash flow, fl_verifier = flw_encrypted_verifier flow,
        fl_return_path = flw_return_path flow, fl_expires_at = flw_expires_at flow, fl_consumed_at = None,
        fl_created_at = now\<rparr> s)"

definition usable_flow :: "time \<Rightarrow> bytes \<Rightarrow> flow_row \<Rightarrow> bool" where
  "usable_flow now stateHash f \<longleftrightarrow>
     fl_state_hash f = stateHash \<and> fl_consumed_at f = None \<and> fl_expires_at f > now"

definition ConsumeFlow :: "time \<Rightarrow> bytes \<Rightarrow> adb \<Rightarrow> (adb \<times> Flow) result" where
  "ConsumeFlow now stateHash s =
     bind_result (statement (update_flows (usable_flow now stateHash) (\<lambda>f. f\<lparr>fl_consumed_at := Some now\<rparr>) s)) (\<lambda>s'.
       case select_one (usable_flow now stateHash) (flows s) of
         None \<Rightarrow> Inl ErrNoRows
       | Some f \<Rightarrow>
           Inr (s', \<lparr>flw_state_hash = fl_state_hash f, flw_encrypted_verifier = fl_verifier f,
                     flw_return_path = fl_return_path f, flw_expires_at = fl_expires_at f\<rparr>))"

section \<open>Sign-in with GitHub\<close>

definition set_profile :: "(string \<Rightarrow> string) \<Rightarrow> time \<Rightarrow> Profile \<Rightarrow> identity_row \<Rightarrow> identity_row" where
  "set_profile ul now profile g =
     g\<lparr>gi_login := to_lower ul (pf_login profile), gi_display_name := nullableString (pf_display_name profile),
       gi_avatar_url := nullableString (pf_avatar_url profile), gi_verified_at := now, gi_updated_at := now\<rparr>"

definition make_admin :: "account_row \<Rightarrow> account_row" where
  "make_admin a = a\<lparr>acc_status := UserActive, acc_role := Some Admin, acc_rejection_reason := None\<rparr>"

definition login_known ::
  "(string \<Rightarrow> string) \<Rightarrow> int \<Rightarrow> (nat \<Rightarrow> time) \<Rightarrow> Profile \<Rightarrow> User \<Rightarrow> adb \<Rightarrow> (adb \<times> User) result" where
  "login_known ul bootstrapAdminID clk profile user s =
     bind_result (statement (update_identities (\<lambda>g. gi_github_user_id g = pf_id profile)
         (set_profile ul (clk 0) profile) s)) (\<lambda>s1.
     let named = (\<lambda>u. u\<lparr>usr_identity := (usr_identity u)\<lparr>idn_login := to_lower ul (pf_login profile)\<rparr>\<rparr>) in
     if pf_id profile = bootstrapAdminID \<and> usr_status user \<noteq> UserBlocked \<and> usr_role user \<noteq> Some Admin
     then
       bind_result (statement (update_accounts (clk 1) (\<lambda>a. acc_id a = usr_id user) make_admin s1)) (\<lambda>s2.
       bind_result (statement (commit (\<lambda>i. i = usr_id user) s2)) (\<lambda>s3.
         Inr (s3, named (user\<lparr>usr_status := UserActive, usr_role := Some Admin\<rparr>))))
     else Inr (s1, named user))"

definition login_candidates :: "(string \<Rightarrow> string) \<Rightarrow> (string \<Rightarrow> string) \<Rightarrow> Profile \<Rightarrow> adb \<Rightarrow> uuid list" where
  "login_candidates ul ci profile s =
     sort (map sm_id (filter (\<lambda>m. sm_status m = Unclaimed \<and> ci (sm_login m) = ci (to_lower ul (pf_login profile)))
       (members s)))"

definition claim :: "uuid \<Rightarrow> time \<Rightarrow> member_row \<Rightarrow> member_row" where
  "claim u now m =
     m\<lparr>sm_user_id := Some u, sm_status := Claimed, sm_updated_at := now, sm_version := sm_version m + 1\<rparr>"

definition new_account ::
  "uuid \<Rightarrow> time \<Rightarrow> user_status \<Rightarrow> user_role option \<Rightarrow> string option \<Rightarrow> account_row" where
  "new_account i now status role name =
     \<lparr>acc_id = i, acc_status = status, acc_role = role, acc_display_name = name, acc_rejection_reason = None,
      acc_blocked_at = None, acc_created_at = now, acc_updated_at = now, acc_version = 1\<rparr>"

definition login_new ::
  "(string \<Rightarrow> string) \<Rightarrow> (string \<Rightarrow> string) \<Rightarrow> int \<Rightarrow> (nat \<Rightarrow> time) \<Rightarrow> uuid \<Rightarrow> uuid \<Rightarrow> Profile \<Rightarrow> adb
   \<Rightarrow> (adb \<times> uuid) result" where
  "login_new ul ci bootstrapAdminID clk userID identityID profile s =
     (let candidates = login_candidates ul ci profile s;
          (status, role) =
            (if pf_id profile = bootstrapAdminID then (UserActive, Some Admin)
             else if length candidates = 1 then (UserActive, Some Student) else (UserPending, None)) in
      bind_result (statement (insert_account
          (new_account userID (clk 0) status role (nullableString (pf_display_name profile))) s)) (\<lambda>s1.
      bind_result (statement (insert_identity
          (set_profile ul (clk 1) profile
            \<lparr>gi_id = identityID, gi_user_id = userID, gi_github_user_id = pf_id profile, gi_login = '''',
             gi_display_name = None, gi_avatar_url = None, gi_verified_at = 0, gi_updated_at = 0\<rparr>) s1)) (\<lambda>s2.
      bind_result
        (if length candidates = 1 \<and> pf_id profile \<noteq> bootstrapAdminID
         then
           (let mine = (\<lambda>m. sm_id m = hd candidates \<and> sm_status m = Unclaimed \<and> sm_user_id m = None) in
            bind_result (statement (update_members ci mine (claim userID (clk 2)) s2)) (\<lambda>s3.
              if rows_affected mine (members s2) \<noteq> 1 then Inl (ErrText ''claim student record'') else Inr s3))
         else Inr s2) (\<lambda>s3.
      bind_result (statement (commit (\<lambda>i. i = userID) s3)) (\<lambda>s4. Inr (s4, userID))))))"

definition LoginGitHub ::
  "(string \<Rightarrow> string) \<Rightarrow> (string \<Rightarrow> string) \<Rightarrow> int \<Rightarrow> (nat \<Rightarrow> time) \<Rightarrow> uuid \<Rightarrow> uuid \<Rightarrow> Profile \<Rightarrow> adb
   \<Rightarrow> adb \<times> User result" where
  "LoginGitHub ul ci bootstrapAdminID clk userID identityID profile s =
     (case queryUserByGitHubID s (pf_id profile) of
        Inr user \<Rightarrow>
          (case login_known ul bootstrapAdminID clk profile user s of
             Inl e \<Rightarrow> (s, Inl e) | Inr (s', u) \<Rightarrow> (s', Inr u))
      | Inl e \<Rightarrow>
          if e \<noteq> ErrNoRows then (s, Inl e)
          else then_user s (login_new ul ci bootstrapAdminID clk userID identityID profile s))"

section \<open>Idempotency\<close>

definition same_request :: "uuid \<Rightarrow> string \<Rightarrow> uuid \<Rightarrow> idempotency_row \<Rightarrow> bool" where
  "same_request actorID route key r \<longleftrightarrow> ir_principal_id r = actorID \<and> ir_route r = route \<and> ir_key r = key"

definition beginIdempotency ::
  "time \<Rightarrow> uuid \<Rightarrow> uuid \<Rightarrow> string \<Rightarrow> uuid \<Rightarrow> string \<Rightarrow> adb \<Rightarrow> (adb \<times> string option) result" where
  "beginIdempotency now i actorID route key payload s =
     (case select_one (same_request actorID route key) (idempotency s) of
        Some r \<Rightarrow>
          (if ir_request_hash r \<noteq> sha256 payload then Inl ErrConflict
           else case ir_response_user r of None \<Rightarrow> Inl ErrConflict | Some u \<Rightarrow> Inr (s, Some u))
      | None \<Rightarrow>
          bind_result (statement (insert_idempotency
            \<lparr>ir_id = i, ir_principal_id = actorID, ir_route = route, ir_key = key, ir_request_hash = sha256 payload,
             ir_response_user = None, ir_created_at = now, ir_expires_at = now + seconds 86400\<rparr> s)) (\<lambda>s'.
          Inr (s', None)))"

definition finishIdempotency :: "uuid \<Rightarrow> string \<Rightarrow> uuid \<Rightarrow> uuid \<Rightarrow> adb \<Rightarrow> adb result" where
  "finishIdempotency actorID route key userID s =
     statement (map_option (\<lambda>xs. s\<lparr>idempotency := xs\<rparr>)
       (checked idempotency_unique
         (exec_update (same_request actorID route key)
           (\<lambda>r. row_check idempotency_check (r\<lparr>ir_response_user := Some userID\<rparr>)) (idempotency s))))"

section \<open>Approval and rejection\<close>

definition active_role :: "adb \<Rightarrow> uuid \<Rightarrow> user_role option" where
  "active_role s actorID =
     (case select_one (\<lambda>a. acc_id a = actorID \<and> acc_status a = UserActive) (accounts s) of
        None \<Rightarrow> None | Some a \<Rightarrow> acc_role a)"

definition teaches :: "adb \<Rightarrow> uuid \<Rightarrow> uuid \<Rightarrow> bool" where
  "teaches s u g \<longleftrightarrow> list_ex (\<lambda>t. te_group_id t = g \<and> te_user_id t = u) (teachers s)"

definition on_conflict :: "'a result \<Rightarrow> 'a result" where
  "on_conflict r = (case r of Inl _ \<Rightarrow> Inl ErrConflict | Inr x \<Rightarrow> Inr x)"

definition make_student :: "account_row \<Rightarrow> account_row" where
  "make_student a = a\<lparr>acc_status := UserActive, acc_role := Some Student, acc_rejection_reason := None\<rparr>"

text \<open>The row that the approval joins: the record with the identity of the user.\<close>

definition linkable :: "(string \<Rightarrow> string) \<Rightarrow> adb \<Rightarrow> uuid \<Rightarrow> uuid \<Rightarrow> member_row option" where
  "linkable ci s userID recordID =
     (case (select_one (\<lambda>m. sm_id m = recordID) (members s), identity_of s userID) of
        (Some m, Some g) \<Rightarrow>
          if sm_status m = Unclaimed \<and> ci (sm_login m) = ci (gi_login g)
             \<and> \<not> list_ex (\<lambda>l. sm_user_id l = Some userID \<and> sm_status l = Claimed) (members s)
          then Some m else None
      | _ \<Rightarrow> None)"

definition approvable :: "adb \<Rightarrow> uuid \<Rightarrow> bool" where
  "approvable s userID \<longleftrightarrow>
     (case account s userID of
        None \<Rightarrow> False
      | Some a \<Rightarrow> acc_status a = UserPending \<or> acc_status a = UserActive \<and> acc_role a = Some Student)"

definition ApproveStudent ::
  "(string \<Rightarrow> string) \<Rightarrow> (nat \<Rightarrow> time) \<Rightarrow> uuid \<Rightarrow> uuid \<Rightarrow> uuid \<Rightarrow> uuid \<Rightarrow> uuid \<Rightarrow> adb \<Rightarrow> adb \<times> User result" where
  "ApproveStudent ci clk i actorID userID recordID key s =
     (case active_role s actorID of
        None \<Rightarrow> (s, Inl ErrForbidden)
      | Some actorRole \<Rightarrow>
          if actorRole \<noteq> Admin \<and> actorRole \<noteq> Teacher then (s, Inl ErrForbidden)
          else
            (case beginIdempotency (clk 0) i actorID ''pending-link.approve'' key (userID @ ''|'' @ recordID) s of
               Inl e \<Rightarrow> (s, Inl e)
             | Inr (_, Some replay) \<Rightarrow> (s, queryUser s replay)
             | Inr (s1, None) \<Rightarrow>
                 then_user s
                   (if \<not> approvable s1 userID then Inl ErrConflict
                    else
                      (case linkable ci s1 userID recordID of
                         None \<Rightarrow> Inl ErrConflict
                       | Some m \<Rightarrow>
                           if actorRole = Teacher \<and> \<not> teaches s1 actorID (sm_group_id m) then Inl ErrForbidden
                           else
                             bind_result (on_conflict (statement (update_members ci (\<lambda>m. sm_id m = recordID)
                                 (claim userID (clk 1)) s1))) (\<lambda>s2.
                             bind_result (on_conflict (statement (update_accounts (clk 2) (\<lambda>a. acc_id a = userID)
                                 make_student s2))) (\<lambda>s3.
                             bind_result (finishIdempotency actorID ''pending-link.approve'' key userID s3) (\<lambda>s4.
                             bind_result (on_conflict (statement (commit (\<lambda>u. u = userID) s4))) (\<lambda>s5.
                               Inr (s5, userID)))))))))"

definition make_rejected :: "string \<Rightarrow> account_row \<Rightarrow> account_row" where
  "make_rejected reason a =
     a\<lparr>acc_status := UserRejected, acc_role := None, acc_rejection_reason := Some reason\<rparr>"

definition RejectUser ::
  "(string \<Rightarrow> string) \<Rightarrow> (nat \<Rightarrow> time) \<Rightarrow> uuid \<Rightarrow> uuid \<Rightarrow> uuid \<Rightarrow> string \<Rightarrow> uuid \<Rightarrow> adb \<Rightarrow> adb \<times> User result" where
  "RejectUser ci clk i actorID userID reason key s =
     (case active_role s actorID of
        None \<Rightarrow> (s, Inl ErrForbidden)
      | Some actorRole \<Rightarrow>
          if actorRole \<noteq> Admin \<and> actorRole \<noteq> Teacher then (s, Inl ErrForbidden)
          else
            (case beginIdempotency (clk 0) i actorID ''pending-link.reject'' key (userID @ ''|'' @ reason) s of
               Inl e \<Rightarrow> (s, Inl e)
             | Inr (_, Some replay) \<Rightarrow> (s, queryUser s replay)
             | Inr (s1, None) \<Rightarrow>
                 then_user s
                   (case (account s1 userID, identity_of s1 userID) of
                      (Some a, Some g) \<Rightarrow>
                        if acc_status a \<noteq> UserPending then Inl ErrConflict
                        else if actorRole = Teacher
                          \<and> \<not> list_ex (\<lambda>m. ci (sm_login m) = ci (gi_login g) \<and> teaches s1 actorID (sm_group_id m)) (members s1)
                        then Inl ErrForbidden
                        else
                          bind_result (on_conflict (statement (update_accounts (clk 1) (\<lambda>a. acc_id a = userID)
                              (make_rejected reason) s1))) (\<lambda>s2.
                          bind_result (finishIdempotency actorID ''pending-link.reject'' key userID s2) (\<lambda>s3.
                          bind_result (on_conflict (statement (commit (\<lambda>u. u = userID) s3))) (\<lambda>s4.
                            Inr (s4, userID))))
                    | _ \<Rightarrow> Inl ErrConflict)))"

section \<open>Administration\<close>

record ManagedUser =
  mu_id :: uuid
  mu_status :: user_status
  mu_role :: "user_role option"
  mu_display_name :: "string option"
  mu_github_id :: int
  mu_github_login :: string
  mu_created_at :: time

definition isAdmin :: "adb \<Rightarrow> uuid \<Rightarrow> bool" where
  "isAdmin s i \<longleftrightarrow>
     list_ex (\<lambda>a. acc_id a = i \<and> acc_status a = UserActive \<and> acc_role a = Some Admin) (accounts s)"

definition managed :: "account_row \<Rightarrow> identity_row \<Rightarrow> ManagedUser" where
  "managed a g =
     \<lparr>mu_id = acc_id a, mu_status = acc_status a, mu_role = acc_role a, mu_display_name = acc_display_name a,
      mu_github_id = gi_github_user_id g, mu_github_login = gi_login g, mu_created_at = acc_created_at a\<rparr>"

definition admin_user :: "adb \<Rightarrow> uuid \<Rightarrow> ManagedUser result" where
  "admin_user s i =
     (case (account s i, identity_of s i) of (Some a, Some g) \<Rightarrow> Inr (managed a g) | _ \<Rightarrow> Inl ErrNoRows)"

definition ListUsers :: "adb \<Rightarrow> uuid \<Rightarrow> ManagedUser list result" where
  "ListUsers s actor =
     (if \<not> isAdmin s actor then Inl ErrForbidden
      else
        Inr (take 500 (slice_stable (\<lambda>a b. mu_created_at a > mu_created_at b)
          (concat (map (\<lambda>a. map (managed a) (filter (\<lambda>g. gi_user_id g = acc_id a) (identities s))) (accounts s))))))"

definition parse_role :: "string \<Rightarrow> user_role option" where
  "parse_role r =
     (if r = ''student'' then Some Student else if r = ''teacher'' then Some Teacher
      else if r = ''admin'' then Some Admin else None)"

definition SetRole :: "time \<Rightarrow> uuid \<Rightarrow> uuid \<Rightarrow> string \<Rightarrow> adb \<Rightarrow> adb \<times> ManagedUser result" where
  "SetRole now actor target role s =
     (if \<not> isAdmin s actor then (s, Inl ErrForbidden)
      else
        (case parse_role role of
           None \<Rightarrow> (s, Inl (ErrText ''invalid role''))
         | Some r \<Rightarrow>
             (case Option.bind
                 (update_accounts now (\<lambda>a. acc_id a = target)
                    (\<lambda>a. a\<lparr>acc_status := UserActive, acc_role := Some r, acc_rejection_reason := None,
                           acc_blocked_at := None\<rparr>) s)
                 (commit (\<lambda>u. u = target)) of
                None \<Rightarrow> (s, Inl ErrDatabase)
              | Some s' \<Rightarrow> (s', admin_user s' target))))"

definition revoke_session :: "time \<Rightarrow> session_row \<Rightarrow> session_row" where
  "revoke_session now w =
     w\<lparr>ws_revoked_at := (case ws_revoked_at w of None \<Rightarrow> Some now | Some t \<Rightarrow> Some t)\<rparr>"

definition make_blocked :: "time \<Rightarrow> account_row \<Rightarrow> account_row" where
  "make_blocked now a = a\<lparr>acc_status := UserBlocked, acc_blocked_at := Some now, acc_rejection_reason := None\<rparr>"

definition Block :: "(nat \<Rightarrow> time) \<Rightarrow> uuid \<Rightarrow> uuid \<Rightarrow> adb \<Rightarrow> adb \<times> ManagedUser result" where
  "Block clk actor target s =
     (if \<not> isAdmin s actor \<or> actor = target then (s, Inl ErrForbidden)
      else
        (let open_target = (\<lambda>a. acc_id a = target \<and> acc_status a \<noteq> UserBlocked) in
         case update_accounts (clk 0) open_target (make_blocked (clk 0)) s of
           None \<Rightarrow> (s, Inl ErrConflict)
         | Some s1 \<Rightarrow>
             if rows_affected open_target (accounts s) \<noteq> 1 then (s, Inl ErrConflict)
             else
               (case Option.bind (update_sessions (\<lambda>w. ws_user_id w = target) (revoke_session (clk 1)) s1)
                   (commit (\<lambda>u. u = target)) of
                  None \<Rightarrow> (s, Inl ErrDatabase)
                | Some s2 \<Rightarrow> (s2, admin_user s2 target))))"

definition AssignTeacher :: "uuid \<Rightarrow> uuid \<Rightarrow> uuid \<Rightarrow> adb \<Rightarrow> adb result" where
  "AssignTeacher actor user groupID s =
     (if \<not> isAdmin s actor then Inl ErrForbidden
      else if \<not> list_ex (\<lambda>a. acc_id a = user \<and> acc_status a = UserActive
                 \<and> (acc_role a = Some Teacher \<or> acc_role a = Some Admin)) (accounts s)
      then Inl ErrConflict
      else
        (case insert_teacher \<lparr>te_group_id = groupID, te_user_id = user, te_assigned_by = Some actor\<rparr> s of
           Some (s', True) \<Rightarrow> Inr s'
         | _ \<Rightarrow> Inl ErrConflict))"

section \<open>Rosters\<close>

datatype roster_action = ActCreate | ActUpdate | ActUnchanged

record RosterStudentPreview =
  rsp_full_name :: string
  rsp_github_login :: string
  rsp_action :: roster_action

record RosterGroupPreview =
  rgp_code :: string
  rgp_name :: string
  rgp_action :: roster_action
  rgp_students :: "RosterStudentPreview list"

record RosterSummary =
  su_groups_created :: nat
  su_groups_updated :: nat
  su_students_created :: nat
  su_students_updated :: nat
  su_unchanged :: nat

record RosterPreview =
  rp_organization :: Organization
  rp_groups :: "RosterGroupPreview list"
  rp_summary :: RosterSummary

definition canManageRosters :: "adb \<Rightarrow> uuid \<Rightarrow> bool" where
  "canManageRosters s actor \<longleftrightarrow>
     list_ex (\<lambda>a. acc_id a = actor \<and> acc_status a = UserActive
       \<and> (acc_role a = Some Teacher \<or> acc_role a = Some Admin)) (accounts s)"

text \<open>\<open>where github_login_expected=$1 and status<>'archived' order by updated_at desc limit 1\<close>.\<close>

definition current_record :: "(string \<Rightarrow> string) \<Rightarrow> string \<Rightarrow> adb \<Rightarrow> member_row option" where
  "current_record ci login s =
     (case slice_stable (\<lambda>a b. sm_updated_at a > sm_updated_at b)
         (filter (\<lambda>m. ci (sm_login m) = ci login \<and> sm_status m \<noteq> Archived) (members s)) of
        [] \<Rightarrow> None | m # _ \<Rightarrow> Some m)"

definition preview_student ::
  "(string \<Rightarrow> string) \<Rightarrow> (string \<Rightarrow> string \<Rightarrow> bool) \<Rightarrow> adb \<Rightarrow> RosterGroup \<Rightarrow> RosterStudent \<Rightarrow> RosterStudentPreview" where
  "preview_student ci eqfold s g st =
     \<lparr>rsp_full_name = rst_full_name st, rsp_github_login = rst_github_login st,
      rsp_action =
        (case current_record ci (rst_github_login st) s of
           None \<Rightarrow> ActCreate
         | Some m \<Rightarrow>
             (case select_one (\<lambda>q. gr_id q = sm_group_id m) (groups s) of
                None \<Rightarrow> ActCreate
              | Some q \<Rightarrow>
                  if (case sm_full_name m of None \<Rightarrow> '''' | Some n \<Rightarrow> n) = rst_full_name st
                     \<and> eqfold (gr_code q) (rg_code g)
                  then ActUnchanged else ActUpdate))\<rparr>"

definition preview_group ::
  "(string \<Rightarrow> string) \<Rightarrow> (string \<Rightarrow> string \<Rightarrow> bool) \<Rightarrow> adb \<Rightarrow> RosterGroup \<Rightarrow> RosterGroupPreview" where
  "preview_group ci eqfold s g =
     \<lparr>rgp_code = rg_code g, rgp_name = rg_name g,
      rgp_action =
        (case select_one (\<lambda>q. ci (gr_code q) = ci (rg_code g)) (groups s) of
           None \<Rightarrow> ActCreate
         | Some q \<Rightarrow> if gr_name q = rg_name g then ActUnchanged else ActUpdate),
      rgp_students = map (preview_student ci eqfold s g) (rg_students g)\<rparr>"

definition count_action :: "roster_action \<Rightarrow> roster_action list \<Rightarrow> nat" where
  "count_action x xs = length (filter (\<lambda>y. y = x) xs)"

definition PreviewRoster ::
  "(string \<Rightarrow> string) \<Rightarrow> (string \<Rightarrow> string \<Rightarrow> bool) \<Rightarrow> uuid \<Rightarrow> Document \<Rightarrow> adb \<Rightarrow> RosterPreview result" where
  "PreviewRoster ci eqfold actor document s =
     (if \<not> canManageRosters s actor then Inl ErrForbidden
      else
        (let gs = map (preview_group ci eqfold s) (rd_groups document);
             ga = map rgp_action gs;
             sa = map rsp_action (concat (map rgp_students gs)) in
         Inr \<lparr>rp_organization = rd_organization document, rp_groups = gs,
              rp_summary =
                \<lparr>su_groups_created = count_action ActCreate ga, su_groups_updated = count_action ActUpdate ga,
                 su_students_created = count_action ActCreate sa, su_students_updated = count_action ActUpdate sa,
                 su_unchanged = count_action ActUnchanged sa\<rparr>\<rparr>))"

text \<open>
  The claim of a record by an account that already signed in: the account is looked up by the login
  of its identity, it is pending or active, has no other role than student and no other record.
\<close>

definition claimant :: "(string \<Rightarrow> string) \<Rightarrow> uuid \<Rightarrow> string \<Rightarrow> adb \<Rightarrow> uuid option" where
  "claimant ci recordID login s =
     map_option gi_user_id
       (select_one
         (\<lambda>g. ci (gi_login g) = ci login
            \<and> (case account s (gi_user_id g) of
                 None \<Rightarrow> False
               | Some a \<Rightarrow> (acc_status a = UserPending \<or> acc_status a = UserActive)
                   \<and> (acc_role a = None \<or> acc_role a = Some Student))
            \<and> \<not> list_ex (\<lambda>l. sm_user_id l = Some (gi_user_id g) \<and> sm_id l \<noteq> recordID) (members s))
         (identities s))"

definition activate_student :: "time \<Rightarrow> account_row \<Rightarrow> account_row" where
  "activate_student now a =
     a\<lparr>acc_status := UserActive, acc_role := Some Student, acc_updated_at := now, acc_version := acc_version a + 1\<rparr>"

definition new_member :: "time \<Rightarrow> uuid \<Rightarrow> uuid \<Rightarrow> RosterStudent \<Rightarrow> member_row" where
  "new_member now i groupID st =
     \<lparr>sm_id = i, sm_group_id = groupID, sm_user_id = None, sm_login = rst_github_login st, sm_status = Unclaimed,
      sm_source = GroupImport, sm_full_name = Some (rst_full_name st), sm_updated_at = now, sm_archived_at = None,
      sm_version = 1\<rparr>"

definition upsert_student ::
  "(string \<Rightarrow> string) \<Rightarrow> time \<Rightarrow> uuid \<Rightarrow> uuid \<Rightarrow> RosterStudent \<Rightarrow> adb \<Rightarrow> (adb \<times> uuid) result" where
  "upsert_student ci now i groupID st s =
     (case current_record ci (rst_github_login st) s of
        None \<Rightarrow>
          bind_result (statement (insert_member ci (new_member now i groupID st) s)) (\<lambda>s'. Inr (s', i))
      | Some m \<Rightarrow>
          bind_result (statement (update_members ci (\<lambda>q. sm_id q = sm_id m)
             (\<lambda>q. q\<lparr>sm_group_id := groupID, sm_full_name := Some (rst_full_name st), sm_updated_at := now,
                    sm_version := sm_version q + 1\<rparr>) s)) (\<lambda>s'.
          Inr (s', sm_id m)))"

definition owner_of_record :: "uuid \<Rightarrow> adb \<Rightarrow> account_row \<Rightarrow> bool" where
  "owner_of_record recordID s a \<longleftrightarrow>
     list_ex (\<lambda>m. sm_id m = recordID \<and> sm_user_id m = Some (acc_id a)) (members s)
   \<and> (acc_status a = UserPending \<or> acc_role a = Some Student)"

text \<open>The loops also collect the users whose status a statement assigned, for the check at the commit.\<close>

definition apply_student ::
  "(string \<Rightarrow> string) \<Rightarrow> (nat \<Rightarrow> time) \<Rightarrow> uuid \<Rightarrow> uuid \<Rightarrow> RosterStudent \<Rightarrow> adb \<Rightarrow> (adb \<times> uuid list) result" where
  "apply_student ci clk i groupID st s =
     bind_result (upsert_student ci (clk 0) i groupID st s) (\<lambda>(s1, recordID).
     bind_result
       (case claimant ci recordID (rst_github_login st) s1 of
          None \<Rightarrow> Inr s1
        | Some u \<Rightarrow>
            statement (update_members ci (\<lambda>m. sm_id m = recordID \<and> sm_user_id m = None) (claim u (clk 1)) s1)) (\<lambda>s2.
     bind_result (statement (update_accounts (clk 2) (owner_of_record recordID s2) (activate_student (clk 2)) s2)) (\<lambda>s3.
       Inr (s3, map acc_id (filter (owner_of_record recordID s2) (accounts s2))))))"

fun apply_students ::
  "(string \<Rightarrow> string) \<Rightarrow> (nat \<Rightarrow> nat \<Rightarrow> time) \<Rightarrow> (nat \<Rightarrow> uuid) \<Rightarrow> uuid \<Rightarrow> nat \<Rightarrow> uuid list \<Rightarrow> RosterStudent list \<Rightarrow> adb
   \<Rightarrow> (adb \<times> nat \<times> uuid list) result" where
  "apply_students ci clk uid groupID n touched [] s = Inr (s, n, touched)"
| "apply_students ci clk uid groupID n touched (st # sts) s =
     bind_result (apply_student ci (clk n) (uid n) groupID st s) (\<lambda>(s', ts).
       apply_students ci clk uid groupID (Suc n) (touched @ ts) sts s')"

definition apply_group ::
  "(string \<Rightarrow> string) \<Rightarrow> (nat \<Rightarrow> nat \<Rightarrow> time) \<Rightarrow> (nat \<Rightarrow> uuid) \<Rightarrow> uuid \<Rightarrow> uuid \<Rightarrow> nat \<Rightarrow> uuid list \<Rightarrow> RosterGroup \<Rightarrow> adb
   \<Rightarrow> (adb \<times> nat \<times> uuid list) result" where
  "apply_group ci clk uid actor organizationID n touched g s =
     bind_result (statement (upsert_group ci
         \<lparr>gr_id = uid n, gr_organization_id = Some organizationID, gr_code = rg_code g, gr_name = rg_name g,
          gr_is_demo = False, gr_archived_at = None, gr_updated_at = clk n 0, gr_version = 1\<rparr> s)) (\<lambda>(s1, groupID).
     bind_result (statement (insert_teacher \<lparr>te_group_id = groupID, te_user_id = actor, te_assigned_by = Some actor\<rparr> s1)) (\<lambda>(s2, _).
     apply_students ci clk uid groupID (Suc n) touched (rg_students g) s2))"

fun apply_groups ::
  "(string \<Rightarrow> string) \<Rightarrow> (nat \<Rightarrow> nat \<Rightarrow> time) \<Rightarrow> (nat \<Rightarrow> uuid) \<Rightarrow> uuid \<Rightarrow> uuid \<Rightarrow> nat \<Rightarrow> uuid list \<Rightarrow> RosterGroup list \<Rightarrow> adb
   \<Rightarrow> (adb \<times> uuid list) result" where
  "apply_groups ci clk uid actor organizationID n touched [] s = Inr (s, touched)"
| "apply_groups ci clk uid actor organizationID n touched (g # gs) s =
     bind_result (apply_group ci clk uid actor organizationID n touched g s) (\<lambda>(s', n', touched').
       apply_groups ci clk uid actor organizationID n' touched' gs s')"

definition ApplyRoster_tx ::
  "(string \<Rightarrow> string) \<Rightarrow> (nat \<Rightarrow> nat \<Rightarrow> time) \<Rightarrow> (nat \<Rightarrow> uuid) \<Rightarrow> uuid \<Rightarrow> Document \<Rightarrow> adb \<Rightarrow> adb result" where
  "ApplyRoster_tx ci clk uid actor document s =
     bind_result (statement (upsert_organization ci
         \<lparr>og_id = uid 0, og_github_login = ro_github_login (rd_organization document),
          og_name = ro_name (rd_organization document), og_updated_at = clk 0 0\<rparr> s)) (\<lambda>(s1, organizationID).
     bind_result (apply_groups ci clk uid actor organizationID 1 [] (rd_groups document) s1) (\<lambda>(s2, touched).
     statement (commit (List.member touched) s2)))"

definition ApplyRoster ::
  "(string \<Rightarrow> string) \<Rightarrow> (string \<Rightarrow> string \<Rightarrow> bool) \<Rightarrow> (nat \<Rightarrow> nat \<Rightarrow> time) \<Rightarrow> (nat \<Rightarrow> uuid) \<Rightarrow> uuid \<Rightarrow> Document \<Rightarrow> adb
   \<Rightarrow> (adb \<times> RosterPreview) result" where
  "ApplyRoster ci eqfold clk uid actor document s =
     bind_result (PreviewRoster ci eqfold actor document s) (\<lambda>preview.
     bind_result (ApplyRoster_tx ci clk uid actor document s) (\<lambda>s'. Inr (s', preview)))"

end
