(* ===== verification/Imports.thy ===== *)
theory Imports
  imports Accounts Storage_Keys
begin

text \<open>
  Imports of archives and the submissions they become: \<open>infrastructure/postgres/imports.go\<close>, and from
  \<open>storage.go\<close> beside it the creation of versions and the access to stored submissions.

  The state holds the account tables as the component \<open>base\<close> and the tables of labs, imports, items,
  versions and receipts with the columns the code uses.  \<open>hide_seek_versions\<close> lists the versions that
  have a defense in the hide-and-seek mode, all that this code reads of the defenses.  \<open>eqfold\<close> is
  \<open>strings.EqualFold\<close>, \<open>collate\<close> the order of texts in the database, \<open>json_valid\<close> and \<open>json_object\<close>
  decide whether text is JSON and a JSON object.  The rows of \<open>submission_versions\<close> are immutable by
  trigger, so that the only statement on them is \<open>insert\<close>.
\<close>

section \<open>Tables\<close>

datatype import_action = CreateStudentAndVersion | CreateVersionAction | SkipDuplicate

record course_row =
  la_id :: uuid
  la_group_id :: uuid
  la_code :: string
  la_name :: string
  la_active :: bool

record import_row =
  im_id :: uuid
  im_group_id :: uuid
  im_kind :: string
  im_state :: import_state
  im_uploaded_by :: uuid
  im_object_key :: string
  im_sha256 :: bytes
  im_compressed :: int
  im_uncompressed :: int
  im_filename :: "string option"
  im_reviewed_by :: "uuid option"
  im_reviewed_at :: "time option"
  im_reviewed_sha256 :: "bytes option"
  im_checklist :: "string option"
  im_rejection_reason :: "string option"
  im_created_at :: time
  im_updated_at :: time
  im_version :: int

record item_row =
  ii_id :: uuid
  ii_import_id :: uuid
  ii_student_record_id :: uuid
  ii_lab_id :: uuid
  ii_login :: string
  ii_project_path :: string
  ii_action :: import_action
  ii_file_count :: int
  ii_size :: int
  ii_version_id :: "uuid option"

record version_row =
  vr_id :: uuid
  vr_student_record_id :: uuid
  vr_lab_id :: uuid
  vr_no :: int
  vr_source :: string
  vr_import_id :: uuid
  vr_object_key :: string
  vr_sha256 :: bytes
  vr_manifest :: string
  vr_created_at :: time
  vr_created_by :: uuid
  vr_label :: string
  vr_reference :: "string option"
  vr_commit_sha :: "string option"
  vr_approved_by :: "uuid option"

record receipt_row =
  rc_id :: uuid
  rc_actor_id :: uuid
  rc_import_id :: uuid

record idb =
  base :: adb
  courses :: "course_row list"
  import_rows :: "import_row list"
  items :: "item_row list"
  versions :: "version_row list"
  receipts :: "receipt_row list"
  hide_seek_versions :: "uuid list"

section \<open>Statements\<close>

definition import_check :: "import_row \<Rightarrow> bool" where
  "import_check i \<longleftrightarrow>
     (im_kind i = ''group'' \<or> im_kind i = ''lab'')
   \<and> length (im_sha256 i) = 32 \<and> im_compressed i \<ge> 0 \<and> im_uncompressed i \<ge> 0 \<and> im_version i \<ge> 1
   \<and> (case im_reviewed_sha256 i of None \<Rightarrow> True | Some h \<Rightarrow> length h = 32)
   \<and> (case im_filename i of None \<Rightarrow> True | Some n \<Rightarrow> 1 \<le> rune_count n \<and> rune_count n \<le> 255)
   \<and> (im_state i = ImportApproved \<or> im_state i = ImportApplying \<or> im_state i = ImportCompleted \<longrightarrow>
        im_reviewed_by i \<noteq> None \<and> im_reviewed_at i \<noteq> None \<and> im_reviewed_sha256 i \<noteq> None)
   \<and> (im_state i = ImportRejected \<longrightarrow> im_rejection_reason i \<noteq> None)
   \<and> (im_state i = ImportApplying \<or> im_state i = ImportCompleted \<longrightarrow> im_reviewed_sha256 i = Some (im_sha256 i))"

definition imports_unique :: "import_row list \<Rightarrow> bool" where
  "imports_unique xs \<longleftrightarrow> unique_on (\<lambda>_. True) im_id xs \<and> unique_on (\<lambda>_. True) im_object_key xs"

definition import_trigger :: "time \<Rightarrow> import_row \<Rightarrow> import_row \<Rightarrow> import_row option" where
  "import_trigger now old new =
     (if im_state new = im_state old then Some new
      else if \<not> validate_import_transition (im_state old) (im_state new) then None
      else Some (new\<lparr>im_version := im_version old + 1, im_updated_at := now\<rparr>))"

definition update_imports ::
  "time \<Rightarrow> (import_row \<Rightarrow> bool) \<Rightarrow> (import_row \<Rightarrow> import_row) \<Rightarrow> idb \<Rightarrow> idb option" where
  "update_imports now c f s =
     map_option (\<lambda>xs. s\<lparr>import_rows := xs\<rparr>)
       (checked imports_unique
         (exec_update c
           (\<lambda>old. Option.bind (import_trigger now old (f old))
              (row_check (\<lambda>i. import_check i \<and> references acc_id (im_reviewed_by i) (accounts (base s))))) (import_rows s)))"

definition insert_import :: "import_row \<Rightarrow> idb \<Rightarrow> idb option" where
  "insert_import i s =
     (if import_check i \<and> exists_id gr_id (im_group_id i) (groups (base s))
         \<and> exists_id acc_id (im_uploaded_by i) (accounts (base s)) \<and> imports_unique (import_rows s @ [i])
      then Some (s\<lparr>import_rows := import_rows s @ [i]\<rparr>) else None)"

definition item_check :: "item_row \<Rightarrow> bool" where
  "item_check x \<longleftrightarrow>
     ii_file_count x \<ge> 0 \<and> ii_size x \<ge> 0
   \<and> ii_project_path x \<noteq> '''' \<and> \<not> has_prefix (ii_project_path x) ''/''
   \<and> list_all (\<lambda>e. e \<noteq> ''.'' \<and> e \<noteq> ''..'') (split_byte (CHR ''/'') (ii_project_path x))"

definition items_unique :: "item_row list \<Rightarrow> bool" where
  "items_unique xs \<longleftrightarrow>
     unique_on (\<lambda>_. True) ii_id xs \<and> unique_on (\<lambda>_. True) (\<lambda>x. (ii_import_id x, ii_project_path x)) xs
   \<and> unique_on (\<lambda>_. True) (\<lambda>x. (ii_import_id x, ii_student_record_id x, ii_lab_id x)) xs
   \<and> unique_on (\<lambda>x. ii_version_id x \<noteq> None) ii_version_id xs"

definition update_items :: "(item_row \<Rightarrow> bool) \<Rightarrow> (item_row \<Rightarrow> item_row) \<Rightarrow> idb \<Rightarrow> idb option" where
  "update_items c f s =
     map_option (\<lambda>xs. s\<lparr>items := xs\<rparr>)
       (checked items_unique
         (exec_update c
           (\<lambda>x. row_check (\<lambda>x. item_check x \<and> references vr_id (ii_version_id x) (versions s)) (f x)) (items s)))"

definition insert_item :: "item_row \<Rightarrow> idb \<Rightarrow> idb option" where
  "insert_item x s =
     (if item_check x \<and> exists_id im_id (ii_import_id x) (import_rows s)
         \<and> exists_id sm_id (ii_student_record_id x) (members (base s)) \<and> exists_id la_id (ii_lab_id x) (courses s)
         \<and> references vr_id (ii_version_id x) (versions s) \<and> items_unique (items s @ [x])
      then Some (s\<lparr>items := items s @ [x]\<rparr>) else None)"

definition version_check :: "(string \<Rightarrow> bool) \<Rightarrow> version_row \<Rightarrow> bool" where
  "version_check json_object v \<longleftrightarrow>
     vr_no v > 0 \<and> length (vr_sha256 v) = 32 \<and> json_object (vr_manifest v) \<and> rune_count (vr_label v) \<le> 100
   \<and> (case vr_reference v of None \<Rightarrow> True | Some r \<Rightarrow> rune_count r \<le> 255)"

definition versions_unique :: "version_row list \<Rightarrow> bool" where
  "versions_unique xs \<longleftrightarrow>
     unique_on (\<lambda>_. True) vr_id xs \<and> unique_on (\<lambda>_. True) vr_object_key xs
   \<and> unique_on (\<lambda>_. True) (\<lambda>v. (vr_student_record_id v, vr_lab_id v, vr_no v)) xs"

definition insert_version :: "(string \<Rightarrow> bool) \<Rightarrow> version_row \<Rightarrow> idb \<Rightarrow> idb option" where
  "insert_version json_object v s =
     (if version_check json_object v \<and> exists_id sm_id (vr_student_record_id v) (members (base s))
         \<and> exists_id la_id (vr_lab_id v) (courses s) \<and> exists_id im_id (vr_import_id v) (import_rows s)
         \<and> exists_id acc_id (vr_created_by v) (accounts (base s)) \<and> references acc_id (vr_approved_by v) (accounts (base s))
         \<and> versions_unique (versions s @ [v])
      then Some (s\<lparr>versions := versions s @ [v]\<rparr>) else None)"

definition insert_receipt :: "receipt_row \<Rightarrow> idb \<Rightarrow> idb option" where
  "insert_receipt r s =
     (if exists_id acc_id (rc_actor_id r) (accounts (base s)) \<and> exists_id im_id (rc_import_id r) (import_rows s)
         \<and> unique_on (\<lambda>_. True) rc_id (receipts s @ [r])
      then Some (s\<lparr>receipts := receipts s @ [r]\<rparr>) else None)"

definition insert_record :: "(string \<Rightarrow> string) \<Rightarrow> member_row \<Rightarrow> idb \<Rightarrow> idb option" where
  "insert_record ci m s = map_option (\<lambda>b. s\<lparr>base := b\<rparr>) (insert_member ci m (base s))"

section \<open>Reading\<close>

record ImportItem =
  ivi_id :: uuid
  ivi_student_record_id :: uuid
  ivi_lab_id :: uuid
  ivi_github_login :: string
  ivi_project_path :: string
  ivi_action :: import_action
  ivi_file_count :: int
  ivi_uncompressed_size :: int
  ivi_submission_version_id :: "uuid option"

record Import =
  iv_id :: uuid
  iv_group_id :: uuid
  iv_kind :: string
  iv_state :: import_state
  iv_original_sha256 :: string
  iv_compressed_size :: int
  iv_uncompressed_size :: int
  iv_created_at :: time
  iv_original_filename :: string
  iv_items :: "ImportItem list"

definition staff_role :: "adb \<Rightarrow> uuid \<Rightarrow> uuid \<Rightarrow> bool" where
  "staff_role b actor groupID \<longleftrightarrow>
     list_ex (\<lambda>u. acc_id u = actor \<and> acc_status u = UserActive
       \<and> (acc_role u = Some Admin \<or> acc_role u = Some Teacher \<and> teaches b actor groupID)) (accounts b)"

definition import_by_id :: "idb \<Rightarrow> uuid \<Rightarrow> import_row option" where
  "import_by_id s i = select_one (\<lambda>x. im_id x = i) (import_rows s)"

definition item_view :: "item_row \<Rightarrow> ImportItem" where
  "item_view x =
     \<lparr>ivi_id = ii_id x, ivi_student_record_id = ii_student_record_id x, ivi_lab_id = ii_lab_id x,
      ivi_github_login = ii_login x, ivi_project_path = ii_project_path x, ivi_action = ii_action x,
      ivi_file_count = ii_file_count x, ivi_uncompressed_size = ii_size x, ivi_submission_version_id = ii_version_id x\<rparr>"

definition may_see_import :: "adb \<Rightarrow> uuid \<Rightarrow> import_row \<Rightarrow> bool" where
  "may_see_import b actor i \<longleftrightarrow>
     list_ex (\<lambda>u. acc_id u = actor \<and> acc_status u = UserActive \<and> im_uploaded_by i = actor) (accounts b)
   \<or> staff_role b actor (im_group_id i)"

definition Get_import :: "(string \<Rightarrow> string \<Rightarrow> bool) \<Rightarrow> uuid \<Rightarrow> uuid \<Rightarrow> idb \<Rightarrow> Import result" where
  "Get_import collate actor i s =
     (case import_by_id s i of
        None \<Rightarrow> Inl ErrForbidden
      | Some x \<Rightarrow>
          if \<not> may_see_import (base s) actor x then Inl ErrForbidden
          else
            Inr \<lparr>iv_id = im_id x, iv_group_id = im_group_id x, iv_kind = im_kind x, iv_state = im_state x,
                 iv_original_sha256 = hex_encode (im_sha256 x), iv_compressed_size = im_compressed x,
                 iv_uncompressed_size = im_uncompressed x, iv_created_at = im_created_at x,
                 iv_original_filename = (case im_filename x of None \<Rightarrow> '''' | Some n \<Rightarrow> n),
                 iv_items = map item_view (slice_stable (\<lambda>a b. collate (ii_project_path a) (ii_project_path b))
                   (filter (\<lambda>y. ii_import_id y = i) (items s)))\<rparr>)"

fun get_all :: "(string \<Rightarrow> string \<Rightarrow> bool) \<Rightarrow> uuid \<Rightarrow> idb \<Rightarrow> uuid list \<Rightarrow> Import list result" where
  "get_all collate actor s [] = Inr []"
| "get_all collate actor s (i # is) =
     bind_result (Get_import collate actor i s) (\<lambda>v. bind_result (get_all collate actor s is) (\<lambda>vs. Inr (v # vs)))"

definition ListReviewPending :: "(string \<Rightarrow> string \<Rightarrow> bool) \<Rightarrow> uuid \<Rightarrow> uuid \<Rightarrow> idb \<Rightarrow> Import list result" where
  "ListReviewPending collate actor groupID s =
     get_all collate actor s
       (map im_id (slice_stable (\<lambda>a b. im_created_at a < im_created_at b)
         (filter (\<lambda>i. im_state i = ImportReviewPending \<and> (groupID = '''' \<or> im_group_id i = groupID)
            \<and> staff_role (base s) actor (im_group_id i)) (import_rows s))))"

definition OriginalObject ::
  "(string \<Rightarrow> string \<Rightarrow> bool) \<Rightarrow> uuid \<Rightarrow> uuid \<Rightarrow> idb \<Rightarrow> (Key \<times> string) result" where
  "OriginalObject collate actor i s =
     (if list_ex (\<lambda>u. acc_id u = actor \<and> acc_role u = Some Student) (accounts (base s))
         \<and> list_ex (\<lambda>v. vr_import_id v = i \<and> List.member (hide_seek_versions s) (vr_id v)) (versions s)
      then Inl ErrForbidden
      else
        bind_result (Get_import collate actor i s) (\<lambda>_.
          case import_by_id s i of
            None \<Rightarrow> Inl ErrNoRows
          | Some x \<Rightarrow>
              bind_result (ParseKey (im_object_key x)) (\<lambda>k.
                Inr (k, case im_filename x of None \<Rightarrow> ''archive.zip'' | Some n \<Rightarrow> n))))"

definition ItemTarget :: "uuid \<Rightarrow> string \<Rightarrow> idb \<Rightarrow> (uuid \<times> uuid \<times> uuid) result" where
  "ItemTarget i path s =
     (case select_one (\<lambda>x. ii_import_id x = i \<and> ii_project_path x = path) (items s) of
        None \<Rightarrow> Inl ErrNoRows
      | Some x \<Rightarrow> Inr (ii_id x, ii_student_record_id x, ii_lab_id x))"

text \<open>
  \<open>GitHubImportContext\<close>: what a teacher's client may import, group by group.
\<close>

record GitHubImportStudent =
  gs_github_login :: string
  gs_full_name :: string

record GitHubImportLab =
  gl_code :: string
  gl_name :: string

record GitHubImportGroup =
  gg_id :: uuid
  gg_code :: string
  gg_name :: string
  gg_organization_login :: string
  gg_organization_name :: string
  gg_students :: "GitHubImportStudent list"
  gg_labs :: "GitHubImportLab list"

definition by_two :: "('k \<Rightarrow> 'k \<Rightarrow> bool) \<Rightarrow> ('a \<Rightarrow> 'k) \<Rightarrow> ('a \<Rightarrow> 'k) \<Rightarrow> 'a \<Rightarrow> 'a \<Rightarrow> bool" where
  "by_two lt k l a b \<longleftrightarrow> lt (k a) (k b) \<or> \<not> lt (k b) (k a) \<and> lt (l a) (l b)"

definition github_students :: "(string \<Rightarrow> string \<Rightarrow> bool) \<Rightarrow> idb \<Rightarrow> uuid \<Rightarrow> GitHubImportStudent list" where
  "github_students collate s groupID =
     (let name = (\<lambda>m. case sm_full_name m of None \<Rightarrow> '''' | Some n \<Rightarrow> n) in
      map (\<lambda>m. \<lparr>gs_github_login = sm_login m, gs_full_name = name m\<rparr>)
        (slice_stable (by_two collate (\<lambda>m. if name m = '''' then sm_login m else name m) sm_login)
          (filter (\<lambda>m. sm_group_id m = groupID \<and> sm_status m \<noteq> Archived) (members (base s)))))"

definition github_labs :: "(string \<Rightarrow> string \<Rightarrow> bool) \<Rightarrow> idb \<Rightarrow> uuid \<Rightarrow> GitHubImportLab list" where
  "github_labs collate s groupID =
     map (\<lambda>l. \<lparr>gl_code = la_code l, gl_name = la_name l\<rparr>)
       (slice_stable (\<lambda>a b. collate (la_code a) (la_code b))
         (filter (\<lambda>l. la_group_id l = groupID \<and> la_active l) (courses s)))"

definition GitHubImportContext :: "(string \<Rightarrow> string \<Rightarrow> bool) \<Rightarrow> uuid \<Rightarrow> idb \<Rightarrow> GitHubImportGroup list" where
  "GitHubImportContext collate actor s =
     map (\<lambda>(g, o'). \<lparr>gg_id = gr_id g, gg_code = gr_code g, gg_name = gr_name g,
                      gg_organization_login = og_github_login o', gg_organization_name = og_name o',
                      gg_students = github_students collate s (gr_id g), gg_labs = github_labs collate s (gr_id g)\<rparr>)
       (slice_stable (by_two collate (\<lambda>p. og_github_login (snd p)) (\<lambda>p. gr_code (fst p)))
         (concat (map (\<lambda>g. map (Pair g) (filter (\<lambda>o'. gr_organization_id g = Some (og_id o')) (organizations (base s))))
           (filter (\<lambda>g. gr_archived_at g = None \<and> staff_role (base s) actor (gr_id g)) (groups (base s))))))"

section \<open>Uploads\<close>

definition new_import ::
  "time \<Rightarrow> uuid \<Rightarrow> uuid \<Rightarrow> string \<Rightarrow> import_state \<Rightarrow> uuid \<Rightarrow> Object \<Rightarrow> int \<Rightarrow> string option \<Rightarrow> import_row" where
  "new_import now i groupID kind state actor obj total_size filename =
     \<lparr>im_id = i, im_group_id = groupID, im_kind = kind, im_state = state, im_uploaded_by = actor,
      im_object_key = key_string (ob_key obj), im_sha256 = ob_sha256 obj, im_compressed = ob_size obj,
      im_uncompressed = total_size, im_filename = filename, im_reviewed_by = None, im_reviewed_at = None,
      im_reviewed_sha256 = None, im_checklist = None, im_rejection_reason = None, im_created_at = now,
      im_updated_at = now, im_version = 1\<rparr>"

definition new_item ::
  "uuid \<Rightarrow> uuid \<Rightarrow> uuid \<Rightarrow> uuid \<Rightarrow> string \<Rightarrow> import_action \<Rightarrow> Project \<Rightarrow> item_row" where
  "new_item i importID studentID labID login action p =
     \<lparr>ii_id = i, ii_import_id = importID, ii_student_record_id = studentID, ii_lab_id = labID, ii_login = login,
      ii_project_path = it_project_path (pr_item p), ii_action = action, ii_file_count = int (pr_file_count p),
      ii_size = int (pr_size p), ii_version_id = None\<rparr>"

definition active_lab :: "(string \<Rightarrow> string) \<Rightarrow> idb \<Rightarrow> uuid \<Rightarrow> string \<Rightarrow> course_row option" where
  "active_lab ci s groupID code =
     select_one (\<lambda>l. la_group_id l = groupID \<and> ci (la_code l) = ci code \<and> la_active l) (courses s)"

definition group_record :: "(string \<Rightarrow> string) \<Rightarrow> idb \<Rightarrow> uuid \<Rightarrow> string \<Rightarrow> member_row option" where
  "group_record ci s groupID login =
     select_one (\<lambda>m. sm_group_id m = groupID \<and> ci (sm_login m) = ci login \<and> sm_status m \<noteq> Archived) (members (base s))"

definition unnamed_member :: "time \<Rightarrow> uuid \<Rightarrow> uuid \<Rightarrow> string \<Rightarrow> member_row" where
  "unnamed_member now i groupID login =
     \<lparr>sm_id = i, sm_group_id = groupID, sm_user_id = None, sm_login = login, sm_status = Unclaimed,
      sm_source = GroupImport, sm_full_name = None, sm_updated_at = now, sm_archived_at = None, sm_version = 1\<rparr>"

definition review_item ::
  "(string \<Rightarrow> string) \<Rightarrow> (string \<Rightarrow> string) \<Rightarrow> time \<Rightarrow> uuid \<Rightarrow> uuid \<Rightarrow> uuid \<Rightarrow> uuid \<Rightarrow> Project \<Rightarrow> idb \<Rightarrow> idb result" where
  "review_item ul ci now recordID itemID groupID importID p s =
     (let login = it_login (pr_item p) in
      case active_lab ci s groupID (it_lab_code (pr_item p)) of
        None \<Rightarrow> Inl (ErrText ''unknown lab'')
      | Some lab \<Rightarrow>
          bind_result
            (case group_record ci s groupID (to_lower ul login) of
               Some m \<Rightarrow> Inr (s, sm_id m, CreateVersionAction)
             | None \<Rightarrow>
                 bind_result (statement (insert_record ci (unnamed_member now recordID groupID (to_lower ul login)) s)) (\<lambda>s'.
                   Inr (s', recordID, CreateStudentAndVersion))) (\<lambda>(s1, studentID, action).
          statement (insert_item (new_item itemID importID studentID (la_id lab) login action p) s1)))"

fun review_items ::
  "(string \<Rightarrow> string) \<Rightarrow> (string \<Rightarrow> string) \<Rightarrow> (nat \<Rightarrow> time) \<Rightarrow> (nat \<Rightarrow> uuid) \<Rightarrow> uuid \<Rightarrow> uuid \<Rightarrow> nat \<Rightarrow> Project list \<Rightarrow> idb
   \<Rightarrow> idb result" where
  "review_items ul ci clk uid groupID importID n [] s = Inr s"
| "review_items ul ci clk uid groupID importID n (p # ps) s =
     bind_result (review_item ul ci (clk n) (uid (2 * n)) (uid (2 * n + 1)) groupID importID p s) (\<lambda>s'.
       review_items ul ci clk uid groupID importID (Suc n) ps s')"

definition set_state :: "import_state \<Rightarrow> import_row \<Rightarrow> import_row" where
  "set_state st i = i\<lparr>im_state := st\<rparr>"

definition move_import :: "time \<Rightarrow> uuid \<Rightarrow> import_state \<Rightarrow> idb \<Rightarrow> idb result" where
  "move_import now i st s = statement (update_imports now (\<lambda>x. im_id x = i) (set_state st) s)"

definition CreateReview_tx ::
  "(string \<Rightarrow> string) \<Rightarrow> (string \<Rightarrow> string) \<Rightarrow> (string \<Rightarrow> string \<Rightarrow> bool) \<Rightarrow> (nat \<Rightarrow> time) \<Rightarrow> (nat \<Rightarrow> uuid) \<Rightarrow> uuid \<Rightarrow> uuid \<Rightarrow> string
   \<Rightarrow> Object \<Rightarrow> Analysis \<Rightarrow> idb \<Rightarrow> (idb \<times> uuid) result" where
  "CreateReview_tx ul ci eqfold clk uid actor groupID kind obj analysis s =
     (case select_one (\<lambda>g. gr_id g = groupID) (groups (base s)) of
        None \<Rightarrow> Inl ErrForbidden
      | Some g \<Rightarrow>
          if \<not> staff_role (base s) actor groupID then Inl ErrForbidden
          else if \<not> eqfold (gr_code g) (mf_group_code (an_manifest analysis))
          then Inl (ErrText ''manifest group mismatch'')
          else
            (let i = uid 0 in
             bind_result (statement (insert_import
                 (new_import (clk 0) i groupID kind ImportReceiving actor obj (an_total analysis) None) s)) (\<lambda>s1.
             bind_result (move_import (clk 1) i ImportStored s1) (\<lambda>s2.
             bind_result (move_import (clk 2) i ImportValidating s2) (\<lambda>s3.
             bind_result (review_items ul ci (\<lambda>n. clk (n + 3)) (\<lambda>n. uid (n + 1)) groupID i 0 (an_projects analysis) s3) (\<lambda>s4.
             bind_result (move_import (clk (length (an_projects analysis) + 3)) i ImportReviewPending s4) (\<lambda>s5.
               Inr (s5, i))))))))"

record StudentUploadContext =
  sc_group_id :: uuid
  sc_group_code :: string
  sc_github_login :: string
  sc_student_record_id :: uuid

definition StudentContext :: "uuid \<Rightarrow> idb \<Rightarrow> StudentUploadContext result" where
  "StudentContext actor s =
     (case select_one (\<lambda>u. acc_id u = actor \<and> acc_status u = UserActive \<and> acc_role u = Some Student) (accounts (base s)) of
        None \<Rightarrow> Inl ErrForbidden
      | Some u \<Rightarrow>
          (case (identity_of (base s) actor,
                 select_one (\<lambda>m. sm_user_id m = Some actor \<and> sm_status m = Claimed) (members (base s))) of
             (Some gi, Some m) \<Rightarrow>
               (case select_one (\<lambda>g. gr_id g = sm_group_id m \<and> gr_archived_at g = None) (groups (base s)) of
                  None \<Rightarrow> Inl ErrForbidden
                | Some g \<Rightarrow>
                    Inr \<lparr>sc_group_id = sm_group_id m, sc_group_code = gr_code g, sc_github_login = gi_login gi,
                         sc_student_record_id = sm_id m\<rparr>)
           | _ \<Rightarrow> Inl ErrForbidden))"

definition CreateStudentReview_tx ::
  "(string \<Rightarrow> string) \<Rightarrow> (string \<Rightarrow> string \<Rightarrow> bool) \<Rightarrow> time \<Rightarrow> uuid \<Rightarrow> uuid \<Rightarrow> uuid \<Rightarrow> string \<Rightarrow> Object \<Rightarrow> Analysis \<Rightarrow> idb
   \<Rightarrow> (idb \<times> uuid) result" where
  "CreateStudentReview_tx ci eqfold now importID itemID actor filename obj analysis s =
     bind_result (StudentContext actor s) (\<lambda>student.
       if \<not> eqfold (sc_group_code student) (mf_group_code (an_manifest analysis))
          \<or> \<not> eqfold (sc_github_login student) (mf_login (an_manifest analysis)) \<or> length (an_projects analysis) \<noteq> 1
       then Inl (ErrText ''student archive identity mismatch'')
       else
         (case active_lab ci s (sc_group_id student) (mf_lab_code (an_manifest analysis)) of
            None \<Rightarrow> Inl (ErrText ''unknown lab'')
          | Some lab \<Rightarrow>
              bind_result (statement (insert_import
                  (new_import now importID (sc_group_id student) ''lab'' ImportReviewPending actor obj (an_total analysis)
                    (Some filename)) s)) (\<lambda>s1.
              bind_result (statement (insert_item
                  (new_item itemID importID (sc_student_record_id student) (la_id lab) (sc_github_login student)
                    CreateVersionAction (hd (an_projects analysis))) s1)) (\<lambda>s2.
                Inr (s2, importID)))))"

text \<open>
  The receipt is optional: a retried upload of the local client under the same receipt finds the
  import that it made before.
\<close>

definition CreateGitHubReview_tx ::
  "(string \<Rightarrow> string) \<Rightarrow> (string \<Rightarrow> string) \<Rightarrow> (string \<Rightarrow> string \<Rightarrow> bool) \<Rightarrow> time \<Rightarrow> uuid \<Rightarrow> uuid \<Rightarrow> uuid \<Rightarrow> uuid \<Rightarrow> string
   \<Rightarrow> Object \<Rightarrow> Analysis \<Rightarrow> uuid option \<Rightarrow> idb \<Rightarrow> (idb \<times> uuid) result" where
  "CreateGitHubReview_tx ul ci eqfold now importID itemID actor groupID repositoryFullName obj analysis receipt s =
     (if length (an_projects analysis) \<noteq> 1 \<or> mf_source (an_manifest analysis) \<noteq> ''teacher_import''
         \<or> mf_commit_sha (an_manifest analysis) = ''''
      then Inl (ErrText ''github archive metadata mismatch'')
      else
        (case (case receipt of None \<Rightarrow> None
               | Some r \<Rightarrow> select_one (\<lambda>q. rc_id q = r \<and> rc_actor_id q = actor) (receipts s)) of
           Some q \<Rightarrow> Inr (s, rc_import_id q)
         | None \<Rightarrow>
             (case select_one (\<lambda>g. gr_id g = groupID \<and> gr_archived_at g = None) (groups (base s)) of
                None \<Rightarrow> Inl ErrForbidden
              | Some g \<Rightarrow>
                  (case select_one (\<lambda>o'. gr_organization_id g = Some (og_id o')) (organizations (base s)) of
                     None \<Rightarrow> Inl ErrForbidden
                   | Some org \<Rightarrow>
                       if \<not> staff_role (base s) actor groupID then Inl ErrForbidden
                       else
                         (let login = to_lower ul (trim_space (mf_login (an_manifest analysis)));
                              labCode = to_lower ul (trim_space (mf_lab_code (an_manifest analysis))) in
                          if \<not> eqfold (gr_code g) (mf_group_code (an_manifest analysis))
                             \<or> \<not> eqfold repositoryFullName (og_github_login org @ ''/'' @ labCode @ ''-'' @ login)
                          then Inl (ErrText ''github repository identity mismatch'')
                          else
                            (case group_record ci s groupID login of
                               None \<Rightarrow> Inl (ErrText ''unknown student'')
                             | Some m \<Rightarrow>
                                 (case active_lab ci s groupID labCode of
                                    None \<Rightarrow> Inl (ErrText ''unknown lab'')
                                  | Some lab \<Rightarrow>
                                      bind_result (statement (insert_import
                                          (new_import now importID groupID ''lab'' ImportReviewPending actor obj (an_total analysis)
                                            (Some (labCode @ ''-'' @ login @ ''-'' @ mf_version_label (an_manifest analysis) @ ''.zip''))) s)) (\<lambda>s1.
                                      bind_result (statement (insert_item
                                          (new_item itemID importID (sm_id m) (la_id lab) login CreateVersionAction (hd (an_projects analysis))) s1)) (\<lambda>s2.
                                      bind_result
                                        (case receipt of
                                           None \<Rightarrow> Inr s2
                                         | Some r \<Rightarrow>
                                             statement (insert_receipt \<lparr>rc_id = r, rc_actor_id = actor, rc_import_id = importID\<rparr> s2)) (\<lambda>s3.
                                        Inr (s3, importID)))))))))))"

definition then_import ::
  "(string \<Rightarrow> string \<Rightarrow> bool) \<Rightarrow> uuid \<Rightarrow> idb \<Rightarrow> (idb \<times> uuid) result \<Rightarrow> idb \<times> Import result" where
  "then_import collate actor s r = (case r of Inl e \<Rightarrow> (s, Inl e) | Inr (s', i) \<Rightarrow> (s', Get_import collate actor i s'))"

definition CreateReview ::
  "(string \<Rightarrow> string) \<Rightarrow> (string \<Rightarrow> string) \<Rightarrow> (string \<Rightarrow> string \<Rightarrow> bool) \<Rightarrow> (string \<Rightarrow> string \<Rightarrow> bool) \<Rightarrow> (nat \<Rightarrow> time) \<Rightarrow> (nat \<Rightarrow> uuid)
   \<Rightarrow> uuid \<Rightarrow> uuid \<Rightarrow> string \<Rightarrow> Object \<Rightarrow> Analysis \<Rightarrow> idb \<Rightarrow> idb \<times> Import result" where
  "CreateReview ul ci eqfold collate clk uid actor groupID kind obj analysis s =
     then_import collate actor s (CreateReview_tx ul ci eqfold clk uid actor groupID kind obj analysis s)"

definition CreateStudentReview ::
  "(string \<Rightarrow> string) \<Rightarrow> (string \<Rightarrow> string \<Rightarrow> bool) \<Rightarrow> (string \<Rightarrow> string \<Rightarrow> bool) \<Rightarrow> time \<Rightarrow> uuid \<Rightarrow> uuid \<Rightarrow> uuid \<Rightarrow> string
   \<Rightarrow> Object \<Rightarrow> Analysis \<Rightarrow> idb \<Rightarrow> idb \<times> Import result" where
  "CreateStudentReview ci eqfold collate now importID itemID actor filename obj analysis s =
     then_import collate actor s (CreateStudentReview_tx ci eqfold now importID itemID actor filename obj analysis s)"

definition CreateGitHubReview ::
  "(string \<Rightarrow> string) \<Rightarrow> (string \<Rightarrow> string) \<Rightarrow> (string \<Rightarrow> string \<Rightarrow> bool) \<Rightarrow> (string \<Rightarrow> string \<Rightarrow> bool) \<Rightarrow> time \<Rightarrow> uuid \<Rightarrow> uuid \<Rightarrow> uuid
   \<Rightarrow> uuid \<Rightarrow> string \<Rightarrow> Object \<Rightarrow> Analysis \<Rightarrow> uuid option \<Rightarrow> idb \<Rightarrow> idb \<times> Import result" where
  "CreateGitHubReview ul ci eqfold collate now importID itemID actor groupID repository obj analysis receipt s =
     then_import collate actor s
       (CreateGitHubReview_tx ul ci eqfold now importID itemID actor groupID repository obj analysis receipt s)"

section \<open>Review and application\<close>

definition Review_tx ::
  "time \<Rightarrow> uuid \<Rightarrow> uuid \<Rightarrow> string \<Rightarrow> string \<Rightarrow> string \<Rightarrow> string \<Rightarrow> idb \<Rightarrow> (idb \<times> uuid) result" where
  "Review_tx now actor i decision sha checklist reason s =
     (if \<not> (case import_by_id s i of None \<Rightarrow> False | Some x \<Rightarrow> staff_role (base s) actor (im_group_id x)) then Inl ErrForbidden
      else
        (case hex_decode sha of
           None \<Rightarrow> Inl (ErrText ''invalid digest'')
         | Some digest \<Rightarrow>
             if length digest \<noteq> 32 then Inl (ErrText ''invalid digest'')
             else if decision = ''reject'' \<and> trim_space reason = '''' then Inl (ErrText ''reason required'')
             else
               (let st = (if decision = ''reject'' then ImportRejected else ImportApproved);
                    c = (\<lambda>x. im_id x = i \<and> im_state x = ImportReviewPending \<and> im_sha256 x = digest) in
                bind_result (statement (update_imports now c
                   (\<lambda>x. x\<lparr>im_state := st, im_reviewed_by := Some actor, im_reviewed_at := Some now,
                          im_reviewed_sha256 := Some digest, im_checklist := Some checklist,
                          im_rejection_reason := nullableString reason\<rparr>) s)) (\<lambda>s'.
                if rows_affected c (import_rows s) \<noteq> 1 then Inl ErrConflict else Inr (s', i)))))"

definition Review ::
  "(string \<Rightarrow> string \<Rightarrow> bool) \<Rightarrow> time \<Rightarrow> uuid \<Rightarrow> uuid \<Rightarrow> string \<Rightarrow> string \<Rightarrow> string \<Rightarrow> string \<Rightarrow> idb \<Rightarrow> idb \<times> Import result" where
  "Review collate now actor i decision sha checklist reason s =
     then_import collate actor s (Review_tx now actor i decision sha checklist reason s)"

record ApplySource =
  as_import_id :: uuid
  as_group_id :: uuid
  as_kind :: string
  as_object_key :: Key

text \<open>\<open>BeginApply\<close> has committed when it parses the key, so that an error of the parser keeps the new state.\<close>

definition BeginApply :: "time \<Rightarrow> uuid \<Rightarrow> uuid \<Rightarrow> idb \<Rightarrow> idb \<times> ApplySource result" where
  "BeginApply now actor i s =
     (case select_one (\<lambda>x. im_id x = i \<and> im_state x = ImportApproved) (import_rows s) of
        None \<Rightarrow> (s, Inl ErrForbidden)
      | Some x \<Rightarrow>
          if \<not> staff_role (base s) actor (im_group_id x) then (s, Inl ErrForbidden)
          else
            (case update_imports now (\<lambda>x. im_id x = i \<and> im_state x = ImportApproved) (set_state ImportApplying) s of
               None \<Rightarrow> (s, Inl ErrDatabase)
             | Some s' \<Rightarrow>
                 if rows_affected (\<lambda>x. im_id x = i \<and> im_state x = ImportApproved) (import_rows s) \<noteq> 1 then (s, Inl ErrConflict)
                 else
                   (s', bind_result (ParseKey (im_object_key x)) (\<lambda>k.
                          Inr \<lparr>as_import_id = i, as_group_id = im_group_id x, as_kind = im_kind x, as_object_key = k\<rparr>))))"

record ApplyItem =
  ai_item_id :: uuid
  ai_student_record_id :: uuid
  ai_lab_id :: uuid
  ai_object_key :: Key
  ai_sha256 :: bytes
  ai_manifest :: bytes
  ai_version_label :: string
  ai_source_reference :: string
  ai_commit_sha :: string

definition same_content :: "uuid \<Rightarrow> uuid \<Rightarrow> bytes \<Rightarrow> version_row \<Rightarrow> bool" where
  "same_content studentID labID h v \<longleftrightarrow> vr_student_record_id v = studentID \<and> vr_lab_id v = labID \<and> vr_sha256 v = h"

text \<open>\<open>order by version_no desc limit 1\<close>.\<close>

definition latest :: "version_row list \<Rightarrow> version_row option" where
  "latest vs = (case slice_stable (\<lambda>a b. vr_no a > vr_no b) vs of [] \<Rightarrow> None | v # _ \<Rightarrow> Some v)"

definition next_version :: "uuid \<Rightarrow> uuid \<Rightarrow> idb \<Rightarrow> int" where
  "next_version studentID labID s =
     fold max (map vr_no (filter (\<lambda>v. vr_student_record_id v = studentID \<and> vr_lab_id v = labID) (versions s))) 0 + 1"

definition apply_item ::
  "(bytes \<Rightarrow> bool) \<Rightarrow> (string \<Rightarrow> bool) \<Rightarrow> time \<Rightarrow> uuid \<Rightarrow> uuid \<Rightarrow> uuid \<Rightarrow> string \<Rightarrow> string \<Rightarrow> uuid \<Rightarrow> ApplyItem \<Rightarrow> idb
   \<Rightarrow> (idb \<times> Key list) result" where
  "apply_item json_valid json_object now newID actor importID source filename reviewedBy item s =
     (if \<not> json_valid (ai_manifest item) then Inl (ErrText ''invalid source manifest'')
      else
        (let dup = latest (filter (same_content (ai_student_record_id item) (ai_lab_id item) (ai_sha256 item)) (versions s));
             number = next_version (ai_student_record_id item) (ai_lab_id item) s;
             label = (if ai_version_label item = '''' then ''version_'' @ format_int number else ai_version_label item);
             reference = (if ai_source_reference item = '''' then filename else ai_source_reference item) in
         bind_result
           (case dup of
              Some v \<Rightarrow> Inr (s, vr_id v, SkipDuplicate, [ai_object_key item])
            | None \<Rightarrow>
                bind_result (statement (insert_version json_object
                  \<lparr>vr_id = newID, vr_student_record_id = ai_student_record_id item, vr_lab_id = ai_lab_id item,
                   vr_no = number, vr_source = source, vr_import_id = importID,
                   vr_object_key = key_string (ai_object_key item), vr_sha256 = ai_sha256 item,
                   vr_manifest = ai_manifest item, vr_created_at = now, vr_created_by = actor, vr_label = label,
                   vr_reference = nullableString reference, vr_commit_sha = nullableString (ai_commit_sha item),
                   vr_approved_by = Some reviewedBy\<rparr> s)) (\<lambda>s'.
                Inr (s', newID, CreateVersionAction, []))) (\<lambda>(s1, versionID, action, dups).
         let c = (\<lambda>x. ii_id x = ai_item_id item \<and> ii_import_id x = importID \<and> ii_version_id x = None) in
         case update_items c (\<lambda>x. x\<lparr>ii_version_id := Some versionID, ii_action := action\<rparr>) s1 of
           None \<Rightarrow> Inl ErrConflict
         | Some s2 \<Rightarrow> if rows_affected c (items s1) \<noteq> 1 then Inl ErrConflict else Inr (s2, dups))))"

fun apply_items ::
  "(bytes \<Rightarrow> bool) \<Rightarrow> (string \<Rightarrow> bool) \<Rightarrow> (nat \<Rightarrow> time) \<Rightarrow> (nat \<Rightarrow> uuid) \<Rightarrow> uuid \<Rightarrow> uuid \<Rightarrow> string \<Rightarrow> string \<Rightarrow> uuid \<Rightarrow> nat
   \<Rightarrow> ApplyItem list \<Rightarrow> idb \<Rightarrow> (idb \<times> Key list) result" where
  "apply_items json_valid json_object clk uid actor importID source filename reviewedBy n [] s = Inr (s, [])"
| "apply_items json_valid json_object clk uid actor importID source filename reviewedBy n (item # rest) s =
     bind_result (apply_item json_valid json_object (clk n) (uid n) actor importID source filename reviewedBy item s) (\<lambda>(s1, ds).
     bind_result (apply_items json_valid json_object clk uid actor importID source filename reviewedBy (Suc n) rest s1) (\<lambda>(s2, ds').
       Inr (s2, ds @ ds')))"

definition CommitApply ::
  "(bytes \<Rightarrow> bool) \<Rightarrow> (string \<Rightarrow> bool) \<Rightarrow> (nat \<Rightarrow> time) \<Rightarrow> (nat \<Rightarrow> uuid) \<Rightarrow> uuid \<Rightarrow> uuid \<Rightarrow> ApplyItem list \<Rightarrow> idb
   \<Rightarrow> (idb \<times> Key list) result" where
  "CommitApply json_valid json_object clk uid actor importID apply_list s =
     (case import_by_id s importID of
        None \<Rightarrow> Inl ErrConflict
      | Some i \<Rightarrow>
          if im_state i \<noteq> ImportApplying then Inl ErrConflict
          else
            (case (account (base s) (im_uploaded_by i), im_reviewed_by i) of
               (Some u, Some reviewedBy) \<Rightarrow>
                 (case acc_role u of
                    None \<Rightarrow> Inl ErrDatabase
                  | Some role \<Rightarrow>
                      bind_result (apply_items json_valid json_object clk uid actor importID
                         (if role = Student then ''student_zip'' else ''teacher_import'')
                         (case im_filename i of None \<Rightarrow> '''' | Some n \<Rightarrow> n) reviewedBy 0 apply_list s) (\<lambda>(s1, dups).
                      let c = (\<lambda>x. im_id x = importID \<and> im_state x = ImportApplying) in
                      case update_imports (clk (length apply_list)) c (set_state ImportCompleted) s1 of
                        None \<Rightarrow> Inl ErrConflict
                      | Some s2 \<Rightarrow> if rows_affected c (import_rows s1) \<noteq> 1 then Inl ErrConflict else Inr (s2, dups)))
             | _ \<Rightarrow> Inl ErrDatabase))"

definition AttachVersion :: "uuid \<Rightarrow> uuid \<Rightarrow> idb \<Rightarrow> idb result" where
  "AttachVersion item version s =
     statement (update_items (\<lambda>x. ii_id x = item \<and> ii_version_id x = None) (\<lambda>x. x\<lparr>ii_version_id := Some version\<rparr>) s)"

definition Finish :: "time \<Rightarrow> uuid \<Rightarrow> bool \<Rightarrow> idb \<Rightarrow> idb result" where
  "Finish now i success s =
     statement (update_imports now (\<lambda>x. im_id x = i \<and> im_state x = ImportApplying)
       (set_state (if success then ImportCompleted else ImportFailed)) s)"

section \<open>Lemmas\<close>

lemma latest_mem:
  assumes "latest vs = Some v"
  shows "v \<in> set vs"
proof -
  obtain ws where "slice_stable (\<lambda>a b. vr_no a > vr_no b) vs = v # ws" using assms by (auto simp: latest_def split: list.splits)
  from arg_cong [OF this, of set] show ?thesis by auto
qed

lemma latest_None: "latest vs = None \<Longrightarrow> vs = []"
  by (metis (no_types, lifting) latest_def length_0_conv length_slice_stable list.exhaust list.simps(5) option.distinct(1))

end
