(* ===== verification/Auth_Service.thy ===== *)
theory Auth_Service
  imports Accounts
begin

unbundle bit_operations_syntax

text \<open>
  Tokens and sign-in: \<open>security/session.go\<close> (tokens, their keyed hashes, CSRF tokens),
  \<open>infrastructure/postgres/session.go\<close> (web sessions) and \<open>application/auth/service.go\<close> (the OAuth flow
  with GitHub).

  Random bytes are arguments (\<open>None\<close> when the generator fails).  The authenticated encryption with
  the flow key is the pair of parameters \<open>seal\<close> and \<open>unseal\<close>, and the service that exchanges a code
  and a verifier for a profile is the parameter \<open>authenticate\<close>.
\<close>

section \<open>Tokens\<close>

text \<open>\<open>crypto/hmac\<close> with SHA-256, whose blocks have 64 bytes.\<close>

definition hmac_pad :: "nat \<Rightarrow> bytes \<Rightarrow> bytes" where
  "hmac_pad pad key = map (\<lambda>c. char_of (ord_of c XOR pad)) (key @ replicate (64 - length key) (CHR 0x00))"

definition hmac :: "bytes \<Rightarrow> bytes \<Rightarrow> bytes" where
  "hmac key m =
     (let k = (if length key > 64 then sha256 key else key) in
      sha256 (hmac_pad 0x5c k @ sha256 (hmac_pad 0x36 k @ m)))"

text \<open>\<open>base64.RawURLEncoding\<close>: six bits a character, no padding.\<close>

definition base64_url_char :: "nat \<Rightarrow> char" where
  "base64_url_char n =
     ''ABCDEFGHIJKLMNOPQRSTUVWXYZabcdefghijklmnopqrstuvwxyz0123456789-_'' ! (n mod 64)"

fun base64_url :: "bytes \<Rightarrow> string" where
  "base64_url (a # b # c # rest) =
     base64_url_char (ord_of a div 4) #
     base64_url_char (ord_of a mod 4 * 16 + ord_of b div 16) #
     base64_url_char (ord_of b mod 16 * 4 + ord_of c div 64) #
     base64_url_char (ord_of c mod 64) # base64_url rest"
| "base64_url [a, b] =
     [base64_url_char (ord_of a div 4), base64_url_char (ord_of a mod 4 * 16 + ord_of b div 16),
      base64_url_char (ord_of b mod 16 * 4)]"
| "base64_url [a] = [base64_url_char (ord_of a div 4), base64_url_char (ord_of a mod 4 * 16)]"
| "base64_url [] = []"

definition NewToken :: "bytes option \<Rightarrow> string result" where
  "NewToken rnd = (case rnd of None \<Rightarrow> Inl (ErrText ''random source failed'') | Some raw \<Rightarrow> Inr (base64_url raw))"

definition HashToken :: "bytes \<Rightarrow> string \<Rightarrow> bytes" where
  "HashToken key token = hmac key token"

definition VerifyToken :: "bytes \<Rightarrow> string \<Rightarrow> bytes \<Rightarrow> bool" where
  "VerifyToken key token expected \<longleftrightarrow> HashToken key token = expected"

definition NewCSRFToken :: "bytes \<Rightarrow> string \<Rightarrow> bytes option \<Rightarrow> (string \<times> bytes) result" where
  "NewCSRFToken key sessionID rnd =
     bind_result (NewToken rnd) (\<lambda>nonce.
       let token = sessionID @ ''.'' @ nonce in Inr (token, HashToken key token))"

definition VerifyCSRFToken :: "bytes \<Rightarrow> string \<Rightarrow> string \<Rightarrow> bytes \<Rightarrow> unit result" where
  "VerifyCSRFToken key sessionID token expected =
     (if \<not> has_prefix token (sessionID @ ''.'') then Inl (ErrText ''csrf token belongs to another session'')
      else if \<not> VerifyToken key token expected then Inl (ErrText ''invalid csrf token'')
      else Inr ())"

section \<open>Web sessions\<close>

record Session =
  se_id :: uuid
  se_user_id :: uuid
  se_expires_at :: time
  se_revoked_at :: "time option"
  se_view_role :: "user_role option"
  se_view_target :: "uuid option"

record NewSession =
  ns_session :: Session
  ns_token :: string
  ns_csrf_token :: string

text \<open>The service reads its own clock for the expiry, the database its clock for \<open>created_at\<close>.\<close>

definition Create_session ::
  "bytes \<Rightarrow> bytes \<Rightarrow> time \<Rightarrow> time \<Rightarrow> time \<Rightarrow> uuid \<Rightarrow> bytes option \<Rightarrow> bytes option \<Rightarrow> uuid \<Rightarrow> adb
   \<Rightarrow> (adb \<times> NewSession) result" where
  "Create_session hashKey csrfKey app_now db_now ttl i rnd1 rnd2 userID s =
     bind_result (NewToken rnd1) (\<lambda>token.
     bind_result (NewCSRFToken csrfKey i rnd2) (\<lambda>(csrfToken, csrfHash).
     bind_result (statement (insert_session
         \<lparr>ws_id = i, ws_user_id = userID, ws_token_hash = HashToken hashKey token, ws_csrf_hash = csrfHash,
          ws_view_role = None, ws_view_target = None, ws_created_at = db_now, ws_expires_at = app_now + ttl,
          ws_revoked_at = None\<rparr> s)) (\<lambda>s'.
       Inr (s', \<lparr>ns_session = \<lparr>se_id = i, se_user_id = userID, se_expires_at = app_now + ttl, se_revoked_at = None,
                               se_view_role = None, se_view_target = None\<rparr>,
                 ns_token = token, ns_csrf_token = csrfToken\<rparr>))))"

definition live_session :: "time \<Rightarrow> bytes \<Rightarrow> session_row \<Rightarrow> bool" where
  "live_session now h w \<longleftrightarrow> ws_token_hash w = h \<and> ws_revoked_at w = None \<and> ws_expires_at w > now"

definition session_view :: "session_row \<Rightarrow> Session" where
  "session_view w =
     \<lparr>se_id = ws_id w, se_user_id = ws_user_id w, se_expires_at = ws_expires_at w, se_revoked_at = ws_revoked_at w,
      se_view_role = ws_view_role w, se_view_target = ws_view_target w\<rparr>"

definition FindActive :: "bytes \<Rightarrow> time \<Rightarrow> string \<Rightarrow> adb \<Rightarrow> (Session \<times> bytes) result" where
  "FindActive hashKey now token s =
     (case select_one (live_session now (HashToken hashKey token)) (sessions s) of
        None \<Rightarrow> Inl ErrNoRows
      | Some w \<Rightarrow> Inr (session_view w, ws_csrf_hash w))"

definition may_view_as :: "adb \<Rightarrow> uuid \<Rightarrow> string \<Rightarrow> uuid \<Rightarrow> bool" where
  "may_view_as s userID role targetID \<longleftrightarrow>
     isAdmin s userID
   \<and> (role = ''admin''
      \<or> role = ''teacher'' \<and> exists_id gr_id targetID (groups s)
      \<or> role = ''student''
        \<and> list_ex (\<lambda>m. sm_id m = targetID \<and> list_ex (\<lambda>g. gr_id g = sm_group_id m \<and> gr_is_demo g) (groups s)) (members s))"

definition SetViewAs :: "uuid \<Rightarrow> uuid \<Rightarrow> string \<Rightarrow> uuid \<Rightarrow> adb \<Rightarrow> adb result" where
  "SetViewAs sessionID userID role targetID s =
     (let target = (if role = ''admin'' then userID else targetID) in
      if \<not> may_view_as s userID role target then Inl ErrForbidden
      else
        statement (update_sessions
          (\<lambda>w. ws_id w = sessionID \<and> ws_user_id w = userID \<and> ws_revoked_at w = None)
          (\<lambda>w. w\<lparr>ws_view_role := parse_role role, ws_view_target := Some target\<rparr>) s))"

definition ClearViewAs :: "uuid \<Rightarrow> uuid \<Rightarrow> adb \<Rightarrow> adb result" where
  "ClearViewAs sessionID userID s =
     statement (update_sessions
       (\<lambda>w. ws_id w = sessionID \<and> ws_user_id w = userID \<and> ws_revoked_at w = None)
       (\<lambda>w. w\<lparr>ws_view_role := None, ws_view_target := None\<rparr>) s)"

definition Revoke :: "time \<Rightarrow> uuid \<Rightarrow> adb \<Rightarrow> adb result" where
  "Revoke now sessionID s =
     statement (update_sessions (\<lambda>w. ws_id w = sessionID) (revoke_session now) s)"

section \<open>The OAuth flow\<close>

abbreviation ErrInvalidFlow :: go_error where
  "ErrInvalidFlow \<equiv> ErrText ''invalid or expired OAuth flow''"

abbreviation ErrBlockedUser :: go_error where
  "ErrBlockedUser \<equiv> ErrText ''user is blocked''"

record Config =
  cf_client_id :: string
  cf_client_secret :: string
  cf_redirect_url :: string
  cf_authorize_url :: string
  cf_flow_ttl :: time

text \<open>The nonce of GCM has 12 bytes.\<close>

definition nonce_size :: nat where
  "nonce_size = 12"

definition valid_return_path :: "string \<Rightarrow> bool" where
  "valid_return_path p \<longleftrightarrow>
     has_prefix p ''/'' \<and> \<not> has_prefix p ''//'' \<and> \<not> contains p [CHR 0x5C] \<and> length p \<le> 2048"

text \<open>\<open>url.QueryEscape\<close> and \<open>Values.Encode\<close>, which sorts by key.\<close>

definition unreserved :: "char \<Rightarrow> bool" where
  "unreserved c \<longleftrightarrow> is_upper c \<or> is_lower c \<or> is_digit c \<or> c \<in> set ''-_.~''"

definition query_escape :: "string \<Rightarrow> string" where
  "query_escape v =
     concat (map (\<lambda>c. if c = CHR '' '' then ''+'' else if unreserved c then [c]
       else CHR ''%'' # map (\<lambda>n. if n < 10 then char_of (48 + n) else char_of (55 + n)) [ord_of c div 16, ord_of c mod 16]) v)"

definition encode_values :: "(string \<times> string) list \<Rightarrow> string" where
  "encode_values kvs = join_byte (CHR 0x26) (map (\<lambda>(k, v). query_escape k @ ''='' @ query_escape v) (sort_key fst kvs))"

definition Start ::
  "(bytes \<Rightarrow> bytes \<Rightarrow> bytes) \<Rightarrow> Config \<Rightarrow> time \<Rightarrow> time \<Rightarrow> uuid \<Rightarrow> bytes option \<Rightarrow> bytes option \<Rightarrow> bytes option
   \<Rightarrow> string \<Rightarrow> adb \<Rightarrow> (adb \<times> string) result" where
  "Start seal config app_now db_now i rnd1 rnd2 rnd3 returnPath s =
     (let path = (if returnPath = '''' then ''/'' else returnPath) in
      if \<not> valid_return_path path then Inl (ErrText ''invalid return path'')
      else
        bind_result (NewToken rnd1) (\<lambda>state.
        bind_result (NewToken rnd2) (\<lambda>verifier.
        (case rnd3 of
           None \<Rightarrow> Inl (ErrText ''random source failed'')
         | Some nonce \<Rightarrow>
             bind_result (CreateFlow db_now i
               \<lparr>flw_state_hash = sha256 state, flw_encrypted_verifier = nonce @ seal nonce verifier,
                flw_return_path = path, flw_expires_at = app_now + cf_flow_ttl config\<rparr> s) (\<lambda>s'.
             Inr (s', cf_authorize_url config @ ''?'' @ encode_values
               [(''client_id'', cf_client_id config), (''redirect_uri'', cf_redirect_url config),
                (''scope'', ''read:user''), (''state'', state),
                (''code_challenge'', base64_url (sha256 verifier)), (''code_challenge_method'', ''S256'')]))))))"

text \<open>
  \<open>Complete\<close> consumes the flow before it talks to GitHub.  The state it returns on an error keeps the
  consumption.
\<close>

definition Complete ::
  "(bytes \<Rightarrow> bytes \<Rightarrow> bytes option) \<Rightarrow> (string \<Rightarrow> string \<Rightarrow> string \<Rightarrow> string \<Rightarrow> Profile result)
   \<Rightarrow> (string \<Rightarrow> string) \<Rightarrow> (string \<Rightarrow> string) \<Rightarrow> int \<Rightarrow> Config \<Rightarrow> (nat \<Rightarrow> time) \<Rightarrow> uuid \<Rightarrow> uuid
   \<Rightarrow> string \<Rightarrow> string \<Rightarrow> adb \<Rightarrow> adb \<times> (User \<times> string) result" where
  "Complete unseal authenticate ul ci bootstrapAdminID config clk userID identityID code state s =
     (if code = '''' \<or> state = '''' \<or> length code > 512 \<or> length state > 512 then (s, Inl ErrInvalidFlow)
      else
        (case ConsumeFlow (clk 0) (sha256 state) s of
           Inl e \<Rightarrow> (s, Inl ErrInvalidFlow)
         | Inr (s1, flow) \<Rightarrow>
             if length (flw_encrypted_verifier flow) < nonce_size then (s1, Inl ErrInvalidFlow)
             else
               (case unseal (take nonce_size (flw_encrypted_verifier flow)) (drop nonce_size (flw_encrypted_verifier flow)) of
                  None \<Rightarrow> (s1, Inl ErrInvalidFlow)
                | Some verifier \<Rightarrow>
                    (case authenticate (cf_client_id config) (cf_client_secret config) code verifier of
                       Inl e \<Rightarrow> (s1, Inl (ErrText ''GitHub authentication''))
                     | Inr profile \<Rightarrow>
                         if pf_id profile \<le> 0 \<or> trim_space (pf_login profile) = ''''
                         then (s1, Inl (ErrText ''GitHub returned an invalid profile''))
                         else
                           (case LoginGitHub ul ci bootstrapAdminID (\<lambda>n. clk (Suc n)) userID identityID profile s1 of
                              (s2, Inl e) \<Rightarrow> (s2, Inl e)
                            | (s2, Inr user) \<Rightarrow>
                                if usr_status user = UserBlocked then (s2, Inl ErrBlockedUser)
                                else (s2, Inr (user, flw_return_path flow)))))))"

definition Approve ::
  "(string \<Rightarrow> string) \<Rightarrow> (nat \<Rightarrow> time) \<Rightarrow> uuid \<Rightarrow> uuid \<Rightarrow> uuid \<Rightarrow> uuid \<Rightarrow> uuid \<Rightarrow> adb \<Rightarrow> adb \<times> User result" where
  "Approve ci clk i actorID userID recordID key s = ApproveStudent ci clk i actorID userID recordID key s"

definition Reject ::
  "(string \<Rightarrow> string) \<Rightarrow> (nat \<Rightarrow> time) \<Rightarrow> uuid \<Rightarrow> uuid \<Rightarrow> uuid \<Rightarrow> string \<Rightarrow> uuid \<Rightarrow> adb \<Rightarrow> adb \<times> User result" where
  "Reject ci clk i actorID userID reason key s =
     (if trim_space reason = '''' \<or> length reason > 2000 then (s, Inl (ErrText ''invalid rejection reason''))
      else RejectUser ci clk i actorID userID (trim_space reason) key s)"

section \<open>Everything that changes the account tables\<close>

text \<open>
  A step is one call, by anybody and with any data, of an operation of the service on the account
  tables.  \<open>Complete\<close> is two steps, because other requests run while it waits for GitHub, and the
  import of a roster counts from its transaction on.  The parameters are those of the installation: the folding \<open>ul\<close> of Go and \<open>ci\<close> of the
  database, the bootstrap administrator and the configuration.
\<close>

inductive account_step ::
  "(string \<Rightarrow> string) \<Rightarrow> (string \<Rightarrow> string) \<Rightarrow> int \<Rightarrow> adb \<Rightarrow> adb \<Rightarrow> bool"
  for ul ci :: "string \<Rightarrow> string" and boot :: int where
  start: "Start seal config app_now db_now i r1 r2 r3 path s = Inr (s', url) \<Longrightarrow> account_step ul ci boot s s'"
| consume: "ConsumeFlow now h s = Inr (s', f) \<Longrightarrow> account_step ul ci boot s s'"
| login: "LoginGitHub ul ci boot clk i j profile s = (s', r) \<Longrightarrow> account_step ul ci boot s s'"
| create: "Create_session hashKey csrfKey app_now db_now ttl i r1 r2 u s = Inr (s', n) \<Longrightarrow> account_step ul ci boot s s'"
| revoke: "Revoke now w s = Inr s' \<Longrightarrow> account_step ul ci boot s s'"
| view: "SetViewAs w u role t s = Inr s' \<Longrightarrow> account_step ul ci boot s s'"
| unview: "ClearViewAs w u s = Inr s' \<Longrightarrow> account_step ul ci boot s s'"
| approve: "Approve ci clk i actor u m key s = (s', r) \<Longrightarrow> account_step ul ci boot s s'"
| reject: "Reject ci clk i actor u reason key s = (s', r) \<Longrightarrow> account_step ul ci boot s s'"
| set_role: "SetRole now actor u role s = (s', r) \<Longrightarrow> account_step ul ci boot s s'"
| block: "Block clk actor u s = (s', r) \<Longrightarrow> account_step ul ci boot s s'"
| assign: "AssignTeacher actor u g s = Inr s' \<Longrightarrow> account_step ul ci boot s s'"
| roster: "ApplyRoster_tx ci rclk uid actor d s = Inr s' \<Longrightarrow> account_step ul ci boot s s'"

inductive account_run ::
  "(string \<Rightarrow> string) \<Rightarrow> (string \<Rightarrow> string) \<Rightarrow> int \<Rightarrow> adb \<Rightarrow> adb \<Rightarrow> bool"
  for ul ci :: "string \<Rightarrow> string" and boot :: int where
  stay: "account_run ul ci boot s s"
| more: "account_run ul ci boot s t \<Longrightarrow> account_step ul ci boot t u \<Longrightarrow> account_run ul ci boot s u"

end
