(* ===== verification/Account_Invariant.thy ===== *)
theory Account_Invariant
  imports Auth_Service
begin

text \<open>
  How the account tables evolve.  Rows are never deleted and keep their keys; what may change about a
  row is a reflexive and transitive relation per table, and an operation relates the tables before
  and after it by these relations.  The lemmas go from the statements over the transactions to a
  step of the service; the invariant of the tables is proved along the same way.
\<close>

section \<open>Tables that grow\<close>

definition grows :: "('r \<Rightarrow> 'r \<Rightarrow> bool) \<Rightarrow> ('r \<Rightarrow> bool) \<Rightarrow> 'r list \<Rightarrow> 'r list \<Rightarrow> bool" where
  "grows R N rs rs' \<longleftrightarrow> (\<exists>ms zs. rs' = ms @ zs \<and> list_all2 R rs ms \<and> list_all N zs)"

text \<open>
  The contract of a relation between the states of a row, and of a predicate on new rows.
\<close>

locale row_evolution =
  fixes R :: "'r \<Rightarrow> 'r \<Rightarrow> bool" and N :: "'r \<Rightarrow> bool"
  assumes row_refl: "R r r"
    and row_trans: "R r r' \<Longrightarrow> R r' r'' \<Longrightarrow> R r r''"
    and new_row: "N r \<Longrightarrow> R r r' \<Longrightarrow> N r'"
begin

lemma grows_refl: "grows R N rs rs"
  unfolding grows_def by (intro exI [of _ rs] exI [of _ "[]"]) (simp add: list_all2_refl row_refl)

lemma grows_trans:
  assumes "grows R N rs rs'" and "grows R N rs' rs''"
  shows "grows R N rs rs''"
proof -
  obtain ms zs where m: "rs' = ms @ zs" "list_all2 R rs ms" "list_all N zs"
    using assms(1) by (auto simp: grows_def)
  obtain ns ys where n: "rs'' = ns @ ys" "list_all2 R rs' ns" "list_all N ys"
    using assms(2) by (auto simp: grows_def)
  obtain ns1 ns2 where ns: "ns = ns1 @ ns2" "list_all2 R ms ns1" "list_all2 R zs ns2"
    using n(2) m(1) by (auto simp: list_all2_append1)
  have "list_all2 R rs ns1" using list_all2_trans [of R R R] row_trans m(2) ns(2) by blast
  moreover have "list_all N (ns2 @ ys)"
    using list_all2_memD [OF ns(3)] m(3) n(3) new_row by (fastforce simp: list_all_iff)
  ultimately show ?thesis unfolding grows_def
    by (intro exI [of _ ns1] exI [of _ "ns2 @ ys"]) (simp add: n(1) ns(1))
qed

lemma grows_snoc: "N r \<Longrightarrow> grows R N rs (rs @ [r])"
  unfolding grows_def by (intro exI [of _ rs] exI [of _ "[r]"]) (simp add: list_all2_refl row_refl)

lemma grows_update:
  assumes "exec_update c f rs = Some rs'" and "\<And>r r'. r \<in> set rs \<Longrightarrow> c r \<Longrightarrow> f r = Some r' \<Longrightarrow> R r r'"
  shows "grows R N rs rs'"
proof -
  have "list_all2 R rs rs'"
    using exec_update_list_all2 [OF assms(1)] assms(2) row_refl
    by (auto simp: list_all2_conv_all_nth updated_row_def split: if_splits)
  then show ?thesis unfolding grows_def by (intro exI [of _ rs'] exI [of _ "[]"]) simp
qed

end

lemma grows_keeps: "grows R N rs rs' \<Longrightarrow> r \<in> set rs \<Longrightarrow> \<exists>r'\<in>set rs'. R r r'"
  unfolding grows_def using list_all2_memI by fastforce

lemma grows_from: "grows R N rs rs' \<Longrightarrow> r' \<in> set rs' \<Longrightarrow> N r' \<or> (\<exists>r\<in>set rs. R r r')"
  unfolding grows_def using list_all2_memD by (fastforce simp: list_all_iff)

section \<open>How the rows evolve\<close>

text \<open>
  The set \<open>T\<close> holds the accounts whose status or role an operation may assign, or which it creates,
  and the set \<open>S\<close> those to which it may give the role of a teacher or administrator.
\<close>

definition no_gain :: "user_role option \<Rightarrow> user_role option \<Rightarrow> bool" where
  "no_gain r r' \<longleftrightarrow> r' = r \<or> r' = None \<or> r' = Some Student"

definition account_evolves :: "uuid set \<Rightarrow> uuid set \<Rightarrow> account_row \<Rightarrow> account_row \<Rightarrow> bool" where
  "account_evolves T S a a' \<longleftrightarrow>
     acc_id a' = acc_id a \<and> acc_created_at a' = acc_created_at a
   \<and> (acc_id a \<notin> T \<longrightarrow> acc_status a' = acc_status a \<and> acc_role a' = acc_role a)
   \<and> (acc_id a \<notin> S \<longrightarrow> no_gain (acc_role a) (acc_role a'))"

definition account_new :: "uuid set \<Rightarrow> uuid set \<Rightarrow> account_row \<Rightarrow> bool" where
  "account_new T S a \<longleftrightarrow> acc_id a \<in> T \<and> (acc_id a \<notin> S \<longrightarrow> no_gain None (acc_role a))"

definition identity_evolves :: "identity_row \<Rightarrow> identity_row \<Rightarrow> bool" where
  "identity_evolves g g' \<longleftrightarrow>
     gi_id g' = gi_id g \<and> gi_user_id g' = gi_user_id g \<and> gi_github_user_id g' = gi_github_user_id g"

definition flow_evolves :: "flow_row \<Rightarrow> flow_row \<Rightarrow> bool" where
  "flow_evolves f f' \<longleftrightarrow>
     fl_state_hash f' = fl_state_hash f \<and> fl_verifier f' = fl_verifier f \<and> fl_return_path f' = fl_return_path f
   \<and> fl_expires_at f' = fl_expires_at f \<and> (fl_consumed_at f \<noteq> None \<longrightarrow> fl_consumed_at f' = fl_consumed_at f)"

definition flow_new :: "flow_row \<Rightarrow> bool" where
  "flow_new f \<longleftrightarrow> valid_return_path (fl_return_path f)"

definition session_evolves :: "session_row \<Rightarrow> session_row \<Rightarrow> bool" where
  "session_evolves w w' \<longleftrightarrow>
     ws_id w' = ws_id w \<and> ws_user_id w' = ws_user_id w \<and> ws_token_hash w' = ws_token_hash w
   \<and> ws_csrf_hash w' = ws_csrf_hash w \<and> ws_expires_at w' = ws_expires_at w
   \<and> (ws_revoked_at w \<noteq> None \<longrightarrow> ws_revoked_at w' = ws_revoked_at w)"

definition member_evolves :: "member_row \<Rightarrow> member_row \<Rightarrow> bool" where
  "member_evolves m m' \<longleftrightarrow>
     sm_id m' = sm_id m \<and> sm_login m' = sm_login m \<and> (sm_user_id m \<noteq> None \<longrightarrow> sm_user_id m' = sm_user_id m)"

interpretation acc: row_evolution "account_evolves T S" "account_new T S" for T S
  by unfold_locales (auto simp: account_evolves_def account_new_def no_gain_def)

interpretation idn: row_evolution identity_evolves "\<lambda>_. True"
  by unfold_locales (auto simp: identity_evolves_def)

interpretation flw: row_evolution flow_evolves flow_new
  by unfold_locales (auto simp: flow_evolves_def flow_new_def)

interpretation ses: row_evolution session_evolves "\<lambda>_. True"
  by unfold_locales (auto simp: session_evolves_def)

interpretation mem: row_evolution member_evolves "\<lambda>_. True"
  by unfold_locales (auto simp: member_evolves_def)

definition evolves :: "uuid set \<Rightarrow> uuid set \<Rightarrow> adb \<Rightarrow> adb \<Rightarrow> bool" where
  "evolves T S s s' \<longleftrightarrow>
     grows (account_evolves T S) (account_new T S) (accounts s) (accounts s')
   \<and> grows identity_evolves (\<lambda>_. True) (identities s) (identities s')
   \<and> grows flow_evolves flow_new (flows s) (flows s')
   \<and> grows session_evolves (\<lambda>_. True) (sessions s) (sessions s')
   \<and> grows member_evolves (\<lambda>_. True) (members s) (members s')
   \<and> legacy_identities s' = legacy_identities s"

lemma evolves_refl [simp]: "evolves T S s s"
  by (simp add: evolves_def acc.grows_refl idn.grows_refl flw.grows_refl ses.grows_refl mem.grows_refl)

lemma evolves_trans [trans]: "evolves T S s t \<Longrightarrow> evolves T S t u \<Longrightarrow> evolves T S s u"
  unfolding evolves_def
  using acc.grows_trans idn.grows_trans flw.grows_trans ses.grows_trans mem.grows_trans by metis

lemma evolves_mono:
  assumes "evolves T S s s'" and "T \<subseteq> T'" and "S \<subseteq> S'"
  shows "evolves T' S' s s'"
proof -
  have "account_evolves T' S' a a'" if "account_evolves T S a a'" for a a'
    using that assms(2,3) by (auto simp: account_evolves_def)
  moreover have "account_new T' S' a" if "account_new T S a" for a
    using that assms(2,3) by (auto simp: account_new_def)
  moreover obtain ms zs where "accounts s' = ms @ zs" "list_all2 (account_evolves T S) (accounts s) ms"
      "list_all (account_new T S) zs"
    using assms(1) by (auto simp: evolves_def grows_def)
  ultimately have "grows (account_evolves T' S') (account_new T' S') (accounts s) (accounts s')"
    unfolding grows_def by (metis list_all2_mono list.pred_mono_strong)
  then show ?thesis using assms(1) by (simp add: evolves_def)
qed

lemmas evolution_refls = acc.grows_refl idn.grows_refl flw.grows_refl ses.grows_refl mem.grows_refl

section \<open>The invariant of the tables\<close>

definition adb_ok :: "(string \<Rightarrow> string) \<Rightarrow> adb \<Rightarrow> bool" where
  "adb_ok ci s \<longleftrightarrow>
     list_all account_check (accounts s) \<and> accounts_unique (accounts s)
   \<and> list_all identity_check (identities s) \<and> identities_unique (identities s)
   \<and> list_all flow_check (flows s) \<and> flows_unique (flows s)
   \<and> list_all session_check (sessions s) \<and> sessions_unique (sessions s)
   \<and> list_all member_check (members s) \<and> members_unique ci (members s)
   \<and> idempotency_unique (idempotency s)"

definition identified :: "adb \<Rightarrow> bool" where
  "identified s \<longleftrightarrow> (\<forall>a\<in>set (accounts s). acc_status a = UserActive \<longrightarrow> has_identity s (acc_id a))"

text \<open>What a statement with checks leaves.\<close>

lemma checked_rows:
  assumes "checked unique (exec_update c (\<lambda>r. row_check check (f r)) rs) = Some rs'" and "list_all check rs"
  shows "list_all check rs' \<and> unique rs'"
  using exec_update_memD [of c "\<lambda>r. row_check check (f r)" rs rs'] assms
  by (fastforce simp: checked_Some_iff list_all_iff updated_row_def row_check_def split: if_splits)

lemma user_trigger_check:
  "Option.bind (user_trigger now old (f old)) (row_check account_check) = Some new \<Longrightarrow>
   account_check new \<and> acc_id new = acc_id (f old) \<and> acc_created_at new = acc_created_at (f old)
   \<and> acc_status new = acc_status (f old) \<and> acc_role new = acc_role (f old)
   \<and> validate_user_transition (acc_status old) (acc_status (f old))"
  by (auto simp: user_trigger_def row_check_def user_guard.guard_refl split: if_splits)

lemma update_accounts_effect:
  assumes "update_accounts now c f s = Some s'"
  shows "\<exists>xs. s' = s\<lparr>accounts := xs\<rparr> \<and> accounts_unique xs \<and> (list_all account_check (accounts s) \<longrightarrow> list_all account_check xs)
     \<and> exec_update c (\<lambda>old. Option.bind (user_trigger now old (f old)) (row_check account_check)) (accounts s) = Some xs"
proof -
  obtain xs where xs: "s' = s\<lparr>accounts := xs\<rparr>" "accounts_unique xs"
    "exec_update c (\<lambda>old. Option.bind (user_trigger now old (f old)) (row_check account_check)) (accounts s) = Some xs"
    using assms by (auto simp: update_accounts_def checked_Some_iff)
  have "account_check a'" if "list_all account_check (accounts s)" "a' \<in> set xs" for a'
    using exec_update_memD [OF xs(3) that(2)] that(1) user_trigger_check [of now _ f a']
    by (auto simp: updated_row_def list_all_iff split: if_splits)
  with xs show ?thesis by (auto simp: list_all_iff)
qed

lemma update_accounts_ok: "update_accounts now c f s = Some s' \<Longrightarrow> adb_ok ci s \<Longrightarrow> adb_ok ci s'"
  by (drule update_accounts_effect) (auto simp: adb_ok_def)

lemma update_accounts_evolves:
  assumes "update_accounts now c f s = Some s'"
    and "\<And>a. a \<in> set (accounts s) \<Longrightarrow> c a \<Longrightarrow>
          acc_id (f a) = acc_id a \<and> acc_created_at (f a) = acc_created_at a \<and> acc_id a \<in> T
        \<and> (acc_id a \<notin> S \<longrightarrow> no_gain (acc_role a) (acc_role (f a)))"
  shows "evolves T S s s'"
proof -
  obtain xs where xs: "s' = s\<lparr>accounts := xs\<rparr>"
    "exec_update c (\<lambda>old. Option.bind (user_trigger now old (f old)) (row_check account_check)) (accounts s) = Some xs"
    using update_accounts_effect [OF assms(1)] by blast
  have "grows (account_evolves T S) (account_new T S) (accounts s) xs"
  proof (rule acc.grows_update [OF xs(2)])
    fix a a'
    assume "a \<in> set (accounts s)" "c a"
      "Option.bind (user_trigger now a (f a)) (row_check account_check) = Some a'"
    from assms(2) [OF this(1,2)] user_trigger_check [of now a f a', OF this(3)] show "account_evolves T S a a'"
      by (simp add: account_evolves_def)
  qed
  with xs(1) show ?thesis by (simp add: evolves_def evolution_refls)
qed

lemma statement_effects:
  "update_identities c f s = Some s' \<Longrightarrow>
     \<exists>xs. s' = s\<lparr>identities := xs\<rparr> \<and> checked identities_unique (exec_update c (\<lambda>g. row_check identity_check (f g)) (identities s)) = Some xs"
  "update_flows c' f' s = Some s' \<Longrightarrow>
     \<exists>xs. s' = s\<lparr>flows := xs\<rparr> \<and> checked flows_unique (exec_update c' (\<lambda>g. row_check flow_check (f' g)) (flows s)) = Some xs"
  "update_sessions c'' f'' s = Some s' \<Longrightarrow>
     \<exists>xs. s' = s\<lparr>sessions := xs\<rparr> \<and> checked sessions_unique (exec_update c'' (\<lambda>g. row_check session_check (f'' g)) (sessions s)) = Some xs"
  by (auto simp: update_identities_def update_flows_def update_sessions_def)

lemma update_members_effect:
  assumes "update_members ci c f s = Some s'"
  shows "\<exists>xs. s' = s\<lparr>members := xs\<rparr> \<and> members_unique ci xs \<and> (list_all member_check (members s) \<longrightarrow> list_all member_check xs)
     \<and> exec_update c (\<lambda>m. row_check (\<lambda>m. member_check m \<and> exists_id gr_id (sm_group_id m) (groups s)
                   \<and> references acc_id (sm_user_id m) (accounts s)) (f m)) (members s) = Some xs"
proof -
  let ?ok = "\<lambda>m. member_check m \<and> exists_id gr_id (sm_group_id m) (groups s) \<and> references acc_id (sm_user_id m) (accounts s)"
  obtain xs where xs: "s' = s\<lparr>members := xs\<rparr>" "members_unique ci xs"
    "exec_update c (\<lambda>m. row_check ?ok (f m)) (members s) = Some xs"
    using assms by (auto simp: update_members_def checked_Some_iff)
  have "member_check m'" if "list_all member_check (members s)" "m' \<in> set xs" for m'
    using exec_update_memD [OF xs(3) that(2)] that(1)
    by (auto simp: updated_row_def row_check_def list_all_iff split: if_splits)
  with xs show ?thesis by (auto simp: list_all_iff)
qed

lemma update_ok:
  "update_identities c f s = Some s' \<Longrightarrow> adb_ok ci s \<Longrightarrow> adb_ok ci s'"
  "update_flows c' f' s = Some s' \<Longrightarrow> adb_ok ci s \<Longrightarrow> adb_ok ci s'"
  "update_sessions c'' f'' s = Some s' \<Longrightarrow> adb_ok ci s \<Longrightarrow> adb_ok ci s'"
  "update_members ci d g s = Some s' \<Longrightarrow> adb_ok ci s \<Longrightarrow> adb_ok ci s'"
     apply (drule statement_effects(1)) apply (auto simp: adb_ok_def dest: checked_rows) [1]
    apply (drule statement_effects(2)) apply (auto simp: adb_ok_def dest: checked_rows) [1]
   apply (drule statement_effects(3)) apply (auto simp: adb_ok_def dest: checked_rows) [1]
  apply (drule update_members_effect) apply (auto simp: adb_ok_def) [1]
  done

lemma update_identities_evolves:
  assumes "update_identities c f s = Some s'" and "\<And>g. identity_evolves g (f g)"
  shows "evolves T S s s'"
proof -
  obtain xs where xs: "s' = s\<lparr>identities := xs\<rparr>"
    "exec_update c (\<lambda>g. row_check identity_check (f g)) (identities s) = Some xs"
    using statement_effects(1) [OF assms(1)] by (auto simp: checked_Some_iff)
  have "grows identity_evolves (\<lambda>_. True) (identities s) xs"
    by (rule idn.grows_update [OF xs(2)]) (use assms(2) in \<open>auto simp: row_check_def split: if_splits\<close>)
  with xs(1) show ?thesis by (simp add: evolves_def evolution_refls)
qed

lemma update_flows_evolves:
  assumes "update_flows c f s = Some s'" and "\<And>g. c g \<Longrightarrow> flow_evolves g (f g)"
  shows "evolves T S s s'"
proof -
  obtain xs where xs: "s' = s\<lparr>flows := xs\<rparr>"
    "exec_update c (\<lambda>g. row_check flow_check (f g)) (flows s) = Some xs"
    using statement_effects(2) [OF assms(1)] by (auto simp: checked_Some_iff)
  have "grows flow_evolves flow_new (flows s) xs"
    by (rule flw.grows_update [OF xs(2)]) (use assms(2) in \<open>auto simp: row_check_def split: if_splits\<close>)
  with xs(1) show ?thesis by (simp add: evolves_def evolution_refls)
qed

lemma update_sessions_evolves:
  assumes "update_sessions c f s = Some s'" and "\<And>g. c g \<Longrightarrow> session_evolves g (f g)"
  shows "evolves T S s s'"
proof -
  obtain xs where xs: "s' = s\<lparr>sessions := xs\<rparr>"
    "exec_update c (\<lambda>g. row_check session_check (f g)) (sessions s) = Some xs"
    using statement_effects(3) [OF assms(1)] by (auto simp: checked_Some_iff)
  have "grows session_evolves (\<lambda>_. True) (sessions s) xs"
    by (rule ses.grows_update [OF xs(2)]) (use assms(2) in \<open>auto simp: row_check_def split: if_splits\<close>)
  with xs(1) show ?thesis by (simp add: evolves_def evolution_refls)
qed

lemma update_members_evolves:
  assumes "update_members ci c f s = Some s'" and "\<And>m. m \<in> set (members s) \<Longrightarrow> c m \<Longrightarrow> member_evolves m (f m)"
  shows "evolves T S s s'"
proof -
  obtain xs where xs: "s' = s\<lparr>members := xs\<rparr>"
    "exec_update c (\<lambda>m. row_check (\<lambda>m. member_check m \<and> exists_id gr_id (sm_group_id m) (groups s)
                   \<and> references acc_id (sm_user_id m) (accounts s)) (f m)) (members s) = Some xs"
    using update_members_effect [OF assms(1)] by blast
  have "grows member_evolves (\<lambda>_. True) (members s) xs"
    by (rule mem.grows_update [OF xs(2)]) (use assms(2) in \<open>auto simp: row_check_def split: if_splits\<close>)
  with xs(1) show ?thesis by (simp add: evolves_def evolution_refls)
qed

lemma insert_ok:
  "insert_account a s = Some s' \<Longrightarrow> adb_ok ci s \<Longrightarrow> adb_ok ci s'"
  "insert_identity g s = Some s' \<Longrightarrow> adb_ok ci s \<Longrightarrow> adb_ok ci s'"
  "insert_flow f s = Some s' \<Longrightarrow> adb_ok ci s \<Longrightarrow> adb_ok ci s'"
  "insert_session w s = Some s' \<Longrightarrow> adb_ok ci s \<Longrightarrow> adb_ok ci s'"
  "insert_member ci m s = Some s' \<Longrightarrow> adb_ok ci s \<Longrightarrow> adb_ok ci s'"
  "insert_idempotency r s = Some s' \<Longrightarrow> adb_ok ci s \<Longrightarrow> adb_ok ci s'"
  by (auto simp: insert_account_def insert_identity_def insert_flow_def insert_session_def insert_member_def
      insert_idempotency_def adb_ok_def split: if_splits)

lemma insert_evolves:
  "insert_account a s = Some s' \<Longrightarrow> account_new T S a \<Longrightarrow> evolves T S s s'"
  "insert_identity g s = Some s' \<Longrightarrow> evolves T S s s'"
  "insert_flow f s = Some s' \<Longrightarrow> flow_new f \<Longrightarrow> evolves T S s s'"
  "insert_session w s = Some s' \<Longrightarrow> evolves T S s s'"
  "insert_member ci m s = Some s' \<Longrightarrow> evolves T S s s'"
  "insert_idempotency r s = Some s' \<Longrightarrow> evolves T S s s'"
  by (auto simp: insert_account_def insert_identity_def insert_flow_def insert_session_def insert_member_def
      insert_idempotency_def evolves_def evolution_refls acc.grows_snoc idn.grows_snoc flw.grows_snoc ses.grows_snoc
      mem.grows_snoc split: if_splits)

lemma upsert_frame:
  "upsert_organization ci g s = Some (s', i) \<Longrightarrow> \<exists>xs. s' = s\<lparr>organizations := xs\<rparr>"
  "upsert_group ci q s = Some (s', i) \<Longrightarrow> \<exists>xs. s' = s\<lparr>groups := xs\<rparr>"
  "insert_teacher t s = Some (s', b) \<Longrightarrow> \<exists>xs. s' = s\<lparr>teachers := xs\<rparr>"
proof -
  show "\<exists>xs. s' = s\<lparr>organizations := xs\<rparr>" if "upsert_organization ci g s = Some (s', i)"
    using that by (auto simp: upsert_organization_def split: option.splits if_splits)
  show "\<exists>xs. s' = s\<lparr>groups := xs\<rparr>" if "upsert_group ci q s = Some (s', i)"
    using that by (auto simp: upsert_group_def split: option.splits if_splits)
  assume "insert_teacher t s = Some (s', b)"
  then have "s' = s\<lparr>teachers := teachers s\<rparr> \<or> s' = s\<lparr>teachers := teachers s @ [t]\<rparr>"
    by (simp add: insert_teacher_def split: if_splits)
  then show "\<exists>xs. s' = s\<lparr>teachers := xs\<rparr>" by blast
qed

text \<open>Tables that neither the invariant nor the evolution mention.\<close>

lemma frame_simps [simp]:
  "adb_ok ci (s\<lparr>organizations := os\<rparr>) = adb_ok ci s"
  "adb_ok ci (s\<lparr>groups := gs\<rparr>) = adb_ok ci s"
  "adb_ok ci (s\<lparr>teachers := ts\<rparr>) = adb_ok ci s"
  "evolves T S t (s\<lparr>organizations := os\<rparr>) = evolves T S t s"
  "evolves T S t (s\<lparr>groups := gs\<rparr>) = evolves T S t s"
  "evolves T S t (s\<lparr>teachers := ts\<rparr>) = evolves T S t s"
  "evolves T S t (s\<lparr>idempotency := is\<rparr>) = evolves T S t s"
  by (simp_all add: adb_ok_def evolves_def)

section \<open>Transactions\<close>

text \<open>\<open>moves ci T S s s'\<close>: from tables in order to tables in order, evolving as allowed.\<close>

definition moves :: "(string \<Rightarrow> string) \<Rightarrow> uuid set \<Rightarrow> uuid set \<Rightarrow> adb \<Rightarrow> adb \<Rightarrow> bool" where
  "moves ci T S s s' \<longleftrightarrow> (adb_ok ci s \<longrightarrow> adb_ok ci s') \<and> evolves T S s s'"

lemma moves_refl [simp]: "moves ci T S s s"
  by (simp add: moves_def)

lemma moves_trans [trans]: "moves ci T S s t \<Longrightarrow> moves ci T S t u \<Longrightarrow> moves ci T S s u"
  unfolding moves_def using evolves_trans by blast

lemma has_identity_evolves:
  assumes "evolves T S s s'" and "has_identity s u"
  shows "has_identity s' u"
proof (cases "List.member (legacy_identities s) u")
  case True
  then show ?thesis using assms(1) by (simp add: has_identity_def evolves_def)
next
  case False
  then obtain g where "g \<in> set (identities s)" "gi_user_id g = u"
    using assms(2) by (auto simp: has_identity_def list_ex_iff)
  moreover have "grows identity_evolves (\<lambda>_. True) (identities s) (identities s')"
    using assms(1) by (simp add: evolves_def)
  ultimately show ?thesis
    using grows_keeps by (fastforce simp: has_identity_def list_ex_iff identity_evolves_def)
qed

text \<open>The check at the commit covers the accounts that the transaction touched.\<close>

lemma commit_identified:
  assumes "evolves T S s s'" and "commit touched s' = Some s''" and "\<And>u. u \<in> T \<Longrightarrow> touched u" and "identified s"
  shows "identified s'' \<and> s'' = s'"
proof -
  have s'': "s'' = s'" and checked: "\<And>a. a \<in> set (accounts s') \<Longrightarrow> touched (acc_id a) \<Longrightarrow> acc_status a = UserActive \<Longrightarrow> has_identity s' (acc_id a)"
    using assms(2) by (auto simp: commit_def list_all_iff split: if_splits)
  have "has_identity s' (acc_id a)" if a: "a \<in> set (accounts s')" "acc_status a = UserActive" for a
  proof (cases "acc_id a \<in> T")
    case True
    then show ?thesis using checked a assms(3) by blast
  next
    case False
    have "grows (account_evolves T S) (account_new T S) (accounts s) (accounts s')"
      using assms(1) by (simp add: evolves_def)
    from grows_from [OF this a(1)] False obtain b where "b \<in> set (accounts s)" "account_evolves T S b a"
      by (auto simp: account_new_def)
    with False a(2) have "acc_id b = acc_id a" "acc_status b = UserActive" by (auto simp: account_evolves_def)
    then have "has_identity s (acc_id a)" using \<open>b \<in> _\<close> assms(4) by (auto simp: identified_def)
    then show ?thesis by (rule has_identity_evolves [OF assms(1)])
  qed
  with s'' show ?thesis by (simp add: identified_def)
qed

lemma untouched_identified: "evolves {} S s s' \<Longrightarrow> identified s \<Longrightarrow> identified s'"
  using commit_identified [of "{}" S s s' "\<lambda>_. False" s'] by (simp add: commit_def list_all_iff)

text \<open>
  What every operation promises: it moves the tables as the sets allow and keeps active accounts
  identified.
\<close>

definition keeps :: "(string \<Rightarrow> string) \<Rightarrow> uuid set \<Rightarrow> uuid set \<Rightarrow> adb \<Rightarrow> adb \<Rightarrow> bool" where
  "keeps ci T S s s' \<longleftrightarrow> moves ci T S s s' \<and> (identified s \<longrightarrow> identified s')"

lemma keeps_refl [simp]: "keeps ci T S s s"
  by (simp add: keeps_def)

lemma keeps_untouched: "moves ci {} S s s' \<Longrightarrow> keeps ci T S s s'"
  using untouched_identified evolves_mono [of "{}" S s s' T S] by (auto simp: keeps_def moves_def)

lemma keeps_commit:
  "moves ci T S s s' \<Longrightarrow> commit touched s' = Some s'' \<Longrightarrow> (\<And>u. u \<in> T \<Longrightarrow> touched u) \<Longrightarrow> keeps ci T S s s''"
  using commit_identified [of T S s s' touched s''] by (auto simp: keeps_def moves_def commit_def split: if_splits)

lemma CreateFlow_keeps:
  "CreateFlow now i flow s = Inr s' \<Longrightarrow> valid_return_path (flw_return_path flow) \<Longrightarrow> keeps ci {} {} s s'"
  by (rule keeps_untouched) (auto simp: moves_def CreateFlow_def flow_new_def intro: insert_ok insert_evolves)

lemma Start_keeps: "Start seal config app_now db_now i r1 r2 r3 path s = Inr (s', url) \<Longrightarrow> keeps ci {} {} s s'"
  by (auto simp: Start_def Let_def split: if_splits option.splits intro!: CreateFlow_keeps)

lemma ConsumeFlow_keeps: "ConsumeFlow now h s = Inr (s', f) \<Longrightarrow> keeps ci {} {} s s'"
  by (rule keeps_untouched)
    (auto simp: moves_def ConsumeFlow_def flow_evolves_def usable_flow_def split: option.splits
      intro: update_ok(2) update_flows_evolves)

lemma Create_session_keeps:
  "Create_session hk ck an dn ttl i r1 r2 u s = Inr (s', n) \<Longrightarrow> keeps ci {} {} s s'"
  by (rule keeps_untouched)
    (auto simp: moves_def Create_session_def intro: insert_ok insert_evolves)

lemma update_sessions_keeps:
  "update_sessions c f s = Some s' \<Longrightarrow> (\<And>w. c w \<Longrightarrow> session_evolves w (f w)) \<Longrightarrow> keeps ci T S s s'"
  by (rule keeps_untouched) (auto simp: moves_def intro: update_ok(3) update_sessions_evolves)

lemma session_evolves_simps [simp]:
  "session_evolves w (revoke_session now w)"
  "session_evolves w (w\<lparr>ws_view_role := r, ws_view_target := t\<rparr>)"
  by (simp_all add: session_evolves_def revoke_session_def split: option.splits)

lemma sessions_keep:
  "Revoke now w s = Inr s' \<Longrightarrow> keeps ci {} {} s s'"
  "SetViewAs w u role t s = Inr s' \<Longrightarrow> keeps ci {} {} s s'"
  "ClearViewAs w u s = Inr s' \<Longrightarrow> keeps ci {} {} s s'"
  unfolding Revoke_def SetViewAs_def ClearViewAs_def Let_def
  by (auto split: if_splits elim!: update_sessions_keeps)

lemma login_known_keeps:
  assumes "login_known ul boot clk profile user s = Inr (s', u)"
  shows "keeps ci {usr_id user} (if pf_id profile = boot then {usr_id user} else {}) s s'"
proof -
  let ?T = "{usr_id user}" and ?S = "if pf_id profile = boot then {usr_id user} else {}"
  obtain s1 where s1: "update_identities (\<lambda>g. gi_github_user_id g = pf_id profile) (set_profile ul (clk 0) profile) s = Some s1"
    using assms by (auto simp: login_known_def)
  have evo: "identity_evolves g (set_profile ul (clk 0) profile g)" for g
    by (simp add: identity_evolves_def set_profile_def)
  have m1: "moves ci T S s s1" for T S
    using update_ok(1) [OF s1] update_identities_evolves [OF s1 evo] by (simp add: moves_def)
  show ?thesis
  proof (cases "pf_id profile = boot \<and> usr_status user \<noteq> UserBlocked \<and> usr_role user \<noteq> Some Admin")
    case True
    then obtain s2 where s2: "update_accounts (clk 1) (\<lambda>a. acc_id a = usr_id user) make_admin s1 = Some s2"
      "commit (\<lambda>i. i = usr_id user) s2 = Some s'"
      using assms s1 by (auto simp: login_known_def Let_def)
    have "evolves ?T ?S s1 s2"
      by (rule update_accounts_evolves [OF s2(1)]) (use True in \<open>auto simp: make_admin_def\<close>)
    then have "moves ci ?T ?S s1 s2" using update_accounts_ok [OF s2(1)] by (simp add: moves_def)
    then show ?thesis using moves_trans [OF m1] keeps_commit s2(2) by fastforce
  next
    case False
    then have "s' = s1" using assms s1 by (auto simp: login_known_def Let_def)
    then show ?thesis using keeps_untouched [OF m1] by simp
  qed
qed

lemma claim_evolves: "sm_user_id m = None \<Longrightarrow> member_evolves m (claim u now m)"
  by (simp add: member_evolves_def claim_def)

lemma login_new_keeps:
  assumes "login_new ul ci boot clk i j profile s = Inr (s', u)"
  shows "keeps ci {i} (if pf_id profile = boot then {i} else {}) s s'"
proof -
  let ?S = "if pf_id profile = boot then {i} else {}"
  let ?c = "login_candidates ul ci profile s"
  let ?mine = "\<lambda>m. sm_id m = hd ?c \<and> sm_status m = Unclaimed \<and> sm_user_id m = None"
  let ?st = "if pf_id profile = boot then (UserActive, Some Admin)
             else if length ?c = 1 then (UserActive, Some Student) else (UserPending, None)"
  obtain g s1 s2 s3 where
    s1: "insert_account (new_account i (clk 0) (fst ?st) (snd ?st) (nullableString (pf_display_name profile))) s = Some s1"
    and s2: "insert_identity g s1 = Some s2"
    and s3: "s3 = s2 \<or> update_members ci ?mine (claim i (clk 2)) s2 = Some s3"
    and s4: "commit (\<lambda>u. u = i) s3 = Some s'"
    using assms by (auto simp: login_new_def Let_def split: if_splits)
  have "account_new {i} ?S (new_account i (clk 0) (fst ?st) (snd ?st) (nullableString (pf_display_name profile)))"
    by (simp add: account_new_def new_account_def no_gain_def)
  then have "moves ci {i} ?S s s1" using s1 insert_ok(1) insert_evolves(1) by (auto simp: moves_def)
  also have "moves ci {i} ?S s1 s2" using s2 insert_ok(2) insert_evolves(2) by (auto simp: moves_def)
  also have "moves ci {i} ?S s2 s3"
    using s3 update_ok(4) [of ci ?mine "claim i (clk 2)" s2 s3] update_members_evolves [of ci ?mine "claim i (clk 2)" s2 s3 "{i}" ?S]
    by (auto simp: moves_def claim_evolves)
  finally show ?thesis using s4 by (rule keeps_commit) simp
qed

lemma LoginGitHub_keeps:
  assumes "LoginGitHub ul ci boot clk i j profile s = (s', r)"
  shows "\<exists>u. keeps ci {u} (if pf_id profile = boot then {u} else {}) s s'"
proof -
  consider "s' = s" | user u where "login_known ul boot clk profile user s = Inr (s', u)"
    | u where "login_new ul ci boot clk i j profile s = Inr (s', u)"
    using assms by (auto simp: LoginGitHub_def then_user_def split: sum.splits prod.splits if_splits)
  then show ?thesis
    by cases (use login_known_keeps login_new_keeps keeps_refl in meson)+
qed

section \<open>Approval, rejection and administration\<close>

lemma beginIdempotency_moves:
  "beginIdempotency now i actor route key payload s = Inr (s', r) \<Longrightarrow> moves ci T S s s'"
  by (auto simp: beginIdempotency_def moves_def split: option.splits if_splits intro: insert_ok(6) insert_evolves(6))

lemma finishIdempotency_moves: "finishIdempotency actor route key u s = Inr s' \<Longrightarrow> moves ci T S s s'"
  by (auto simp: finishIdempotency_def moves_def adb_ok_def checked_Some_iff)

lemma on_conflict_Inr [simp]: "on_conflict r = Inr x \<longleftrightarrow> r = Inr x"
  by (cases r) (auto simp: on_conflict_def)

lemma linkable_unclaimed:
  assumes "adb_ok ci s" and "linkable ci s u i = Some m"
  shows "m \<in> set (members s) \<and> sm_user_id m = None \<and> (\<forall>q\<in>set (members s). sm_id q = i \<longrightarrow> q = m)"
proof -
  have m: "m \<in> set (members s)" "sm_id m = i" "sm_status m = Unclaimed"
    using assms(2) by (auto simp: linkable_def split: option.splits if_splits dest: select_one_SomeD)
  have "unique_on (\<lambda>_. True) sm_id (members s)" "member_check m"
    using assms(1) m(1) by (auto simp: adb_ok_def members_unique_def list_all_iff)
  with m show ?thesis by (auto simp: member_check_def intro: unique_onD)
qed

lemma update_account_moves:
  assumes "update_accounts now (\<lambda>a. acc_id a = u) f s = Some s'"
    and "\<And>a. acc_id (f a) = acc_id a \<and> acc_created_at (f a) = acc_created_at a"
    and "u \<notin> S \<Longrightarrow> (\<And>a. no_gain (acc_role a) (acc_role (f a)))"
  shows "moves ci {u} S s s'"
  using update_accounts_ok [OF assms(1)] update_accounts_evolves [OF assms(1), of "{u}" S] assms(2,3)
  by (auto simp: moves_def)

text \<open>
  The parts of an approval and of a rejection that went through.
\<close>

lemma ApproveStudent_cases:
  assumes "ApproveStudent ci clk i actor u m key s = (s', r)"
  obtains "s' = s"
  | s1 s2 s3 s4 rec where
      "beginIdempotency (clk 0) i actor ''pending-link.approve'' key (u @ ''|'' @ m) s = Inr (s1, None)"
      "linkable ci s1 u m = Some rec"
      "update_members ci (\<lambda>q. sm_id q = m) (claim u (clk 1)) s1 = Some s2"
      "update_accounts (clk 2) (\<lambda>a. acc_id a = u) make_student s2 = Some s3"
      "finishIdempotency actor ''pending-link.approve'' key u s3 = Inr s4"
      "commit (\<lambda>v. v = u) s4 = Some s'"
  using assms
  by (auto simp: ApproveStudent_def then_user_def split: option.splits sum.splits prod.splits if_splits)

lemma ApproveStudent_keeps:
  assumes "ApproveStudent ci clk i actor u m key s = (s', r)" and "adb_ok ci s"
  shows "keeps ci {u} {} s s'"
  using assms(1)
proof (cases rule: ApproveStudent_cases)
  case (2 s1 s2 s3 s4 rec)
  have m1: "moves ci {u} {} s s1" by (rule beginIdempotency_moves [OF 2(1)])
  then have ok: "adb_ok ci s1" using assms(2) by (simp add: moves_def)
  have "evolves {u} {} s1 s2"
    by (rule update_members_evolves [OF 2(3)]) (use linkable_unclaimed [OF ok 2(2)] in \<open>auto simp: claim_evolves\<close>)
  then have "moves ci {u} {} s1 s2" using update_ok(4) [OF 2(3)] by (simp add: moves_def)
  with m1 have "moves ci {u} {} s s2" by (rule moves_trans)
  also have "moves ci {u} {} s2 s3"
    by (rule update_account_moves [OF 2(4)]) (simp_all add: make_student_def no_gain_def)
  also have "moves ci {u} {} s3 s4" by (rule finishIdempotency_moves [OF 2(5)])
  finally show ?thesis using 2(6) by (rule keeps_commit) simp
qed simp

lemma RejectUser_cases:
  assumes "RejectUser ci clk i actor u reason key s = (s', r)"
  obtains "s' = s"
  | s1 s2 s3 where
      "beginIdempotency (clk 0) i actor ''pending-link.reject'' key (u @ ''|'' @ reason) s = Inr (s1, None)"
      "update_accounts (clk 1) (\<lambda>a. acc_id a = u) (make_rejected reason) s1 = Some s2"
      "finishIdempotency actor ''pending-link.reject'' key u s2 = Inr s3"
      "commit (\<lambda>v. v = u) s3 = Some s'"
  using assms
  by (auto simp: RejectUser_def then_user_def split: option.splits sum.splits prod.splits if_splits)

lemma RejectUser_keeps:
  assumes "RejectUser ci clk i actor u reason key s = (s', r)"
  shows "keeps ci {u} {} s s'"
  using assms
proof (cases rule: RejectUser_cases)
  case (2 s1 s2 s3)
  have "moves ci {u} {} s s1" by (rule beginIdempotency_moves [OF 2(1)])
  also have "moves ci {u} {} s1 s2"
    by (rule update_account_moves [OF 2(2)]) (simp_all add: make_rejected_def no_gain_def)
  also have "moves ci {u} {} s2 s3" by (rule finishIdempotency_moves [OF 2(3)])
  finally show ?thesis using 2(4) by (rule keeps_commit) simp
qed simp

lemma SetRole_keeps:
  assumes "SetRole now actor u role s = (s', r)"
  shows "keeps ci {u} {u} s s' \<and> (s' = s \<or> isAdmin s actor)"
proof -
  consider "s' = s" | t rl where "isAdmin s actor" "parse_role role = Some rl"
      "update_accounts now (\<lambda>a. acc_id a = u)
         (\<lambda>a. a\<lparr>acc_status := UserActive, acc_role := Some rl, acc_rejection_reason := None, acc_blocked_at := None\<rparr>) s = Some t"
      "commit (\<lambda>v. v = u) t = Some s'"
    using assms by (auto simp: SetRole_def bind_eq_Some_conv split: if_splits option.splits)
  then show ?thesis
  proof cases
    case 2
    have "moves ci {u} {u} s t" by (rule update_account_moves [OF 2(3)]) simp_all
    then have "keeps ci {u} {u} s s'" using 2(4) by (rule keeps_commit) simp
    with 2(1) show ?thesis by blast
  qed simp
qed

lemma Block_cases:
  assumes "Block clk actor u s = (s', r)"
  obtains "s' = s"
  | s1 s2 where "isAdmin s actor" "actor \<noteq> u"
      "update_accounts (clk 0) (\<lambda>a. acc_id a = u \<and> acc_status a \<noteq> UserBlocked) (make_blocked (clk 0)) s = Some s1"
      "rows_affected (\<lambda>a. acc_id a = u \<and> acc_status a \<noteq> UserBlocked) (accounts s) = 1"
      "update_sessions (\<lambda>w. ws_user_id w = u) (revoke_session (clk 1)) s1 = Some s2"
      "commit (\<lambda>v. v = u) s2 = Some s'"
  using assms by (auto simp: Block_def Let_def bind_eq_Some_conv split: if_splits option.splits)

lemma Block_keeps:
  assumes "Block clk actor u s = (s', r)"
  shows "keeps ci {u} {} s s'"
  using assms
proof (cases rule: Block_cases)
  case (2 s1 s2)
  have "evolves {u} {} s s1"
    by (rule update_accounts_evolves [OF 2(3)]) (auto simp: make_blocked_def no_gain_def)
  then have "moves ci {u} {} s s1" using update_accounts_ok [OF 2(3)] by (simp add: moves_def)
  also have "moves ci {u} {} s1 s2"
    using update_sessions_keeps [OF 2(5), of ci "{u}" "{}"] by (simp add: keeps_def)
  finally show ?thesis using 2(6) by (rule keeps_commit) simp
qed simp

lemma AssignTeacher_keeps: "AssignTeacher actor u g s = Inr s' \<Longrightarrow> keeps ci {} {} s s'"
  by (rule keeps_untouched)
    (auto simp: AssignTeacher_def moves_def split: if_splits option.splits bool.splits dest!: upsert_frame(3))

section \<open>Rosters\<close>

lemma upsert_student_moves:
  "upsert_student ci now i g st s = Inr (s', m) \<Longrightarrow> moves ci T S s s'"
  by (auto simp: upsert_student_def moves_def member_evolves_def split: option.splits
      intro: insert_ok(5) insert_evolves(5) update_ok(4) update_members_evolves)

lemma apply_student_moves:
  assumes "apply_student ci clk i g st s = Inr (s', ts)" and "set ts \<subseteq> T"
  shows "moves ci T {} s s'"
proof -
  obtain s1 m s2 where p: "upsert_student ci (clk 0) i g st s = Inr (s1, m)"
    and claimed: "(case claimant ci m (rst_github_login st) s1 of None \<Rightarrow> Inr s1
        | Some u \<Rightarrow> statement (update_members ci (\<lambda>q. sm_id q = m \<and> sm_user_id q = None) (claim u (clk 1)) s1)) = Inr s2"
    and a: "update_accounts (clk 2) (owner_of_record m s2) (activate_student (clk 2)) s2 = Some s'"
    and ts: "ts = map acc_id (filter (owner_of_record m s2) (accounts s2))"
    using assms(1) by (auto simp: apply_student_def)
  have c: "s2 = s1 \<or> (\<exists>u. update_members ci (\<lambda>q. sm_id q = m \<and> sm_user_id q = None) (claim u (clk 1)) s1 = Some s2)"
    using claimed by (auto split: option.splits)
  have "moves ci T {} s s1" by (rule upsert_student_moves [OF p])
  also have "moves ci T {} s1 s2"
    using c by (auto simp: moves_def claim_evolves intro: update_ok(4) update_members_evolves)
  also have "evolves T {} s2 s'"
    by (rule update_accounts_evolves [OF a])
      (use assms(2) ts in \<open>auto simp: activate_student_def no_gain_def\<close>)
  then have "moves ci T {} s2 s'" using update_accounts_ok [OF a] by (simp add: moves_def)
  finally show ?thesis .
qed

lemma apply_students_moves:
  "apply_students ci clk uid g n touched sts s = Inr (s', n', ts) \<Longrightarrow>
   set touched \<subseteq> set ts \<and> (\<forall>T. set ts \<subseteq> T \<longrightarrow> moves ci T {} s s')"
proof (induction sts arbitrary: n touched s)
  case (Cons st sts)
  then obtain s1 ts1 where 1: "apply_student ci (clk n) (uid n) g st s = Inr (s1, ts1)"
    and 2: "apply_students ci clk uid g (Suc n) (touched @ ts1) sts s1 = Inr (s', n', ts)"
    by auto
  have "moves ci T {} s s'" if "set ts \<subseteq> T" for T
    using Cons.IH [OF 2] apply_student_moves [OF 1, of T] that by (auto intro: moves_trans [of ci T "{}" s s1 s'])
  with Cons.IH [OF 2] show ?case by auto
qed simp

lemma apply_group_moves:
  assumes "apply_group ci clk uid actor org n touched g s = Inr (s', n', ts)"
  shows "set touched \<subseteq> set ts \<and> (\<forall>T. set ts \<subseteq> T \<longrightarrow> moves ci T {} s s')"
proof -
  obtain r t s1 s2 gid b where p: "upsert_group ci r s = Some (s1, gid)" "insert_teacher t s1 = Some (s2, b)"
      "apply_students ci clk uid gid (Suc n) touched (rg_students g) s2 = Inr (s', n', ts)"
    using assms by (auto simp: apply_group_def)
  have "moves ci T {} s s2" for T
    using upsert_frame(2) [OF p(1)] upsert_frame(3) [OF p(2)] by (auto simp: moves_def)
  with apply_students_moves [OF p(3)] show ?thesis by (auto intro: moves_trans)
qed

lemma apply_groups_moves:
  "apply_groups ci clk uid actor org n touched gs s = Inr (s', ts) \<Longrightarrow>
   set touched \<subseteq> set ts \<and> (\<forall>T. set ts \<subseteq> T \<longrightarrow> moves ci T {} s s')"
proof (induction gs arbitrary: n touched s)
  case (Cons g gs)
  then obtain s1 n1 ts1 where 1: "apply_group ci clk uid actor org n touched g s = Inr (s1, n1, ts1)"
    and 2: "apply_groups ci clk uid actor org n1 ts1 gs s1 = Inr (s', ts)"
    by auto
  have "moves ci T {} s s'" if "set ts \<subseteq> T" for T
    using Cons.IH [OF 2] apply_group_moves [OF 1] that by (auto intro: moves_trans [of ci T "{}" s s1 s'])
  with Cons.IH [OF 2] apply_group_moves [OF 1] show ?case by auto
qed simp

lemma ApplyRoster_keeps:
  assumes "ApplyRoster_tx ci clk uid actor d s = Inr s'"
  shows "\<exists>T. keeps ci T {} s s'"
proof -
  obtain r s1 org s2 ts where p: "upsert_organization ci r s = Some (s1, org)"
      "apply_groups ci clk uid actor org 1 [] (rd_groups d) s1 = Inr (s2, ts)" "commit (List.member ts) s2 = Some s'"
    using assms by (auto simp: ApplyRoster_tx_def)
  have "moves ci (set ts) {} s s1" using upsert_frame(1) [OF p(1)] by (auto simp: moves_def)
  also have "moves ci (set ts) {} s1 s2" using apply_groups_moves [OF p(2)] by blast
  finally have "keeps ci (set ts) {} s s'" using p(3) by (rule keeps_commit) simp
  then show ?thesis ..
qed

section \<open>Steps and runs\<close>

text \<open>
  Every step keeps the invariant and moves the tables.  It raises an account to the staff only when
  it is the change of a role by an administrator or the sign-in of the bootstrap administrator.
\<close>

definition raises :: "(string \<Rightarrow> string) \<Rightarrow> (string \<Rightarrow> string) \<Rightarrow> int \<Rightarrow> adb \<Rightarrow> adb \<Rightarrow> uuid \<Rightarrow> bool" where
  "raises ul ci boot s s' u \<longleftrightarrow>
     (\<exists>now actor role r. isAdmin s actor \<and> SetRole now actor u role s = (s', r))
   \<or> (\<exists>clk i j profile r. pf_id profile = boot \<and> LoginGitHub ul ci boot clk i j profile s = (s', r))"

lemma account_step_keeps:
  assumes "account_step ul ci boot s s'" and "adb_ok ci s"
  shows "\<exists>T S. keeps ci T S s s' \<and> (\<forall>u\<in>S. raises ul ci boot s s' u)"
  using assms(1)
proof cases
  case (login clk i j profile r)
  then obtain u where "keeps ci {u} (if pf_id profile = boot then {u} else {}) s s'"
    using LoginGitHub_keeps by blast
  then show ?thesis using login
    by (intro exI [of _ "{u}"] exI [of _ "if pf_id profile = boot then {u} else {}"]) (auto simp: raises_def)
next
  case (set_role now actor u role r)
  have k: "keeps ci {u} {u} s s'" "s' = s \<or> isAdmin s actor" using SetRole_keeps [OF set_role] by blast+
  show ?thesis
  proof (cases "s' = s")
    case True
    then show ?thesis by (intro exI [of _ "{}"]) simp
  next
    case False
    then show ?thesis using k set_role by (intro exI [of _ "{u}"]) (auto simp: raises_def)
  qed
next
  case (reject clk i actor u reason key r)
  then consider "s' = s" | "RejectUser ci clk i actor u (trim_space reason) key s = (s', r)"
    by (auto simp: Reject_def split: if_splits)
  then have "keeps ci {u} {} s s'" using RejectUser_keeps by cases auto
  then show ?thesis by blast
next
  case (roster rclk uid actor d)
  then show ?thesis using ApplyRoster_keeps by blast
next
  case (start seal config app_now db_now i r1 r2 r3 path url)
  then show ?thesis using Start_keeps by blast
next
  case (consume now h f)
  then show ?thesis using ConsumeFlow_keeps by blast
next
  case (create hashKey csrfKey app_now db_now ttl i r1 r2 u n)
  then show ?thesis using Create_session_keeps by blast
next
  case (revoke now w)
  then show ?thesis using sessions_keep(1) by blast
next
  case (view w u role t)
  then show ?thesis using sessions_keep(2) by blast
next
  case (unview w u)
  then show ?thesis using sessions_keep(3) by blast
next
  case (approve clk i actor u m key r)
  then have "ApproveStudent ci clk i actor u m key s = (s', r)" by (simp add: Approve_def)
  then have "keeps ci {u} {} s s'" using assms(2) by (rule ApproveStudent_keeps)
  then show ?thesis by blast
next
  case (block clk actor u r)
  then show ?thesis using Block_keeps by blast
next
  case (assign actor u g)
  then show ?thesis using AssignTeacher_keeps by blast
qed

text \<open>Along a run the sets add up, and only the evolution is left.\<close>

lemma account_run_keeps:
  assumes "account_run ul ci boot s t" and "adb_ok ci s"
  shows "adb_ok ci t \<and> evolves UNIV UNIV s t \<and> (identified s \<longrightarrow> identified t)"
  using assms
proof induction
  case (more s t u)
  then obtain T S where "keeps ci T S t u" using account_step_keeps by blast
  then have "adb_ok ci u" "evolves UNIV UNIV t u" "identified t \<longrightarrow> identified u"
    using more by (auto simp: keeps_def moves_def intro: evolves_mono)
  with more show ?case using evolves_trans by blast
qed simp

lemma account_run_trans:
  "account_run ul ci boot t u \<Longrightarrow> account_run ul ci boot s t \<Longrightarrow> account_run ul ci boot s u"
  by (induction rule: account_run.induct) (auto intro: account_run.more)

end
