(* ===== verification/Account_Properties.thy ===== *)
theory Account_Properties
  imports Account_Invariant
begin

text \<open>
  The properties of accounts, sessions and sign-in, over any run of the service from empty tables.
\<close>

definition accounts_initial :: "adb \<Rightarrow> bool" where
  "accounts_initial s \<longleftrightarrow>
     accounts s = [] \<and> identities s = [] \<and> flows s = [] \<and> sessions s = [] \<and> members s = [] \<and> idempotency s = []"

definition account_reachable :: "(string \<Rightarrow> string) \<Rightarrow> (string \<Rightarrow> string) \<Rightarrow> int \<Rightarrow> adb \<Rightarrow> bool" where
  "account_reachable ul ci boot s \<longleftrightarrow> (\<exists>s0. accounts_initial s0 \<and> account_run ul ci boot s0 s)"

lemma accounts_initial_ok: "accounts_initial s \<Longrightarrow> adb_ok ci s \<and> identified s"
  by (simp add: accounts_initial_def adb_ok_def identified_def accounts_unique_def identities_unique_def
      flows_unique_def sessions_unique_def members_unique_def idempotency_unique_def)

lemma account_reachable_ok: "account_reachable ul ci boot s \<Longrightarrow> adb_ok ci s \<and> identified s"
  unfolding account_reachable_def using accounts_initial_ok account_run_keeps by blast

lemma account_reachable_run:
  "account_reachable ul ci boot s \<Longrightarrow> account_run ul ci boot s t \<Longrightarrow> account_reachable ul ci boot t"
  unfolding account_reachable_def using account_run_trans by blast

section \<open>Accounts\<close>




section \<open>Sign-in\<close>

lemma ConsumeFlow_effect:
  assumes "ConsumeFlow now h s = Inr (s', f)"
  shows "\<exists>g\<in>set (flows s). usable_flow now h g \<and> flw_encrypted_verifier f = fl_verifier g \<and> flw_return_path f = fl_return_path g
     \<and> (\<exists>g'\<in>set (flows s'). fl_state_hash g' = h \<and> fl_consumed_at g' \<noteq> None)"
proof -
  obtain g where u: "update_flows (usable_flow now h) (\<lambda>f. f\<lparr>fl_consumed_at := Some now\<rparr>) s = Some s'"
    and g: "select_one (usable_flow now h) (flows s) = Some g"
      "f = \<lparr>flw_state_hash = fl_state_hash g, flw_encrypted_verifier = fl_verifier g,
            flw_return_path = fl_return_path g, flw_expires_at = fl_expires_at g\<rparr>"
    using assms by (auto simp: ConsumeFlow_def split: option.splits)
  have gs: "g \<in> set (flows s)" "usable_flow now h g" using select_one_SomeD [OF g(1)] by blast+
  obtain xs where xs: "s' = s\<lparr>flows := xs\<rparr>"
    "exec_update (usable_flow now h) (\<lambda>f. row_check flow_check (f\<lparr>fl_consumed_at := Some now\<rparr>)) (flows s) = Some xs"
    using statement_effects(2) [OF u] by (auto simp: checked_Some_iff)
  obtain g' where "g' \<in> set xs" "fl_state_hash g' = fl_state_hash g" "fl_consumed_at g' = Some now"
    using exec_update_memI [OF xs(2) gs(1)] gs(2) by (auto simp: updated_row_def row_check_def split: if_splits)
  with gs g(2) xs(1) show ?thesis by (auto simp: usable_flow_def)
qed

lemma flow_by_hash:
  assumes "adb_ok ci s" and "f \<in> set (flows s)" and "g \<in> set (flows s)" and "fl_state_hash f = fl_state_hash g"
  shows "f = g"
  using assms unique_onD [of "\<lambda>_. True" fl_state_hash "flows s" f g] by (simp add: adb_ok_def flows_unique_def)

text \<open>
  C30: an OAuth state works once.  After it was consumed, in every later state and whatever else
  happened, consuming it again finds nothing and changes nothing; and the path to which the sign-in
  returns is always a local one.
\<close>

theorem flow_single_use:
  assumes "account_reachable ul ci boot s" and "ConsumeFlow now h s = Inr (s1, f)" and "account_run ul ci boot s1 t"
  shows "ConsumeFlow now' h t = Inl ErrNoRows \<and> valid_return_path (flw_return_path f)"
proof -
  obtain g g' where g: "g \<in> set (flows s)" "flw_return_path f = fl_return_path g"
    and g': "g' \<in> set (flows s1)" "fl_state_hash g' = h" "fl_consumed_at g' \<noteq> None"
    using ConsumeFlow_effect [OF assms(2)] by blast
  have ok1: "adb_ok ci s1"
    using ConsumeFlow_keeps [OF assms(2), of ci] account_reachable_ok [OF assms(1)] by (simp add: keeps_def moves_def)
  have run: "adb_ok ci t" "evolves UNIV UNIV s1 t" using account_run_keeps [OF assms(3) ok1] by blast+
  obtain k where k: "k \<in> set (flows t)" "fl_state_hash k = h" "fl_consumed_at k \<noteq> None"
    using grows_keeps [of flow_evolves flow_new "flows s1" "flows t" g'] run(2) g' by (auto simp: evolves_def flow_evolves_def)
  then have none: "\<not> usable_flow now' h q" if "q \<in> set (flows t)" for q
    using flow_by_hash [OF run(1) that k(1)] by (auto simp: usable_flow_def)
  then have "select_one (usable_flow now' h) (flows t) = None" by (simp add: select_one_None_iff)
  moreover have "update_flows (usable_flow now' h) F t = Some t" for F
    using none run(1) by (simp add: update_flows_def exec_update_noop checked_def adb_ok_def)
  ultimately have "ConsumeFlow now' h t = Inl ErrNoRows" by (simp add: ConsumeFlow_def)
  moreover have "valid_return_path (fl_return_path g)"
  proof -
    obtain s0 where "accounts_initial s0" "account_run ul ci boot s0 s"
      using assms(1) by (auto simp: account_reachable_def)
    then have "evolves UNIV UNIV s0 s" "flows s0 = []"
      using account_run_keeps accounts_initial_ok by (auto simp: accounts_initial_def)
    then show ?thesis
      using grows_from [of flow_evolves flow_new "flows s0" "flows s" g] g(1) by (auto simp: evolves_def flow_new_def)
  qed
  ultimately show ?thesis using g(2) by simp
qed

text \<open>
  the proof key of the OAuth flow.  When a sign-in that was started with a state completes, in
  any later state of the service, GitHub was asked with the very verifier whose SHA-256 challenge
  the start sent, and the sign-in returns to the path that the start was given.  The hypothesis on
  the authenticated encryption is that it opens what it sealed.
\<close>

theorem oauth_proof_key:
  assumes "account_reachable ul ci boot s"
    and "\<And>n v. unseal n (seal n v) = Some v" and "length nonce = nonce_size"
    and "Start seal config app_now db_now i (Some a) (Some b) (Some nonce) path s = Inr (s1, url)"
    and "account_run ul ci boot s1 t"
    and "Complete unseal authenticate ul ci boot config clk u j code (base64_url a) t = (t', Inr (user, back_to))"
  shows "back_to = (if path = '''' then ''/'' else path)
     \<and> (\<exists>profile. authenticate (cf_client_id config) (cf_client_secret config) code (base64_url b) = Inr profile
          \<and> pf_id profile > 0)"
proof -
  let ?h = "sha256 (base64_url a)"
  let ?p = "if path = '''' then ''/'' else path"
  define f where "f = \<lparr>fl_id = i, fl_state_hash = ?h, fl_verifier = nonce @ seal nonce (base64_url b), fl_return_path = ?p,
     fl_expires_at = app_now + cf_flow_ttl config, fl_consumed_at = None, fl_created_at = db_now\<rparr>"
  have "f \<in> set (flows s1)"
    using assms(4) by (auto simp: Start_def Let_def NewToken_def CreateFlow_def insert_flow_def f_def split: if_splits)
  then have f: "f \<in> set (flows s1)" "fl_state_hash f = ?h" "fl_verifier f = nonce @ seal nonce (base64_url b)" "fl_return_path f = ?p"
    by (simp_all add: f_def)
  have ok1: "adb_ok ci s1"
    using Start_keeps [OF assms(4), of ci] account_reachable_ok [OF assms(1)] by (simp add: keeps_def moves_def)
  have run: "adb_ok ci t" "evolves UNIV UNIV s1 t" using account_run_keeps [OF assms(5) ok1] by blast+
  obtain k where k: "k \<in> set (flows t)" "fl_state_hash k = ?h" "fl_verifier k = nonce @ seal nonce (base64_url b)" "fl_return_path k = ?p"
    using grows_keeps [of flow_evolves flow_new "flows s1" "flows t" f] run(2) f by (auto simp: evolves_def flow_evolves_def)
  obtain t1 flow verifier profile t2 where c: "ConsumeFlow (clk 0) ?h t = Inr (t1, flow)"
    and v: "unseal (take nonce_size (flw_encrypted_verifier flow)) (drop nonce_size (flw_encrypted_verifier flow)) = Some verifier"
    and p: "authenticate (cf_client_id config) (cf_client_secret config) code verifier = Inr profile" "pf_id profile > 0"
    and r: "back_to = flw_return_path flow"
    using assms(6) by (auto simp: Complete_def split: if_splits sum.splits prod.splits option.splits)
  obtain g where g: "g \<in> set (flows t)" "usable_flow (clk 0) ?h g" "flw_encrypted_verifier flow = fl_verifier g" "flw_return_path flow = fl_return_path g"
    using ConsumeFlow_effect [OF c] by blast
  then have "g = k" using flow_by_hash [OF run(1) g(1) k(1)] k(2) by (simp add: usable_flow_def)
  then have "flw_encrypted_verifier flow = nonce @ seal nonce (base64_url b)" "flw_return_path flow = ?p"
    using g k by simp_all
  then have "verifier = base64_url b" using v assms(2,3) by simp
  then show ?thesis using p r \<open>flw_return_path flow = ?p\<close> by auto
qed

section \<open>Sessions\<close>

lemma session_by_hash:
  assumes "adb_ok ci s" and "w \<in> set (sessions s)" and "w' \<in> set (sessions s)" and "ws_token_hash w = ws_token_hash w'"
  shows "w = w'"
  using assms unique_onD [of "\<lambda>_. True" ws_token_hash "sessions s" w w'] by (simp add: adb_ok_def sessions_unique_def)

lemma FindActive_iff:
  "FindActive hk now token s = Inr (x, h) \<longleftrightarrow>
     (\<exists>w. select_one (live_session now (HashToken hk token)) (sessions s) = Some w \<and> x = session_view w \<and> h = ws_csrf_hash w)"
  by (auto simp: FindActive_def split: option.splits)

lemma FindActive_row:
  "FindActive hk now token s = Inr (x, h) \<Longrightarrow>
     \<exists>w\<in>set (sessions s). live_session now (HashToken hk token) w \<and> x = session_view w \<and> h = ws_csrf_hash w"
  by (auto simp: FindActive_iff dest: select_one_SomeD)

text \<open>
  the life of a session.  The token of a new session is found until the session expires.  In
  every later state whoever presents the token gets this session and no other, for the user it was
  made for, and the CSRF token handed out with it passes the check, while a CSRF token is refused for
  every other session whose identifier has the same length.  Once the session is revoked, its token
  is never found again.
\<close>

theorem session_life:
  assumes "adb_ok ci s" and "Create_session hk ck app_now db_now ttl i r1 r2 u s = Inr (s1, n)"
    and "account_run ul ci boot s1 t"
  shows "(now < app_now + ttl \<longrightarrow> (\<exists>h. FindActive hk now (ns_token n) s1 = Inr (ns_session n, h)))
     \<and> (\<forall>now x h. FindActive hk now (ns_token n) t = Inr (x, h) \<longrightarrow>
          se_id x = i \<and> se_user_id x = u \<and> VerifyCSRFToken ck i (ns_csrf_token n) h = Inr ()
        \<and> (\<forall>i'. length i' = length i \<and> i' \<noteq> i \<longrightarrow> VerifyCSRFToken ck i' (ns_csrf_token n) h \<noteq> Inr ()))
     \<and> (\<forall>now t' t'' now'. Revoke now i t = Inr t' \<and> account_run ul ci boot t' t'' \<longrightarrow>
          FindActive hk now' (ns_token n) t'' = Inl ErrNoRows)"
proof -
  obtain nonce where n: "ns_csrf_token n = i @ ''.'' @ nonce"
    "ns_session n = \<lparr>se_id = i, se_user_id = u, se_expires_at = app_now + ttl, se_revoked_at = None, se_view_role = None, se_view_target = None\<rparr>"
    using assms(2) by (auto simp: Create_session_def NewCSRFToken_def Let_def)
  define w where "w = \<lparr>ws_id = i, ws_user_id = u, ws_token_hash = HashToken hk (ns_token n), ws_csrf_hash = HashToken ck (ns_csrf_token n),
      ws_view_role = None, ws_view_target = None, ws_created_at = db_now, ws_expires_at = app_now + ttl, ws_revoked_at = None\<rparr>"
  have w: "w \<in> set (sessions s1)"
    using assms(2) by (auto simp: Create_session_def NewCSRFToken_def Let_def insert_session_def w_def split: if_splits)
  have ok1: "adb_ok ci s1" using Create_session_keeps [OF assms(2), of ci] assms(1) by (simp add: keeps_def moves_def)
  have found: "\<exists>h. FindActive hk now (ns_token n) s1 = Inr (ns_session n, h)" if "now < app_now + ttl"
  proof -
    have live: "live_session now (HashToken hk (ns_token n)) w" using that by (simp add: live_session_def w_def)
    then obtain w' where sel: "select_one (live_session now (HashToken hk (ns_token n))) (sessions s1) = Some w'"
      using w by (metis not_None_eq select_one_None_iff)
    then have "w' = w" using session_by_hash [OF ok1 _ w] select_one_SomeD [OF sel] by (auto simp: live_session_def w_def)
    then show ?thesis using sel n(2) by (simp add: FindActive_def session_view_def w_def)
  qed
  have later: "\<exists>k\<in>set (sessions t'). session_evolves w k" "adb_ok ci t'" if "account_run ul ci boot s1 t'" for t'
    using account_run_keeps [OF that ok1] grows_keeps [of session_evolves "\<lambda>_. True" "sessions s1" "sessions t'" w] w
    by (simp_all add: evolves_def)
  have mine: "session_evolves w x" if r: "account_run ul ci boot s1 t'" and x: "x \<in> set (sessions t')" "ws_token_hash x = HashToken hk (ns_token n)" for t' x
  proof -
    obtain k where "k \<in> set (sessions t')" "session_evolves w k" using later(1) [OF r] by blast
    moreover have "x = k" using calculation session_by_hash [OF later(2) [OF r] x(1)] x(2) by (simp add: session_evolves_def w_def)
    ultimately show ?thesis by simp
  qed
  have bound: "se_id x = i \<and> se_user_id x = u \<and> h = HashToken ck (ns_csrf_token n)" if "FindActive hk now (ns_token n) t = Inr (x, h)" for now x h
    using FindActive_row [OF that] mine [OF assms(3)] by (auto simp: live_session_def session_evolves_def session_view_def w_def)
  have "VerifyCSRFToken ck i (ns_csrf_token n) (HashToken ck (ns_csrf_token n)) = Inr ()"
    by (simp add: VerifyCSRFToken_def VerifyToken_def n(1) has_prefix_iff)
  moreover have "VerifyCSRFToken ck i' (ns_csrf_token n) h \<noteq> Inr ()" if "length i' = length i" "i' \<noteq> i" for i' h
    using that by (auto simp: VerifyCSRFToken_def n(1) has_prefix_iff)
  moreover have "FindActive hk now' (ns_token n) t'' = Inl ErrNoRows"
    if rv: "Revoke now i t = Inr t'" and after: "account_run ul ci boot t' t''" for now t' t'' now'
  proof -
    have runs: "account_run ul ci boot s1 t'" using account_run.more [OF assms(3) account_step.revoke [OF rv]] .
    have okt': "adb_ok ci t'" using later(2) [OF runs] .
    obtain k where k: "k \<in> set (sessions t)" "session_evolves w k" using later(1) [OF assms(3)] by blast
    have u: "update_sessions (\<lambda>w. ws_id w = i) (revoke_session now) t = Some t'" using rv by (simp add: Revoke_def)
    obtain xs where xs: "t' = t\<lparr>sessions := xs\<rparr>"
      "exec_update (\<lambda>w. ws_id w = i) (\<lambda>g. row_check session_check (revoke_session now g)) (sessions t) = Some xs"
      using statement_effects(3) [OF u] by (auto simp: checked_Some_iff)
    obtain k' where k': "k' \<in> set (sessions t')" "ws_revoked_at k' \<noteq> None" "ws_token_hash k' = HashToken hk (ns_token n)"
      using exec_update_memI [OF xs(2) k(1)] k(2) xs(1)
      by (auto simp: updated_row_def row_check_def revoke_session_def session_evolves_def w_def split: if_splits option.splits)
    have all: "account_run ul ci boot s1 t''" using account_run_trans [OF after runs] .
    have e: "evolves UNIV UNIV t' t''" using account_run_keeps [OF after okt'] by blast
    obtain k'' where k'': "k'' \<in> set (sessions t'')" "ws_revoked_at k'' \<noteq> None" "ws_token_hash k'' = HashToken hk (ns_token n)"
      using grows_keeps [of session_evolves "\<lambda>_. True" "sessions t'" "sessions t''" k'] e k' by (auto simp: evolves_def session_evolves_def)
    have "\<not> live_session now' (HashToken hk (ns_token n)) x" if "x \<in> set (sessions t'')" for x
      using session_by_hash [OF later(2) [OF all] that k''(1)] k'' by (auto simp: live_session_def)
    then have "select_one (live_session now' (HashToken hk (ns_token n))) (sessions t'') = None" by (simp add: select_one_None_iff)
    then show ?thesis by (simp add: FindActive_def)
  qed
  ultimately show ?thesis using found bound by blast
qed

section \<open>Refused by the database\<close>

text \<open>
  The query of \<open>SetRole\<close> lists rejected users among those it changes, but the trigger
  \<open>validate_user_transition\<close> has no move from rejected to active: the call always fails.
\<close>

theorem SetRole_rejected_fails:
  assumes "a \<in> set (accounts s)" and "acc_status a = UserRejected"
  shows "fst (SetRole now actor (acc_id a) role s) = s \<and> isl (snd (SetRole now actor (acc_id a) role s))"
proof -
  have "update_accounts now (\<lambda>b. acc_id b = acc_id a)
      (\<lambda>b. b\<lparr>acc_status := UserActive, acc_role := r, acc_rejection_reason := None, acc_blocked_at := None\<rparr>) s = None" for r
  proof (rule ccontr)
    assume "\<not> ?thesis"
    then obtain xs where "exec_update (\<lambda>b. acc_id b = acc_id a) (\<lambda>old. Option.bind (user_trigger now old
        (old\<lparr>acc_status := UserActive, acc_role := r, acc_rejection_reason := None, acc_blocked_at := None\<rparr>)) (row_check account_check))
        (accounts s) = Some xs"
      using update_accounts_effect by blast
    from exec_update_memI [OF this assms(1)] assms(2) show False
      by (simp add: updated_row_def user_trigger_def validate_user_transition_def)
  qed
  then show ?thesis by (simp add: SetRole_def split: option.splits)
qed

text \<open>
  A roster that lists a blocked student cannot be imported: the statement that activates the owner
  of a record sets the status and leaves \<open>blocked_at\<close>, which the check of the table refuses.
\<close>

theorem roster_blocked_student_fails:
  assumes "adb_ok ci s" and "current_record ci (rst_github_login st) s = Some m" and "sm_user_id m = Some (acc_id a)"
    and "a \<in> set (accounts s)" and "acc_status a = UserBlocked" and "acc_role a = Some Student"
  shows "isl (apply_student ci clk i g st s)"
proof (rule ccontr)
  assume "\<not> ?thesis"
  then obtain s' ts where "apply_student ci clk i g st s = Inr (s', ts)"
    by (cases "apply_student ci clk i g st s") auto
  then obtain s1 s2 where p: "upsert_student ci (clk 0) i g st s = Inr (s1, sm_id m)"
    and claimed: "(case claimant ci (sm_id m) (rst_github_login st) s1 of None \<Rightarrow> Inr s1
        | Some u \<Rightarrow> statement (update_members ci (\<lambda>q. sm_id q = sm_id m \<and> sm_user_id q = None) (claim u (clk 1)) s1)) = Inr s2"
    and upd: "update_accounts (clk 2) (owner_of_record (sm_id m) s2) (activate_student (clk 2)) s2 = Some s'"
    using assms(2) by (auto simp: apply_student_def upsert_student_def)
  have "set (slice_stable (\<lambda>a b. sm_updated_at a > sm_updated_at b)
      (filter (\<lambda>m. ci (sm_login m) = ci (rst_github_login st) \<and> sm_status m \<noteq> Archived) (members s))) \<subseteq> set (members s)"
    by auto
  then have "m \<in> set (members s)"
    using assms(2) by (auto simp: current_record_def split: list.splits simp del: set_slice_stable)
  moreover have "moves ci UNIV UNIV s s1" by (rule upsert_student_moves [OF p])
  moreover have "moves ci UNIV UNIV s1 s2"
    using claimed by (auto simp: moves_def claim_evolves split: option.splits intro: update_ok(4) update_members_evolves)
  ultimately have "grows member_evolves (\<lambda>_. True) (members s) (members s2)" "m \<in> set (members s)"
    using moves_trans [of ci UNIV UNIV s s1 s2] by (simp_all add: moves_def evolves_def)
  from grows_keeps [OF this] obtain q where "q \<in> set (members s2)" "member_evolves m q" by blast
  then have "owner_of_record (sm_id m) s2 a"
    using assms(3,6) by (auto simp: owner_of_record_def list_ex_iff member_evolves_def intro!: bexI [of _ q])
  moreover have "accounts s2 = accounts s"
  proof -
    have "accounts s1 = accounts s"
      using p assms(2) by (auto simp: upsert_student_def dest!: update_members_effect)
    moreover have "accounts s2 = accounts s1"
      using claimed by (auto split: option.splits dest!: update_members_effect)
    ultimately show ?thesis by simp
  qed
  moreover have "account_check a" using assms(1,4) by (simp add: adb_ok_def list_all_iff)
  ultimately have "Option.bind (user_trigger (clk 2) a (activate_student (clk 2) a)) (row_check account_check) = None"
    "owner_of_record (sm_id m) s2 a" "a \<in> set (accounts s2)"
    using assms(4,5) by (auto simp: user_trigger_def validate_user_transition_def activate_student_def row_check_def account_check_def)
  with upd show False
    using update_accounts_effect [OF upd] exec_update_memI [of "owner_of_record (sm_id m) s2" _ "accounts s2" _ a]
    by (fastforce simp: updated_row_def)
qed

section \<open>An example installation\<close>

text \<open>
  One group; the bootstrap administrator \<open>root\<close> signs in and imports a roster with the student
  \<open>ann\<close>, who then signs in and claims her record.  The roster is imported again with a corrected
  name.
\<close>

definition acct_empty :: adb where
  "acct_empty =
     \<lparr>accounts = [], identities = [], legacy_identities = [], flows = [], sessions = [], organizations = [],
      groups = [], teachers = [], members = [], idempotency = []\<rparr>"

definition acct_clk :: "nat \<Rightarrow> time" where
  "acct_clk n = int n"

definition acct_profile :: "int \<Rightarrow> string \<Rightarrow> Profile" where
  "acct_profile i login = \<lparr>pf_id = i, pf_login = login, pf_display_name = '''', pf_avatar_url = ''''\<rparr>"

definition acct_roster :: "string \<Rightarrow> Document" where
  "acct_roster name =
     \<lparr>rd_schema_version = 1, rd_organization = \<lparr>ro_github_login = ''org'', ro_name = ''Org''\<rparr>,
      rd_groups = [\<lparr>rg_code = ''g1'', rg_name = ''Group'', rg_students = [\<lparr>rst_full_name = name, rst_github_login = ''ann''\<rparr>]\<rparr>]\<rparr>"

definition acct_ids :: "nat \<Rightarrow> uuid" where
  "acct_ids n = replicate n (CHR ''i'')"

definition acct_root :: adb where
  "acct_root = fst (LoginGitHub id id 1 acct_clk ''root'' ''gi1'' (acct_profile 1 ''Root'') acct_empty)"

definition acct_listed :: "adb \<Rightarrow> string \<Rightarrow> adb" where
  "acct_listed s name =
     (case ApplyRoster_tx id (\<lambda>n k. int (10 * n + k)) acct_ids ''root'' (acct_roster name) s of Inl _ \<Rightarrow> s | Inr s' \<Rightarrow> s')"

definition acct_ann :: adb where
  "acct_ann = fst (LoginGitHub id id 1 acct_clk ''ann'' ''gi2'' (acct_profile 2 ''Ann'') (acct_listed acct_root ''A''))"

lemma acct_run_reachable: "account_run id id 1 acct_empty s \<Longrightarrow> account_reachable id id 1 s"
  unfolding account_reachable_def by (rule exI [of _ acct_empty]) (simp add: accounts_initial_def acct_empty_def)

lemma acct_listed_step:
  "\<not> isl (ApplyRoster_tx id (\<lambda>n k. int (10 * n + k)) acct_ids ''root'' (acct_roster name) s) \<Longrightarrow>
   account_step id id 1 s (acct_listed s name)"
  by (auto simp: acct_listed_def split: sum.splits intro: account_step.roster)

lemma acct_ann_reachable: "account_reachable id id 1 acct_ann"
proof -
  have "account_run id id 1 acct_empty acct_root"
    unfolding acct_root_def by (rule account_run.more [OF account_run.stay account_step.login]) (rule prod.collapse [symmetric])
  moreover have "account_step id id 1 acct_root (acct_listed acct_root ''A'')"
    by (rule acct_listed_step) code_simp
  ultimately have "account_run id id 1 acct_empty (acct_listed acct_root ''A'')"
    by (rule account_run.more)
  moreover have "account_step id id 1 (acct_listed acct_root ''A'') acct_ann"
    unfolding acct_ann_def by (rule account_step.login) (rule prod.collapse [symmetric])
  ultimately have "account_run id id 1 acct_empty acct_ann" by (rule account_run.more)
  then show ?thesis by (rule acct_run_reachable)
qed



definition acct_promoted :: adb where
  "acct_promoted = fst (SetRole 50 ''root'' ''ann'' ''teacher'' acct_ann)"


text \<open>A started sign-in: the tables of the start with one flow in them.\<close>

definition acct_config :: Config where
  "acct_config =
     \<lparr>cf_client_id = ''id'', cf_client_secret = ''secret'', cf_redirect_url = ''r'', cf_authorize_url = ''a'', cf_flow_ttl = 10\<rparr>"

definition acct_nonce :: bytes where
  "acct_nonce = replicate 12 (CHR ''n'')"

definition acct_seal :: "bytes \<Rightarrow> bytes \<Rightarrow> bytes" where
  "acct_seal n v = n @ v"

definition acct_unseal :: "bytes \<Rightarrow> bytes \<Rightarrow> bytes option" where
  "acct_unseal n c = (if take (length n) c = n then Some (drop (length n) c) else None)"

definition acct_flow :: flow_row where
  "acct_flow =
     \<lparr>fl_id = ''f'', fl_state_hash = sha256 (base64_url ''x''), fl_verifier = acct_nonce @ acct_seal acct_nonce (base64_url ''y''),
      fl_return_path = ''/lab'', fl_expires_at = 10, fl_consumed_at = None, fl_created_at = 0\<rparr>"

definition acct_started :: adb where
  "acct_started = acct_empty\<lparr>flows := [acct_flow]\<rparr>"

lemma acct_path: "valid_return_path ''/lab''"
  by code_simp

lemma acct_start:
  "\<exists>url. Start acct_seal acct_config 0 0 ''f'' (Some ''x'') (Some ''y'') (Some acct_nonce) ''/lab'' acct_empty = Inr (acct_started, url)"
  by (simp add: Start_def acct_path NewToken_def CreateFlow_def insert_flow_def flow_check_def flows_unique_def unique_on_def
      acct_empty_def acct_started_def acct_flow_def acct_config_def has_prefix_def)

lemma acct_started_reachable: "account_reachable id id 1 acct_started"
proof -
  obtain url where "Start acct_seal acct_config 0 0 ''f'' (Some ''x'') (Some ''y'') (Some acct_nonce) ''/lab'' acct_empty = Inr (acct_started, url)"
    using acct_start by blast
  then have "account_run id id 1 acct_empty acct_started" by (rule account_run.more [OF account_run.stay account_step.start])
  then show ?thesis by (rule acct_run_reachable)
qed

definition acct_consumed :: adb where
  "acct_consumed = acct_empty\<lparr>flows := [acct_flow\<lparr>fl_consumed_at := Some 1\<rparr>]\<rparr>"

lemma acct_consume:
  "ConsumeFlow 1 (sha256 (base64_url ''x'')) acct_started =
     Inr (acct_consumed, \<lparr>flw_state_hash = sha256 (base64_url ''x''), flw_encrypted_verifier = fl_verifier acct_flow,
                          flw_return_path = ''/lab'', flw_expires_at = 10\<rparr>)"
  by (simp add: ConsumeFlow_def update_flows_def checked_def row_check_def flow_check_def flows_unique_def unique_on_def
      usable_flow_def select_one_def acct_started_def acct_consumed_def acct_empty_def acct_flow_def has_prefix_def)

theorem flow_single_use_witness:
  "ConsumeFlow 2 (sha256 (base64_url ''x'')) acct_consumed = Inl ErrNoRows \<and> valid_return_path ''/lab''"
  using flow_single_use [OF acct_started_reachable acct_consume account_run.stay] by simp

lemma acct_trim: "trim_space '''' = ''''" "trim_space ''Root'' \<noteq> ''''"
  by code_simp+

lemma acct_root_login:
  "\<exists>s u. LoginGitHub id id 1 clk ''root'' ''gi1'' (acct_profile 1 ''Root'') (acct_empty\<lparr>flows := fs\<rparr>) = (s, Inr u)
     \<and> usr_status u = UserActive"
  by (simp add: LoginGitHub_def queryUserByGitHubID_def select_one_def acct_empty_def acct_profile_def login_new_def
      login_candidates_def insert_account_def new_account_def account_check_def accounts_unique_def unique_on_def
      insert_identity_def set_profile_def identity_check_def identities_unique_def exists_id_def nullableString_def acct_trim
      rune_count_short to_lower_def ascii_def lower_char_def commit_def has_identity_def then_user_def UserByID_def
      queryUser_def account_def identity_of_def)

theorem oauth_proof_key_witness:
  "\<exists>t user. Complete acct_unseal (\<lambda>i s c v. if v = base64_url ''y'' then Inr (acct_profile 1 ''Root'') else Inl ErrForbidden)
       id id 1 acct_config (\<lambda>_. 1) ''root'' ''gi1'' ''code'' (base64_url ''x'') acct_started = (t, Inr (user, ''/lab''))"
proof -
  let ?auth = "\<lambda>i s c v. if v = base64_url ''y'' then Inr (acct_profile 1 ''Root'') else Inl ErrForbidden"
  obtain url where st: "Start acct_seal acct_config 0 0 ''f'' (Some ''x'') (Some ''y'') (Some acct_nonce) ''/lab'' acct_empty = Inr (acct_started, url)"
    using acct_start by blast
  have empty: "account_reachable id id 1 acct_empty"
    by (rule acct_run_reachable [OF account_run.stay])
  obtain s u where l: "LoginGitHub id id 1 (\<lambda>_. 1) ''root'' ''gi1'' (acct_profile 1 ''Root'') acct_consumed = (s, Inr u)" "usr_status u = UserActive"
    using acct_root_login [of "\<lambda>_. 1" "[acct_flow\<lparr>fl_consumed_at := Some 1\<rparr>]"] by (auto simp: acct_consumed_def)
  have unsealed: "acct_unseal n (acct_seal n v) = Some v" for n v by (simp add: acct_unseal_def acct_seal_def)
  have v: "length (fl_verifier acct_flow) \<ge> nonce_size"
    "acct_unseal (take nonce_size (fl_verifier acct_flow)) (drop nonce_size (fl_verifier acct_flow)) = Some (base64_url ''y'')"
    using unsealed by (simp_all add: acct_flow_def acct_nonce_def nonce_size_def)
  have x: "base64_url ''x'' \<noteq> '''' \<and> length (base64_url ''x'') \<le> 512" by code_simp
  have pf: "pf_id (acct_profile 1 ''Root'') > 0" "trim_space (pf_login (acct_profile 1 ''Root'')) \<noteq> ''''"
    by (simp_all add: acct_profile_def acct_trim)
  have c: "\<exists>p. Complete acct_unseal ?auth id id 1 acct_config (\<lambda>_. 1) ''root'' ''gi1'' ''code'' (base64_url ''x'') acct_started = (s, Inr (u, p))"
    using v x pf l by (simp add: Complete_def acct_consume del: base64_url.simps)
  then obtain p where p: "Complete acct_unseal ?auth id id 1 acct_config (\<lambda>_. 1) ''root'' ''gi1'' ''code'' (base64_url ''x'') acct_started = (s, Inr (u, p))"
    by blast
  have "length acct_nonce = nonce_size" by (simp add: acct_nonce_def nonce_size_def)
  from oauth_proof_key [OF empty unsealed this st account_run.stay p] have "p = ''/lab''" by simp
  with p show ?thesis by blast
qed

text \<open>A session of the administrator.\<close>

theorem session_life_witness:
  "\<exists>s n h. Create_session ''k'' ''c'' 0 0 10 ''s'' (Some ''x'') (Some ''y'') ''root'' acct_root = Inr (s, n)
     \<and> FindActive ''k'' 5 (ns_token n) s = Inr (ns_session n, h)"
proof -
  have ex: "exists_id acc_id ''root'' (accounts acct_root)" "sessions acct_root = []" by code_simp+
  have h: "length (HashToken k m) = 32" for k m by (simp add: HashToken_def hmac_def Let_def)
  obtain s n where c: "Create_session ''k'' ''c'' 0 0 10 ''s'' (Some ''x'') (Some ''y'') ''root'' acct_root = Inr (s, n)"
    using ex by (auto simp: Create_session_def NewToken_def NewCSRFToken_def Let_def insert_session_def session_check_def
        sessions_unique_def unique_on_def h)
  have "account_run id id 1 acct_empty acct_root"
    unfolding acct_root_def by (rule account_run.more [OF account_run.stay account_step.login]) (rule prod.collapse [symmetric])
  then have "account_reachable id id 1 acct_root" by (rule acct_run_reachable)
  then have "adb_ok id acct_root" using account_reachable_ok by blast
  from session_life [OF this c account_run.stay [of id id 1], of 5] obtain h where
    "FindActive ''k'' 5 (ns_token n) s = Inr (ns_session n, h)" by auto
  with c show ?thesis by blast
qed

end
