(* ===== verification/Import_Properties.thy ===== *)
theory Import_Properties
  imports Imports Account_Properties
begin

text \<open>
  The properties of imports and submissions, over any run of the service that interleaves the
  operations on imports with those on accounts.  The methods \<open>AttachVersion\<close> and
  \<open>CreateOrGetByDigest\<close>, which nothing calls, take no part in a run.
\<close>

section \<open>Runs\<close>

inductive import_step :: "(string \<Rightarrow> string) \<Rightarrow> (string \<Rightarrow> string) \<Rightarrow> int \<Rightarrow> idb \<Rightarrow> idb \<Rightarrow> bool"
  for ul ci :: "string \<Rightarrow> string" and boot :: int where
  accounts_change: "account_step ul ci boot (base s) b \<Longrightarrow> import_step ul ci boot s (s\<lparr>base := b\<rparr>)"
| upload: "CreateReview_tx ul ci eqfold clk uid actor g kind obj analysis s = Inr (s', i) \<Longrightarrow> import_step ul ci boot s s'"
| student_upload: "CreateStudentReview_tx ci eqfold now i j actor filename obj analysis s = Inr (s', i') \<Longrightarrow> import_step ul ci boot s s'"
| github_upload: "CreateGitHubReview_tx ul ci eqfold now i j actor g repository obj analysis receipt s = Inr (s', i') \<Longrightarrow> import_step ul ci boot s s'"
| review: "Review_tx now actor i decision sha checklist reason s = Inr (s', i') \<Longrightarrow> import_step ul ci boot s s'"
| begin_apply: "BeginApply now actor i s = (s', r) \<Longrightarrow> import_step ul ci boot s s'"
| commit_apply: "CommitApply jv jo clk uid actor i xs s = Inr (s', ks) \<Longrightarrow> import_step ul ci boot s s'"
| finish: "Finish now i success s = Inr s' \<Longrightarrow> import_step ul ci boot s s'"

inductive import_run :: "(string \<Rightarrow> string) \<Rightarrow> (string \<Rightarrow> string) \<Rightarrow> int \<Rightarrow> idb \<Rightarrow> idb \<Rightarrow> bool"
  for ul ci :: "string \<Rightarrow> string" and boot :: int where
  stay: "import_run ul ci boot s s"
| more: "import_run ul ci boot s t \<Longrightarrow> import_step ul ci boot t u \<Longrightarrow> import_run ul ci boot s u"

definition imports_initial :: "idb \<Rightarrow> bool" where
  "imports_initial s \<longleftrightarrow> import_rows s = [] \<and> items s = [] \<and> versions s = []"

section \<open>How imports evolve\<close>

definition decided :: "import_state \<Rightarrow> bool" where
  "decided st \<longleftrightarrow> st \<in> {ImportApproved, ImportApplying, ImportCompleted, ImportRejected, ImportFailed, ImportCancelled}"

definition import_evolves :: "import_row \<Rightarrow> import_row \<Rightarrow> bool" where
  "import_evolves i i' \<longleftrightarrow>
     im_id i' = im_id i \<and> im_group_id i' = im_group_id i \<and> im_kind i' = im_kind i \<and> im_uploaded_by i' = im_uploaded_by i
   \<and> im_object_key i' = im_object_key i \<and> im_sha256 i' = im_sha256 i
   \<and> (import_terminal (im_state i) \<longrightarrow> im_state i' = im_state i)
   \<and> (decided (im_state i) \<longrightarrow> decided (im_state i') \<and> im_reviewed_by i' = im_reviewed_by i
        \<and> im_reviewed_at i' = im_reviewed_at i \<and> im_reviewed_sha256 i' = im_reviewed_sha256 i)"

interpretation imp: row_evolution import_evolves "\<lambda>_. True"
  by unfold_locales (auto simp: import_evolves_def)

definition of_pair :: "uuid \<Rightarrow> uuid \<Rightarrow> version_row \<Rightarrow> bool" where
  "of_pair st lab v \<longleftrightarrow> vr_student_record_id v = st \<and> vr_lab_id v = lab"

definition numbered :: "version_row list \<Rightarrow> bool" where
  "numbered vs \<longleftrightarrow> (\<forall>st lab. map vr_no (filter (of_pair st lab) vs) = map int [1..<Suc (length (filter (of_pair st lab) vs))])"

text \<open>What a version was made from: an import in the state \<open>st\<close> that its approver had reviewed.\<close>

definition approved_import :: "import_state \<Rightarrow> import_row list \<Rightarrow> version_row \<Rightarrow> bool" where
  "approved_import st is v \<longleftrightarrow>
     (\<exists>i\<in>set is. im_id i = vr_import_id v \<and> im_state i = st \<and> im_reviewed_by i = vr_approved_by v \<and> vr_approved_by v \<noteq> None
        \<and> im_reviewed_sha256 i = Some (im_sha256 i))"

text \<open>The versions that items refer to.\<close>

definition held :: "idb \<Rightarrow> uuid set" where
  "held s = {v. \<exists>x\<in>set (items s). ii_version_id x = Some v}"

definition imports_ok :: "idb \<Rightarrow> bool" where
  "imports_ok s \<longleftrightarrow>
     list_all import_check (import_rows s) \<and> imports_unique (import_rows s) \<and> items_unique (items s)
   \<and> versions_unique (versions s) \<and> numbered (versions s)
   \<and> (\<forall>v\<in>set (versions s). approved_import ImportCompleted (import_rows s) v)
   \<and> vr_id ` set (versions s) \<subseteq> held s"

definition evolved :: "idb \<Rightarrow> idb \<Rightarrow> bool" where
  "evolved s s' \<longleftrightarrow>
     grows import_evolves (\<lambda>_. True) (import_rows s) (import_rows s') \<and> (\<exists>vs. versions s' = versions s @ vs)"

lemma evolved_refl [simp]: "evolved s s"
  by (simp add: evolved_def imp.grows_refl)

lemma evolved_trans: "evolved s t \<Longrightarrow> evolved t u \<Longrightarrow> evolved s u"
  unfolding evolved_def using imp.grows_trans by (metis append.assoc)

lemma approved_import_kept:
  assumes "grows import_evolves (\<lambda>_. True) is is'" and "approved_import st is v" and "import_terminal st" and "decided st"
  shows "approved_import st is' v"
proof -
  obtain i where i: "i \<in> set is" "im_id i = vr_import_id v" "im_state i = st" "im_reviewed_by i = vr_approved_by v"
      "vr_approved_by v \<noteq> None" "im_reviewed_sha256 i = Some (im_sha256 i)"
    using assms(2) by (auto simp: approved_import_def)
  obtain i' where "i' \<in> set is'" "import_evolves i i'" using grows_keeps [OF assms(1) i(1)] by blast
  with i assms(3,4) show ?thesis unfolding approved_import_def by (intro bexI [of _ i']) (auto simp: import_evolves_def)
qed

text \<open>
  An operation that leaves the versions alone: it keeps the invariant when the statements on the
  imports and items went through.
\<close>

definition imports_move :: "idb \<Rightarrow> idb \<Rightarrow> bool" where
  "imports_move s s' \<longleftrightarrow>
     versions s' = versions s \<and> grows import_evolves (\<lambda>_. True) (import_rows s) (import_rows s')
   \<and> (list_all import_check (import_rows s) \<longrightarrow> list_all import_check (import_rows s'))
   \<and> (imports_unique (import_rows s) \<longrightarrow> imports_unique (import_rows s'))
   \<and> (items_unique (items s) \<longrightarrow> items_unique (items s')) \<and> held s \<subseteq> held s'"

lemma imports_move_refl [simp]: "imports_move s s"
  by (simp add: imports_move_def imp.grows_refl)

lemma imports_move_trans [trans]: "imports_move s t \<Longrightarrow> imports_move t u \<Longrightarrow> imports_move s u"
  unfolding imports_move_def using imp.grows_trans subset_trans by metis

lemma imports_move_ok: "imports_move s s' \<Longrightarrow> imports_ok s \<Longrightarrow> imports_ok s' \<and> evolved s s'"
  using approved_import_kept [of "import_rows s" "import_rows s'" ImportCompleted]
  by (auto simp: imports_move_def imports_ok_def evolved_def decided_def)

lemma imports_move_base [simp]: "imports_move s (s\<lparr>base := b\<rparr>)"
  by (simp add: imports_move_def imp.grows_refl held_def)

section \<open>Statements\<close>

lemma import_trigger_check:
  "Option.bind (import_trigger now old (f old)) (row_check ok) = Some new \<Longrightarrow>
   ok new \<and> validate_import_transition (im_state old) (im_state (f old))
   \<and> new = (if im_state (f old) = im_state old then f old else (f old)\<lparr>im_version := im_version old + 1, im_updated_at := now\<rparr>)"
  by (auto simp: import_trigger_def row_check_def import_guard.guard_refl split: if_splits)

definition import_updated :: "time \<Rightarrow> (import_row \<Rightarrow> bool) \<Rightarrow> (import_row \<Rightarrow> import_row) \<Rightarrow> import_row \<Rightarrow> import_row \<Rightarrow> bool" where
  "import_updated now c f i i' \<longleftrightarrow>
     (if c i then import_check i' \<and> validate_import_transition (im_state i) (im_state (f i))
        \<and> i' = (if im_state (f i) = im_state i then f i else (f i)\<lparr>im_version := im_version i + 1, im_updated_at := now\<rparr>)
      else i' = i)"

lemma update_imports_effect:
  assumes "update_imports now c f s = Some s'"
  shows "\<exists>xs. s' = s\<lparr>import_rows := xs\<rparr> \<and> imports_unique xs \<and> list_all2 (import_updated now c f) (import_rows s) xs"
proof -
  let ?ok = "\<lambda>i. import_check i \<and> references acc_id (im_reviewed_by i) (accounts (base s))"
  obtain xs where xs: "s' = s\<lparr>import_rows := xs\<rparr>" "imports_unique xs"
    "exec_update c (\<lambda>old. Option.bind (import_trigger now old (f old)) (row_check ?ok)) (import_rows s) = Some xs"
    using assms by (auto simp: update_imports_def checked_Some_iff)
  have "list_all2 (import_updated now c f) (import_rows s) xs"
    by (rule list_all2_mono [OF exec_update_list_all2 [OF xs(3)]])
      (auto simp: updated_row_def import_updated_def dest: import_trigger_check [where f = f and ok = ?ok] split: if_splits)
  with xs show ?thesis by blast
qed

lemma update_imports_move:
  assumes "update_imports now c f s = Some s'"
    and "\<And>i. c i \<Longrightarrow> validate_import_transition (im_state i) (im_state (f i)) \<Longrightarrow> import_evolves i (f i)"
  shows "imports_move s s'"
proof -
  obtain xs where xs: "s' = s\<lparr>import_rows := xs\<rparr>" "imports_unique xs"
    and l: "list_all2 (import_updated now c f) (import_rows s) xs"
    using update_imports_effect [OF assms(1)] by blast
  have "list_all2 import_evolves (import_rows s) xs"
    by (rule list_all2_mono [OF l]) (use assms(2) in \<open>auto simp: import_updated_def import_evolves_def split: if_splits\<close>)
  then have "grows import_evolves (\<lambda>_. True) (import_rows s) xs"
    unfolding grows_def by (intro exI [of _ xs] exI [of _ "[]"]) simp
  moreover have "list_all import_check xs" if "list_all import_check (import_rows s)"
    using list_all2_memD [OF l] that by (fastforce simp: list_all_iff import_updated_def split: if_splits)
  ultimately show ?thesis using xs by (simp add: imports_move_def held_def)
qed

text \<open>The states that a statement assigns to an import under review or application.\<close>

lemma set_state_evolves:
  "validate_import_transition (im_state i) st \<Longrightarrow> st \<in> {ImportApplying, ImportCompleted, ImportFailed} \<Longrightarrow>
   import_evolves i (set_state st i)"
  by (cases "im_state i") (auto simp: import_evolves_def set_state_def validate_import_transition_def decided_def)

lemma set_state_moves:
  assumes "update_imports now c (set_state st) s = Some s'" and "st \<in> {ImportApplying, ImportCompleted, ImportFailed}"
  shows "imports_move s s'"
  by (rule update_imports_move [OF assms(1)]) (use assms(2) set_state_evolves in \<open>simp add: set_state_def\<close>)

text \<open>A new import moves on its own: its identifier is unique.\<close>

lemma move_last:
  assumes "import_rows s = is @ [x]" and "imports_unique (import_rows s)" and "im_id x = i" and "move_import now i st s = Inr s'"
  shows "\<exists>x'. s' = s\<lparr>import_rows := is @ [x']\<rparr> \<and> import_check x' \<and> imports_unique (is @ [x']) \<and> im_id x' = i"
proof -
  let ?u = "import_updated now (\<lambda>x. im_id x = i) (set_state st)"
  obtain xs where xs: "s' = s\<lparr>import_rows := xs\<rparr>" "imports_unique xs" "list_all2 ?u (import_rows s) xs"
    using update_imports_effect assms(4) by (metis move_import_def statement_simps(3))
  then obtain ys x' where ys: "xs = ys @ [x']" "list_all2 ?u is ys" "?u x x'"
    using assms(1) by (auto simp: list_all2_append1 list_all2_Cons1)
  have "\<forall>q\<in>set is. im_id q \<noteq> i"
    using assms(1,2,3) by (auto simp: imports_unique_def unique_on_def image_iff)
  then have "list_all2 (=) is ys"
    using ys(2) by (auto simp: list_all2_conv_all_nth import_updated_def)
  moreover have "import_check x' \<and> im_id x' = i"
    using ys(3) assms(3) by (auto simp: import_updated_def set_state_def)
  ultimately show ?thesis using xs ys(1) by (auto simp: list.rel_eq)
qed

lemma insert_moves:
  "insert_import i s = Some s' \<Longrightarrow> imports_move s s'"
  "insert_item x s = Some s' \<Longrightarrow> imports_move s s'"
  "insert_receipt r s = Some s' \<Longrightarrow> imports_move s s'"
  "insert_record ci m s = Some s' \<Longrightarrow> imports_move s s'"
  by (auto simp: insert_import_def insert_item_def insert_receipt_def insert_record_def imports_move_def imp.grows_snoc
      imp.grows_refl held_def split: if_splits)

section \<open>Operations\<close>

text \<open>The items of an upload leave the imports and versions as they are.\<close>

definition items_only :: "idb \<Rightarrow> idb \<Rightarrow> bool" where
  "items_only s s' \<longleftrightarrow> import_rows s' = import_rows s \<and> imports_move s s'"

lemma items_only_trans: "items_only s t \<Longrightarrow> items_only t u \<Longrightarrow> items_only s u"
  unfolding items_only_def using imports_move_trans by metis

lemma insert_items_only:
  "insert_item x s = Some s' \<Longrightarrow> items_only s s'"
  "insert_receipt r s = Some s' \<Longrightarrow> items_only s s'"
  "insert_record ci m s = Some s' \<Longrightarrow> items_only s s'"
  unfolding items_only_def using insert_moves(2,3,4)
  by (auto simp: insert_item_def insert_receipt_def insert_record_def split: if_splits)

lemma review_item_only:
  assumes "review_item ul ci now r i g imp p s = Inr s'"
  shows "items_only s s'"
proof -
  have "\<exists>s1 x. (s1 = s \<or> (\<exists>m. insert_record ci m s = Some s1)) \<and> insert_item x s1 = Some s'"
  proof (cases "group_record ci s g (to_lower ul (it_login (pr_item p)))")
    case None
    then show ?thesis using assms by (auto simp: review_item_def Let_def split: option.splits)
  next
    case (Some m)
    then show ?thesis using assms by (auto simp: review_item_def Let_def split: option.splits)
  qed
  then show ?thesis using insert_items_only(1,3) items_only_trans by blast
qed

lemma review_items_only: "review_items ul ci clk uid g imp n ps s = Inr s' \<Longrightarrow> items_only s s'"
proof (induction ps arbitrary: n s)
  case Nil
  then show ?case by (simp add: items_only_def)
next
  case (Cons p ps)
  then obtain s1 where "review_item ul ci (clk n) (uid (2 * n)) (uid (2 * n + 1)) g imp p s = Inr s1"
    "review_items ul ci clk uid g imp (Suc n) ps s1 = Inr s'" by auto
  then show ?case using Cons.IH review_item_only items_only_trans by blast
qed

lemma CreateReview_moves:
  assumes "CreateReview_tx ul ci eqfold clk uid actor g kind obj analysis s = Inr (s', i)"
  shows "imports_move s s'"
proof -
  obtain s1 s2 s3 s4 where 1: "insert_import (new_import (clk 0) (uid 0) g kind ImportReceiving actor obj (an_total analysis) None) s = Some s1"
    and 2: "move_import (clk 1) (uid 0) ImportStored s1 = Inr s2"
    and 3: "move_import (clk 2) (uid 0) ImportValidating s2 = Inr s3"
    and 4: "review_items ul ci (\<lambda>n. clk (n + 3)) (\<lambda>n. uid (n + 1)) g (uid 0) 0 (an_projects analysis) s3 = Inr s4"
    and 5: "move_import (clk (length (an_projects analysis) + 3)) (uid 0) ImportReviewPending s4 = Inr s'"
    using assms by (auto simp: CreateReview_tx_def Let_def split: option.splits if_splits)
  let ?x = "new_import (clk 0) (uid 0) g kind ImportReceiving actor obj (an_total analysis) None"
  have x: "im_id ?x = uid 0" by (simp add: new_import_def)
  have r1: "s1 = s\<lparr>import_rows := import_rows s @ [?x]\<rparr>" "imports_unique (import_rows s1)"
    using 1 by (auto simp: insert_import_def split: if_splits)
  then obtain x2 where x2: "s2 = s1\<lparr>import_rows := import_rows s @ [x2]\<rparr>" "imports_unique (import_rows s2)" "im_id x2 = uid 0"
    using move_last [OF _ r1(2) x 2, of "import_rows s"] by auto
  then obtain x3 where x3: "s3 = s2\<lparr>import_rows := import_rows s @ [x3]\<rparr>" "imports_unique (import_rows s3)" "im_id x3 = uid 0"
    using move_last [OF _ x2(2,3) 3, of "import_rows s"] by auto
  have it: "items_only s3 s4" by (rule review_items_only [OF 4])
  then have "held s3 \<subseteq> held s4" by (simp add: items_only_def imports_move_def)
  moreover have "items s3 = items s" using r1 x2 x3 by simp
  ultimately have h: "\<exists>x\<in>set (items s4). ii_version_id x = Some v" if "x \<in> set (items s)" "ii_version_id x = Some v" for x v
    using that unfolding held_def by auto
  from it have r4: "import_rows s4 = import_rows s @ [x3]" "imports_unique (import_rows s4)" "versions s4 = versions s3"
    "items_unique (items s3) \<longrightarrow> items_unique (items s4)"
    using x3 by (auto simp: items_only_def imports_move_def)
  obtain x5 where "s' = s4\<lparr>import_rows := import_rows s @ [x5]\<rparr>" "import_check x5" "imports_unique (import_rows s @ [x5])"
    using move_last [OF r4(1,2) x3(3) 5] by blast
  then show ?thesis
    using r1 x2 x3 r4 h by (auto simp: imports_move_def imp.grows_snoc held_def)
qed

lemma uploads_move:
  "CreateStudentReview_tx ci eqfold now i j actor filename obj analysis s = Inr (s', i') \<Longrightarrow> imports_move s s'"
  "CreateGitHubReview_tx ul ci eqfold now i j actor g repository obj analysis receipt s = Inr (s', i') \<Longrightarrow> imports_move s s'"
proof -
  assume "CreateStudentReview_tx ci eqfold now i j actor filename obj analysis s = Inr (s', i')"
  then obtain x s1 y where "insert_import x s = Some s1" "insert_item y s1 = Some s'"
    by (auto simp: CreateStudentReview_tx_def split: option.splits if_splits)
  then show "imports_move s s'" using insert_moves(1,2) imports_move_trans by blast
next
  assume a: "CreateGitHubReview_tx ul ci eqfold now i j actor g repository obj analysis receipt s = Inr (s', i')"
  have "s' = s \<or> (\<exists>x y s1 s2. insert_import x s = Some s1 \<and> insert_item y s1 = Some s2 \<and> (s' = s2 \<or> (\<exists>r. insert_receipt r s2 = Some s')))"
    using a by (auto simp: CreateGitHubReview_tx_def Let_def split: option.splits if_splits)
  then show "imports_move s s'" using insert_moves(1,2,3) imports_move_trans imports_move_refl by metis
qed

lemma Review_effect:
  assumes "Review_tx now actor i decision sha checklist reason s = Inr (s', i')"
  shows "\<exists>x digest st. import_by_id s i = Some x \<and> staff_role (base s) actor (im_group_id x) \<and> hex_decode sha = Some digest
     \<and> st = (if decision = ''reject'' then ImportRejected else ImportApproved)
     \<and> update_imports now (\<lambda>x. im_id x = i \<and> im_state x = ImportReviewPending \<and> im_sha256 x = digest)
         (\<lambda>x. x\<lparr>im_state := st, im_reviewed_by := Some actor, im_reviewed_at := Some now, im_reviewed_sha256 := Some digest,
                im_checklist := Some checklist, im_rejection_reason := nullableString reason\<rparr>) s = Some s'
     \<and> rows_affected (\<lambda>x. im_id x = i \<and> im_state x = ImportReviewPending \<and> im_sha256 x = digest) (import_rows s) = 1"
  using assms by (auto simp: Review_tx_def Let_def split: option.splits if_splits)

lemma Review_moves:
  assumes "Review_tx now actor i decision sha checklist reason s = Inr (s', i')"
  shows "imports_move s s'"
proof -
  obtain digest st where st: "st = (if decision = ''reject'' then ImportRejected else ImportApproved)"
    and u: "update_imports now (\<lambda>x. im_id x = i \<and> im_state x = ImportReviewPending \<and> im_sha256 x = digest)
         (\<lambda>x. x\<lparr>im_state := st, im_reviewed_by := Some actor, im_reviewed_at := Some now, im_reviewed_sha256 := Some digest,
                im_checklist := Some checklist, im_rejection_reason := nullableString reason\<rparr>) s = Some s'"
    using Review_effect [OF assms] by blast
  show ?thesis
    by (rule update_imports_move [OF u]) (auto simp: import_evolves_def decided_def st)
qed

lemma BeginApply_moves:
  assumes "BeginApply now actor i s = (s', r)"
  shows "imports_move s s'"
proof -
  have "s' = s \<or> update_imports now (\<lambda>x. im_id x = i \<and> im_state x = ImportApproved) (set_state ImportApplying) s = Some s'"
    using assms by (auto simp: BeginApply_def split: option.splits if_splits)
  then show ?thesis using set_state_moves by auto
qed

lemma Finish_moves: "Finish now i success s = Inr s' \<Longrightarrow> imports_move s s'"
  using set_state_moves [of now "\<lambda>x. im_id x = i \<and> im_state x = ImportApplying" "if success then ImportCompleted else ImportFailed" s s']
  by (auto simp: Finish_def split: if_splits)

section \<open>Application of an approved import\<close>

text \<open>The numbers of the versions of one student in one lab, when they are \<open>1..n\<close>, are continued by \<open>next_version\<close>.\<close>

lemma max_of_upto: "fold max (map int [1..<Suc n]) 0 = int n"
  by (induction n) auto

lemma next_version_numbered:
  assumes "numbered (versions s)"
  shows "next_version st lab s = int (length (filter (of_pair st lab) (versions s))) + 1"
proof -
  let ?vs = "filter (of_pair st lab) (versions s)"
  have "filter (\<lambda>v. vr_student_record_id v = st \<and> vr_lab_id v = lab) (versions s) = ?vs"
    by (simp add: of_pair_def cong: filter_cong)
  moreover have "map vr_no ?vs = map int [1..<Suc (length ?vs)]"
    using assms by (simp add: numbered_def)
  ultimately show ?thesis using max_of_upto by (simp add: next_version_def del: upt_Suc)
qed

lemma numbered_snoc:
  assumes "numbered vs" and "vr_no v = int (length (filter (of_pair (vr_student_record_id v) (vr_lab_id v)) vs)) + 1"
  shows "numbered (vs @ [v])"
  using assms by (auto simp: numbered_def of_pair_def)

text \<open>What the application of an import with number \<open>imp\<close> and approver \<open>by\<close> changes.\<close>

definition applies :: "uuid \<Rightarrow> uuid \<Rightarrow> idb \<Rightarrow> idb \<Rightarrow> bool" where
  "applies imp approver s s' \<longleftrightarrow>
     base s' = base s \<and> courses s' = courses s \<and> import_rows s' = import_rows s
   \<and> (items_unique (items s) \<longrightarrow> items_unique (items s'))
   \<and> (\<exists>vs. versions s' = versions s @ vs \<and> (\<forall>v\<in>set vs. vr_import_id v = imp \<and> vr_approved_by v = Some approver))
   \<and> (versions_unique (versions s) \<longrightarrow> versions_unique (versions s'))
   \<and> (numbered (versions s) \<longrightarrow> numbered (versions s')) \<and> held s \<subseteq> held s'"

lemma applies_refl: "applies imp by s s"
  by (simp add: applies_def)

lemma applies_trans:
  assumes "applies imp b s t" and "applies imp b t u"
  shows "applies imp b s u"
proof -
  obtain vs ws where "versions t = versions s @ vs" "\<forall>v\<in>set vs. vr_import_id v = imp \<and> vr_approved_by v = Some b"
    "versions u = versions t @ ws" "\<forall>v\<in>set ws. vr_import_id v = imp \<and> vr_approved_by v = Some b"
    using assms by (auto simp: applies_def)
  then have "versions u = versions s @ (vs @ ws)" "\<forall>v\<in>set (vs @ ws). vr_import_id v = imp \<and> vr_approved_by v = Some b"
    by auto
  moreover from this have "\<exists>vs. versions u = versions s @ vs \<and> (\<forall>v\<in>set vs. vr_import_id v = imp \<and> vr_approved_by v = Some b)"
    by blast
  moreover have "held s \<subseteq> held u" using assms unfolding applies_def by blast
  ultimately show ?thesis using assms unfolding applies_def by simp
qed

lemma update_items_effect:
  assumes "update_items c f s = Some s'"
  shows "\<exists>xs. s' = s\<lparr>items := xs\<rparr> \<and> items_unique xs \<and> list_all2 (\<lambda>x x'. x' = (if c x then f x else x)) (items s) xs"
proof -
  let ?ok = "\<lambda>x. item_check x \<and> references vr_id (ii_version_id x) (versions s)"
  obtain xs where xs: "s' = s\<lparr>items := xs\<rparr>" "items_unique xs" "exec_update c (\<lambda>x. row_check ?ok (f x)) (items s) = Some xs"
    using assms by (auto simp: update_items_def checked_Some_iff)
  have "list_all2 (\<lambda>x x'. x' = (if c x then f x else x)) (items s) xs"
    by (rule list_all2_mono [OF exec_update_list_all2 [OF xs(3)]]) (auto simp: updated_row_def row_check_def split: if_splits)
  with xs show ?thesis by blast
qed

text \<open>The statement that gives an item its version: it changes items without one.\<close>

definition give_version ::
  "uuid \<Rightarrow> uuid \<Rightarrow> uuid \<Rightarrow> import_action \<Rightarrow> idb \<Rightarrow> idb \<Rightarrow> bool" where
  "give_version item imp v action s s' \<longleftrightarrow>
     update_items (\<lambda>x. ii_id x = item \<and> ii_import_id x = imp \<and> ii_version_id x = None)
       (\<lambda>x. x\<lparr>ii_version_id := Some v, ii_action := action\<rparr>) s = Some s'
   \<and> rows_affected (\<lambda>x. ii_id x = item \<and> ii_import_id x = imp \<and> ii_version_id x = None) (items s) = 1"

lemma give_version_effect:
  assumes "give_version item imp v action s s'"
  shows "applies imp b s s'" and "v \<in> held s'" and "versions s' = versions s"
    and "items_unique (items s) \<Longrightarrow> v \<notin> held s"
proof -
  let ?c = "\<lambda>x. ii_id x = item \<and> ii_import_id x = imp \<and> ii_version_id x = None"
  let ?f = "\<lambda>x. x\<lparr>ii_version_id := Some v, ii_action := action\<rparr>"
  obtain xs where xs: "s' = s\<lparr>items := xs\<rparr>" "items_unique xs"
    and l: "list_all2 (\<lambda>x x'. x' = (if ?c x then ?f x else x)) (items s) xs"
    using update_items_effect [OF conjunct1 [OF assms [unfolded give_version_def]]] by blast
  have "filter ?c (items s) \<noteq> []" using assms by (auto simp: give_version_def rows_affected_def)
  then obtain x where x: "x \<in> set (items s)" "?c x" by (auto simp: filter_empty_conv)
  then have fx: "?f x \<in> set xs" using list_all2_memI [OF l x(1)] by auto
  then show "v \<in> held s'" using xs(1) unfolding held_def by (auto intro!: bexI [of _ "?f x"])
  have kept: "y \<in> set xs" if "y \<in> set (items s)" "ii_version_id y \<noteq> None" for y
    using list_all2_memI [OF l that(1)] that(2) by auto
  then have "held s \<subseteq> held s'" using xs(1) by (auto simp: held_def)
  with xs show "applies imp b s s'" by (simp add: applies_def)
  show "versions s' = versions s" using xs(1) by simp
  show "v \<notin> held s" if u: "items_unique (items s)"
  proof
    assume "v \<in> held s"
    then obtain y where y: "y \<in> set (items s)" "ii_version_id y = Some v" by (auto simp: held_def)
    have "y = ?f x"
      by (rule unique_onD [of "\<lambda>x. ii_version_id x \<noteq> None" ii_version_id xs])
        (use xs(2) kept [OF y(1)] fx y(2) in \<open>auto simp: items_unique_def\<close>)
    then have "y = x"
      using u x(1) y(1) by (intro unique_onD [of "\<lambda>_. True" ii_id "items s"]) (auto simp: items_unique_def)
    with x(2) y(2) show False by simp
  qed
qed

lemma insert_version_applies:
  assumes "insert_version jo v s = Some s'" and "vr_import_id v = imp" and "vr_approved_by v = Some b"
    and "vr_no v = next_version (vr_student_record_id v) (vr_lab_id v) s"
  shows "applies imp b s s'"
proof -
  have "s' = s\<lparr>versions := versions s @ [v]\<rparr>" "versions_unique (versions s @ [v])"
    using assms(1) by (auto simp: insert_version_def split: if_splits)
  then show ?thesis
    using assms(2,3,4) numbered_snoc next_version_numbered by (auto simp: applies_def held_def)
qed

lemma apply_item_effect:
  assumes "apply_item jv jo now newID actor imp source filename b x s = Inr (s', ks)"
  shows "\<exists>s1 v action. give_version (ai_item_id x) imp v action s1 s'
     \<and> (case latest (filter (same_content (ai_student_record_id x) (ai_lab_id x) (ai_sha256 x)) (versions s)) of
          Some w \<Rightarrow> s1 = s \<and> v = vr_id w
        | None \<Rightarrow> \<exists>w. insert_version jo w s = Some s1 \<and> vr_id w = v \<and> vr_import_id w = imp \<and> vr_approved_by w = Some b
            \<and> vr_no w = next_version (vr_student_record_id w) (vr_lab_id w) s)"
proof (cases "latest (filter (same_content (ai_student_record_id x) (ai_lab_id x) (ai_sha256 x)) (versions s))")
  case None
  then obtain w s1 action where "insert_version jo w s = Some s1" "vr_id w = newID" "vr_import_id w = imp" "vr_approved_by w = Some b"
      "vr_no w = next_version (vr_student_record_id w) (vr_lab_id w) s" "give_version (ai_item_id x) imp newID action s1 s'"
    using assms by (auto simp: apply_item_def give_version_def Let_def split: option.splits if_splits)
  with None show ?thesis by auto
next
  case (Some w)
  then have "give_version (ai_item_id x) imp (vr_id w) SkipDuplicate s s'"
    using assms by (auto simp: apply_item_def give_version_def Let_def split: option.splits if_splits)
  with Some show ?thesis by auto
qed

text \<open>In a consistent state the content of an item that applies is new.\<close>

lemma apply_item_keeps:
  assumes "apply_item jv jo now newID actor imp source filename b x s = Inr (s', ks)"
    and "items_unique (items s)" and "vr_id ` set (versions s) \<subseteq> held s"
  shows "applies imp b s s'" and "vr_id ` set (versions s') \<subseteq> held s'"
    and "filter (same_content (ai_student_record_id x) (ai_lab_id x) (ai_sha256 x)) (versions s) = []"
proof -
  let ?vs = "filter (same_content (ai_student_record_id x) (ai_lab_id x) (ai_sha256 x)) (versions s)"
  obtain s1 v action where g: "give_version (ai_item_id x) imp v action s1 s'"
    and c: "case latest ?vs of
          Some w \<Rightarrow> s1 = s \<and> v = vr_id w
        | None \<Rightarrow> \<exists>w. insert_version jo w s = Some s1 \<and> vr_id w = v \<and> vr_import_id w = imp \<and> vr_approved_by w = Some b
            \<and> vr_no w = next_version (vr_student_record_id w) (vr_lab_id w) s"
    using apply_item_effect [OF assms(1)] by blast
  have none: "latest ?vs = None"
  proof (rule ccontr)
    assume "latest ?vs \<noteq> None"
    then obtain w where w: "latest ?vs = Some w" by blast
    then have "s1 = s" "v = vr_id w" using c by auto
    moreover have "w \<in> set (versions s)" using latest_mem [OF w] by simp
    ultimately show False using give_version_effect(4) [OF g] assms(2,3) by auto
  qed
  then show "?vs = []" by (rule latest_None)
  from none c obtain w where w: "insert_version jo w s = Some s1" "vr_id w = v" "vr_import_id w = imp"
      "vr_approved_by w = Some b" "vr_no w = next_version (vr_student_record_id w) (vr_lab_id w) s" by auto
  have a: "applies imp b s s1" by (rule insert_version_applies [OF w(1,3,4,5)])
  show "applies imp b s s'" by (rule applies_trans [OF a give_version_effect(1) [OF g]])
  have "versions s' = versions s @ [w]"
    using w(1) give_version_effect(3) [OF g] by (auto simp: insert_version_def split: if_splits)
  moreover have "held s \<subseteq> held s'" using \<open>applies imp b s s'\<close> by (simp add: applies_def)
  ultimately show "vr_id ` set (versions s') \<subseteq> held s'" using assms(3) w(2) give_version_effect(2) [OF g] by auto
qed

lemma apply_items_keeps:
  assumes "apply_items jv jo clk uid actor imp source filename b n xs s = Inr (s', ks)"
    and "items_unique (items s)" and "vr_id ` set (versions s) \<subseteq> held s"
  shows "applies imp b s s' \<and> vr_id ` set (versions s') \<subseteq> held s'
     \<and> (\<forall>x\<in>set xs. filter (same_content (ai_student_record_id x) (ai_lab_id x) (ai_sha256 x)) (versions s) = [])"
  using assms
proof (induction xs arbitrary: n s ks)
  case Nil
  then show ?case by (simp add: applies_refl)
next
  case (Cons x xs)
  then obtain s1 ds ds' where 1: "apply_item jv jo (clk n) (uid n) actor imp source filename b x s = Inr (s1, ds)"
    and 2: "apply_items jv jo clk uid actor imp source filename b (Suc n) xs s1 = Inr (s', ds')" by auto
  note k = apply_item_keeps [OF 1 Cons.prems(2,3)]
  have u: "items_unique (items s1)" using k(1) Cons.prems(2) by (simp add: applies_def)
  note r = Cons.IH [OF 2 u k(2)]
  obtain vs where "versions s1 = versions s @ vs" using k(1) by (auto simp: applies_def)
  with r k show ?case using applies_trans by auto
qed

lemma CommitApply_effect:
  assumes "CommitApply jv jo clk uid actor imp xs s = Inr (s', ks)" and "imports_ok s"
  shows "\<exists>i b s1. import_by_id s imp = Some i \<and> im_state i = ImportApplying \<and> im_reviewed_by i = Some b \<and> applies imp b s s1
     \<and> vr_id ` set (versions s1) \<subseteq> held s1
     \<and> (\<forall>x\<in>set xs. filter (same_content (ai_student_record_id x) (ai_lab_id x) (ai_sha256 x)) (versions s) = [])
     \<and> update_imports (clk (length xs)) (\<lambda>x. im_id x = imp \<and> im_state x = ImportApplying) (set_state ImportCompleted) s1 = Some s'"
proof -
  obtain i b source filename s1 where "import_by_id s imp = Some i" "im_state i = ImportApplying" "im_reviewed_by i = Some b"
    and a: "apply_items jv jo clk uid actor imp source filename b 0 xs s = Inr (s1, ks)"
    and "update_imports (clk (length xs)) (\<lambda>x. im_id x = imp \<and> im_state x = ImportApplying) (set_state ImportCompleted) s1 = Some s'"
    using assms(1) by (auto simp: CommitApply_def Let_def split: option.splits if_splits)
  moreover have "items_unique (items s)" "vr_id ` set (versions s) \<subseteq> held s" using assms(2) by (simp_all add: imports_ok_def)
  ultimately show ?thesis using apply_items_keeps [OF a] by blast
qed

lemma import_by_id_D: "import_by_id s i = Some x \<Longrightarrow> x \<in> set (import_rows s) \<and> im_id x = i"
  by (auto simp: import_by_id_def dest: select_one_SomeD)

lemma CommitApply_keeps:
  assumes "CommitApply jv jo clk uid actor imp xs s = Inr (s', ks)" and "imports_ok s"
  shows "imports_ok s' \<and> evolved s s'"
proof -
  obtain i b s1 where i: "import_by_id s imp = Some i" "im_state i = ImportApplying" "im_reviewed_by i = Some b"
    and a: "applies imp b s s1"
    and u: "update_imports (clk (length xs)) (\<lambda>x. im_id x = imp \<and> im_state x = ImportApplying) (set_state ImportCompleted) s1 = Some s'"
    and h: "vr_id ` set (versions s1) \<subseteq> held s1"
    using CommitApply_effect [OF assms] by blast
  have rows: "import_rows s1 = import_rows s" using a by (simp add: applies_def)
  have m: "imports_move s1 s'" by (rule set_state_moves [OF u]) simp
  then have g: "grows import_evolves (\<lambda>_. True) (import_rows s) (import_rows s')" and vs': "versions s' = versions s1"
    using rows by (simp_all add: imports_move_def)
  obtain vs where vs: "versions s1 = versions s @ vs" "\<forall>v\<in>set vs. vr_import_id v = imp \<and> vr_approved_by v = Some b"
    using a by (auto simp: applies_def)
  have "i \<in> set (import_rows s)" "im_id i = imp" using import_by_id_D [OF i(1)] by auto
  moreover from this have c: "import_check i" using assms(2) by (simp add: imports_ok_def list_all_iff)
  ultimately obtain xs' where "s' = s1\<lparr>import_rows := xs'\<rparr>"
    and l: "list_all2 (import_updated (clk (length xs)) (\<lambda>x. im_id x = imp \<and> im_state x = ImportApplying) (set_state ImportCompleted))
      (import_rows s) xs'"
    using update_imports_effect [OF u] rows by auto
  then obtain i' where i': "i' \<in> set (import_rows s')"
      "import_updated (clk (length xs)) (\<lambda>x. im_id x = imp \<and> im_state x = ImportApplying) (set_state ImportCompleted) i i'"
    using list_all2_memI [OF l \<open>i \<in> set (import_rows s)\<close>] by auto
  then have "im_id i' = imp" "im_state i' = ImportCompleted" "im_reviewed_by i' = Some b" "im_reviewed_sha256 i' = Some (im_sha256 i')"
    using \<open>im_id i = imp\<close> i(2,3) c by (auto simp: import_updated_def set_state_def import_check_def)
  then have "\<forall>v\<in>set vs. approved_import ImportCompleted (import_rows s') v"
    using vs(2) i'(1) unfolding approved_import_def by (intro ballI bexI [of _ i']) auto
  moreover have "\<forall>v\<in>set (versions s). approved_import ImportCompleted (import_rows s') v"
    using assms(2) approved_import_kept [OF g] by (simp add: imports_ok_def decided_def)
  ultimately have "\<forall>v\<in>set (versions s'). approved_import ImportCompleted (import_rows s') v"
    using vs(1) vs' by auto
  moreover have "evolved s s'" using g vs(1) vs' by (simp add: evolved_def)
  moreover have "vr_id ` set (versions s') \<subseteq> held s'" using h m vs' by (auto simp: imports_move_def)
  ultimately show ?thesis
    using assms(2) m a rows vs' unfolding imports_ok_def imports_move_def applies_def by metis
qed

section \<open>Every run\<close>

lemma import_step_keeps: "import_step ul ci boot s s' \<Longrightarrow> imports_ok s \<Longrightarrow> imports_ok s' \<and> evolved s s'"
proof (induction rule: import_step.induct)
  case accounts_change
  then show ?case using imports_move_ok imports_move_base by blast
next
  case upload
  then show ?case using imports_move_ok CreateReview_moves by blast
next
  case student_upload
  then show ?case using imports_move_ok uploads_move(1) by blast
next
  case github_upload
  then show ?case using imports_move_ok uploads_move(2) by blast
next
  case review
  then show ?case using imports_move_ok Review_moves by blast
next
  case begin_apply
  then show ?case using imports_move_ok BeginApply_moves by blast
next
  case commit_apply
  then show ?case by (rule CommitApply_keeps)
next
  case finish
  then show ?case using imports_move_ok Finish_moves by blast
qed

lemma import_run_keeps: "import_run ul ci boot s s' \<Longrightarrow> imports_ok s \<Longrightarrow> imports_ok s' \<and> evolved s s'"
  by (induction rule: import_run.induct) (use import_step_keeps evolved_trans evolved_refl in blast)+

lemma imports_initial_ok: "imports_initial s \<Longrightarrow> imports_ok s"
  by (simp add: imports_initial_def imports_ok_def imports_unique_def items_unique_def versions_unique_def unique_on_def numbered_def
      held_def)

definition import_reachable :: "(string \<Rightarrow> string) \<Rightarrow> (string \<Rightarrow> string) \<Rightarrow> int \<Rightarrow> idb \<Rightarrow> bool" where
  "import_reachable ul ci boot s \<longleftrightarrow> (\<exists>s0. imports_initial s0 \<and> import_run ul ci boot s0 s)"

lemma import_reachable_ok: "import_reachable ul ci boot s \<Longrightarrow> imports_ok s"
  using import_run_keeps imports_initial_ok unfolding import_reachable_def by blast

section \<open>Properties\<close>

text \<open>
  C31: Every submission version comes from a completed import that the version's approver reviewed, and
  the reviewer confirmed the digest of the very archive that is stored: nothing reaches the
  submissions around the review.
\<close>

theorem submissions_approved:
  assumes "import_reachable ul ci boot s" and "v \<in> set (versions s)"
  shows "\<exists>i\<in>set (import_rows s). im_id i = vr_import_id v \<and> im_state i = ImportCompleted
     \<and> im_reviewed_by i = vr_approved_by v \<and> vr_approved_by v \<noteq> None \<and> im_reviewed_at i \<noteq> None
     \<and> im_reviewed_sha256 i = Some (im_sha256 i)"
proof -
  have ok: "imports_ok s" by (rule import_reachable_ok [OF assms(1)])
  then obtain i where i: "i \<in> set (import_rows s)" "im_id i = vr_import_id v" "im_state i = ImportCompleted"
      "im_reviewed_by i = vr_approved_by v" "vr_approved_by v \<noteq> None" "im_reviewed_sha256 i = Some (im_sha256 i)"
    using assms(2) by (auto simp: imports_ok_def approved_import_def)
  moreover have "im_reviewed_at i \<noteq> None"
    using ok i(1,3) by (auto simp: imports_ok_def list_all_iff import_check_def)
  ultimately show ?thesis by blast
qed

text \<open>
  C32: The versions of one student in one lab are numbered \<open>1..n\<close> without gaps in the order of their
  creation, whatever the imports they came from, and from one state to a later one versions are
  only added at the end.
\<close>

theorem version_numbers:
  assumes "import_reachable ul ci boot s" and "import_run ul ci boot s s'"
  shows "\<exists>vs. versions s' = versions s @ vs
     \<and> map vr_no (filter (of_pair st lab) (versions s')) = map int [1..<Suc (length (filter (of_pair st lab) (versions s')))]"
proof -
  have "imports_ok s' \<and> evolved s s'" using import_run_keeps [OF assms(2) import_reachable_ok [OF assms(1)]] .
  then show ?thesis by (auto simp: imports_ok_def evolved_def numbered_def simp del: upt_Suc)
qed

text \<open>
  The life of an import: it stays in the table with its group, uploader, archive and digest, a
  terminal state is final, and the decision of a review, once taken, is never withdrawn or signed
  by somebody else.
\<close>

theorem import_life:
  assumes "import_reachable ul ci boot s" and "import_run ul ci boot s s'" and "i \<in> set (import_rows s)"
  shows "\<exists>i'\<in>set (import_rows s'). im_id i' = im_id i \<and> im_group_id i' = im_group_id i \<and> im_uploaded_by i' = im_uploaded_by i
     \<and> im_object_key i' = im_object_key i \<and> im_sha256 i' = im_sha256 i
     \<and> (import_terminal (im_state i) \<longrightarrow> im_state i' = im_state i)
     \<and> (decided (im_state i) \<longrightarrow> decided (im_state i') \<and> im_reviewed_by i' = im_reviewed_by i
          \<and> im_reviewed_at i' = im_reviewed_at i \<and> im_reviewed_sha256 i' = im_reviewed_sha256 i)"
proof -
  have "grows import_evolves (\<lambda>_. True) (import_rows s) (import_rows s')"
    using import_run_keeps [OF assms(2) import_reachable_ok [OF assms(1)]] by (simp add: evolved_def)
  from grows_keeps [OF this assms(3)] obtain i' where "i' \<in> set (import_rows s')" "import_evolves i i'" by blast
  then show ?thesis unfolding import_evolves_def by blast
qed

text \<open>
  C33: A review that goes through: its author is staff of the import's group, names the digest of the
  stored archive, and decides exactly this import, which had been waiting for review; a rejection
  has a reason.  Every other import is left alone.
\<close>

theorem Review_decides:
  assumes "imports_unique (import_rows s)" and "Review_tx now actor i decision sha checklist reason s = Inr (s', i')"
  shows "\<exists>x x'. x \<in> set (import_rows s) \<and> im_id x = i \<and> staff_role (base s) actor (im_group_id x)
     \<and> im_state x = ImportReviewPending \<and> hex_decode sha = Some (im_sha256 x)
     \<and> x' = x\<lparr>im_state := if decision = ''reject'' then ImportRejected else ImportApproved,
              im_reviewed_by := Some actor, im_reviewed_at := Some now, im_reviewed_sha256 := Some (im_sha256 x),
              im_checklist := Some checklist, im_rejection_reason := nullableString reason,
              im_version := im_version x + 1, im_updated_at := now\<rparr>
     \<and> (decision = ''reject'' \<longrightarrow> im_rejection_reason x' \<noteq> None)
     \<and> s' = s\<lparr>import_rows := map (\<lambda>y. if im_id y = i then x' else y) (import_rows s)\<rparr>"
proof -
  obtain x digest st where x: "import_by_id s i = Some x" "staff_role (base s) actor (im_group_id x)" "hex_decode sha = Some digest"
    and st: "st = (if decision = ''reject'' then ImportRejected else ImportApproved)"
    and u: "update_imports now (\<lambda>x. im_id x = i \<and> im_state x = ImportReviewPending \<and> im_sha256 x = digest)
         (\<lambda>x. x\<lparr>im_state := st, im_reviewed_by := Some actor, im_reviewed_at := Some now, im_reviewed_sha256 := Some digest,
                im_checklist := Some checklist, im_rejection_reason := nullableString reason\<rparr>) s = Some s'"
    and r: "rows_affected (\<lambda>x. im_id x = i \<and> im_state x = ImportReviewPending \<and> im_sha256 x = digest) (import_rows s) = 1"
    using Review_effect [OF assms(2)] by blast
  note xi = import_by_id_D [OF x(1)]
  have same: "y = x" if "y \<in> set (import_rows s)" "im_id y = i" for y
    using that xi assms(1) unique_onD [of "\<lambda>_. True" im_id "import_rows s" y x] by (simp add: imports_unique_def)
  have "filter (\<lambda>x. im_id x = i \<and> im_state x = ImportReviewPending \<and> im_sha256 x = digest) (import_rows s) \<noteq> []"
    using r by (auto simp: rows_affected_def)
  then have c: "im_state x = ImportReviewPending" "im_sha256 x = digest" using same by (auto simp: filter_empty_conv)
  let ?x' = "x\<lparr>im_state := st, im_reviewed_by := Some actor, im_reviewed_at := Some now, im_reviewed_sha256 := Some (im_sha256 x),
              im_checklist := Some checklist, im_rejection_reason := nullableString reason,
              im_version := im_version x + 1, im_updated_at := now\<rparr>"
  obtain xs where xs: "s' = s\<lparr>import_rows := xs\<rparr>"
    and l: "list_all2 (import_updated now (\<lambda>x. im_id x = i \<and> im_state x = ImportReviewPending \<and> im_sha256 x = digest)
         (\<lambda>x. x\<lparr>im_state := st, im_reviewed_by := Some actor, im_reviewed_at := Some now, im_reviewed_sha256 := Some digest,
                im_checklist := Some checklist, im_rejection_reason := nullableString reason\<rparr>)) (import_rows s) xs"
    using update_imports_effect [OF u] by blast
  have l': "list_all2 (\<lambda>y y'. y' = (if im_id y = i then ?x' else y) \<and> (im_id y = i \<longrightarrow> import_check y')) (import_rows s) xs"
    by (rule list.rel_mono_strong [OF l]) (use same c st in \<open>auto simp: import_updated_def\<close>)
  have "xs = map (\<lambda>y. if im_id y = i then ?x' else y) (import_rows s)"
    using l' by (induction rule: list_all2_induct) auto
  moreover have "import_check ?x'" using list_all2_memI [OF l' conjunct1 [OF xi]] xi by auto
  ultimately show ?thesis
    by (intro exI [of _ x] exI [of _ ?x'] conjI) (use xi x c st xs in \<open>simp_all add: import_check_def\<close>)
qed

text \<open>
  A student uploads for herself only: the import that \<open>CreateStudentReview\<close> makes is for the group
  of the record that the active student account has claimed, its item is for that record and an
  active lab of that group, the manifest names her group and her GitHub login, and it waits for a
  review.
\<close>

theorem student_upload_own:
  assumes "CreateStudentReview_tx ci eqfold now importID itemID actor filename obj analysis s = Inr (s', i)"
  shows "\<exists>m gi g lab x y. m \<in> set (members (base s)) \<and> sm_user_id m = Some actor \<and> sm_status m = Claimed
     \<and> g \<in> set (groups (base s)) \<and> gr_id g = sm_group_id m \<and> eqfold (gr_code g) (mf_group_code (an_manifest analysis))
     \<and> identity_of (base s) actor = Some gi \<and> eqfold (gi_login gi) (mf_login (an_manifest analysis))
     \<and> lab \<in> set (courses s) \<and> la_group_id lab = sm_group_id m \<and> la_active lab
     \<and> s' = s\<lparr>import_rows := import_rows s @ [x], items := items s @ [y]\<rparr>
     \<and> im_id x = i \<and> im_group_id x = sm_group_id m \<and> im_uploaded_by x = actor \<and> im_state x = ImportReviewPending
     \<and> im_sha256 x = ob_sha256 obj
     \<and> ii_import_id y = i \<and> ii_student_record_id y = sm_id m \<and> ii_lab_id y = la_id lab \<and> ii_version_id y = None"
proof -
  obtain student lab s1 where c: "StudentContext actor s = Inr student"
      "eqfold (sc_group_code student) (mf_group_code (an_manifest analysis))"
      "eqfold (sc_github_login student) (mf_login (an_manifest analysis))"
    and lab: "active_lab ci s (sc_group_id student) (mf_lab_code (an_manifest analysis)) = Some lab"
    and x: "insert_import (new_import now importID (sc_group_id student) ''lab'' ImportReviewPending actor obj (an_total analysis)
                    (Some filename)) s = Some s1"
    and y: "insert_item (new_item itemID importID (sc_student_record_id student) (la_id lab) (sc_github_login student)
                    CreateVersionAction (hd (an_projects analysis))) s1 = Some s'"
    and i: "i = importID"
    using assms by (auto simp: CreateStudentReview_tx_def split: option.splits if_splits)
  obtain gi m g where m: "identity_of (base s) actor = Some gi" "m \<in> set (members (base s))" "sm_user_id m = Some actor" "sm_status m = Claimed"
      "g \<in> set (groups (base s))" "gr_id g = sm_group_id m"
    and st: "sc_group_id student = sm_group_id m" "sc_group_code student = gr_code g" "sc_github_login student = gi_login gi"
      "sc_student_record_id student = sm_id m"
    using c(1) by (auto simp: StudentContext_def split: option.splits dest!: select_one_SomeD)
  have l: "lab \<in> set (courses s)" "la_group_id lab = sm_group_id m" "la_active lab"
    using lab st(1) by (auto simp: active_lab_def dest!: select_one_SomeD)
  let ?x = "new_import now importID (sc_group_id student) ''lab'' ImportReviewPending actor obj (an_total analysis) (Some filename)"
  let ?y = "new_item itemID importID (sc_student_record_id student) (la_id lab) (sc_github_login student) CreateVersionAction (hd (an_projects analysis))"
  have "s' = s\<lparr>import_rows := import_rows s @ [?x], items := items s @ [?y]\<rparr>"
    using x y by (auto simp: insert_import_def insert_item_def split: if_splits)
  then show ?thesis
    by (intro exI [of _ m] exI [of _ gi] exI [of _ g] exI [of _ lab] exI [of _ ?x] exI [of _ ?y] conjI)
      (use m st l c i in \<open>simp_all add: new_import_def new_item_def\<close>)
qed

text \<open>
  The branch \<open>skip_duplicate\<close> is dead: in every reachable state an import with an item whose content
  that student has already submitted for that lab cannot be applied.  The statement that would let
  the item point to the existing version violates the uniqueness of
  \<open>import_items.submission_version_id\<close>, and the whole import fails.
\<close>

theorem repeated_content_fails:
  assumes "import_reachable ul ci boot s" and "v \<in> set (versions s)" and "x \<in> set xs"
    and "same_content (ai_student_record_id x) (ai_lab_id x) (ai_sha256 x) v"
  shows "isl (CommitApply json_valid json_object clk uid actor importID xs s)"
proof (rule ccontr)
  assume "\<not> ?thesis"
  then obtain s' ks where "CommitApply json_valid json_object clk uid actor importID xs s = Inr (s', ks)"
    by (metis isl_def old.prod.exhaust sumE)
  from CommitApply_effect [OF this import_reachable_ok [OF assms(1)]]
  have "filter (same_content (ai_student_record_id x) (ai_lab_id x) (ai_sha256 x)) (versions s) = []" using assms(3) by blast
  with assms(2,4) show False by (auto simp: filter_empty_conv)
qed

section \<open>An example\<close>

text \<open>
  The student \<open>ann\<close> uploads her work for the lab \<open>lab1\<close>, the administrator \<open>root\<close> approves and
  applies the import, and \<open>ann\<close> uploads the same archive again.
\<close>

definition imp_group :: uuid where
  "imp_group = (case groups acct_ann of [] \<Rightarrow> '''' | g # _ \<Rightarrow> gr_id g)"

definition imp_start :: idb where
  "imp_start =
     \<lparr>base = acct_ann, courses = [\<lparr>la_id = ''l'', la_group_id = imp_group, la_code = ''lab1'', la_name = ''Lab'', la_active = True\<rparr>],
      import_rows = [], items = [], versions = [], receipts = [], hide_seek_versions = []\<rparr>"

definition imp_item :: Item where
  "imp_item = \<lparr>it_lab_code = ''lab1'', it_login = ''ann'', it_project_path = ''p'', it_time_limit = None,
               it_time_limit_deprecated = None, it_top_n = None\<rparr>"

definition imp_analysis :: Analysis where
  "imp_analysis =
     \<lparr>an_manifest = \<lparr>mf_schema_version = 1, mf_kind = ''lab'', mf_group_code = ''g1'', mf_lab_code = ''lab1'', mf_login = ''ann'',
                     mf_project_path = ''p'', mf_version_label = ''v1'', mf_source = '''', mf_source_reference = '''',
                     mf_commit_sha = '''', mf_time_limit = None, mf_time_limit_deprecated = None, mf_top_n = None, mf_items = []\<rparr>,
      an_manifest_json = ''{}'', an_projects = [\<lparr>pr_item = imp_item, pr_archive = '''', pr_file_count = 1, pr_size = 1\<rparr>], an_total = 1\<rparr>"

definition imp_object :: "string \<Rightarrow> Object" where
  "imp_object k = \<lparr>ob_key = Key k, ob_size = 1, ob_sha256 = replicate 32 (CHR ''j''), ob_content_type = ''application/zip'', ob_created_at = 0\<rparr>"

definition imp_sha :: string where
  "imp_sha = concat (replicate 32 ''6a'')"

definition imp_uploaded :: "uuid \<Rightarrow> uuid \<Rightarrow> idb \<Rightarrow> idb" where
  "imp_uploaded i j s = (case CreateStudentReview_tx id (=) 60 i j ''ann'' ''w.zip'' (imp_object i) imp_analysis s of Inl _ \<Rightarrow> s | Inr (s', _) \<Rightarrow> s')"

definition imp_approved :: "uuid \<Rightarrow> idb \<Rightarrow> idb" where
  "imp_approved i s = (case Review_tx 61 ''root'' i ''approve'' imp_sha ''{}'' '''' s of Inl _ \<Rightarrow> s | Inr (s', _) \<Rightarrow> s')"

definition imp_apply_item :: "uuid \<Rightarrow> ApplyItem" where
  "imp_apply_item j =
     \<lparr>ai_item_id = j, ai_student_record_id = (case members acct_ann of [] \<Rightarrow> '''' | m # _ \<Rightarrow> sm_id m), ai_lab_id = ''l'', ai_object_key = Key j,
      ai_sha256 = replicate 32 (CHR ''k''), ai_manifest = ''{}'', ai_version_label = ''v1'', ai_source_reference = '''', ai_commit_sha = ''''\<rparr>"

definition imp_applied :: "uuid \<Rightarrow> uuid \<Rightarrow> uuid \<Rightarrow> idb \<Rightarrow> idb" where
  "imp_applied i j v s =
     (case CommitApply (\<lambda>_. True) (\<lambda>_. True) (\<lambda>n. 63) (\<lambda>n. v) ''root'' i [imp_apply_item j] (fst (BeginApply 62 ''root'' i s)) of
        Inl _ \<Rightarrow> s | Inr (s', _) \<Rightarrow> s')"

definition imp_pending :: idb where
  "imp_pending = imp_uploaded ''i1'' ''j1'' imp_start"

definition imp_done :: idb where
  "imp_done = imp_applied ''i1'' ''j1'' ''v1'' (imp_approved ''i1'' imp_pending)"

lemma imp_uploaded_run: "import_run id id 1 s t \<Longrightarrow> import_run id id 1 s (imp_uploaded i j t)"
  by (auto simp: imp_uploaded_def split: sum.splits intro: import_run.more import_step.student_upload)

lemma imp_approved_run: "import_run id id 1 s t \<Longrightarrow> import_run id id 1 s (imp_approved i t)"
  by (auto simp: imp_approved_def split: sum.splits intro: import_run.more import_step.review)

lemma imp_applied_run:
  assumes "import_run id id 1 s t"
  shows "import_run id id 1 s (imp_applied i j v t)"
proof -
  have "import_run id id 1 s (fst (BeginApply 62 ''root'' i t))"
    by (rule import_run.more [OF assms import_step.begin_apply]) (rule prod.collapse [symmetric])
  with assms show ?thesis
    by (auto simp: imp_applied_def split: sum.splits intro: import_run.more import_step.commit_apply)
qed

lemma imp_initial: "imports_initial imp_start"
  by (simp add: imports_initial_def imp_start_def)

lemma imp_pending_reachable: "import_reachable id id 1 imp_pending"
  using imp_initial imp_uploaded_run [OF import_run.stay] unfolding import_reachable_def imp_pending_def by blast

lemma imp_done_run: "import_run id id 1 imp_pending imp_done"
  unfolding imp_done_def by (intro imp_applied_run imp_approved_run import_run.stay)

lemma imp_done_from_start: "import_run id id 1 imp_start imp_done"
  unfolding imp_done_def imp_pending_def by (intro imp_applied_run imp_approved_run imp_uploaded_run import_run.stay)

lemma imp_done_reachable: "import_reachable id id 1 imp_done"
  using imp_initial imp_done_from_start unfolding import_reachable_def by blast

lemma imp_done_versions: "map (\<lambda>v. (vr_id v, vr_no v, vr_approved_by v)) (versions imp_done) = [(''v1'', 1, Some ''root'')]"
  by code_simp

theorem submissions_approved_witness:
  "\<exists>v\<in>set (versions imp_done). vr_id v = ''v1''
     \<and> (\<exists>i\<in>set (import_rows imp_done). im_state i = ImportCompleted \<and> im_reviewed_by i = Some ''root'')"
proof -
  obtain v where v: "versions imp_done = [v]" "vr_id v = ''v1''" "vr_approved_by v = Some ''root''" using imp_done_versions by auto
  then show ?thesis using submissions_approved [OF imp_done_reachable, of v] by auto
qed

theorem version_numbers_witness:
  "\<exists>st lab. versions imp_pending = [] \<and> map vr_no (filter (of_pair st lab) (versions imp_done)) = [1]"
proof -
  obtain v where v: "versions imp_done = [v]" using imp_done_versions by auto
  moreover have "versions imp_pending = []" by code_simp
  ultimately show ?thesis
    using version_numbers [OF imp_pending_reachable imp_done_run, of "vr_student_record_id v" "vr_lab_id v"]
    by (intro exI [of _ "vr_student_record_id v"] exI [of _ "vr_lab_id v"]) (auto simp: of_pair_def)
qed

theorem import_life_witness:
  "\<exists>i\<in>set (import_rows imp_pending). \<exists>i'\<in>set (import_rows imp_done). im_state i = ImportReviewPending \<and> im_id i' = im_id i
     \<and> im_sha256 i' = im_sha256 i"
proof -
  have "list_ex (\<lambda>i. im_state i = ImportReviewPending) (import_rows imp_pending)" by code_simp
  then obtain i where "i \<in> set (import_rows imp_pending)" "im_state i = ImportReviewPending" by (auto simp: list_ex_iff)
  with import_life [OF imp_pending_reachable imp_done_run this(1)] show ?thesis by blast
qed

theorem Review_decides_witness:
  "\<exists>x x'. x \<in> set (import_rows imp_pending) \<and> x' \<in> set (import_rows (imp_approved ''i1'' imp_pending))
     \<and> im_state x = ImportReviewPending \<and> im_state x' = ImportApproved \<and> im_reviewed_by x' = Some ''root''"
proof -
  have u: "imports_unique (import_rows imp_pending)"
    using import_reachable_ok [OF imp_pending_reachable] by (simp add: imports_ok_def)
  have "\<not> isl (Review_tx 61 ''root'' ''i1'' ''approve'' imp_sha ''{}'' '''' imp_pending)" by code_simp
  then obtain s' i' where r: "Review_tx 61 ''root'' ''i1'' ''approve'' imp_sha ''{}'' '''' imp_pending = Inr (s', i')"
    by (metis isl_def old.prod.exhaust sumE)
  then have s': "imp_approved ''i1'' imp_pending = s'" by (simp add: imp_approved_def)
  from Review_decides [OF u r] obtain x x' where x: "x \<in> set (import_rows imp_pending)" "im_id x = ''i1''" "im_state x = ImportReviewPending"
    and e: "x' = x\<lparr>im_state := if ''approve'' = ''reject'' then ImportRejected else ImportApproved,
              im_reviewed_by := Some ''root'', im_reviewed_at := Some 61, im_reviewed_sha256 := Some (im_sha256 x),
              im_checklist := Some ''{}'', im_rejection_reason := nullableString [],
              im_version := im_version x + 1, im_updated_at := 61\<rparr>"
    and "s' = imp_pending\<lparr>import_rows := map (\<lambda>y. if im_id y = ''i1'' then x' else y) (import_rows imp_pending)\<rparr>"
    by blast
  then have "x' \<in> set (import_rows s')" by (auto simp: image_iff)
  moreover have "im_state x' = ImportApproved" "im_reviewed_by x' = Some ''root''" using e by simp_all
  ultimately show ?thesis using x s' by blast
qed

theorem student_upload_own_witness:
  "\<exists>m\<in>set (members (base imp_start)). sm_user_id m = Some ''ann''
     \<and> (\<exists>x. import_rows imp_pending = [x] \<and> im_group_id x = sm_group_id m \<and> im_state x = ImportReviewPending)"
proof -
  have "\<not> isl (CreateStudentReview_tx id (=) 60 ''i1'' ''j1'' ''ann'' ''w.zip'' (imp_object ''i1'') imp_analysis imp_start)" by code_simp
  then obtain s' i' where r: "CreateStudentReview_tx id (=) 60 ''i1'' ''j1'' ''ann'' ''w.zip'' (imp_object ''i1'') imp_analysis imp_start = Inr (s', i')"
    by (metis isl_def old.prod.exhaust sumE)
  then have "imp_pending = s'" by (simp add: imp_pending_def imp_uploaded_def)
  moreover have "import_rows imp_start = []" by (simp add: imp_start_def)
  ultimately obtain m x y where "m \<in> set (members (base imp_start))" "sm_user_id m = Some ''ann''"
      "imp_pending = imp_start\<lparr>import_rows := [x], items := items imp_start @ [y]\<rparr>" "im_group_id x = sm_group_id m"
      "im_state x = ImportReviewPending"
    using student_upload_own [OF r] by auto
  moreover from this(3) have "import_rows imp_pending = [x]" by (metis idb.ext_inject idb.surjective idb.update_convs(3,4))
  ultimately show ?thesis by blast
qed

theorem repeated_content_fails_witness:
  "versions imp_done \<noteq> []
   \<and> isl (CommitApply (\<lambda>_. True) (\<lambda>_. True) (\<lambda>n. 73) (\<lambda>n. ''v2'') ''root'' ''i2'' [imp_apply_item ''j2'']
       (fst (BeginApply 72 ''root'' ''i2'' (imp_approved ''i2'' (imp_uploaded ''i2'' ''j2'' imp_done)))))"
proof -
  let ?s = "fst (BeginApply 72 ''root'' ''i2'' (imp_approved ''i2'' (imp_uploaded ''i2'' ''j2'' imp_done)))"
  have "import_run id id 1 imp_start (imp_approved ''i2'' (imp_uploaded ''i2'' ''j2'' imp_done))"
    by (intro imp_approved_run imp_uploaded_run imp_done_from_start)
  then have "import_run id id 1 imp_start ?s"
    by (rule import_run.more [OF _ import_step.begin_apply]) (rule prod.collapse [symmetric])
  then have r: "import_reachable id id 1 ?s" using imp_initial unfolding import_reachable_def by blast
  have "list_ex (same_content (ai_student_record_id (imp_apply_item ''j2'')) (ai_lab_id (imp_apply_item ''j2'')) (ai_sha256 (imp_apply_item ''j2''))) (versions ?s)"
    by code_simp
  then obtain v where "v \<in> set (versions ?s)" "same_content (ai_student_record_id (imp_apply_item ''j2'')) (ai_lab_id (imp_apply_item ''j2'')) (ai_sha256 (imp_apply_item ''j2'')) v"
    by (auto simp: list_ex_iff)
  with repeated_content_fails [OF r, of v "imp_apply_item ''j2''" "[imp_apply_item ''j2'']"] show ?thesis
    using imp_done_versions by auto
qed

end
