(* ===== verification/Storage_Clients.thy ===== *)
theory Storage_Clients
  imports File_Storage Import_Properties
begin

text \<open>
  The clients of the object store: storing versions and original archives
  (\<open>application/storage/submissions.go\<close>), reconciling the store with the database
  (\<open>reconcile.go\<close>), downloads (\<open>download.go\<close>), and the queries behind them
  (\<open>infrastructure/postgres/storage.go\<close>).

  A client takes the store as a record of the type \<open>FileStorage\<close>, and what the environment decides
  during each of its calls; identifiers come as results of \<open>NewUUIDv7\<close>.  An error that wraps another
  one (\<open>%w\<close>) is that error.  The lemmas about clients are proved from the contract of the store, in the
  context of the locale \<open>file_storage\<close>, and hold for the local store by its interpretation.
\<close>

section \<open>Versions\<close>

record SubmissionVersion =
  subv_id :: uuid
  subv_student_record_id :: uuid
  subv_lab_id :: uuid
  subv_number :: int
  subv_object :: Object
  subv_created_at :: time

record CreateVersion =
  cv_id :: uuid
  cv_student_record_id :: uuid
  cv_lab_id :: uuid
  cv_import_id :: uuid
  cv_created_by :: uuid
  cv_key :: Key
  cv_sha256 :: bytes
  cv_manifest :: bytes

definition bare_object :: "Key \<Rightarrow> bytes \<Rightarrow> Object" where
  "bare_object key h = \<lparr>ob_key = key, ob_size = 0, ob_sha256 = h, ob_content_type = '''', ob_created_at = 0\<rparr>"

definition version_of :: "CreateVersion \<Rightarrow> int \<Rightarrow> time \<Rightarrow> version_row" where
  "version_of c number now =
     \<lparr>vr_id = cv_id c, vr_student_record_id = cv_student_record_id c, vr_lab_id = cv_lab_id c, vr_no = number,
      vr_source = ''teacher_import'', vr_import_id = cv_import_id c, vr_object_key = key_string (cv_key c),
      vr_sha256 = cv_sha256 c, vr_manifest = cv_manifest c, vr_created_at = now, vr_created_by = cv_created_by c,
      vr_label = '''', vr_reference = None, vr_commit_sha = None, vr_approved_by = None\<rparr>"

definition CreateOrGetByDigest ::
  "(bytes \<Rightarrow> bool) \<Rightarrow> (string \<Rightarrow> bool) \<Rightarrow> time \<Rightarrow> CreateVersion \<Rightarrow> idb \<Rightarrow> idb \<times> (SubmissionVersion \<times> bool) result" where
  "CreateOrGetByDigest json_valid json_object now c s =
     (if \<not> json_valid (cv_manifest c) then (s, Inl (ErrText ''source manifest is not valid JSON''))
      else
        (case latest (filter (same_content (cv_student_record_id c) (cv_lab_id c) (cv_sha256 c)) (versions s)) of
           Some v \<Rightarrow>
             (s, bind_result (ParseKey (vr_object_key v)) (\<lambda>key.
                   Inr (\<lparr>subv_id = vr_id v, subv_student_record_id = cv_student_record_id c, subv_lab_id = cv_lab_id c,
                         subv_number = vr_no v, subv_object = bare_object key (vr_sha256 v), subv_created_at = vr_created_at v\<rparr>,
                        True)))
         | None \<Rightarrow>
             (let number = next_version (cv_student_record_id c) (cv_lab_id c) s in
              case insert_version json_object (version_of c number now) s of
                None \<Rightarrow> (s, Inl ErrDatabase)
              | Some s' \<Rightarrow>
                  (s', Inr (\<lparr>subv_id = cv_id c, subv_student_record_id = cv_student_record_id c, subv_lab_id = cv_lab_id c,
                             subv_number = number, subv_object = bare_object (cv_key c) (cv_sha256 c), subv_created_at = now\<rparr>,
                            False)))))"

record StoreVersionRequest =
  sr_student_record_id :: uuid
  sr_lab_id :: uuid
  sr_import_id :: uuid
  sr_created_by :: uuid
  sr_size :: int
  sr_manifest :: bytes
  sr_archive :: "reader option"

text \<open>\<open>versions\<close> is the \<open>VersionRepository\<close> with its state; \<open>e1\<close>, \<open>e2\<close>, \<open>e3\<close> belong to the three calls of the store.\<close>

definition StoreVersion ::
  "('s, 'e) FileStorage \<Rightarrow> (CreateVersion \<Rightarrow> 'r \<Rightarrow> 'r \<times> (SubmissionVersion \<times> bool) result) \<Rightarrow> 'e \<Rightarrow> 'e \<Rightarrow> 'e
   \<Rightarrow> uuid result \<Rightarrow> uuid result \<Rightarrow> StoreVersionRequest \<Rightarrow> 's \<times> 'r \<Rightarrow> ('s \<times> 'r) \<times> (SubmissionVersion \<times> bool) result" where
  "StoreVersion F repo e1 e2 e3 newObject newVersion request st =
     (case sr_archive request of
        None \<Rightarrow> (st, Inl (ErrText ''normalized archive and non-negative size are required''))
      | Some archive \<Rightarrow>
          if sr_size request < 0 then (st, Inl (ErrText ''normalized archive and non-negative size are required''))
          else
            (case bind_result newObject (\<lambda>objectID. bind_result newVersion (\<lambda>versionID.
                    bind_result (NewKey NormalizedSubmissions objectID ''.zip'') (\<lambda>key. Inr (versionID, key)))) of
               Inl e \<Rightarrow> (st, Inl e)
             | Inr (versionID, key) \<Rightarrow>
                 (case Put F e1 key archive \<lparr>po_size = sr_size request, po_content_type = ''application/zip''\<rparr> (fst st) of
                    (s1, Inl e) \<Rightarrow> ((s1, snd st), Inl e)
                  | (s1, Inr obj) \<Rightarrow>
                      (case repo \<lparr>cv_id = versionID, cv_student_record_id = sr_student_record_id request,
                                  cv_lab_id = sr_lab_id request, cv_import_id = sr_import_id request,
                                  cv_created_by = sr_created_by request, cv_key = key, cv_sha256 = ob_sha256 obj,
                                  cv_manifest = sr_manifest request\<rparr> (snd st) of
                         (r1, Inl e) \<Rightarrow> ((fst (Delete F e2 key s1), r1), Inl e)
                       | (r1, Inr (created, duplicate)) \<Rightarrow>
                           if duplicate
                           then
                             (case Delete F e2 key s1 of
                                (s2, Inl e) \<Rightarrow> ((s2, r1), Inl e)
                              | (s2, Inr _) \<Rightarrow>
                                  ((s2, r1), bind_result (Stat F e3 (ob_key (subv_object created)) s2) (\<lambda>existing.
                                               Inr (created\<lparr>subv_object := existing\<rparr>, True))))
                           else ((s1, r1), Inr (created\<lparr>subv_object := obj\<rparr>, False))))))"

definition StoreOriginalArchive ::
  "('s, 'e) FileStorage \<Rightarrow> 'e \<Rightarrow> uuid result \<Rightarrow> int \<Rightarrow> reader option \<Rightarrow> 's \<Rightarrow> 's \<times> Object result" where
  "StoreOriginalArchive F e newID sz archive s =
     (case archive of
        None \<Rightarrow> (s, Inl (ErrText ''storage, archive and non-negative size are required''))
      | Some r \<Rightarrow>
          if sz < 0 then (s, Inl (ErrText ''storage, archive and non-negative size are required''))
          else
            (case bind_result newID (\<lambda>i. NewKey OriginalArchives i ''.zip'') of
               Inl x \<Rightarrow> (s, Inl x)
             | Inr key \<Rightarrow> Put F e key r \<lparr>po_size = sz, po_content_type = ''application/zip''\<rparr> s))"

section \<open>Downloads\<close>

definition may_read_version :: "idb \<Rightarrow> uuid \<Rightarrow> version_row \<Rightarrow> member_row \<Rightarrow> account_row \<Rightarrow> bool" where
  "may_read_version s actor v m u \<longleftrightarrow>
     acc_id u = actor \<and> acc_status u = UserActive
   \<and> (acc_role u = Some Admin
      \<or> acc_role u = Some Student \<and> sm_user_id m = Some actor \<and> \<not> List.member (hide_seek_versions s) (vr_id v)
      \<or> acc_role u = Some Teacher \<and> teaches (base s) actor (sm_group_id m))"

definition ReadableSubmissionKey :: "uuid \<Rightarrow> uuid \<Rightarrow> idb \<Rightarrow> Key result" where
  "ReadableSubmissionKey actor submissionVersionID s =
     (case select_one (\<lambda>v. vr_id v = submissionVersionID
              \<and> list_ex (\<lambda>m. sm_id m = vr_student_record_id v \<and> list_ex (may_read_version s actor v m) (accounts (base s)))
                  (members (base s))) (versions s) of
        None \<Rightarrow> Inl ErrAccessDenied
      | Some v \<Rightarrow> ParseKey (vr_object_key v))"

definition OpenSubmission ::
  "('s, 'e) FileStorage \<Rightarrow> (uuid \<Rightarrow> uuid \<Rightarrow> 'r \<Rightarrow> Key result) \<Rightarrow> 'e \<Rightarrow> uuid \<Rightarrow> uuid \<Rightarrow> 's \<Rightarrow> 'r \<Rightarrow> (bytes \<times> Object) result" where
  "OpenSubmission F access e actor version s r = bind_result (access actor version r) (\<lambda>key. Open F e key s)"

definition TemporarySubmissionURL ::
  "('s, 'e) FileStorage \<Rightarrow> (uuid \<Rightarrow> uuid \<Rightarrow> 'r \<Rightarrow> Key result) \<Rightarrow> 'e \<Rightarrow> uuid \<Rightarrow> uuid \<Rightarrow> int \<Rightarrow> 's \<Rightarrow> 'r \<Rightarrow> string result" where
  "TemporarySubmissionURL F access e actor version expiry s r =
     bind_result (access actor version r) (\<lambda>key.
       case TemporaryGetURL F of
         None \<Rightarrow> Inl (ErrText ''temporary storage URL is unsupported'')
       | Some get \<Rightarrow> get e key expiry s)"

section \<open>Reconciliation\<close>

record Reference =
  rf_key :: Key
  rf_digest :: "bytes option"

text \<open>
  \<open>ListObjectReferences\<close>: \<open>logs\<close> are the object keys of the logs of check attempts.  An empty digest
  is none.
\<close>

fun object_references :: "(string \<times> bytes) list \<Rightarrow> Reference list result" where
  "object_references [] = Inr []"
| "object_references ((value, digest) # rows) =
     (case ParseKey value of
        Inl _ \<Rightarrow> Inl (ErrText ''parse object reference'')
      | Inr key \<Rightarrow>
          if length digest \<noteq> 0 \<and> length digest \<noteq> 32 then Inl (ErrText ''object reference has invalid digest'')
          else bind_result (object_references rows) (\<lambda>rs.
                 Inr (\<lparr>rf_key = key, rf_digest = (if length digest \<noteq> 0 then Some digest else None)\<rparr> # rs)))"

definition ListObjectReferences :: "string list \<Rightarrow> idb \<Rightarrow> Reference list result" where
  "ListObjectReferences logs s =
     object_references
       (map (\<lambda>i. (im_object_key i, im_sha256 i)) (import_rows s) @ map (\<lambda>v. (vr_object_key v, vr_sha256 v)) (versions s)
        @ map (\<lambda>l. (l, [])) logs)"

record ReconciliationReport =
  rr_checked :: nat
  rr_missing :: "Key list"
  rr_orphaned :: "Key list"

text \<open>
  The two loops of \<open>Reconcile\<close>.  \<open>envs n\<close> is the environment of the \<open>n\<close>-th call of the store, \<open>io n\<close> the
  error of copying or closing the \<open>n\<close>-th reader.
\<close>

fun check_references ::
  "('s, 'e) FileStorage \<Rightarrow> (nat \<Rightarrow> 'e) \<Rightarrow> (nat \<Rightarrow> go_error option) \<Rightarrow> 's \<Rightarrow> nat \<Rightarrow> Reference list \<Rightarrow> Key list result" where
  "check_references F envs io s n [] = Inr []"
| "check_references F envs io s n (rf # rest) =
     (case Open F (envs n) (rf_key rf) s of
        Inl e \<Rightarrow>
          if e = ErrNotFound then bind_result (check_references F envs io s (Suc n) rest) (\<lambda>ks. Inr (rf_key rf # ks))
          else Inl e
      | Inr (b, obj) \<Rightarrow>
          (case io n of
             Some e \<Rightarrow> Inl e
           | None \<Rightarrow>
               if sha256 b \<noteq> ob_sha256 obj \<or> (case rf_digest rf of None \<Rightarrow> False | Some h \<Rightarrow> sha256 b \<noteq> h)
               then Inl (ErrText ''object has a checksum mismatch'')
               else check_references F envs io s (Suc n) rest))"

fun find_orphans ::
  "('s, 'e) FileStorage \<Rightarrow> (nat \<Rightarrow> 'e) \<Rightarrow> 's \<Rightarrow> Reference list \<Rightarrow> nat \<Rightarrow> string list \<Rightarrow> Key list result" where
  "find_orphans F envs s refs n [] = Inr []"
| "find_orphans F envs s refs n (ns # rest) =
     bind_result (List F (envs n) ns s) (\<lambda>objs.
     bind_result (find_orphans F envs s refs (Suc n) rest) (\<lambda>ks.
       Inr (filter (\<lambda>k. \<not> list_ex (\<lambda>rf. key_string (rf_key rf) = key_string k) refs) (map ob_key objs) @ ks)))"

definition Reconcile ::
  "('s, 'e) FileStorage \<Rightarrow> (nat \<Rightarrow> 'e) \<Rightarrow> (nat \<Rightarrow> go_error option) \<Rightarrow> Reference list result \<Rightarrow> 's \<Rightarrow> ReconciliationReport result" where
  "Reconcile F envs io listed s =
     bind_result listed (\<lambda>keys.
     bind_result (check_references F envs io s 0 keys) (\<lambda>missing.
     bind_result (find_orphans F envs s keys (length keys) [OriginalArchives, NormalizedSubmissions, SafeLogs]) (\<lambda>orphaned.
       Inr \<lparr>rr_checked = length keys, rr_missing = missing, rr_orphaned = orphaned\<rparr>)))"

section \<open>What clients get from the contract\<close>

context file_storage
begin

lemma check_references_exact:
  assumes "check_references F envs io s n refs = Inr ks" and "\<forall>rf\<in>set refs. valid_key (rf_key rf)"
  shows "ks = map rf_key (filter (\<lambda>rf. content s (rf_key rf) = None) refs)
     \<and> (\<forall>rf\<in>set refs. \<forall>b h. content s (rf_key rf) = Some b \<longrightarrow> rf_digest rf = Some h \<longrightarrow> sha256 b = h)"
  using assms
proof (induction refs arbitrary: n ks)
  case (Cons rf refs)
  show ?case
  proof (cases "Open F (envs n) (rf_key rf) s")
    case (Inl e)
    then obtain ks' where e: "e = ErrNotFound" "check_references F envs io s (Suc n) refs = Inr ks'" "ks = rf_key rf # ks'"
      using Cons.prems(1) by (auto split: if_splits)
    then show ?thesis using open_missing [of "rf_key rf" "envs n" s] Inl Cons by auto
  next
    case (Inr p)
    obtain b obj where p: "p = (b, obj)" by (cases p)
    then have o: "content s (rf_key rf) = Some b" "ob_sha256 obj = sha256 b" using open_ok [of "rf_key rf" "envs n" s b obj] Inr Cons.prems by auto
    have "check_references F envs io s (Suc n) refs = Inr ks" "(case rf_digest rf of None \<Rightarrow> True | Some h \<Rightarrow> sha256 b = h)"
      using Cons.prems(1) Inr p by (auto split: option.splits if_splits)
    then show ?thesis using Cons.IH [of "Suc n" ks] Cons.prems(2) o by (auto split: option.splits)
  qed
qed simp

lemma find_orphans_exact:
  assumes "tidy s" and "find_orphans F envs s refs n nss = Inr ks" and "set nss \<subseteq> {OriginalArchives, NormalizedSubmissions, SafeLogs}"
  shows "set ks = {k. valid_key k \<and> (\<exists>ns\<in>set nss. has_prefix (key_string k) (ns @ ''/'')) \<and> content s k \<noteq> None \<and> k \<notin> rf_key ` set refs}"
  using assms(2,3)
proof (induction nss arbitrary: n ks)
  case (Cons ns nss)
  then obtain objs ks' where o: "List F (envs n) ns s = Inr objs" "find_orphans F envs s refs (Suc n) nss = Inr ks'"
    and ks: "ks = filter (\<lambda>k. \<not> list_ex (\<lambda>rf. key_string (rf_key rf) = key_string k) refs) (map ob_key objs) @ ks'" by auto
  have "ob_key ` set objs = {k. valid_key k \<and> has_prefix (key_string k) (ns @ ''/'') \<and> content s k \<noteq> None}"
    using list_ok [OF assms(1) o(1)] Cons.prems(2) by auto
  moreover have "list_ex (\<lambda>rf. key_string (rf_key rf) = key_string k) refs \<longleftrightarrow> k \<in> rf_key ` set refs" for k
    using Key.expand by (force simp: list_ex_iff)
  ultimately have "set (filter (\<lambda>k. \<not> list_ex (\<lambda>rf. key_string (rf_key rf) = key_string k) refs) (map ob_key objs))
      = {k. valid_key k \<and> has_prefix (key_string k) (ns @ ''/'') \<and> content s k \<noteq> None \<and> k \<notin> rf_key ` set refs}" by auto
  then show ?case using Cons.IH [OF o(2)] Cons.prems(2) ks by auto
qed simp

lemma valid_key_namespace: "valid_key k \<Longrightarrow> \<exists>ns\<in>{OriginalArchives, NormalizedSubmissions, SafeLogs}. has_prefix (key_string k) (ns @ ''/'')"
  using valid_key_parts [of k] by (auto simp: has_prefix_def)

lemma Reconcile_report:
  assumes "tidy s" and "Reconcile F envs io (Inr refs) s = Inr report" and "\<forall>rf\<in>set refs. valid_key (rf_key rf)"
  shows "rr_checked report = length refs
     \<and> rr_missing report = map rf_key (filter (\<lambda>rf. content s (rf_key rf) = None) refs)
     \<and> set (rr_orphaned report) = {k. valid_key k \<and> content s k \<noteq> None \<and> k \<notin> rf_key ` set refs}
     \<and> (\<forall>rf\<in>set refs. \<forall>b h. content s (rf_key rf) = Some b \<longrightarrow> rf_digest rf = Some h \<longrightarrow> sha256 b = h)"
proof -
  obtain missing orphaned where r: "check_references F envs io s 0 refs = Inr missing"
    "find_orphans F envs s refs (length refs) [OriginalArchives, NormalizedSubmissions, SafeLogs] = Inr orphaned"
    "report = \<lparr>rr_checked = length refs, rr_missing = missing, rr_orphaned = orphaned\<rparr>"
    using assms(2) by (auto simp: Reconcile_def)
  have "set orphaned = {k. valid_key k \<and> content s k \<noteq> None \<and> k \<notin> rf_key ` set refs}"
    using find_orphans_exact [OF assms(1) r(2)] valid_key_namespace by auto
  then show ?thesis using check_references_exact [OF r(1) assms(3)] r(3) by simp
qed

end

definition refers :: "string \<times> bytes \<Rightarrow> Reference \<Rightarrow> bool" where
  "refers row rf \<longleftrightarrow>
     valid_key (rf_key rf) \<and> key_string (rf_key rf) = fst row \<and> rf_digest rf = (if snd row = [] then None else Some (snd row))"

lemma object_references_Inr: "object_references rows = Inr refs \<Longrightarrow> list_all2 refers rows refs"
proof (induction rows arbitrary: refs)
  case (Cons row rows)
  obtain v d where row: "row = (v, d)" by (cases row)
  with Cons.prems obtain key rs where "ParseKey v = Inr key" "object_references rows = Inr rs"
      "refs = \<lparr>rf_key = key, rf_digest = (if length d \<noteq> 0 then Some d else None)\<rparr> # rs"
    by (auto split: sum.splits if_splits)
  with Cons.IH row show ?case by (auto simp: ParseKey_NewKey valid_key_def refers_def)
qed simp

definition referenced_objects :: "string list \<Rightarrow> idb \<Rightarrow> (string \<times> bytes) list" where
  "referenced_objects logs s =
     map (\<lambda>i. (im_object_key i, im_sha256 i)) (import_rows s) @ map (\<lambda>v. (vr_object_key v, vr_sha256 v)) (versions s)
     @ map (\<lambda>l. (l, [])) logs"

lemma ListObjectReferences_Inr: "ListObjectReferences logs s = Inr refs \<Longrightarrow> list_all2 refers (referenced_objects logs s) refs"
  by (simp add: ListObjectReferences_def referenced_objects_def object_references_Inr)

text \<open>
  C36: A reconciliation that ends with a report tells the truth about the store: the missing objects are
  exactly those that the database refers to and the store does not hold, the orphans exactly those
  that the store holds and the database does not refer to, and every object that is present has the
  digest that the database records.
\<close>

theorem Reconcile_exact:
  assumes "tidy_local s" and "Reconcile local_storage envs io (ListObjectReferences logs d) s = Inr report"
  shows "rr_checked report = length (referenced_objects logs d)
     \<and> set (rr_missing report) = {k. key_string k \<in> fst ` set (referenced_objects logs d) \<and> content_local s k = None}
     \<and> set (rr_orphaned report) = {k. valid_key k \<and> content_local s k \<noteq> None \<and> key_string k \<notin> fst ` set (referenced_objects logs d)}
     \<and> (\<forall>(p, h)\<in>set (referenced_objects logs d). \<forall>b. content_local s (Key p) = Some b \<longrightarrow> h \<noteq> [] \<longrightarrow> sha256 b = h)"
proof -
  let ?rows = "referenced_objects logs d"
  obtain refs where refs: "ListObjectReferences logs d = Inr refs" using assms(2) by (auto simp: Reconcile_def)
  have l: "list_all2 refers ?rows refs" by (rule ListObjectReferences_Inr [OF refs])
  then have valid: "\<forall>rf\<in>set refs. valid_key (rf_key rf)" using list_all2_memD by (fastforce simp: refers_def)
  note r = lfs.Reconcile_report [OF assms(1) assms(2) [unfolded refs] valid]
  have keys: "(\<lambda>rf. key_string (rf_key rf)) ` set refs = fst ` set ?rows"
  proof -
    have "map fst ?rows = map (\<lambda>rf. key_string (rf_key rf)) refs"
      using l by (induction rule: list_all2_induct) (auto simp: refers_def)
    from arg_cong [OF this, of set] show ?thesis by simp
  qed
  have "k \<in> rf_key ` set refs \<longleftrightarrow> key_string k \<in> (\<lambda>rf. key_string (rf_key rf)) ` set refs" for k
    using Key.expand [of k] by (auto simp: image_iff)
  then have mem: "k \<in> rf_key ` set refs \<longleftrightarrow> key_string k \<in> fst ` set ?rows" for k unfolding keys .
  have "content_local s (Key p) = Some b \<Longrightarrow> h \<noteq> [] \<Longrightarrow> sha256 b = h" if row: "(p, h) \<in> set ?rows" for p h b
  proof -
    obtain rf where rf: "rf \<in> set refs" "refers (p, h) rf" using list_all2_memI [OF l row] by blast
    then have "rf_key rf = Key p" by (cases "rf_key rf") (simp add: refers_def)
    then show "content_local s (Key p) = Some b \<Longrightarrow> h \<noteq> [] \<Longrightarrow> sha256 b = h" using r rf by (auto simp: refers_def)
  qed
  moreover have "set (rr_missing report) = {k. key_string k \<in> fst ` set ?rows \<and> content_local s k = None}"
  proof -
    have "set (rr_missing report) = {k. k \<in> rf_key ` set refs \<and> content_local s k = None}" using r by auto
    then show ?thesis unfolding mem .
  qed
  moreover have "rr_checked report = length ?rows" using r list_all2_lengthD [OF l] by simp
  ultimately show ?thesis using r mem by auto
qed

section \<open>Storing a version\<close>

context file_storage
begin

lemma StoreVersion_ok:
  assumes "tidy s" and "StoreVersion F repo e1 e2 e3 newObject newVersion request (s, r) = ((s', r'), Inr (v, dup))"
  shows "\<exists>key b obj created versionID. valid_key key \<and> content s key = None
     \<and> delivers (the (sr_archive request)) = Some b \<and> int (length b) = sr_size request
     \<and> repo \<lparr>cv_id = versionID, cv_student_record_id = sr_student_record_id request, cv_lab_id = sr_lab_id request,
             cv_import_id = sr_import_id request, cv_created_by = sr_created_by request, cv_key = key, cv_sha256 = sha256 b,
             cv_manifest = sr_manifest request\<rparr> r = (r', Inr (created, dup))
     \<and> v = created\<lparr>subv_object := obj\<rparr>
     \<and> (if dup
        then (\<forall>k'. valid_key k' \<longrightarrow> content s' k' = content s k')
          \<and> (valid_key (ob_key (subv_object created)) \<longrightarrow>
              (\<exists>c. content s (ob_key (subv_object created)) = Some c \<and> ob_key obj = ob_key (subv_object created) \<and> ob_sha256 obj = sha256 c))
        else (\<forall>k'. valid_key k' \<longrightarrow> content s' k' = ((content s)(key \<mapsto> b)) k') \<and> ob_key obj = key \<and> ob_sha256 obj = sha256 b)"
proof -
  obtain archive objectID versionID key where a: "sr_archive request = Some archive" "sr_size request \<ge> 0" "newObject = Inr objectID" "newVersion = Inr versionID"
    and k: "NewKey NormalizedSubmissions objectID ''.zip'' = Inr key"
    using assms(2) by (auto simp: StoreVersion_def split: option.splits sum.splits if_splits)
  let ?opts = "\<lparr>po_size = sr_size request, po_content_type = ''application/zip''\<rparr>"
  let ?cv = "\<lambda>h. \<lparr>cv_id = versionID, cv_student_record_id = sr_student_record_id request, cv_lab_id = sr_lab_id request,
             cv_import_id = sr_import_id request, cv_created_by = sr_created_by request, cv_key = key, cv_sha256 = h,
             cv_manifest = sr_manifest request\<rparr>"
  have vk: "valid_key key" using k by (auto simp: valid_key_def)
  obtain s1 obj where p: "Put F e1 key archive ?opts s = (s1, Inr obj)"
    using assms(2) a k by (auto simp: StoreVersion_def split: prod.splits sum.splits)
  obtain b where b: "tidy s1" "content s key = None" "delivers archive = Some b" "int (length b) = sr_size request"
      "\<forall>k'. valid_key k' \<longrightarrow> content s1 k' = ((content s)(key \<mapsto> b)) k'" "ob_key obj = key" "ob_sha256 obj = sha256 b"
    using put_ok [OF assms(1) vk p] by auto
  obtain created where c: "repo (?cv (sha256 b)) r = (r', Inr (created, dup))"
    using assms(2) a k p b(7) by (auto simp: StoreVersion_def split: prod.splits sum.splits if_splits)
  show ?thesis
  proof (cases dup)
    case False
    then have "s' = s1" "v = created\<lparr>subv_object := obj\<rparr>" using assms(2) a k p b(7) c by (auto simp: StoreVersion_def)
    with False a vk b c show ?thesis
      by (intro exI [of _ key] exI [of _ b] exI [of _ obj] exI [of _ created] exI [of _ versionID]) simp
  next
    case True
    then obtain u existing where d: "Delete F e2 key s1 = (s', Inr u)" "Stat F e3 (ob_key (subv_object created)) s' = Inr existing"
        "v = created\<lparr>subv_object := existing\<rparr>"
      using assms(2) a k p b(7) c by (auto simp: StoreVersion_def split: prod.splits sum.splits)
    have same: "content s' k' = content s k'" if "valid_key k'" for k'
      using delete_ok [OF b(1) vk d(1)] b(2,5) that by auto
    have st: "\<exists>c. content s (ob_key (subv_object created)) = Some c \<and> ob_key existing = ob_key (subv_object created) \<and> ob_sha256 existing = sha256 c"
      if "valid_key (ob_key (subv_object created))" using stat_ok [OF that d(2)] same [OF that] by auto
    from True a vk b c d same st show ?thesis
      by (intro exI [of _ key] exI [of _ b] exI [of _ existing] exI [of _ created] exI [of _ versionID]) simp
  qed
qed

end

definition has_object :: "lfs \<Rightarrow> version_row \<Rightarrow> bool" where
  "has_object s v \<longleftrightarrow> valid_key (Key (vr_object_key v)) \<and> (\<exists>b. content_local s (Key (vr_object_key v)) = Some b \<and> sha256 b = vr_sha256 v)"

lemma CreateOrGetByDigest_cases:
  assumes "CreateOrGetByDigest jv jo now c d = (d', Inr (v, dup))"
  obtains (found) w k where "dup" "d' = d" "w \<in> set (versions d)" "ParseKey (vr_object_key w) = Inr k"
      "subv_object v = bare_object k (vr_sha256 w)" "subv_id v = vr_id w" "subv_number v = vr_no w"
    | (created) w where "\<not> dup" "versions d' = versions d @ [w]" "vr_id w = subv_id v" "vr_no w = subv_number v"
      "vr_object_key w = key_string (cv_key c)" "vr_sha256 w = cv_sha256 c"
proof (cases "latest (filter (same_content (cv_student_record_id c) (cv_lab_id c) (cv_sha256 c)) (versions d))")
  case None
  then obtain n where "insert_version jo (version_of c n now) d = Some d'" "\<not> dup" "subv_id v = cv_id c" "subv_number v = n"
    using assms by (auto simp: CreateOrGetByDigest_def Let_def split: if_splits option.splits)
  then show thesis by (intro created [of "version_of c n now"]) (auto simp: insert_version_def version_of_def split: if_splits)
next
  case (Some w)
  then have "w \<in> set (versions d)" using latest_mem by fastforce
  moreover obtain k where "ParseKey (vr_object_key w) = Inr k" "subv_object v = bare_object k (vr_sha256 w)"
      "dup" "d' = d" "subv_id v = vr_id w" "subv_number v = vr_no w"
    using Some assms by (auto simp: CreateOrGetByDigest_def split: if_splits)
  ultimately show thesis using found by blast
qed


section \<open>Downloads\<close>

text \<open>
  C37: A download is for the entitled only, and brings the stored content: the actor is active and an
  administrator, a teacher of the student's group, or the student who has claimed the record, and
  then only when the version has no defense in the hide-and-seek mode.
\<close>

theorem OpenSubmission_entitled:
  assumes "OpenSubmission local_storage ReadableSubmissionKey e actor version s d = Inr (b, obj)"
  shows "\<exists>v m u. v \<in> set (versions d) \<and> vr_id v = version \<and> m \<in> set (members (base d)) \<and> sm_id m = vr_student_record_id v
     \<and> u \<in> set (accounts (base d)) \<and> acc_id u = actor \<and> acc_status u = UserActive
     \<and> (acc_role u = Some Admin
        \<or> acc_role u = Some Student \<and> sm_user_id m = Some actor \<and> version \<notin> set (hide_seek_versions d)
        \<or> acc_role u = Some Teacher \<and> teaches (base d) actor (sm_group_id m))
     \<and> content_local s (Key (vr_object_key v)) = Some b \<and> ob_sha256 obj = sha256 b"
proof -
  obtain key where k: "ReadableSubmissionKey actor version d = Inr key" "Open_local e key s = Inr (b, obj)"
    using assms by (auto simp: OpenSubmission_def local_storage_sel)
  obtain v where v: "v \<in> set (versions d)" "vr_id v = version" "ParseKey (vr_object_key v) = Inr key"
    and ex: "list_ex (\<lambda>m. sm_id m = vr_student_record_id v \<and> list_ex (may_read_version d actor v m) (accounts (base d))) (members (base d))"
    using k(1) by (auto simp: ReadableSubmissionKey_def split: option.splits dest!: select_one_SomeD)
  obtain m u where m: "m \<in> set (members (base d))" "sm_id m = vr_student_record_id v" "u \<in> set (accounts (base d))" "may_read_version d actor v m u"
    using ex by (auto simp: list_ex_iff)
  have "Key (vr_object_key v) = key" using v(3) by (cases key) (simp add: ParseKey_NewKey)
  then have "content_local s (Key (vr_object_key v)) = Some b \<and> ob_sha256 obj = sha256 b" using Open_local_Inr [OF k(2)] by simp
  with v m show ?thesis unfolding may_read_version_def by (intro exI [of _ v] exI [of _ m] exI [of _ u]) auto
qed

section \<open>An example\<close>

text \<open>
  An archive that no row refers to; then the same archive stored as a version of the student \<open>ann\<close>,
  for whom an import is waiting.
\<close>

lemma ex_no_faults: "fault (ex_env None) n what = Inr ()" "later n (ex_env None) = ex_env None"
  by (simp_all add: fault_def ex_env_def later_def)

lemma ex_digest: "digest_local (ex_env None) b = Inr (sha256 b)"
  by (simp add: digest_local_def ex_env_def copyContext_no_faults bytes_reader_def)

lemma ex_listing:
  "List_local (ex_env None) OriginalArchives (ex_holding ex_key) = Inr [object_of ex_key ''zip'' 5 (sha256 ''zip'') ''application/octet-stream'']"
proof -
  have d: "ReadDir OriginalArchives (ex_holding ex_key) = [(''018f47de-6c8b-7c41-9f5d-c68c7fbf6a52.zip'', Regular ''zip'' 5)]" by code_simp
  have "OriginalArchives @ ''/'' @ ''018f47de-6c8b-7c41-9f5d-c68c7fbf6a52.zip'' = key_string ex_key" by code_simp
  then have p: "ParseKey (OriginalArchives @ ''/'' @ ''018f47de-6c8b-7c41-9f5d-c68c7fbf6a52.zip'') = Inr ex_key" using ex_key_parse by metis
  have m: "OriginalArchives \<in> set (dirs (ex_holding ex_key))" by (simp add: ex_holding_def ex_key_dir)
  have s: "Stat_local (ex_env None) ex_key (ex_holding ex_key) = Inr (object_of ex_key ''zip'' 5 (sha256 ''zip'') ''application/octet-stream'')"
    by (simp add: Stat_local_def Open_local_def ex_no_faults ex_digest ex_holding_def ex_key_dir)
  show ?thesis unfolding List_local_def d list_entries.simps ex_no_faults p using m s by simp
qed

theorem Reconcile_exact_witness:
  "\<exists>report. Reconcile local_storage (\<lambda>_. ex_env None) (\<lambda>_. None) (ListObjectReferences [] imp_start) (ex_holding ex_key) = Inr report
     \<and> rr_missing report = [] \<and> set (rr_orphaned report) = {ex_key}"
proof -
  have l: "ListObjectReferences [] imp_start = Inr []" and rows: "referenced_objects [] imp_start = []"
    by (simp_all add: ListObjectReferences_def imp_start_def referenced_objects_def)
  have ns: "NormalizedSubmissions \<noteq> OriginalArchives" "SafeLogs \<noteq> OriginalArchives" by (simp_all add: namespace_defs)
  have others: "List_local (ex_env None) ns (ex_holding ex_key) = Inr []" if "ns \<noteq> OriginalArchives" for ns
    using that by (simp add: List_local_def ex_no_faults ex_holding_def ex_key_dir)
  have "\<exists>report. Reconcile local_storage (\<lambda>_. ex_env None) (\<lambda>_. None) (ListObjectReferences [] imp_start) (ex_holding ex_key) = Inr report"
    using others [of NormalizedSubmissions] others [of SafeLogs] ns by (simp add: Reconcile_def l local_storage_sel ex_listing)
  then obtain report where r: "Reconcile local_storage (\<lambda>_. ex_env None) (\<lambda>_. None) (ListObjectReferences [] imp_start) (ex_holding ex_key) = Inr report" ..
  have "content_local (ex_holding ex_key) k \<noteq> None \<longleftrightarrow> k = ex_key" for k by (simp add: ex_content)
  then show ?thesis using Reconcile_exact [OF ex_tidy(2) r] r rows ex_key_valid by (intro exI [of _ report]) auto
qed

definition ex_request :: StoreVersionRequest where
  "ex_request =
     \<lparr>sr_student_record_id = ai_student_record_id (imp_apply_item ''j1''), sr_lab_id = ''l'', sr_import_id = ''i1'', sr_created_by = ''root'',
      sr_size = 3, sr_manifest = ''{}'', sr_archive = Some (bytes_reader ''zip'')\<rparr>"

definition ex_id :: uuid where
  "ex_id = ''018f47de-6c8b-7c41-9f5d-c68c7fbf6a52''"

definition ex_version_key :: Key where
  "ex_version_key = Key ''normalized-submissions/018f47de-6c8b-7c41-9f5d-c68c7fbf6a52.zip''"

definition ex_version :: version_row where
  "ex_version =
     version_of \<lparr>cv_id = ''v9'', cv_student_record_id = sr_student_record_id ex_request, cv_lab_id = ''l'', cv_import_id = ''i1'',
       cv_created_by = ''root'', cv_key = ex_version_key, cv_sha256 = sha256 ''zip'', cv_manifest = ''{}''\<rparr> 1 70"

definition ex_database :: idb where
  "ex_database = imp_pending\<lparr>versions := [ex_version]\<rparr>"

lemma ex_version_key_made: "NewKey NormalizedSubmissions ex_id ''.zip'' = Inr ex_version_key"
  by code_simp

lemma ex_version_key_valid: "valid_key ex_version_key"
  using ex_version_key_made by (auto simp: valid_key_def)

lemma ex_create:
  "CreateOrGetByDigest (\<lambda>_. True) (\<lambda>_. True) 70
     \<lparr>cv_id = ''v9'', cv_student_record_id = sr_student_record_id ex_request, cv_lab_id = ''l'', cv_import_id = ''i1'',
       cv_created_by = ''root'', cv_key = ex_version_key, cv_sha256 = sha256 ''zip'', cv_manifest = ''{}''\<rparr> imp_pending
   = (ex_database, Inr (\<lparr>subv_id = ''v9'', subv_student_record_id = sr_student_record_id ex_request, subv_lab_id = ''l'', subv_number = 1,
        subv_object = bare_object ex_version_key (sha256 ''zip''), subv_created_at = 70\<rparr>, False))"
proof -
  have "versions imp_pending = [] \<and> exists_id sm_id (sr_student_record_id ex_request) (members (base imp_pending))
     \<and> exists_id la_id ''l'' (courses imp_pending) \<and> exists_id im_id ''i1'' (import_rows imp_pending)
     \<and> exists_id acc_id ''root'' (accounts (base imp_pending))" by code_simp
  moreover have "latest [] = None" by code_simp
  ultimately show ?thesis
    by (simp add: CreateOrGetByDigest_def next_version_def insert_version_def version_check_def versions_unique_def unique_on_def
        ex_database_def ex_version_def version_of_def rune_count_short references_def)
qed


theorem OpenSubmission_entitled_witness:
  "\<exists>obj u. OpenSubmission local_storage ReadableSubmissionKey (ex_env None) ''root'' ''v9'' (ex_holding ex_version_key) ex_database = Inr (''zip'', obj)
     \<and> u \<in> set (accounts (base ex_database)) \<and> acc_id u = ''root'' \<and> acc_status u = UserActive"
proof -
  have "list_ex (\<lambda>m. sm_id m = sr_student_record_id ex_request
      \<and> list_ex (\<lambda>u. acc_id u = ''root'' \<and> acc_status u = UserActive \<and> acc_role u = Some Admin) (accounts (base imp_pending))) (members (base imp_pending))"
    by code_simp
  then have "list_ex (\<lambda>m. sm_id m = vr_student_record_id ex_version \<and> list_ex (may_read_version ex_database ''root'' ex_version m) (accounts (base ex_database)))
      (members (base ex_database))"
    by (auto simp: list_ex_iff may_read_version_def ex_database_def ex_version_def version_of_def)
  moreover have "ParseKey (vr_object_key ex_version) = Inr ex_version_key"
    using ex_version_key_valid by (auto simp: ParseKey_NewKey valid_key_def ex_version_def version_of_def)
  moreover have "vr_id ex_version = ''v9''" by (simp add: ex_version_def version_of_def)
  ultimately have "ReadableSubmissionKey ''root'' ''v9'' ex_database = Inr ex_version_key"
    by (simp add: ReadableSubmissionKey_def ex_database_def select_one_def)
  moreover obtain obj where "Open_local (ex_env None) ex_version_key (ex_holding ex_version_key) = Inr (''zip'', obj)"
    by (simp add: Open_local_def ex_no_faults ex_digest ex_holding_def)
  ultimately have o: "OpenSubmission local_storage ReadableSubmissionKey (ex_env None) ''root'' ''v9'' (ex_holding ex_version_key) ex_database = Inr (''zip'', obj)"
    by (simp add: OpenSubmission_def local_storage_sel)
  from OpenSubmission_entitled [OF o] o show ?thesis by blast
qed

end
