(* ===== verification/Catalog.thy ===== *)
theory Catalog
  imports Import_Properties
begin

text \<open>
  The catalogue: \<open>infrastructure/postgres/catalog.go\<close>, the groups, laboratories and submissions a
  person may list, and the creation of groups and laboratories.

  The defenses of a submission are in tables of their own; \<open>newest\<close> gives the state of the newest one
  of a version, if there is one.  The creation times of groups and laboratories, the description and
  the two settings of laboratories that new defenses do not read are left out.  \<open>collate\<close> is the order of
  the database on text.
\<close>

section \<open>Views\<close>

record Group =
  go_id :: uuid
  go_code :: string
  go_name :: string
  go_is_demo :: bool
  go_active :: bool

record Lab =
  lo_id :: uuid
  lo_group_id :: uuid
  lo_code :: string
  lo_name :: string
  lo_active :: bool

record Submission =
  so_id :: uuid
  so_lab_id :: uuid
  so_lab_code :: string
  so_lab_name :: string
  so_version_number :: int
  so_version_label :: string
  so_source :: string
  so_reference :: "string option"
  so_commit_sha :: "string option"
  so_approved_by :: "string option"
  so_defense_status :: string
  so_created_at :: time

record GroupSubmission =
  gso_submission :: Submission
  gso_student_record_id :: uuid
  gso_github_login :: string

definition group_view :: "group_row \<Rightarrow> Group" where
  "group_view g =
     \<lparr>go_id = gr_id g, go_code = gr_code g, go_name = gr_name g, go_is_demo = gr_is_demo g, go_active = (gr_archived_at g = None)\<rparr>"

definition lab_view :: "course_row \<Rightarrow> Lab" where
  "lab_view l = \<lparr>lo_id = la_id l, lo_group_id = la_group_id l, lo_code = la_code l, lo_name = la_name l, lo_active = la_active l\<rparr>"

text \<open>The name of the approver: the display name, else the GitHub login.\<close>

definition approver_name :: "adb \<Rightarrow> version_row \<Rightarrow> string option" where
  "approver_name b v =
     Option.bind (vr_approved_by v) (\<lambda>i. Option.bind (account b i) (\<lambda>a.
       case acc_display_name a of Some n \<Rightarrow> Some n | None \<Rightarrow> map_option gi_login (identity_of b i)))"

definition submission_view :: "(uuid \<Rightarrow> string option) \<Rightarrow> adb \<Rightarrow> version_row \<Rightarrow> course_row \<Rightarrow> Submission" where
  "submission_view newest b v l =
     \<lparr>so_id = vr_id v, so_lab_id = vr_lab_id v, so_lab_code = la_code l, so_lab_name = la_name l, so_version_number = vr_no v,
      so_version_label = (if vr_label v = '''' then ''version_'' @ format_int (vr_no v) else vr_label v), so_source = vr_source v,
      so_reference = vr_reference v, so_commit_sha = vr_commit_sha v, so_approved_by = approver_name b v,
      so_defense_status = (case newest (vr_id v) of None \<Rightarrow> ''confirmed'' | Some t \<Rightarrow> t), so_created_at = vr_created_at v\<rparr>"

text \<open>The versions of the student records that satisfy a condition, with their laboratory.\<close>

definition joined :: "(member_row \<Rightarrow> bool) \<Rightarrow> idb \<Rightarrow> (version_row \<times> member_row \<times> course_row) list" where
  "joined c s =
     concat (map (\<lambda>v. concat (map (\<lambda>m. map (\<lambda>l. (v, m, l)) (filter (\<lambda>l. la_id l = vr_lab_id v) (courses s)))
       (filter (\<lambda>m. sm_id m = vr_student_record_id v \<and> c m) (members (base s))))) (versions s))"

definition by_code_and_version :: "(string \<Rightarrow> string \<Rightarrow> bool) \<Rightarrow> version_row \<times> member_row \<times> course_row \<Rightarrow> version_row \<times> member_row \<times> course_row \<Rightarrow> bool" where
  "by_code_and_version collate = (\<lambda>(v, m, l) (v', m', l').
     collate (la_code l) (la_code l') \<or> \<not> collate (la_code l') (la_code l) \<and> vr_no v > vr_no v')"

definition by_login_code_and_version :: "(string \<Rightarrow> string \<Rightarrow> bool) \<Rightarrow> version_row \<times> member_row \<times> course_row \<Rightarrow> version_row \<times> member_row \<times> course_row \<Rightarrow> bool" where
  "by_login_code_and_version collate = (\<lambda>(v, m, l) (v', m', l').
     collate (sm_login m) (sm_login m')
   \<or> \<not> collate (sm_login m') (sm_login m) \<and> by_code_and_version collate (v, m, l) (v', m', l'))"

section \<open>Who may see what\<close>

definition canManage :: "adb \<Rightarrow> uuid \<Rightarrow> uuid \<Rightarrow> bool" where
  "canManage b actor groupID \<longleftrightarrow>
     list_ex (\<lambda>u. acc_id u = actor \<and> acc_status u = UserActive
       \<and> (acc_role u = Some Admin \<or> acc_role u = Some Teacher \<and> teaches b actor groupID)) (accounts b)"

definition canRead :: "adb \<Rightarrow> uuid \<Rightarrow> uuid \<Rightarrow> bool" where
  "canRead b actor groupID \<longleftrightarrow>
     list_ex (\<lambda>u. acc_id u = actor \<and> acc_status u = UserActive
       \<and> (acc_role u = Some Admin \<or> acc_role u = Some Teacher \<and> teaches b actor groupID
          \<or> acc_role u = Some Student \<and> list_ex (\<lambda>m. sm_group_id m = groupID \<and> sm_user_id m = Some actor) (members b))) (accounts b)"

definition active_student :: "adb \<Rightarrow> uuid \<Rightarrow> bool" where
  "active_student b actor \<longleftrightarrow>
     list_ex (\<lambda>u. acc_id u = actor \<and> acc_status u = UserActive \<and> acc_role u = Some Student) (accounts b)"

section \<open>Listing\<close>

definition StudentSubmissions ::
  "(string \<Rightarrow> string \<Rightarrow> bool) \<Rightarrow> (uuid \<Rightarrow> string option) \<Rightarrow> uuid \<Rightarrow> idb \<Rightarrow> Submission list result" where
  "StudentSubmissions collate newest actor s =
     Inr (if \<not> active_student (base s) actor then []
          else map (\<lambda>(v, m, l). submission_view newest (base s) v l)
            (slice_stable (by_code_and_version collate) (joined (\<lambda>m. sm_user_id m = Some actor) s)))"

definition SubmissionsByRecord ::
  "(string \<Rightarrow> string \<Rightarrow> bool) \<Rightarrow> (uuid \<Rightarrow> string option) \<Rightarrow> uuid \<Rightarrow> uuid \<Rightarrow> idb \<Rightarrow> Submission list result" where
  "SubmissionsByRecord collate newest actor student s =
     (if \<not> isAdmin (base s) actor then Inl ErrForbidden
      else
        Inr (map (\<lambda>(v, m, l). submission_view newest (base s) v l)
          (slice_stable (by_code_and_version collate)
            (joined (\<lambda>m. sm_id m = student \<and> list_ex (\<lambda>g. gr_id g = sm_group_id m \<and> gr_is_demo g) (groups (base s))) s))))"

definition GroupSubmissions ::
  "(string \<Rightarrow> string \<Rightarrow> bool) \<Rightarrow> (uuid \<Rightarrow> string option) \<Rightarrow> uuid \<Rightarrow> uuid \<Rightarrow> idb \<Rightarrow> GroupSubmission list result" where
  "GroupSubmissions collate newest actor groupID s =
     (if \<not> canManage (base s) actor groupID then Inl ErrForbidden
      else
        Inr (map (\<lambda>(v, m, l). \<lparr>gso_submission = submission_view newest (base s) v l, gso_student_record_id = sm_id m,
                               gso_github_login = sm_login m\<rparr>)
          (slice_stable (by_login_code_and_version collate) (joined (\<lambda>m. sm_group_id m = groupID) s))))"

definition ListGroups :: "(string \<Rightarrow> string \<Rightarrow> bool) \<Rightarrow> uuid \<Rightarrow> idb \<Rightarrow> Group list result" where
  "ListGroups collate actor s =
     Inr (map group_view (slice_stable (\<lambda>g h. collate (gr_code g) (gr_code h))
       (filter (\<lambda>g. canManage (base s) actor (gr_id g)) (groups (base s)))))"

definition GroupForAdminView :: "uuid \<Rightarrow> uuid \<Rightarrow> idb \<Rightarrow> Group list result" where
  "GroupForAdminView actor groupID s =
     (if \<not> isAdmin (base s) actor then Inl ErrForbidden
      else
        (case select_one (\<lambda>g. gr_id g = groupID) (groups (base s)) of
           None \<Rightarrow> Inl ErrForbidden
         | Some g \<Rightarrow> Inr [group_view g]))"

definition ListLabs :: "(string \<Rightarrow> string \<Rightarrow> bool) \<Rightarrow> uuid \<Rightarrow> uuid \<Rightarrow> idb \<Rightarrow> Lab list result" where
  "ListLabs collate actor groupID s =
     (if \<not> canRead (base s) actor groupID then Inl ErrForbidden
      else
        Inr (map lab_view (slice_stable (\<lambda>a b. collate (la_code a) (la_code b))
          (filter (\<lambda>l. la_group_id l = groupID) (courses s)))))"

section \<open>Creating\<close>

definition insert_group :: "(string \<Rightarrow> string) \<Rightarrow> group_row \<Rightarrow> idb \<Rightarrow> idb option" where
  "insert_group ci g s =
     (if group_check g \<and> groups_unique ci (groups (base s) @ [g])
      then Some (s\<lparr>base := (base s)\<lparr>groups := groups (base s) @ [g]\<rparr>\<rparr>) else None)"

definition course_check :: "course_row \<Rightarrow> bool" where
  "course_check l \<longleftrightarrow>
     1 \<le> rune_count (la_code l) \<and> rune_count (la_code l) \<le> 64 \<and> 1 \<le> rune_count (la_name l) \<and> rune_count (la_name l) \<le> 200"

definition insert_course :: "(string \<Rightarrow> string) \<Rightarrow> course_row \<Rightarrow> idb \<Rightarrow> idb option" where
  "insert_course ci l s =
     (if course_check l \<and> exists_id gr_id (la_group_id l) (groups (base s))
         \<and> unique_on (\<lambda>_. True) la_id (courses s @ [l])
         \<and> unique_on (\<lambda>_. True) (\<lambda>l. (la_group_id l, ci (la_code l))) (courses s @ [l])
      then Some (s\<lparr>courses := courses s @ [l]\<rparr>) else None)"

definition CreateGroup ::
  "(string \<Rightarrow> string) \<Rightarrow> (string \<Rightarrow> string) \<Rightarrow> time \<Rightarrow> uuid result \<Rightarrow> uuid \<Rightarrow> string \<Rightarrow> string \<Rightarrow> bool \<Rightarrow> idb \<Rightarrow> (idb \<times> Group) result" where
  "CreateGroup ul ci now newID actor code name demo s =
     (if active_role (base s) actor \<noteq> Some Admin then Inl ErrForbidden
      else
        bind_result newID (\<lambda>i.
          let g = \<lparr>gr_id = i, gr_organization_id = None, gr_code = to_lower ul code, gr_name = trim_space name, gr_is_demo = demo,
                   gr_archived_at = None, gr_updated_at = now, gr_version = 1\<rparr> in
          bind_result (statement (insert_group ci g s)) (\<lambda>s'. Inr (s', group_view g))))"

definition CreateLab ::
  "(string \<Rightarrow> string) \<Rightarrow> (string \<Rightarrow> string) \<Rightarrow> uuid result \<Rightarrow> uuid \<Rightarrow> uuid \<Rightarrow> string \<Rightarrow> string \<Rightarrow> idb \<Rightarrow> (idb \<times> Lab) result" where
  "CreateLab ul ci newID actor groupID code name s =
     (if \<not> canManage (base s) actor groupID then Inl ErrForbidden
      else
        bind_result newID (\<lambda>i.
          let l = \<lparr>la_id = i, la_group_id = groupID, la_code = to_lower ul code, la_name = trim_space name, la_active = True\<rparr> in
          bind_result (statement (insert_course ci l s)) (\<lambda>s'. Inr (s', lab_view l))))"


section \<open>Properties\<close>

lemma set_joined:
  "(v, m, l) \<in> set (joined c s) \<longleftrightarrow>
   v \<in> set (versions s) \<and> m \<in> set (members (base s)) \<and> l \<in> set (courses s)
   \<and> sm_id m = vr_student_record_id v \<and> c m \<and> la_id l = vr_lab_id v"
  by (auto simp: joined_def)

lemma joined_versions:
  assumes "\<And>v. v \<in> set (versions s) \<Longrightarrow> exists_id la_id (vr_lab_id v) (courses s)"
  shows "(\<lambda>(v, m, l). vr_id v) ` set (joined c s) =
    {vr_id v |v m. v \<in> set (versions s) \<and> m \<in> set (members (base s)) \<and> sm_id m = vr_student_record_id v \<and> c m}"
proof (intro set_eqI iffI)
  fix i
  assume "i \<in> {vr_id v |v m. v \<in> set (versions s) \<and> m \<in> set (members (base s)) \<and> sm_id m = vr_student_record_id v \<and> c m}"
  then obtain v m where v: "i = vr_id v" "v \<in> set (versions s)" "m \<in> set (members (base s))" "sm_id m = vr_student_record_id v" "c m"
    by blast
  from assms [OF v(2)] obtain l where "l \<in> set (courses s)" "la_id l = vr_lab_id v" by (auto simp: exists_id_def list_ex_iff)
  with v have "(v, m, l) \<in> set (joined c s)" by (simp add: set_joined)
  then show "i \<in> (\<lambda>(v, m, l). vr_id v) ` set (joined c s)" using v(1) by force
qed (force simp: set_joined)

lemma student_listing:
  assumes "\<And>v. v \<in> set (versions s) \<Longrightarrow> exists_id la_id (vr_lab_id v) (courses s)" and "active_student (base s) actor"
  shows "\<exists>out. StudentSubmissions collate newest actor s = Inr out \<and>
    so_id ` set out = {vr_id v |v m. v \<in> set (versions s) \<and> m \<in> set (members (base s)) \<and> sm_id m = vr_student_record_id v
                                     \<and> sm_user_id m = Some actor}"
  using assms(2) joined_versions [OF assms(1), of "\<lambda>m. sm_user_id m = Some actor"]
  by (auto simp: StudentSubmissions_def image_image case_prod_unfold submission_view_def)

lemma group_listing:
  assumes "\<And>v. v \<in> set (versions s) \<Longrightarrow> exists_id la_id (vr_lab_id v) (courses s)" and "canManage (base s) actor groupID"
  shows "\<exists>out. GroupSubmissions collate newest actor groupID s = Inr out \<and>
    (\<lambda>x. so_id (gso_submission x)) ` set out =
      {vr_id v |v m. v \<in> set (versions s) \<and> m \<in> set (members (base s)) \<and> sm_id m = vr_student_record_id v \<and> sm_group_id m = groupID}"
  using assms(2) joined_versions [OF assms(1), of "\<lambda>m. sm_group_id m = groupID"]
  by (auto simp: GroupSubmissions_def image_image case_prod_unfold submission_view_def)

lemma imp_done_labs: "list_all (\<lambda>v. exists_id la_id (vr_lab_id v) (courses imp_done)) (versions imp_done)"
  by code_simp

lemma imp_done_ann: "active_student (base imp_done) ''ann''"
  by code_simp

lemma imp_done_listed:
  "list_ex (\<lambda>v. vr_id v = ''v1'' \<and> list_ex (\<lambda>m. sm_id m = vr_student_record_id v \<and> sm_user_id m = Some ''ann'') (members (base imp_done)))
     (versions imp_done)"
  by code_simp

text \<open>
  The lists of submissions are complete and confined.  A student lists exactly the versions of the
  records that are his; a teacher of a group or an administrator lists exactly the versions of the
  records of the group, and everybody else is refused.  It rests on the foreign key of versions to
  laboratories.
\<close>

theorem submissions_exact:
  assumes "list_all (\<lambda>v. exists_id la_id (vr_lab_id v) (courses s)) (versions s)"
  shows "(active_student (base s) actor \<longrightarrow> (\<exists>out. StudentSubmissions collate newest actor s = Inr out \<and>
            so_id ` set out = {vr_id v |v m. v \<in> set (versions s) \<and> m \<in> set (members (base s))
                                             \<and> sm_id m = vr_student_record_id v \<and> sm_user_id m = Some actor}))
       \<and> (\<not> active_student (base s) actor \<longrightarrow> StudentSubmissions collate newest actor s = Inr [])
       \<and> (canManage (base s) actor groupID \<longrightarrow> (\<exists>out. GroupSubmissions collate newest actor groupID s = Inr out \<and>
            (\<lambda>x. so_id (gso_submission x)) ` set out =
              {vr_id v |v m. v \<in> set (versions s) \<and> m \<in> set (members (base s))
                             \<and> sm_id m = vr_student_record_id v \<and> sm_group_id m = groupID}))
       \<and> (\<not> canManage (base s) actor groupID \<longrightarrow> GroupSubmissions collate newest actor groupID s = Inl ErrForbidden)"
proof -
  have fk: "exists_id la_id (vr_lab_id v) (courses s)" if "v \<in> set (versions s)" for v
    using assms that by (simp add: list_all_iff)
  show ?thesis
    using student_listing [OF fk, of actor collate newest] group_listing [OF fk, of actor groupID collate newest]
      StudentSubmissions_def [of collate newest actor s] GroupSubmissions_def [of collate newest actor groupID s]
    by (cases "active_student (base s) actor"; cases "canManage (base s) actor groupID") simp_all
qed

theorem submissions_exact_witness:
  "\<exists>out. StudentSubmissions (\<lambda>a b. False) (\<lambda>_. None) ''ann'' imp_done = Inr out \<and> ''v1'' \<in> so_id ` set out"
proof -
  let ?S = "{vr_id v |v m. v \<in> set (versions imp_done) \<and> m \<in> set (members (base imp_done))
      \<and> sm_id m = vr_student_record_id v \<and> sm_user_id m = Some ''ann''}"
  obtain v m where "vr_id v = ''v1''" "v \<in> set (versions imp_done)" "m \<in> set (members (base imp_done))"
      "sm_id m = vr_student_record_id v" "sm_user_id m = Some ''ann''"
    using imp_done_listed unfolding list_ex_iff by blast
  then have listed: "''v1'' \<in> ?S" by (intro CollectI exI [of _ v] exI [of _ m]) simp
  have "active_student (base imp_done) ''ann'' \<longrightarrow>
      (\<exists>out. StudentSubmissions (\<lambda>a b. False) (\<lambda>_. None) ''ann'' imp_done = Inr out \<and> so_id ` set out = ?S)"
    using submissions_exact [OF imp_done_labs] by (rule conjunct1)
  with imp_done_ann obtain out where "StudentSubmissions (\<lambda>a b. False) (\<lambda>_. None) ''ann'' imp_done = Inr out" "so_id ` set out = ?S" by blast
  with listed show ?thesis by blast
qed

end
