(* ===== verification/Audit_Log.thy ===== *)
theory Audit_Log
  imports Account_Schema Go_Crypto
begin

text \<open>
  The audit log: \<open>application/audit/service.go\<close> and \<open>infrastructure/postgres/audit.go\<close>.  Every event is
  appended under one advisory lock with a digest over the digest of its predecessor and a text of
  its own fields.

  Times of events are nanoseconds, the resolution of Go's clock; the table keeps microseconds.
  \<open>marshal\<close> is \<open>json.Marshal\<close> on the metadata.  The table is append-only by trigger, so that the only
  statement on it is \<open>insert\<close>.
\<close>

section \<open>Events\<close>

datatype json_value = JString string | JInt int

record Event =
  ev_occurred_at :: "int option"
  ev_actor_id :: "uuid option"
  ev_actor_kind :: string
  ev_action :: string
  ev_target_type :: string
  ev_target_id :: "uuid option"
  ev_request_id :: string
  ev_reason :: "string option"
  ev_metadata :: "(string \<times> json_value) list"

record audit_row =
  au_seq :: int
  au_id :: uuid
  au_occurred_at :: time
  au_actor_id :: "uuid option"
  au_actor_kind :: string
  au_action :: string
  au_target_type :: string
  au_target_id :: "uuid option"
  au_request_id :: string
  au_reason :: "string option"
  au_metadata :: bytes
  au_prev :: "bytes option"
  au_hash :: bytes

section \<open>Time as text\<close>

text \<open>
  \<open>Format\<close> with the layout of RFC 3339 and nanoseconds, in UTC: the civil date of a day is computed in
  the calendar of years that begin in March.
\<close>

definition civil :: "int \<Rightarrow> int \<times> int \<times> int" where
  "civil days =
     (let z = days + 719468; era = z div 146097; doe = z mod 146097;
          yoe = (doe - doe div 1460 + doe div 36524 - doe div 146096) div 365;
          doy = doe - (365 * yoe + yoe div 4 - yoe div 100); mp = (5 * doy + 2) div 153;
          d = doy - (153 * mp + 2) div 5 + 1; m = (if mp < 10 then mp + 3 else mp - 9) in
      (yoe + era * 400 + (if m \<le> 2 then 1 else 0), m, d))"

definition padded :: "nat \<Rightarrow> int \<Rightarrow> string" where
  "padded width n = (let s = decimal (nat n) in replicate (width - length s) (CHR ''0'') @ s)"

definition fraction :: "int \<Rightarrow> string" where
  "fraction nanos = (if nanos = 0 then '''' else CHR ''.'' # rev (dropWhile (\<lambda>c. c = CHR ''0'') (rev (padded 9 nanos))))"

definition format_time :: "int \<Rightarrow> string" where
  "format_time t =
     (let secs = t div 1000000000; (y, m, d) = civil (secs div 86400); r = secs mod 86400 in
      padded 4 y @ ''-'' @ padded 2 m @ ''-'' @ padded 2 d @ ''T'' @ padded 2 (r div 3600) @ '':'' @ padded 2 (r div 60 mod 60) @ '':''
      @ padded 2 (r mod 60) @ fraction (t mod 1000000000) @ ''Z'')"

section \<open>Appending\<close>

definition event_text :: "((string \<times> json_value) list \<Rightarrow> bytes) \<Rightarrow> int \<Rightarrow> Event \<Rightarrow> string list" where
  "event_text marshalled t ev =
     [format_time t, ev_actor_kind ev, ev_action ev, ev_target_type ev, ev_request_id ev, marshalled (ev_metadata ev)]"

definition audit_payload :: "((string \<times> json_value) list \<Rightarrow> bytes) \<Rightarrow> bytes \<Rightarrow> int \<Rightarrow> Event \<Rightarrow> bytes" where
  "audit_payload marshalled previous t ev = join_byte (CHR ''|'') (hex_encode previous # event_text marshalled t ev)"

definition audit_kinds :: "string list" where
  "audit_kinds = [''user'', ''runner'', ''system'']"

definition audit_check :: "audit_row \<Rightarrow> bool" where
  "audit_check r \<longleftrightarrow>
     (case au_prev r of None \<Rightarrow> True | Some h \<Rightarrow> length h = 32) \<and> length (au_hash r) = 32
   \<and> List.member audit_kinds (au_actor_kind r) \<and> ((au_actor_kind r = ''user'') = (au_actor_id r \<noteq> None))"

definition insert_audit :: "adb \<Rightarrow> audit_row \<Rightarrow> audit_row list \<Rightarrow> audit_row list option" where
  "insert_audit s r rows =
     (if audit_check r \<and> references acc_id (au_actor_id r) (accounts s)
         \<and> unique_on (\<lambda>_. True) au_seq (rows @ [r]) \<and> unique_on (\<lambda>_. True) au_id (rows @ [r]) \<and> unique_on (\<lambda>_. True) au_hash (rows @ [r])
      then Some (rows @ [r]) else None)"

text \<open>
  \<open>Append\<close>: \<open>gap\<close> is what earlier failed insertions took from the identity of the table, which never
  gives a number twice and gives them in order under the lock.
\<close>

definition previous_hash :: "audit_row list \<Rightarrow> bytes" where
  "previous_hash rows = (case slice_stable (\<lambda>a b. au_seq a > au_seq b) rows of [] \<Rightarrow> '''' | r # _ \<Rightarrow> au_hash r)"

definition nullableBytes :: "bytes \<Rightarrow> bytes option" where
  "nullableBytes value = (if length value = 0 then None else Some value)"

definition new_audit_row :: "((string \<times> json_value) list \<Rightarrow> bytes) \<Rightarrow> uuid \<Rightarrow> nat \<Rightarrow> int \<Rightarrow> Event \<Rightarrow> audit_row list \<Rightarrow> audit_row" where
  "new_audit_row marshalled i gap t ev rows =
     (let previous = previous_hash rows in
      \<lparr>au_seq = fold max (map au_seq rows) 0 + 1 + int gap, au_id = i, au_occurred_at = t div 1000, au_actor_id = ev_actor_id ev,
       au_actor_kind = ev_actor_kind ev, au_action = ev_action ev, au_target_type = ev_target_type ev, au_target_id = ev_target_id ev,
       au_request_id = ev_request_id ev, au_reason = ev_reason ev, au_metadata = marshalled (ev_metadata ev),
       au_prev = nullableBytes previous, au_hash = sha256 (audit_payload marshalled previous t ev)\<rparr>)"

definition Append ::
  "((string \<times> json_value) list \<Rightarrow> bytes) \<Rightarrow> adb \<Rightarrow> uuid result \<Rightarrow> nat \<Rightarrow> int \<Rightarrow> Event \<Rightarrow> audit_row list \<Rightarrow> audit_row list result" where
  "Append marshalled s newID gap t ev rows =
     bind_result newID (\<lambda>i. statement (insert_audit s (new_audit_row marshalled i gap t ev rows) rows))"

definition Record ::
  "((string \<times> json_value) list \<Rightarrow> bytes) \<Rightarrow> adb \<Rightarrow> uuid result \<Rightarrow> nat \<Rightarrow> int \<Rightarrow> Event \<Rightarrow> audit_row list \<Rightarrow> audit_row list result" where
  "Record marshalled s newID gap now ev rows =
     (if ev_action ev = '''' \<or> ev_actor_kind ev = '''' \<or> ev_target_type ev = '''' \<or> ev_request_id ev = ''''
      then Inl (ErrText ''incomplete audit event'')
      else Append marshalled s newID gap (case ev_occurred_at ev of None \<Rightarrow> now | Some t \<Rightarrow> t) ev rows)"


section \<open>The chain\<close>

text \<open>A history of calls of \<open>Record\<close>, all of them successful.\<close>

type_synonym audit_call = "uuid result \<times> nat \<times> int \<times> Event"

fun record_all ::
  "((string \<times> json_value) list \<Rightarrow> bytes) \<Rightarrow> adb \<Rightarrow> audit_call list \<Rightarrow> audit_row list \<Rightarrow> audit_row list result" where
  "record_all m s [] rows = Inr rows"
| "record_all m s ((newID, gap, now, ev) # calls) rows = bind_result (Record m s newID gap now ev rows) (record_all m s calls)"

definition event_time :: "int \<Rightarrow> Event \<Rightarrow> int" where
  "event_time now ev = (case ev_occurred_at ev of None \<Rightarrow> now | Some t \<Rightarrow> t)"

definition hashed_fields :: "((string \<times> json_value) list \<Rightarrow> bytes) \<Rightarrow> audit_call \<Rightarrow> string list" where
  "hashed_fields m = (\<lambda>(newID, gap, now, ev). event_text m (event_time now ev) ev)"

definition chain_payload :: "bytes \<Rightarrow> string list \<Rightarrow> bytes" where
  "chain_payload previous texts = join_byte (CHR ''|'') (hex_encode previous # texts)"

text \<open>The texts that are hashed in a history, and the digest at its end, from the fields alone.\<close>

fun chain_payloads :: "bytes \<Rightarrow> string list list \<Rightarrow> bytes list" where
  "chain_payloads previous [] = []"
| "chain_payloads previous (f # fs) = chain_payload previous f # chain_payloads (sha256 (chain_payload previous f)) fs"

definition chain_end :: "bytes \<Rightarrow> string list list \<Rightarrow> bytes" where
  "chain_end previous fs = fold (\<lambda>f h. sha256 (chain_payload h f)) fs previous"

lemma chain_payloads_snoc [simp]:
  "chain_payloads h (fs @ [f]) = chain_payloads h fs @ [chain_payload (chain_end h fs) f]"
  by (induction fs arbitrary: h) (simp_all add: chain_end_def)

lemma chain_end_snoc [simp]: "chain_end h (fs @ [f]) = sha256 (chain_payload (chain_end h fs) f)"
  by (simp add: chain_end_def)

lemma length_chain_end: "length (chain_end '''' fs) = (if fs = [] then 0 else 32)"
  by (cases fs rule: rev_cases) (simp_all add: chain_end_def length_sha256)

subsection \<open>The rows\<close>

definition seq_ordered :: "audit_row list \<Rightarrow> bool" where
  "seq_ordered rows \<longleftrightarrow> sorted_wrt (<) (map au_seq rows)"

interpretation latest_first: weak_order "\<lambda>a b :: audit_row. au_seq a > au_seq b"
  by unfold_locales auto

lemma previous_hash_last:
  assumes "seq_ordered rows"
  shows "previous_hash rows = (if rows = [] then '''' else au_hash (last rows))"
proof (cases rows rule: rev_cases)
  case Nil
  then show ?thesis by (simp add: previous_hash_def slice_stable_def)
next
  case (snoc rs l)
  let ?sorted = "slice_stable (\<lambda>a b. au_seq a > au_seq b) rows"
  obtain r rest where r: "?sorted = r # rest"
    using snoc by (metis length_slice_stable length_0_conv list.exhaust snoc_eq_iff_butlast)
  have "r \<in> set rows" and l: "l \<in> set ?sorted"
    using r snoc by (metis list.set_intros(1) set_slice_stable) (simp add: snoc)
  moreover have "\<not> au_seq l > au_seq r"
    using latest_first.slice_stable_ordered [of rows] l unfolding r by auto
  ultimately have "r = l"
    using assms snoc by (auto simp: seq_ordered_def sorted_wrt_append)
  then show ?thesis using r snoc by (simp add: previous_hash_def)
qed

lemma new_seq_above:
  "r \<in> set rows \<Longrightarrow> au_seq r < au_seq (new_audit_row m i gap t ev rows)"
proof -
  assume "r \<in> set rows"
  then have "au_seq r \<le> fold max (map au_seq rows) 0"
    unfolding Max.set_eq_fold [symmetric] by simp
  then show ?thesis by (simp add: new_audit_row_def Let_def)
qed

text \<open>What \<open>Record\<close> adds: one row, behind the last, with the digest over the last.\<close>

lemma Record_ok:
  assumes "Record m s newID gap now ev rows = Inr rows'"
  obtains i where "newID = Inr i" and "rows' = rows @ [new_audit_row m i gap (event_time now ev) ev rows]"
    and "audit_check (new_audit_row m i gap (event_time now ev) ev rows)"
  using assms
  by (auto simp: Record_def Append_def event_time_def bind_result_def statement_def insert_audit_def
      split: if_splits sum.splits option.splits)

lemma Record_ordered:
  assumes "Record m s newID gap now ev rows = Inr rows'" and "seq_ordered rows"
  shows "seq_ordered rows'"
  using assms(1)
proof (rule Record_ok)
  fix i
  assume "rows' = rows @ [new_audit_row m i gap (event_time now ev) ev rows]"
  then show ?thesis
    using assms(2) by (auto simp: seq_ordered_def sorted_wrt_append intro: new_seq_above)
qed

lemma Record_hash:
  assumes "Record m s newID gap now ev rows = Inr rows'" and "seq_ordered rows"
  shows "previous_hash rows' = sha256 (chain_payload (previous_hash rows) (hashed_fields m (newID, gap, now, ev)))"
  using assms(1)
proof (rule Record_ok)
  fix i
  assume r: "rows' = rows @ [new_audit_row m i gap (event_time now ev) ev rows]"
  have "previous_hash rows' = au_hash (new_audit_row m i gap (event_time now ev) ev rows)"
    using previous_hash_last [OF Record_ordered [OF assms]] r by simp
  then show ?thesis
    by (simp add: new_audit_row_def Let_def audit_payload_def chain_payload_def hashed_fields_def)
qed

lemma record_all_end:
  assumes "record_all m s calls rows = Inr rows'" and "seq_ordered rows"
  shows "previous_hash rows' = chain_end (previous_hash rows) (map (hashed_fields m) calls)"
  using assms
proof (induction calls arbitrary: rows)
  case Nil
  then show ?case by (simp add: chain_end_def)
next
  case (Cons c calls)
  obtain newID gap now ev where c: "c = (newID, gap, now, ev)" by (cases c)
  obtain mid where mid: "Record m s newID gap now ev rows = Inr mid" and rest: "record_all m s calls mid = Inr rows'"
    using Cons.prems(1) unfolding c by (auto simp: bind_result_def split: sum.splits)
  show ?case
    using Cons.IH [OF rest Record_ordered [OF mid Cons.prems(2)]] Record_hash [OF mid Cons.prems(2)]
    by (simp add: chain_end_def c)
qed


subsection \<open>Reading the payload back\<close>

lemma decimal_no_bar: "CHR ''|'' \<notin> set (decimal n)"
proof (induction n rule: decimal.induct)
  case (1 n)
  have "CHR ''|'' \<noteq> char_of (48 + d)" if "d < 10" for d :: nat
  proof
    assume "CHR ''|'' = char_of (48 + d)"
    then have "of_char (CHR ''|'') = (of_char (char_of (48 + d) :: char) :: nat)" by simp
    then show False using that by (simp add: of_char_of)
  qed
  then have "n < 10 \<Longrightarrow> CHR ''|'' \<noteq> char_of (48 + n)" and "CHR ''|'' \<noteq> char_of (48 + n mod 10)" by simp_all
  then show ?case using 1 by (subst decimal.simps) auto
qed

lemma format_time_no_bar: "CHR ''|'' \<notin> set (format_time t)"
proof -
  have padded: "CHR ''|'' \<notin> set (padded w n)" for w n
    by (simp add: padded_def Let_def decimal_no_bar)
  then have "CHR ''|'' \<notin> set (fraction n)" for n
    by (auto simp: fraction_def dest!: set_dropWhileD)
  with padded show ?thesis by (simp add: format_time_def Let_def split: prod.split)
qed

lemma hex_encode_no_bar: "CHR ''|'' \<notin> set (hex_encode b)"
  using lower_hex_encode [of b] by (auto simp: list_all_iff lower_hex_def)

lemma hex_encode_inject: "hex_encode a = hex_encode b \<longleftrightarrow> a = b"
  by (metis hex_decode_encode option.inject)

lemma cut_at_bar:
  assumes "x @ c # ps = y @ c # qs" and "c \<notin> set x" and "c \<notin> set y"
  shows "x = y \<and> ps = qs"
  using assms by (induction x arbitrary: y) (auto simp: Cons_eq_append_conv)

text \<open>The fields but the last are free of the separator.\<close>

definition plain_fields :: "string list \<Rightarrow> bool" where
  "plain_fields fs \<longleftrightarrow> fs \<noteq> [] \<and> list_all (\<lambda>f. CHR ''|'' \<notin> set f) (butlast fs)"

lemma join_fields_inject:
  assumes "join_byte (CHR ''|'') fs = join_byte (CHR ''|'') gs"
    and "plain_fields fs" and "plain_fields gs" and "length fs = length gs"
  shows "fs = gs"
  using assms
proof (induction fs arbitrary: gs)
  case Nil
  then show ?case by (simp add: plain_fields_def)
next
  case (Cons f fs)
  obtain g gs' where g: "gs = g # gs'" using Cons.prems by (cases gs) auto
  show ?case
  proof (cases fs)
    case Nil
    with Cons.prems g show ?thesis by simp
  next
    case (Cons f2 fs')
    then obtain g2 gs2 where g2: "gs' = g2 # gs2" using Cons.prems(4) g by (cases gs') auto
    have "f = g \<and> join_byte (CHR ''|'') fs = join_byte (CHR ''|'') gs'"
      using Cons.prems Cons g g2 by (intro cut_at_bar) (auto simp: plain_fields_def)
    then show ?thesis
      using Cons.IH [of gs'] Cons.prems Cons g g2 by (simp add: plain_fields_def)
  qed
qed

lemma chain_payload_inject:
  assumes "chain_payload a fs = chain_payload b gs"
    and "plain_fields fs" and "plain_fields gs" and "length fs = length gs"
  shows "a = b \<and> fs = gs"
proof -
  have "plain_fields (hex_encode a # fs)" and "plain_fields (hex_encode b # gs)"
    using assms(2,3) by (simp_all add: plain_fields_def hex_encode_no_bar)
  then have "hex_encode a # fs = hex_encode b # gs"
    using join_fields_inject assms(1,4) unfolding chain_payload_def by (metis length_Cons)
  then show ?thesis by (simp add: hex_encode_inject)
qed

lemma chain_end_inject:
  assumes "chain_end '''' fs = chain_end '''' gs"
    and "inj_on sha256 (set (chain_payloads '''' fs) \<union> set (chain_payloads '''' gs))"
    and "list_all plain_fields fs" and "list_all plain_fields gs"
    and "list_all (\<lambda>f. length f = n) fs" and "list_all (\<lambda>f. length f = n) gs"
  shows "fs = gs"
  using assms
proof (induction fs arbitrary: gs rule: rev_induct)
  case Nil
  then show ?case using length_chain_end [of gs] by (simp add: chain_end_def split: if_splits)
next
  case (snoc f fs)
  have "gs \<noteq> []"
    using snoc.prems(1) length_chain_end [of gs] length_sha256 [of "chain_payload (chain_end '''' fs) f"] by auto
  then obtain hs g where g: "gs = hs @ [g]" by (metis rev_exhaust)
  let ?p = "chain_payload (chain_end '''' fs) f" and ?q = "chain_payload (chain_end '''' hs) g"
  have "sha256 ?p = sha256 ?q" using snoc.prems(1) by (simp only: g chain_end_snoc)
  moreover have "?p \<in> set (chain_payloads '''' (fs @ [f]))" and "?q \<in> set (chain_payloads '''' gs)"
    unfolding g chain_payloads_snoc by simp_all
  ultimately have "?p = ?q" using inj_onD [OF snoc.prems(2)] by blast
  then have "chain_end '''' fs = chain_end '''' hs \<and> f = g"
    using snoc.prems unfolding g by (intro chain_payload_inject) simp_all
  moreover have "inj_on sha256 (set (chain_payloads '''' fs) \<union> set (chain_payloads '''' hs))"
    using snoc.prems(2) unfolding g by (rule inj_on_subset) auto
  ultimately show ?case using snoc unfolding g by simp
qed


section \<open>Properties\<close>

text \<open>Every row names the digest of the row before it, and the numbers of the rows increase.\<close>

fun linked :: "bytes \<Rightarrow> audit_row list \<Rightarrow> bool" where
  "linked previous [] = True"
| "linked previous (r # rs) \<longleftrightarrow> au_prev r = nullableBytes previous \<and> linked (au_hash r) rs"

lemma linked_snoc:
  "linked h (rs @ [r]) \<longleftrightarrow> linked h rs \<and> au_prev r = nullableBytes (if rs = [] then h else au_hash (last rs))"
  by (induction rs arbitrary: h) auto

lemma Record_linked:
  assumes "Record m s newID gap now ev rows = Inr rows'" and "seq_ordered rows" and "linked '''' rows"
  shows "linked '''' rows'"
  using assms(1)
proof (rule Record_ok)
  fix i
  assume "rows' = rows @ [new_audit_row m i gap (event_time now ev) ev rows]"
  then show ?thesis
    using assms(3) previous_hash_last [OF assms(2)] by (simp add: linked_snoc new_audit_row_def Let_def)
qed

lemma record_all_linked:
  "record_all m s calls rows = Inr rows' \<Longrightarrow> seq_ordered rows \<Longrightarrow> linked '''' rows \<Longrightarrow>
   seq_ordered rows' \<and> linked '''' rows' \<and> (\<exists>new. rows' = rows @ new \<and> length new = length calls)"
proof (induction calls arbitrary: rows)
  case Nil
  then show ?case by simp
next
  case (Cons c calls)
  obtain newID gap now ev where c: "c = (newID, gap, now, ev)" by (cases c)
  obtain mid where mid: "Record m s newID gap now ev rows = Inr mid" and rest: "record_all m s calls mid = Inr rows'"
    using Cons.prems(1) unfolding c by (auto simp: bind_result_def split: sum.splits)
  obtain r where "mid = rows @ [r]" using mid by (rule Record_ok)
  moreover have "seq_ordered mid" and "linked '''' mid"
    using Record_ordered [OF mid Cons.prems(2)] Record_linked [OF mid Cons.prems(2,3)] by simp_all
  ultimately show ?case using Cons.IH [OF rest] by auto
qed

text \<open>A history of the log used by the witnesses of this section.\<close>

definition no_accounts :: adb where
  "no_accounts = \<lparr>accounts = [], identities = [], legacy_identities = [], flows = [], sessions = [], organizations = [],
     groups = [], teachers = [], members = [], idempotency = []\<rparr>"

definition ex_marshal :: "(string \<times> json_value) list \<Rightarrow> bytes" where
  "ex_marshal kvs = ''{}''"

definition ex_event :: Event where
  "ex_event = \<lparr>ev_occurred_at = Some 1700000000123000000, ev_actor_id = None, ev_actor_kind = ''system'', ev_action = ''backup'',
     ev_target_type = ''database'', ev_target_id = None, ev_request_id = ''01890a5d-ac96-774b-bcce-b302099a8057'',
     ev_reason = None, ev_metadata = []\<rparr>"

definition ex_calls :: "string \<Rightarrow> audit_call list" where
  "ex_calls i = [(Inr i, 0, 0, ex_event)]"

lemma civil_example: "civil 19675 = (2023, 11, 14)"
  by code_simp

lemma ex_row_checked: "audit_check (new_audit_row ex_marshal i 0 t ex_event [])"
proof -
  have "ev_actor_kind ex_event = ''system''" and "ev_actor_id ex_event = None" by (simp_all add: ex_event_def)
  moreover have "List.member audit_kinds ''system''" by (simp add: audit_kinds_def)
  moreover have "previous_hash [] = ''''" by (simp add: previous_hash_def slice_stable_def)
  ultimately show ?thesis
    by (simp add: audit_check_def new_audit_row_def Let_def nullableBytes_def length_sha256)
qed

lemma ex_calls_recorded:
  "record_all ex_marshal no_accounts (ex_calls i) [] = Inr [new_audit_row ex_marshal i 0 1700000000123000000 ex_event []]"
proof -
  have "insert_audit no_accounts (new_audit_row ex_marshal i 0 t ex_event []) [] = Some [new_audit_row ex_marshal i 0 t ex_event []]" for t
    unfolding insert_audit_def using ex_row_checked
    by (simp add: unique_on_def references_def new_audit_row_def Let_def ex_event_def)
  then show ?thesis
    by (simp add: ex_calls_def Record_def Append_def bind_result_def statement_def) (simp add: ex_event_def)
qed

text \<open>
  the log is a chain.  Any number of successful calls of \<open>Record\<close> on the empty log leaves exactly
  one row per call, with increasing numbers, each naming the digest of the row before it and the
  first naming none.
\<close>

theorem audit_chain:
  assumes "record_all marshalled s calls [] = Inr rows"
  shows "length rows = length calls \<and> seq_ordered rows \<and> linked '''' rows"
  using record_all_linked [OF assms] by (simp add: seq_ordered_def)

theorem audit_chain_witness:
  "\<exists>rows. record_all ex_marshal no_accounts (ex_calls ''e'') [] = Inr rows \<and> length rows = 1 \<and> linked '''' rows"
  using audit_chain [OF ex_calls_recorded [of "''e''"]] ex_calls_recorded [of "''e''"] by (auto simp: ex_calls_def)

definition separable :: "audit_call \<Rightarrow> bool" where
  "separable = (\<lambda>(newID, gap, now, ev).
     list_all (\<lambda>f. CHR ''|'' \<notin> set f) [ev_actor_kind ev, ev_action ev, ev_target_type ev, ev_request_id ev])"

lemma separable_plain: "separable c \<Longrightarrow> plain_fields (hashed_fields m c) \<and> length (hashed_fields m c) = 6"
  by (cases c) (simp add: separable_def plain_fields_def hashed_fields_def event_text_def format_time_no_bar)

text \<open>
  C26: the last digest determines the history.  Two logs with the same last digest record the same
  number of calls with the same time, kind of actor, action, kind of target, request and metadata,
  call by call, unless two of the texts hashed in them collide under SHA-256.  The action, the kind
  of the target and the request must be free of the separator \<open>|\<close> of the payload, as the constants
  and identifiers the callers pass are.
\<close>

theorem audit_end_determines_history:
  assumes "record_all marshalled s1 calls1 [] = Inr rows1" and "record_all marshalled s2 calls2 [] = Inr rows2"
    and "list_all separable (calls1 @ calls2)"
    and "inj_on sha256 (set (chain_payloads '''' (map (hashed_fields marshalled) calls1))
                        \<union> set (chain_payloads '''' (map (hashed_fields marshalled) calls2)))"
    and "previous_hash rows1 = previous_hash rows2"
  shows "map (hashed_fields marshalled) calls1 = map (hashed_fields marshalled) calls2"
proof (rule chain_end_inject [where n = 6])
  have "seq_ordered []" and "previous_hash [] = ''''" by (simp_all add: seq_ordered_def previous_hash_last)
  then show "chain_end '''' (map (hashed_fields marshalled) calls1) = chain_end '''' (map (hashed_fields marshalled) calls2)"
    using record_all_end [OF assms(1)] record_all_end [OF assms(2)] assms(5) by simp
qed (use assms(3,4) separable_plain in \<open>auto simp: list_all_iff\<close>)

theorem audit_end_determines_history_witness:
  "\<exists>rows1 rows2. record_all ex_marshal no_accounts (ex_calls ''e'') [] = Inr rows1
     \<and> record_all ex_marshal no_accounts (ex_calls ''f'') [] = Inr rows2 \<and> previous_hash rows1 = previous_hash rows2
     \<and> map (hashed_fields ex_marshal) (ex_calls ''e'') = map (hashed_fields ex_marshal) (ex_calls ''f'')"
proof -
  have "previous_hash [new_audit_row ex_marshal ''e'' 0 1700000000123000000 ex_event []] =
        previous_hash [new_audit_row ex_marshal ''f'' 0 1700000000123000000 ex_event []]"
    by (simp add: previous_hash_def slice_stable_def new_audit_row_def Let_def)
  then show ?thesis
    using ex_calls_recorded [of "''e''"] ex_calls_recorded [of "''f''"]
      audit_end_determines_history [OF ex_calls_recorded [of "''e''"] ex_calls_recorded [of "''f''"]]
    by (auto simp: ex_calls_def separable_def ex_event_def hashed_fields_def event_text_def)
qed

text \<open>The digest does not cover the person who acted, the target and the reason.\<close>

lemma audit_hash_omits:
  "au_hash (new_audit_row m i gap t (ev\<lparr>ev_actor_id := a, ev_target_id := b, ev_reason := c\<rparr>) rows) =
   au_hash (new_audit_row m j gap' t ev rows)"
  by (simp add: new_audit_row_def Let_def audit_payload_def event_text_def)

end
