(* ===== verification/Http.thy ===== *)
theory Http
  imports Catalog Audit_Log
begin

text \<open>
  The HTTP interface to accounts, rosters and the catalogue:
  \<open>transport/httpapi/{middleware,server,auth,admin,catalog}.go\<close>.

  A handler takes the request, what happens around it (readings of the clocks, fresh identifiers,
  random bytes) and the site, which is the database and the audit log, and returns the new site and
  the response.  The titles of problems, the texts of the wire format and the headers that do not
  depend on the request are left out.  A JSON decoder is a parameter: it takes the bytes that
  \<open>MaxBytesReader\<close> lets through and whether there were more, and gives the decoded structure, if
  there is one.  An identifier in a path or a body that is no UUID is one that names no row.
\<close>

section \<open>Requests and responses\<close>

record Request =
  rq_header :: "string \<Rightarrow> string"
  rq_cookie :: "string \<Rightarrow> string option"
  rq_path :: "string \<Rightarrow> string"
  rq_query :: "string \<Rightarrow> string"
  rq_body :: bytes
  rq_id :: string

record Cookie =
  ck_name :: string
  ck_value :: string
  ck_max_age :: int
  ck_http_only :: bool
  ck_secure :: bool

record identityResponse =
  idr_provider :: string
  idr_subject :: string
  idr_login :: string
  idr_verified_at :: time

datatype view_mode = ViewMode string "string option" "string option"

record userResponse =
  ur_id :: uuid
  ur_status :: user_status
  ur_role :: "user_role option"
  ur_display_name :: "string option"
  ur_identities :: "identityResponse list"
  ur_created_at :: time
  ur_view_as :: "view_mode option"

record PendingLink =
  pl_user_id :: uuid
  pl_display_name :: "string option"
  pl_github_login :: string
  pl_student_record_id :: "uuid option"
  pl_group_id :: "uuid option"
  pl_group_code :: "string option"

record appPage =
  pg_user :: User
  pg_role :: string
  pg_viewing :: bool
  pg_groups :: "Group list"
  pg_submissions :: "Submission list"

datatype body =
    NoBody
  | ProblemBody (problem_code: string) (problem_request: string)
  | UserBody userResponse
  | ManagedBody ManagedUser
  | UsersBody "ManagedUser list"
  | LinksBody "PendingLink list"
  | RosterBody RosterPreview
  | GroupBody Group
  | GroupsBody "Group list"
  | LabBody Lab
  | LabsBody "Lab list"
  | SubmissionsBody "GroupSubmission list"
  | PageBody appPage

record Response =
  rs_status :: nat
  rs_location :: string
  rs_cookies :: "Cookie list"
  rs_body :: body

definition reply :: "nat \<Rightarrow> body \<Rightarrow> Response" where
  "reply code b = \<lparr>rs_status = code, rs_location = '''', rs_cookies = [], rs_body = b\<rparr>"

definition writeProblem :: "Request \<Rightarrow> nat \<Rightarrow> string \<Rightarrow> Response" where
  "writeProblem rq code name = reply code (ProblemBody name (rq_id rq))"

definition writeJSON :: "nat \<Rightarrow> body \<Rightarrow> Response" where
  "writeJSON code b = reply code b"

definition Redirect :: "string \<Rightarrow> Response" where
  "Redirect location = \<lparr>rs_status = 302, rs_location = location, rs_cookies = [], rs_body = NoBody\<rparr>"

text \<open>The middleware \<open>requestID\<close>: a usable identifier of the client, else a fresh one.\<close>

definition requestID ::
  "8 word list option \<Rightarrow> 64 word \<Rightarrow> (Request \<Rightarrow> 's \<Rightarrow> 's \<times> Response) \<Rightarrow> Request \<Rightarrow> 's \<Rightarrow> 's \<times> Response" where
  "requestID rnd milliseconds handler rq s =
     (let i = rq_header rq ''X-Request-ID'' in
      if uuid_pattern i then handler (rq\<lparr>rq_id := i\<rparr>) s
      else
        (case NewUUIDv7 rnd milliseconds of
           Inl e \<Rightarrow> (s, reply 500 NoBody)
         | Inr g \<Rightarrow> handler (rq\<lparr>rq_id := g\<rparr>) s))"

section \<open>The site\<close>

record site =
  site_db :: idb
  site_log :: "audit_row list"

text \<open>
  The installation: the keys of the sessions, the folding \<open>ul\<close> of Go and \<open>ci\<close> of the database, its
  collation, and the encoder of audit metadata.
\<close>

record installation =
  in_hash_key :: bytes
  in_csrf_key :: bytes
  in_session_ttl :: time
  in_secure :: bool
  in_ul :: "string \<Rightarrow> string"
  in_ci :: "string \<Rightarrow> string"
  in_eqfold :: "string \<Rightarrow> string \<Rightarrow> bool"
  in_collate :: "string \<Rightarrow> string \<Rightarrow> bool"
  in_marshal :: "(string \<times> json_value) list \<Rightarrow> bytes"

text \<open>
  What happens around a request: \<open>am_find\<close> is the reading of the clock when the session is looked up,
  \<open>am_clk\<close> and \<open>am_roster_clk\<close> are the readings of the statements after that, \<open>am_app\<close> is the clock of the service and
  \<open>am_event_time\<close> the one in nanoseconds for the event; \<open>am_ids\<close> and \<open>am_random\<close> are fresh.
\<close>

record ambient =
  am_find :: time
  am_clk :: "nat \<Rightarrow> time"
  am_roster_clk :: "nat \<Rightarrow> nat \<Rightarrow> time"
  am_app :: time
  am_event_time :: int
  am_event_id :: "uuid option"
  am_event_gap :: nat
  am_ids :: "nat \<Rightarrow> uuid"
  am_random :: "nat \<Rightarrow> bytes option"

definition adb_of :: "site \<Rightarrow> adb" where
  "adb_of w = base (site_db w)"

definition set_adb :: "adb \<Rightarrow> site \<Rightarrow> site" where
  "set_adb b w = w\<lparr>site_db := (site_db w)\<lparr>base := b\<rparr>\<rparr>"

section \<open>Reading the request\<close>

definition decodeJSONLimit :: "(bytes \<Rightarrow> bool \<Rightarrow> 'in option) \<Rightarrow> nat \<Rightarrow> Request \<Rightarrow> 'in option" where
  "decodeJSONLimit decoder limit rq = decoder (take limit (rq_body rq)) (length (rq_body rq) > limit)"

definition defaultJSONBodyLimit :: nat where
  "defaultJSONBodyLimit = 64 * 1024"

definition decodeJSON :: "(bytes \<Rightarrow> bool \<Rightarrow> 'in option) \<Rightarrow> Request \<Rightarrow> 'in option" where
  "decodeJSON decoder rq = decodeJSONLimit decoder defaultJSONBodyLimit rq"

definition validIdempotencyKey :: "Request \<Rightarrow> bool" where
  "validIdempotencyKey rq \<longleftrightarrow> uuid_pattern (rq_header rq ''Idempotency-Key'')"

definition optionalString :: "string \<Rightarrow> string option" where
  "optionalString value = (let v = trim_space value in if v = '''' then None else Some v)"

text \<open>\<open>io.ReadAll\<close> of a body behind \<open>MaxBytesReader\<close>.\<close>

definition read_limited :: "nat \<Rightarrow> Request \<Rightarrow> bytes option" where
  "read_limited limit rq = (if length (rq_body rq) > limit then None else Some (rq_body rq))"

definition codeOK :: "string \<Rightarrow> bool" where
  "codeOK v \<longleftrightarrow>
     \<not> (length v < 1 \<or> length v > 64 \<or> v ! 0 = CHR ''-'' \<or> v ! (length v - 1) = CHR ''-'')
   \<and> list_all (\<lambda>c. is_lower c \<or> is_digit c \<or> c = CHR ''-'') v"

section \<open>Authentication and authorization\<close>

definition authenticate ::
  "installation \<Rightarrow> ambient \<Rightarrow> Request \<Rightarrow> adb \<Rightarrow> Response + (Session \<times> User \<times> bytes)" where
  "authenticate env am rq b =
     (case rq_cookie rq ''cppdefense_session'' of
        None \<Rightarrow> Inl (writeProblem rq 401 ''AUTHENTICATION_REQUIRED'')
      | Some token \<Rightarrow>
          if token = '''' then Inl (writeProblem rq 401 ''AUTHENTICATION_REQUIRED'')
          else
            (case FindActive (in_hash_key env) (am_find am) token b of
               Inl e \<Rightarrow>
                 if e \<noteq> ErrNoRows then Inl (writeProblem rq 500 ''SESSION_LOOKUP_FAILED'')
                 else Inl (writeProblem rq 401 ''SESSION_INVALID'')
             | Inr (session, csrfHash) \<Rightarrow>
                 (case UserByID b (se_user_id session) of
                    Inl e \<Rightarrow> Inl (writeProblem rq 401 ''SESSION_INVALID'')
                  | Inr user \<Rightarrow>
                      if usr_status user = UserBlocked then Inl (writeProblem rq 401 ''SESSION_INVALID'')
                      else Inr (session, user, csrfHash))))"

definition authorizeCSRF :: "installation \<Rightarrow> Request \<Rightarrow> Session \<Rightarrow> bytes \<Rightarrow> Response + unit" where
  "authorizeCSRF env rq session csrfHash =
     (case VerifyCSRFToken (in_csrf_key env) (se_id session) (rq_header rq ''X-CSRF-Token'') csrfHash of
        Inl e \<Rightarrow> Inl (writeProblem rq 403 ''CSRF_TOKEN_INVALID'')
      | Inr _ \<Rightarrow> Inr ())"

definition authorizeMutation :: "installation \<Rightarrow> Request \<Rightarrow> Session \<Rightarrow> bytes \<Rightarrow> Response + unit" where
  "authorizeMutation env rq session csrfHash =
     (case authorizeCSRF env rq session csrfHash of
        Inl p \<Rightarrow> Inl p
      | Inr _ \<Rightarrow> if se_view_role session \<noteq> None then Inl (writeProblem rq 403 ''VIEW_AS_READ_ONLY'') else Inr ())"

text \<open>
  The three ways in which the handlers begin: they authenticate the request and then check nothing
  more, the token against forged requests, or that and that no other role is being previewed.
\<close>

definition admitted ::
  "(installation \<Rightarrow> Request \<Rightarrow> Session \<Rightarrow> bytes \<Rightarrow> Response + unit) \<Rightarrow> installation \<Rightarrow> ambient \<Rightarrow> Request \<Rightarrow> adb
   \<Rightarrow> (Response \<Rightarrow> 'x) \<Rightarrow> (Session \<Rightarrow> User \<Rightarrow> 'x) \<Rightarrow> 'x" where
  "admitted authorize env am rq b refuse k =
     (case authenticate env am rq b of
        Inl p \<Rightarrow> refuse p
      | Inr (session, user, csrfHash) \<Rightarrow>
          (case authorize env rq session csrfHash of Inl p \<Rightarrow> refuse p | Inr _ \<Rightarrow> k session user))"

definition signed_in ::
  "installation \<Rightarrow> ambient \<Rightarrow> Request \<Rightarrow> site \<Rightarrow> (Session \<Rightarrow> User \<Rightarrow> site \<times> Response) \<Rightarrow> site \<times> Response" where
  "signed_in env am rq w k = admitted (\<lambda>env rq session csrfHash. Inr ()) env am rq (adb_of w) (\<lambda>p. (w, p)) k"

definition with_token ::
  "installation \<Rightarrow> ambient \<Rightarrow> Request \<Rightarrow> site \<Rightarrow> (Session \<Rightarrow> User \<Rightarrow> site \<times> Response) \<Rightarrow> site \<times> Response" where
  "with_token env am rq w k = admitted authorizeCSRF env am rq (adb_of w) (\<lambda>p. (w, p)) k"

definition mutating ::
  "installation \<Rightarrow> ambient \<Rightarrow> Request \<Rightarrow> site \<Rightarrow> (Session \<Rightarrow> User \<Rightarrow> site \<times> Response) \<Rightarrow> site \<times> Response" where
  "mutating env am rq w k = admitted authorizeMutation env am rq (adb_of w) (\<lambda>p. (w, p)) k"

text \<open>
  How they end: an event of the actor is recorded, and the response is written when that succeeded.
\<close>

definition user_event :: "Request \<Rightarrow> User \<Rightarrow> string \<Rightarrow> string \<Rightarrow> uuid option \<Rightarrow> string option \<Rightarrow> (string \<times> json_value) list \<Rightarrow> Event" where
  "user_event rq user action target_type target reason metadata =
     \<lparr>ev_occurred_at = None, ev_actor_id = Some (usr_id user), ev_actor_kind = ''user'', ev_action = action,
      ev_target_type = target_type, ev_target_id = target, ev_request_id = rq_id rq, ev_reason = reason, ev_metadata = metadata\<rparr>"

definition event_id :: "ambient \<Rightarrow> uuid result" where
  "event_id am = (case am_event_id am of None \<Rightarrow> Inl (ErrText ''uuid entropy'') | Some i \<Rightarrow> Inr i)"

definition recorded :: "installation \<Rightarrow> ambient \<Rightarrow> site \<Rightarrow> Event \<Rightarrow> (go_error \<Rightarrow> Response) \<Rightarrow> Response \<Rightarrow> site \<times> Response" where
  "recorded env am w ev failure success =
     (case Record (in_marshal env) (adb_of w) (event_id am) (am_event_gap am) (am_event_time am) ev (site_log w) of
        Inl e \<Rightarrow> (w, failure e)
      | Inr rows \<Rightarrow> (w\<lparr>site_log := rows\<rparr>, success))"

section \<open>Signing in and out\<close>

definition presentUser :: "User \<Rightarrow> userResponse" where
  "presentUser user =
     \<lparr>ur_id = usr_id user, ur_status = usr_status user, ur_role = usr_role user, ur_display_name = usr_display_name user,
      ur_identities = [\<lparr>idr_provider = ''github'', idr_subject = idn_subject (usr_identity user),
                        idr_login = idn_login (usr_identity user), idr_verified_at = idn_verified_at (usr_identity user)\<rparr>],
      ur_created_at = usr_created_at user, ur_view_as = None\<rparr>"

definition presentViewAs :: "string \<Rightarrow> string option \<Rightarrow> view_mode" where
  "presentViewAs role target =
     ViewMode role (if role = ''teacher'' then target else None) (if role = ''student'' then target else None)"

fun role_text :: "user_role \<Rightarrow> string" where
  "role_text Student = ''student''"
| "role_text Teacher = ''teacher''"
| "role_text Admin = ''admin''"

fun status_text :: "user_status \<Rightarrow> string" where
  "status_text UserPending = ''pending''"
| "status_text UserActive = ''active''"
| "status_text UserRejected = ''rejected''"
| "status_text UserBlocked = ''blocked''"

definition setCookies :: "installation \<Rightarrow> time \<Rightarrow> NewSession \<Rightarrow> Response \<Rightarrow> Response" where
  "setCookies env now session rs =
     (let rest = se_expires_at (ns_session session) - now; age = sgn rest * (\<bar>rest\<bar> div 1000000) in
      rs\<lparr>rs_cookies := rs_cookies rs @
        [\<lparr>ck_name = ''cppdefense_session'', ck_value = ns_token session, ck_max_age = age, ck_http_only = True, ck_secure = in_secure env\<rparr>,
         \<lparr>ck_name = ''cppdefense_csrf'', ck_value = ns_csrf_token session, ck_max_age = age, ck_http_only = False, ck_secure = in_secure env\<rparr>]\<rparr>)"

definition clearCookies :: "installation \<Rightarrow> Response \<Rightarrow> Response" where
  "clearCookies env rs =
     rs\<lparr>rs_cookies := rs_cookies rs @
       map (\<lambda>name. \<lparr>ck_name = name, ck_value = '''', ck_max_age = - 1, ck_http_only = (name = ''cppdefense_session''), ck_secure = in_secure env\<rparr>)
         [''cppdefense_session'', ''cppdefense_csrf'']\<rparr>"

text \<open>
  What the service of sign-in depends on: the cipher, GitHub, the administrator of the configuration
  and the registration with GitHub.
\<close>

record oauth =
  oa_seal :: "bytes \<Rightarrow> bytes \<Rightarrow> bytes"
  oa_unseal :: "bytes \<Rightarrow> bytes \<Rightarrow> bytes option"
  oa_github :: "string \<Rightarrow> string \<Rightarrow> string \<Rightarrow> string \<Rightarrow> Profile result"
  oa_boot :: int
  oa_config :: Config

definition start :: "oauth \<Rightarrow> ambient \<Rightarrow> Request \<Rightarrow> site \<Rightarrow> site \<times> Response" where
  "start oa am rq w =
     (case Start (oa_seal oa) (oa_config oa) (am_app am) (am_clk am 0) (am_ids am 0) (am_random am 0) (am_random am 1) (am_random am 2)
         (rq_query rq ''return_to'') (adb_of w) of
        Inl e \<Rightarrow> (w, writeProblem rq 400 ''INVALID_RETURN_PATH'')
      | Inr (b, location) \<Rightarrow> (set_adb b w, Redirect location))"

text \<open>A revocation whose failure is ignored.\<close>

definition try_revoke :: "time \<Rightarrow> uuid \<Rightarrow> adb \<Rightarrow> adb" where
  "try_revoke now i b = (case Revoke now i b of Inl e \<Rightarrow> b | Inr b' \<Rightarrow> b')"

definition end_previous :: "installation \<Rightarrow> ambient \<Rightarrow> Request \<Rightarrow> adb \<Rightarrow> adb" where
  "end_previous env am rq b =
     (case rq_cookie rq ''cppdefense_session'' of
        None \<Rightarrow> b
      | Some previous \<Rightarrow>
          (case FindActive (in_hash_key env) (am_find am) previous b of
             Inl e \<Rightarrow> b
           | Inr (old, _) \<Rightarrow> try_revoke (am_clk am 21) (se_id old) b))"

definition callback :: "oauth \<Rightarrow> installation \<Rightarrow> ambient \<Rightarrow> Request \<Rightarrow> site \<Rightarrow> site \<times> Response" where
  "callback oa env am rq w =
     (case Complete (oa_unseal oa) (oa_github oa) (in_ul env) (in_ci env) (oa_boot oa) (oa_config oa) (am_clk am) (am_ids am 0) (am_ids am 1)
         (rq_query rq ''code'') (rq_query rq ''state'') (adb_of w) of
        (b1, Inl e) \<Rightarrow>
          (set_adb b1 w,
           if e = ErrInvalidFlow then writeProblem rq 400 ''AUTH_STATE_INVALID''
           else if e = ErrBlockedUser then writeProblem rq 403 ''USER_BLOCKED''
           else writeProblem rq 502 ''GITHUB_AUTHENTICATION_FAILED'')
      | (b1, Inr (user, returnPath)) \<Rightarrow>
          (case Create_session (in_hash_key env) (in_csrf_key env) (am_app am) (am_clk am 20) (in_session_ttl env) (am_ids am 2)
              (am_random am 0) (am_random am 1) (usr_id user) b1 of
             Inl e \<Rightarrow> (set_adb b1 w, writeProblem rq 500 ''SESSION_CREATE_FAILED'')
           | Inr (b2, session) \<Rightarrow>
               let w' = set_adb (end_previous env am rq b2) w;
                   ev = user_event rq user ''auth.github.login'' ''user'' (Some (usr_id user)) None [(''status'', JString (status_text (usr_status user)))] in
               (case Record (in_marshal env) (adb_of w') (event_id am) (am_event_gap am) (am_event_time am) ev (site_log w') of
                  Inl e \<Rightarrow>
                    (set_adb (try_revoke (am_clk am 22) (se_id (ns_session session)) (adb_of w')) w', writeProblem rq 500 ''AUDIT_WRITE_FAILED'')
                | Inr rows \<Rightarrow>
                    (w'\<lparr>site_log := rows\<rparr>,
                     setCookies env (am_clk am 23) session (Redirect (if returnPath = ''/'' then ''/app'' else returnPath))))))"

definition me :: "installation \<Rightarrow> ambient \<Rightarrow> Request \<Rightarrow> site \<Rightarrow> site \<times> Response" where
  "me env am rq w =
     signed_in env am rq w (\<lambda>session user.
       (w, writeJSON 200 (UserBody ((presentUser user)\<lparr>ur_view_as :=
          map_option (\<lambda>role. presentViewAs (role_text role) (se_view_target session)) (se_view_role session)\<rparr>))))"

definition logout :: "installation \<Rightarrow> ambient \<Rightarrow> Request \<Rightarrow> site \<Rightarrow> site \<times> Response" where
  "logout env am rq w =
     with_token env am rq w (\<lambda>session user.
       case Revoke (am_clk am 0) (se_id session) (adb_of w) of
         Inl e \<Rightarrow> (w, writeProblem rq 500 ''SESSION_REVOKE_FAILED'')
       | Inr b \<Rightarrow>
           recorded env am (set_adb b w) (user_event rq user ''auth.logout'' ''session'' (Some (se_id session)) None [])
             (\<lambda>e. writeProblem rq 500 ''AUDIT_WRITE_FAILED'') (clearCookies env (reply 204 NoBody)))"

definition writeAuthorizationError :: "Request \<Rightarrow> go_error \<Rightarrow> Response" where
  "writeAuthorizationError rq e =
     (if e = ErrForbidden then writeProblem rq 403 ''FORBIDDEN''
      else if e = ErrConflict then writeProblem rq 409 ''STATE_CONFLICT''
      else writeProblem rq 422 ''INVALID_REQUEST'')"

definition approve ::
  "(bytes \<Rightarrow> bool \<Rightarrow> (string \<times> string) option) \<Rightarrow> installation \<Rightarrow> ambient \<Rightarrow> Request \<Rightarrow> site \<Rightarrow> site \<times> Response" where
  "approve decoder env am rq w =
     mutating env am rq w (\<lambda>session actor.
       case decodeJSON decoder rq of
         None \<Rightarrow> (w, writeProblem rq 400 ''INVALID_REQUEST'')
       | Some (studentRecordID, reason) \<Rightarrow>
           if \<not> uuid_pattern studentRecordID \<or> \<not> validIdempotencyKey rq then (w, writeProblem rq 400 ''INVALID_REQUEST'')
           else if \<not> uuid_pattern (rq_path rq ''user_id'') then (w, writeProblem rq 400 ''INVALID_USER_ID'')
           else
             (case Approve (in_ci env) (am_clk am) (am_ids am 0) (usr_id actor) (rq_path rq ''user_id'') studentRecordID
                 (rq_header rq ''Idempotency-Key'') (adb_of w) of
                (b, Inl e) \<Rightarrow> (set_adb b w, writeAuthorizationError rq e)
              | (b, Inr user) \<Rightarrow>
                  recorded env am (set_adb b w)
                    (user_event rq actor ''student_link.approve'' ''user'' (Some (usr_id user)) (optionalString reason)
                       [(''student_record_id'', JString studentRecordID)])
                    (\<lambda>e. writeProblem rq 500 ''AUDIT_WRITE_FAILED'') (writeJSON 200 (UserBody (presentUser user)))))"

definition reject :: "(bytes \<Rightarrow> bool \<Rightarrow> string option) \<Rightarrow> installation \<Rightarrow> ambient \<Rightarrow> Request \<Rightarrow> site \<Rightarrow> site \<times> Response" where
  "reject decoder env am rq w =
     mutating env am rq w (\<lambda>session actor.
       case decodeJSON decoder rq of
         None \<Rightarrow> (w, writeProblem rq 400 ''INVALID_REQUEST'')
       | Some reason \<Rightarrow>
           if \<not> validIdempotencyKey rq then (w, writeProblem rq 400 ''INVALID_REQUEST'')
           else if \<not> uuid_pattern (rq_path rq ''user_id'') then (w, writeProblem rq 400 ''INVALID_USER_ID'')
           else
             (case Reject (in_ci env) (am_clk am) (am_ids am 0) (usr_id actor) (rq_path rq ''user_id'') reason
                 (rq_header rq ''Idempotency-Key'') (adb_of w) of
                (b, Inl e) \<Rightarrow> (set_adb b w, writeAuthorizationError rq e)
              | (b, Inr user) \<Rightarrow>
                  recorded env am (set_adb b w)
                    (user_event rq actor ''student_link.reject'' ''user'' (Some (usr_id user)) (optionalString reason) [])
                    (\<lambda>e. writeProblem rq 500 ''AUDIT_WRITE_FAILED'') (writeJSON 200 (UserBody (presentUser user)))))"

section \<open>Administration\<close>

definition admin_fail :: "Request \<Rightarrow> go_error \<Rightarrow> Response" where
  "admin_fail rq e =
     (if e = ErrForbidden then writeProblem rq 403 ''FORBIDDEN''
      else if e = ErrConflict then writeProblem rq 409 ''STATE_CONFLICT''
      else writeProblem rq 500 ''ADMIN_ERROR'')"

definition previewRoster ::
  "(bytes \<Rightarrow> (Document \<times> bool) result) \<Rightarrow> installation \<Rightarrow> ambient \<Rightarrow> Request \<Rightarrow> site \<Rightarrow> site \<times> Response" where
  "previewRoster decoder env am rq w =
     signed_in env am rq w (\<lambda>session a.
       case read_limited (2 * 1024 * 1024) rq of
         None \<Rightarrow> (w, writeProblem rq 413 ''ROSTER_TOO_LARGE'')
       | Some data \<Rightarrow>
           (case Parse decoder (in_ul env) data of
              Inl e \<Rightarrow> (w, writeProblem rq 422 ''ROSTER_INVALID'')
            | Inr document \<Rightarrow>
                (case PreviewRoster (in_ci env) (in_eqfold env) (usr_id a) document (adb_of w) of
                   Inl e \<Rightarrow> (w, admin_fail rq e)
                 | Inr value \<Rightarrow> (w, writeJSON 200 (RosterBody value)))))"

definition applyRoster ::
  "(bytes \<Rightarrow> (Document \<times> bool) result) \<Rightarrow> installation \<Rightarrow> ambient \<Rightarrow> Request \<Rightarrow> site \<Rightarrow> site \<times> Response" where
  "applyRoster decoder env am rq w =
     mutating env am rq w (\<lambda>session a.
       if \<not> validIdempotencyKey rq then (w, writeProblem rq 400 ''INVALID_IDEMPOTENCY_KEY'')
       else
         case read_limited (2 * 1024 * 1024) rq of
           None \<Rightarrow> (w, writeProblem rq 413 ''ROSTER_TOO_LARGE'')
         | Some data \<Rightarrow>
             (case Parse decoder (in_ul env) data of
                Inl e \<Rightarrow> (w, writeProblem rq 422 ''ROSTER_INVALID'')
              | Inr document \<Rightarrow>
                  (case ApplyRoster (in_ci env) (in_eqfold env) (am_roster_clk am) (am_ids am) (usr_id a) document (adb_of w) of
                     Inl e \<Rightarrow> (w, admin_fail rq e)
                   | Inr (b, value) \<Rightarrow>
                       recorded env am (set_adb b w)
                         (user_event rq a ''admin.roster.apply'' ''organization'' None None
                            [(''organization'', JString (ro_github_login (rd_organization document))),
                             (''groups'', JInt (int (length (rd_groups document))))])
                         (admin_fail rq) (writeJSON 200 (RosterBody value)))))"

definition users :: "installation \<Rightarrow> ambient \<Rightarrow> Request \<Rightarrow> site \<Rightarrow> site \<times> Response" where
  "users env am rq w =
     signed_in env am rq w (\<lambda>session a.
       case ListUsers (adb_of w) (usr_id a) of
         Inl e \<Rightarrow> (w, admin_fail rq e)
       | Inr v \<Rightarrow> (w, writeJSON 200 (UsersBody v)))"

text \<open>
  The statement of \<open>ListPendingLinks\<close> has a parameter for the actor, and \<open>Query\<close> is called without
  arguments for it, so that the driver or the server refuses it.
\<close>

definition ListPendingLinks :: "adb \<Rightarrow> uuid \<Rightarrow> PendingLink list result" where
  "ListPendingLinks b actor = Inl ErrDatabase"

definition pendingLinks :: "installation \<Rightarrow> ambient \<Rightarrow> Request \<Rightarrow> site \<Rightarrow> site \<times> Response" where
  "pendingLinks env am rq w =
     signed_in env am rq w (\<lambda>session a.
       case ListPendingLinks (adb_of w) (usr_id a) of
         Inl e \<Rightarrow> (w, admin_fail rq e)
       | Inr v \<Rightarrow> (w, writeJSON 200 (LinksBody v)))"

definition setRole :: "(bytes \<Rightarrow> bool \<Rightarrow> string option) \<Rightarrow> installation \<Rightarrow> ambient \<Rightarrow> Request \<Rightarrow> site \<Rightarrow> site \<times> Response" where
  "setRole decoder env am rq w =
     mutating env am rq w (\<lambda>session a.
       case decodeJSON decoder rq of
         None \<Rightarrow> (w, writeProblem rq 400 ''INVALID_REQUEST'')
       | Some role \<Rightarrow>
           (case SetRole (am_clk am 0) (usr_id a) (rq_path rq ''user_id'') role (adb_of w) of
              (b, Inl e) \<Rightarrow> (set_adb b w, admin_fail rq e)
            | (b, Inr v) \<Rightarrow>
                recorded env am (set_adb b w)
                  (user_event rq a ''admin.user.role'' ''user'' (Some (rq_path rq ''user_id'')) None [(''role'', JString role)])
                  (admin_fail rq) (writeJSON 200 (ManagedBody v))))"

definition block :: "(bytes \<Rightarrow> bool \<Rightarrow> string option) \<Rightarrow> installation \<Rightarrow> ambient \<Rightarrow> Request \<Rightarrow> site \<Rightarrow> site \<times> Response" where
  "block decoder env am rq w =
     mutating env am rq w (\<lambda>session a.
       case decodeJSON decoder rq of
         None \<Rightarrow> (w, writeProblem rq 400 ''INVALID_REQUEST'')
       | Some reason \<Rightarrow>
           if reason = '''' then (w, writeProblem rq 400 ''INVALID_REQUEST'')
           else
             (case Block (am_clk am) (usr_id a) (rq_path rq ''user_id'') (adb_of w) of
                (b, Inl e) \<Rightarrow> (set_adb b w, admin_fail rq e)
              | (b, Inr v) \<Rightarrow>
                  recorded env am (set_adb b w)
                    (user_event rq a ''admin.user.block'' ''user'' (Some (rq_path rq ''user_id'')) (optionalString reason) [])
                    (admin_fail rq) (writeJSON 200 (ManagedBody v))))"

definition assignTeacher :: "(bytes \<Rightarrow> bool \<Rightarrow> string option) \<Rightarrow> installation \<Rightarrow> ambient \<Rightarrow> Request \<Rightarrow> site \<Rightarrow> site \<times> Response" where
  "assignTeacher decoder env am rq w =
     mutating env am rq w (\<lambda>session a.
       case decodeJSON decoder rq of
         None \<Rightarrow> (w, writeProblem rq 400 ''INVALID_REQUEST'')
       | Some userID \<Rightarrow>
           if \<not> uuid_pattern userID then (w, writeProblem rq 400 ''INVALID_REQUEST'')
           else
             (case AssignTeacher (usr_id a) userID (rq_path rq ''group_id'') (adb_of w) of
                Inl e \<Rightarrow> (w, admin_fail rq e)
              | Inr b \<Rightarrow>
                  recorded env am (set_adb b w)
                    (user_event rq a ''admin.group.assign_teacher'' ''group'' (Some (rq_path rq ''group_id'')) None
                       [(''teacher_user_id'', JString userID)])
                    (admin_fail rq) (reply 204 NoBody)))"

record viewInput =
  vi_role :: string
  vi_group_id :: string
  vi_student_record_id :: string

definition view :: "(bytes \<Rightarrow> bool \<Rightarrow> viewInput option) \<Rightarrow> installation \<Rightarrow> ambient \<Rightarrow> Request \<Rightarrow> site \<Rightarrow> site \<times> Response" where
  "view decoder env am rq w =
     mutating env am rq w (\<lambda>session a.
       case decodeJSON decoder rq of
         None \<Rightarrow> (w, writeProblem rq 400 ''INVALID_REQUEST'')
       | Some input \<Rightarrow>
           let target = (if vi_role input = ''student'' then vi_student_record_id input else vi_group_id input) in
           (case SetViewAs (se_id session) (usr_id a) (vi_role input) target (adb_of w) of
              Inl e \<Rightarrow> (w, admin_fail rq e)
            | Inr b \<Rightarrow>
                recorded env am (set_adb b w)
                  (user_event rq a ''admin.view_as.start'' ''session'' (Some (se_id session)) None
                     [(''role'', JString (vi_role input)), (''target_id'', JString target)])
                  (admin_fail rq)
                  (writeJSON 200 (UserBody ((presentUser a)\<lparr>ur_view_as := Some (presentViewAs (vi_role input) (Some target))\<rparr>)))))"

definition clearView :: "installation \<Rightarrow> ambient \<Rightarrow> Request \<Rightarrow> site \<Rightarrow> site \<times> Response" where
  "clearView env am rq w =
     with_token env am rq w (\<lambda>session a.
       case ClearViewAs (se_id session) (usr_id a) (adb_of w) of
         Inl e \<Rightarrow> (w, admin_fail rq e)
       | Inr b \<Rightarrow>
           recorded env am (set_adb b w) (user_event rq a ''admin.view_as.stop'' ''session'' (Some (se_id session)) None [])
             (admin_fail rq) (writeJSON 200 (UserBody (presentUser a))))"

section \<open>The catalogue\<close>

definition catalog_fail :: "Request \<Rightarrow> go_error \<Rightarrow> Response" where
  "catalog_fail rq e = (if e = ErrForbidden then writeProblem rq 403 ''FORBIDDEN'' else writeProblem rq 500 ''DATABASE_ERROR'')"

definition list_groups :: "installation \<Rightarrow> ambient \<Rightarrow> Request \<Rightarrow> site \<Rightarrow> site \<times> Response" where
  "list_groups env am rq w =
     signed_in env am rq w (\<lambda>session a.
       case ListGroups (in_collate env) (usr_id a) (site_db w) of
         Inl e \<Rightarrow> (w, catalog_fail rq e)
       | Inr v \<Rightarrow> (w, writeJSON 200 (GroupsBody v)))"

definition createGroup ::
  "(bytes \<Rightarrow> bool \<Rightarrow> (string \<times> string \<times> bool) option) \<Rightarrow> installation \<Rightarrow> ambient \<Rightarrow> Request \<Rightarrow> site \<Rightarrow> site \<times> Response" where
  "createGroup decoder env am rq w =
     mutating env am rq w (\<lambda>session a.
       case decodeJSON decoder rq of
         None \<Rightarrow> (w, writeProblem rq 400 ''INVALID_REQUEST'')
       | Some (code, name, demo) \<Rightarrow>
           if \<not> validIdempotencyKey rq \<or> \<not> codeOK code \<or> trim_space name = '''' then (w, writeProblem rq 400 ''INVALID_REQUEST'')
           else
             (case CreateGroup (in_ul env) (in_ci env) (am_clk am 0) (Inr (am_ids am 0)) (usr_id a) code name demo (site_db w) of
                Inl e \<Rightarrow> (w, catalog_fail rq e)
              | Inr (d, v) \<Rightarrow>
                  recorded env am (w\<lparr>site_db := d\<rparr>) (user_event rq a ''group.create'' ''group'' (Some (go_id v)) None [])
                    (catalog_fail rq) (writeJSON 201 (GroupBody v))))"

definition labs :: "installation \<Rightarrow> ambient \<Rightarrow> Request \<Rightarrow> site \<Rightarrow> site \<times> Response" where
  "labs env am rq w =
     signed_in env am rq w (\<lambda>session a.
       if \<not> uuid_pattern (rq_path rq ''group_id'') then (w, writeProblem rq 400 ''INVALID_GROUP_ID'')
       else
         case ListLabs (in_collate env) (usr_id a) (rq_path rq ''group_id'') (site_db w) of
           Inl e \<Rightarrow> (w, catalog_fail rq e)
         | Inr v \<Rightarrow> (w, writeJSON 200 (LabsBody v)))"

definition submissions :: "(uuid \<Rightarrow> string option) \<Rightarrow> installation \<Rightarrow> ambient \<Rightarrow> Request \<Rightarrow> site \<Rightarrow> site \<times> Response" where
  "submissions newest env am rq w =
     signed_in env am rq w (\<lambda>session a.
       if \<not> uuid_pattern (rq_path rq ''group_id'') then (w, writeProblem rq 400 ''INVALID_GROUP_ID'')
       else
         case GroupSubmissions (in_collate env) newest (usr_id a) (rq_path rq ''group_id'') (site_db w) of
           Inl e \<Rightarrow> (w, catalog_fail rq e)
         | Inr v \<Rightarrow> (w, writeJSON 200 (SubmissionsBody v)))"

definition createLab ::
  "(bytes \<Rightarrow> bool \<Rightarrow> (string \<times> string \<times> string) option) \<Rightarrow> installation \<Rightarrow> ambient \<Rightarrow> Request \<Rightarrow> site \<Rightarrow> site \<times> Response" where
  "createLab decoder env am rq w =
     mutating env am rq w (\<lambda>session a.
       case decodeJSON decoder rq of
         None \<Rightarrow> (w, writeProblem rq 400 ''INVALID_REQUEST'')
       | Some (code, name, description) \<Rightarrow>
           if \<not> validIdempotencyKey rq \<or> \<not> uuid_pattern (rq_path rq ''group_id'') \<or> \<not> codeOK code \<or> trim_space name = ''''
           then (w, writeProblem rq 400 ''INVALID_REQUEST'')
           else
             (case CreateLab (in_ul env) (in_ci env) (Inr (am_ids am 0)) (usr_id a) (rq_path rq ''group_id'') code name (site_db w) of
                Inl e \<Rightarrow> (w, catalog_fail rq e)
              | Inr (d, v) \<Rightarrow>
                  recorded env am (w\<lparr>site_db := d\<rparr>)
                    (user_event rq a ''lab.create'' ''lab'' (Some (lo_id v)) None [(''group_id'', JString (rq_path rq ''group_id''))])
                    (catalog_fail rq) (writeJSON 201 (LabBody v))))"

text \<open>The page of \<open>web.go\<close>; a list that cannot be read is shown empty.\<close>

definition or_empty :: "'a list result \<Rightarrow> 'a list" where
  "or_empty r = (case r of Inl e \<Rightarrow> [] | Inr xs \<Rightarrow> xs)"

definition app_page :: "(uuid \<Rightarrow> string option) \<Rightarrow> installation \<Rightarrow> Session \<Rightarrow> User \<Rightarrow> idb \<Rightarrow> appPage" where
  "app_page newest env session user s =
     (let role = (case se_view_role session of
                    Some r \<Rightarrow> role_text r
                  | None \<Rightarrow> (case usr_role user of None \<Rightarrow> '''' | Some r \<Rightarrow> role_text r));
          page = \<lparr>pg_user = user, pg_role = role, pg_viewing = (se_view_role session \<noteq> None), pg_groups = [], pg_submissions = []\<rparr> in
      if usr_status user \<noteq> UserActive then page
      else if role = ''student'' then
        page\<lparr>pg_submissions := or_empty
          (case (se_view_role session, se_view_target session) of
             (Some r, Some target) \<Rightarrow> SubmissionsByRecord (in_collate env) newest (usr_id user) target s
           | _ \<Rightarrow> StudentSubmissions (in_collate env) newest (usr_id user) s)\<rparr>
      else
        page\<lparr>pg_groups := or_empty
          (case (se_view_role session, se_view_target session) of
             (Some Teacher, Some target) \<Rightarrow> GroupForAdminView (usr_id user) target s
           | _ \<Rightarrow> ListGroups (in_collate env) (usr_id user) s)\<rparr>)"

definition app :: "(uuid \<Rightarrow> string option) \<Rightarrow> installation \<Rightarrow> ambient \<Rightarrow> Request \<Rightarrow> site \<Rightarrow> site \<times> Response" where
  "app newest env am rq w =
     signed_in env am rq w (\<lambda>session user. (w, reply 200 (PageBody (app_page newest env session user (site_db w)))))"

section \<open>Routes\<close>

text \<open>The routes of \<open>server.go\<close> to these handlers, behind the middleware, and the decoders of the bodies they take.\<close>

datatype route =
    GetStart | GetCallback | PostLogout | GetMe | PostApprove | PostReject
  | GetPendingLinks | GetUsers | PutRole | PostBlock | PostTeachers | PostPreview | PostRoster | PutView | DeleteView
  | GetGroups | PostGroups | GetLabs | PostLabs | GetSubmissions | GetApp

record decoders =
  dc_approve :: "bytes \<Rightarrow> bool \<Rightarrow> (string \<times> string) option"
  dc_reason :: "bytes \<Rightarrow> bool \<Rightarrow> string option"
  dc_role :: "bytes \<Rightarrow> bool \<Rightarrow> string option"
  dc_teacher :: "bytes \<Rightarrow> bool \<Rightarrow> string option"
  dc_view :: "bytes \<Rightarrow> bool \<Rightarrow> viewInput option"
  dc_group :: "bytes \<Rightarrow> bool \<Rightarrow> (string \<times> string \<times> bool) option"
  dc_lab :: "bytes \<Rightarrow> bool \<Rightarrow> (string \<times> string \<times> string) option"
  dc_roster :: "bytes \<Rightarrow> (Document \<times> bool) result"

fun dispatch ::
  "oauth \<Rightarrow> (uuid \<Rightarrow> string option) \<Rightarrow> decoders \<Rightarrow> installation \<Rightarrow> ambient \<Rightarrow> route \<Rightarrow> Request \<Rightarrow> site \<Rightarrow> site \<times> Response" where
  "dispatch oa newest dc env am GetStart rq w = start oa am rq w"
| "dispatch oa newest dc env am GetCallback rq w = callback oa env am rq w"
| "dispatch oa newest dc env am PostLogout rq w = logout env am rq w"
| "dispatch oa newest dc env am GetMe rq w = me env am rq w"
| "dispatch oa newest dc env am PostApprove rq w = approve (dc_approve dc) env am rq w"
| "dispatch oa newest dc env am PostReject rq w = reject (dc_reason dc) env am rq w"
| "dispatch oa newest dc env am GetPendingLinks rq w = pendingLinks env am rq w"
| "dispatch oa newest dc env am GetUsers rq w = users env am rq w"
| "dispatch oa newest dc env am PutRole rq w = setRole (dc_role dc) env am rq w"
| "dispatch oa newest dc env am PostBlock rq w = block (dc_reason dc) env am rq w"
| "dispatch oa newest dc env am PostTeachers rq w = assignTeacher (dc_teacher dc) env am rq w"
| "dispatch oa newest dc env am PostPreview rq w = previewRoster (dc_roster dc) env am rq w"
| "dispatch oa newest dc env am PostRoster rq w = applyRoster (dc_roster dc) env am rq w"
| "dispatch oa newest dc env am PutView rq w = view (dc_view dc) env am rq w"
| "dispatch oa newest dc env am DeleteView rq w = clearView env am rq w"
| "dispatch oa newest dc env am GetGroups rq w = list_groups env am rq w"
| "dispatch oa newest dc env am PostGroups rq w = createGroup (dc_group dc) env am rq w"
| "dispatch oa newest dc env am GetLabs rq w = labs env am rq w"
| "dispatch oa newest dc env am PostLabs rq w = createLab (dc_lab dc) env am rq w"
| "dispatch oa newest dc env am GetSubmissions rq w = submissions newest env am rq w"
| "dispatch oa newest dc env am GetApp rq w = app newest env am rq w"

definition serve ::
  "oauth \<Rightarrow> (uuid \<Rightarrow> string option) \<Rightarrow> decoders \<Rightarrow> installation \<Rightarrow> ambient \<Rightarrow> 8 word list option \<Rightarrow> 64 word \<Rightarrow> route \<Rightarrow> Request \<Rightarrow> site
   \<Rightarrow> site \<times> Response" where
  "serve oa newest dc env am rnd milliseconds r rq w = requestID rnd milliseconds (dispatch oa newest dc env am r) rq w"

end
