(* ===== verification/Http_Properties.thy ===== *)
theory Http_Properties
  imports Http
begin

text \<open>
  What the HTTP interface promises: who may change the site, that changes are recorded, that a
  refused request changes nothing, and that requests move the account tables only by the steps of
  the account model.
\<close>

section \<open>How handlers begin and end\<close>

text \<open>The session behind a request, as the handlers find it.\<close>

definition presents ::
  "installation \<Rightarrow> ambient \<Rightarrow> Request \<Rightarrow> adb \<Rightarrow> session_row \<Rightarrow> User \<Rightarrow> bool" where
  "presents env am rq b ws user \<longleftrightarrow>
     (\<exists>token. rq_cookie rq ''cppdefense_session'' = Some token \<and> token \<noteq> ''''
        \<and> ws \<in> set (sessions b) \<and> live_session (am_find am) (HashToken (in_hash_key env) token) ws)
   \<and> UserByID b (ws_user_id ws) = Inr user \<and> usr_status user \<noteq> UserBlocked"

definition has_csrf :: "installation \<Rightarrow> Request \<Rightarrow> session_row \<Rightarrow> bool" where
  "has_csrf env rq ws \<longleftrightarrow>
     has_prefix (rq_header rq ''X-CSRF-Token'') (ws_id ws @ ''.'')
   \<and> VerifyToken (in_csrf_key env) (rq_header rq ''X-CSRF-Token'') (ws_csrf_hash ws)"

lemma FindActive_ok:
  assumes "FindActive key now token b = Inr (session, h)"
  obtains ws where "ws \<in> set (sessions b)" "live_session now (HashToken key token) ws" "session = session_view ws" "h = ws_csrf_hash ws"
  using assms by (auto simp: FindActive_def split: option.splits dest: select_one_SomeD)

lemma authenticate_ok:
  assumes "authenticate env am rq b = Inr (session, user, h)"
  obtains ws where "presents env am rq b ws user" "session = session_view ws" "h = ws_csrf_hash ws"
proof -
  obtain token where t: "rq_cookie rq ''cppdefense_session'' = Some token" "token \<noteq> ''''"
      "FindActive (in_hash_key env) (am_find am) token b = Inr (session, h)" "UserByID b (se_user_id session) = Inr user"
      "usr_status user \<noteq> UserBlocked"
    using assms by (auto simp: authenticate_def split: option.splits if_splits sum.splits prod.splits)
  from t(3) obtain ws where ws: "ws \<in> set (sessions b)" "live_session (am_find am) (HashToken (in_hash_key env) token) ws"
      "session = session_view ws" "h = ws_csrf_hash ws"
    by (rule FindActive_ok)
  then show thesis using t that [of ws] by (simp add: presents_def session_view_def)
qed

lemma writeProblem_status [simp]: "rs_status (writeProblem rq n c) = n" "rs_cookies (writeProblem rq n c) = []"
  by (simp_all add: writeProblem_def reply_def)

lemma authenticate_refuses:
  "authenticate env am rq b = Inl p \<Longrightarrow> rs_status p = 401 \<or> rs_status p = 500"
  by (auto simp: authenticate_def split: option.splits if_splits sum.splits prod.splits)

lemma authorizeCSRF_refuses: "authorizeCSRF env rq session h = Inl p \<Longrightarrow> rs_status p = 403"
  by (auto simp: authorizeCSRF_def split: sum.splits)

lemma authorizeCSRF_ok: "authorizeCSRF env rq (session_view ws) (ws_csrf_hash ws) = Inr u \<Longrightarrow> has_csrf env rq ws"
  by (auto simp: authorizeCSRF_def VerifyCSRFToken_def has_csrf_def session_view_def split: sum.splits if_splits)

lemma authorizeMutation_refuses: "authorizeMutation env rq session h = Inl p \<Longrightarrow> rs_status p = 403"
  by (auto simp: authorizeMutation_def split: sum.splits if_splits dest: authorizeCSRF_refuses)

lemma authorizeMutation_ok:
  "authorizeMutation env rq (session_view ws) (ws_csrf_hash ws) = Inr u \<Longrightarrow> has_csrf env rq ws \<and> ws_view_role ws = None"
proof -
  assume a: "authorizeMutation env rq (session_view ws) (ws_csrf_hash ws) = Inr u"
  then have "authorizeCSRF env rq (session_view ws) (ws_csrf_hash ws) = Inr ()"
    by (auto simp: authorizeMutation_def split: sum.splits)
  then show ?thesis using a authorizeCSRF_ok by (auto simp: authorizeMutation_def session_view_def split: if_splits)
qed

lemma admitted_cases:
  assumes "admitted authorize env am rq b refuse k = x"
    and "\<And>session h p. authorize env rq session h = Inl p \<Longrightarrow> rs_status p \<ge> 400"
  obtains (refused) p where "x = refuse p" "rs_status p \<ge> 400"
    | (go) ws user u where "presents env am rq b ws user" "authorize env rq (session_view ws) (ws_csrf_hash ws) = Inr u"
        "x = k (session_view ws) user"
proof (cases "authenticate env am rq b")
  case (Inl p)
  then show thesis using assms(1) refused [of p] authenticate_refuses [OF Inl] by (auto simp: admitted_def)
next
  case (Inr y)
  obtain session user h where y: "y = (session, user, h)" by (cases y)
  from Inr obtain ws where ws: "presents env am rq b ws user" "session = session_view ws" "h = ws_csrf_hash ws"
    unfolding y by (rule authenticate_ok)
  show thesis
  proof (cases "authorize env rq session h")
    case (Inl p)
    then show thesis using assms(1) assms(2) [OF Inl] Inr refused [of p] by (simp add: admitted_def y)
  next
    case ok: (Inr u)
    then show thesis using assms(1) Inr ws by (intro go [of ws user u]) (simp_all add: admitted_def y)
  qed
qed

lemma signed_in_cases:
  assumes "signed_in env am rq w k = (w', rs)"
  obtains (refused) "w' = w" "rs_status rs \<ge> 400"
    | (go) ws user where "presents env am rq (adb_of w) ws user" "k (session_view ws) user = (w', rs)"
  using assms unfolding signed_in_def
  by (rule admitted_cases) auto

lemma with_token_cases:
  assumes "with_token env am rq w k = (w', rs)"
  obtains (refused) "w' = w" "rs_status rs \<ge> 400"
    | (go) ws user where "presents env am rq (adb_of w) ws user" "has_csrf env rq ws" "k (session_view ws) user = (w', rs)"
  using assms unfolding with_token_def
  by (rule admitted_cases) (auto dest: authorizeCSRF_refuses authorizeCSRF_ok)

lemma mutating_cases:
  assumes "mutating env am rq w k = (w', rs)"
  obtains (refused) "w' = w" "rs_status rs \<ge> 400"
    | (go) ws user where "presents env am rq (adb_of w) ws user" "has_csrf env rq ws" "ws_view_role ws = None"
        "k (session_view ws) user = (w', rs)"
  using assms unfolding mutating_def
  by (rule admitted_cases) (auto dest: authorizeMutation_refuses authorizeMutation_ok)

text \<open>The row of an event, and the two ends of \<open>recorded\<close>.\<close>

definition event_row :: "Event \<Rightarrow> audit_row \<Rightarrow> bool" where
  "event_row ev r \<longleftrightarrow>
     au_actor_id r = ev_actor_id ev \<and> au_actor_kind r = ev_actor_kind ev \<and> au_action r = ev_action ev
   \<and> au_target_type r = ev_target_type ev \<and> au_target_id r = ev_target_id ev \<and> au_request_id r = ev_request_id ev \<and> au_reason r = ev_reason ev"

lemma Record_row:
  assumes "Record m b i gap now ev rows = Inr rows'"
  shows "\<exists>r. rows' = rows @ [r] \<and> event_row ev r"
  using assms by (rule Record_ok) (auto simp: event_row_def new_audit_row_def Let_def)

lemma recorded_cases:
  assumes "recorded env am w1 ev failure success = (w', rs)"
  obtains (failed) e where "w' = w1" "rs = failure e"
    | (ok) r where "site_db w' = site_db w1" "site_log w' = site_log w1 @ [r]" "event_row ev r" "rs = success"
  using assms by (auto simp: recorded_def split: sum.splits dest!: Record_row)

lemma Record_error:
  assumes "Record m b (event_id am) gap now ev rows = Inl e"
  shows "e \<noteq> ErrForbidden \<and> e \<noteq> ErrConflict"
  using assms
  by (auto simp: Record_def Append_def bind_result_def event_id_def statement_def split: if_splits option.splits sum.splits)

lemma site_simps [simp]:
  "adb_of (set_adb b w) = b" "site_log (set_adb b w) = site_log w" "adb_of (w\<lparr>site_log := l\<rparr>) = adb_of w"
  "site_db (set_adb b w) = (site_db w)\<lparr>base := b\<rparr>" "set_adb (adb_of w) w = w"
  by (simp_all add: adb_of_def set_adb_def)

section \<open>The outcome of a handler\<close>

text \<open>
  Either the request is refused, nothing is recorded, and with a status below 500 nothing changed at
  all; or it succeeds and exactly one event of the actor is recorded.  In both cases the database
  moves, if it does, as \<open>D\<close> says.
\<close>

definition outcome ::
  "(idb \<Rightarrow> idb \<Rightarrow> bool) \<Rightarrow> Request \<Rightarrow> string \<Rightarrow> User \<Rightarrow> site \<Rightarrow> site \<Rightarrow> Response \<Rightarrow> bool" where
  "outcome D rq action user w w' rs \<longleftrightarrow>
     (site_db w' = site_db w \<or> D (site_db w) (site_db w'))
   \<and> (rs_status rs \<ge> 400 \<and> site_log w' = site_log w \<and> (rs_status rs < 500 \<longrightarrow> w' = w)
      \<or> rs_status rs < 400 \<and> (\<exists>r. site_log w' = site_log w @ [r] \<and> au_action r = action \<and> au_actor_kind r = ''user''
           \<and> au_actor_id r = Some (usr_id user) \<and> au_request_id r = rq_id rq))"

lemma outcome_refused: "rs_status rs \<ge> 400 \<Longrightarrow> outcome D rq action user w w rs"
  by (simp add: outcome_def)

lemma outcome_failed:
  "rs_status rs \<ge> 500 \<Longrightarrow> D (site_db w) (site_db w') \<Longrightarrow> site_log w' = site_log w \<Longrightarrow> outcome D rq action user w w' rs"
  by (simp add: outcome_def)

lemma outcome_recorded:
  assumes "recorded env am w1 (user_event rq user action t i reason md) failure success = (w', rs)"
    and "site_log w1 = site_log w" and "site_db w1 = site_db w \<or> D (site_db w) (site_db w1)"
    and "\<And>e. e \<noteq> ErrForbidden \<Longrightarrow> e \<noteq> ErrConflict \<Longrightarrow> rs_status (failure e) \<ge> 500" and "rs_status success < 400"
  shows "outcome D rq action user w w' rs"
proof (cases "Record (in_marshal env) (adb_of w1) (event_id am) (am_event_gap am) (am_event_time am)
    (user_event rq user action t i reason md) (site_log w1)")
  case (Inl e)
  have "rs_status (failure e) \<ge> 500" using assms(4) Record_error [OF Inl] by blast
  then show ?thesis using assms(1-3) Inl by (auto simp: recorded_def outcome_def)
next
  case (Inr rows)
  from Record_row [OF Inr] obtain r where "rows = site_log w1 @ [r]" "event_row (user_event rq user action t i reason md) r" by blast
  then show ?thesis using assms Inr by (auto simp: recorded_def outcome_def event_row_def user_event_def)
qed

lemma fail_status:
  "rs_status (admin_fail rq e) \<ge> 400" "rs_status (catalog_fail rq e) \<ge> 400" "rs_status (writeAuthorizationError rq e) \<ge> 400"
  "e \<noteq> ErrForbidden \<Longrightarrow> e \<noteq> ErrConflict \<Longrightarrow> rs_status (admin_fail rq e) \<ge> 500"
  "e \<noteq> ErrForbidden \<Longrightarrow> rs_status (catalog_fail rq e) \<ge> 500"
  by (simp_all add: admin_fail_def catalog_fail_def writeAuthorizationError_def)

lemma reply_status [simp]: "rs_status (reply n b) = n" "rs_status (writeJSON n b) = n" "rs_status (clearCookies env rs) = rs_status rs"
  by (simp_all add: reply_def writeJSON_def clearCookies_def)

text \<open>A step of the account model, as a move of the whole database.\<close>

definition account_move :: "(string \<Rightarrow> string) \<Rightarrow> (string \<Rightarrow> string) \<Rightarrow> int \<Rightarrow> idb \<Rightarrow> idb \<Rightarrow> bool" where
  "account_move ul ci boot d d' \<longleftrightarrow> (\<exists>b. account_step ul ci boot (base d) b \<and> d' = d\<lparr>base := b\<rparr>)"

lemma account_moveI: "account_step ul ci boot (adb_of w) b \<Longrightarrow> account_move ul ci boot (site_db w) (site_db (set_adb b w))"
  unfolding account_move_def by (auto simp: adb_of_def)

text \<open>An approval or rejection that reports an error has changed nothing.\<close>

lemma UserByID_evolves:
  assumes "evolves T S s s'" and "account s u \<noteq> None" and "identity_of s u \<noteq> None"
  shows "\<not> isl (UserByID s' u)"
proof -
  from assms(2,3) obtain a g where "a \<in> set (accounts s)" "acc_id a = u" "g \<in> set (identities s)" "gi_user_id g = u"
    by (auto simp: account_def identity_of_def select_one_None_iff)
  moreover have "grows (account_evolves T S) (account_new T S) (accounts s) (accounts s')"
    "grows identity_evolves (\<lambda>_. True) (identities s) (identities s')"
    using assms(1) by (simp_all add: evolves_def)
  ultimately obtain a' g' where "a' \<in> set (accounts s')" "account_evolves T S a a'" "g' \<in> set (identities s')" "identity_evolves g g'"
    by (blast dest: grows_keeps)
  then have "account s' u \<noteq> None" "identity_of s' u \<noteq> None" using \<open>acc_id a = u\<close> \<open>gi_user_id g = u\<close>
    unfolding account_evolves_def identity_evolves_def
    by (auto simp: account_def identity_of_def select_one_None_iff)
  then show ?thesis by (auto simp: UserByID_def queryUser_def)
qed

lemma updated_user_found:
  assumes "update_accounts now (\<lambda>a. acc_id a = u) f s2 = Some s3" and "finishIdempotency actor r key u s3 = Inr s4"
    and "commit (\<lambda>v. v = u) s4 = Some s'" and "account s2 u \<noteq> None" and "identity_of s2 u \<noteq> None"
    and "\<And>a. acc_id (f a) = acc_id a \<and> acc_created_at (f a) = acc_created_at a"
  shows "\<not> isl (UserByID s' u)"
proof -
  have "evolves {u} {u} s2 s3" by (rule update_accounts_evolves [OF assms(1)]) (simp add: assms(6))
  then have "evolves {u} {u} s2 s4" using finishIdempotency_moves [OF assms(2), of _ "{u}" "{u}"] evolves_trans by (auto simp: moves_def)
  then have "evolves {u} {u} s2 s'" using assms(3) by (auto simp: commit_def split: if_splits)
  then show ?thesis using assms(4,5) by (rule UserByID_evolves)
qed

lemma ApproveStudent_error:
  assumes "ApproveStudent ci clk i actor u m key s = (s', Inl e)"
  shows "s' = s"
proof (rule ccontr)
  assume "s' \<noteq> s"
  with assms obtain s1 s2 s3 s4 rec where parts: "approvable s1 u" "linkable ci s1 u m = Some rec"
      "update_members ci (\<lambda>q. sm_id q = m) (claim u (clk 1)) s1 = Some s2"
      "update_accounts (clk 2) (\<lambda>a. acc_id a = u) make_student s2 = Some s3"
      "finishIdempotency actor ''pending-link.approve'' key u s3 = Inr s4" "commit (\<lambda>v. v = u) s4 = Some s'"
      "UserByID s' u = Inl e"
    by (auto simp: ApproveStudent_def then_user_def split: option.splits sum.splits prod.splits if_splits)
  have "accounts s2 = accounts s1" "identities s2 = identities s1" using update_members_effect [OF parts(3)] by auto
  then have "account s2 u \<noteq> None" "identity_of s2 u \<noteq> None"
    using parts(1,2) by (auto simp: approvable_def linkable_def account_def identity_of_def split: option.splits)
  then have "\<not> isl (UserByID s' u)" by (rule updated_user_found [OF parts(4-6)]) (simp add: make_student_def)
  with parts(7) show False by simp
qed

lemma RejectUser_error:
  assumes "RejectUser ci clk i actor u reason key s = (s', Inl e)"
  shows "s' = s"
proof (rule ccontr)
  assume "s' \<noteq> s"
  with assms obtain s1 s2 s3 where parts: "account s1 u \<noteq> None" "identity_of s1 u \<noteq> None"
      "update_accounts (clk 1) (\<lambda>a. acc_id a = u) (make_rejected reason) s1 = Some s2"
      "finishIdempotency actor ''pending-link.reject'' key u s2 = Inr s3" "commit (\<lambda>v. v = u) s3 = Some s'"
      "UserByID s' u = Inl e"
    by (auto simp: RejectUser_def then_user_def split: option.splits sum.splits prod.splits if_splits)
  have "\<not> isl (UserByID s' u)" by (rule updated_user_found [OF parts(3-5) parts(1,2)]) (simp add: make_rejected_def)
  with parts(6) show False by simp
qed

lemma admin_change_error:
  "SetRole now actor u role s = (s', Inl e) \<Longrightarrow> s' = s \<or> e = ErrNoRows"
  "Block clk actor u s = (s', Inl e') \<Longrightarrow> s' = s \<or> e' = ErrNoRows"
  by (auto simp: SetRole_def Block_def Let_def admin_user_def split: if_splits option.splits)

section \<open>The handlers\<close>

text \<open>
  What every handler that changes the site promises: without a live session of a person who is not
  blocked and the token of that session nothing happens, and none of it in the preview of another
  role (unless \<open>preview\<close>); with them it ends as \<open>outcome\<close> says.
\<close>

definition guarded ::
  "installation \<Rightarrow> ambient \<Rightarrow> Request \<Rightarrow> bool \<Rightarrow> (idb \<Rightarrow> idb \<Rightarrow> bool) \<Rightarrow> string \<Rightarrow> site \<Rightarrow> site \<Rightarrow> Response \<Rightarrow> bool" where
  "guarded env am rq preview D action w w' rs \<longleftrightarrow>
     w' = w \<and> rs_status rs \<ge> 400
   \<or> (\<exists>ws user. presents env am rq (adb_of w) ws user \<and> has_csrf env rq ws \<and> (preview \<or> ws_view_role ws = None)
        \<and> outcome D rq action user w w' rs)"

lemma guarded_mutating:
  assumes "mutating env am rq w k = (w', rs)" and "\<And>session user. k session user = (w', rs) \<Longrightarrow> outcome D rq action user w w' rs"
  shows "guarded env am rq False D action w w' rs"
  using assms(1) by (rule mutating_cases) (use assms(2) in \<open>auto simp: guarded_def\<close>)

lemma guarded_with_token:
  assumes "with_token env am rq w k = (w', rs)" and "\<And>session user. k session user = (w', rs) \<Longrightarrow> outcome D rq action user w w' rs"
  shows "guarded env am rq True D action w w' rs"
  using assms(1) by (rule with_token_cases) (use assms(2) in \<open>auto simp: guarded_def\<close>)

text \<open>The operations that return the tables and a result together, and those that return tables or an error.\<close>

lemma outcome_split:
  assumes "(case x of (b, Inl e) \<Rightarrow> (set_adb b w, failed e)
              | (b, Inr v) \<Rightarrow> recorded env am (set_adb b w) (user_event rq user action t (i v) reason md) failure (success v)) = (w', rs)"
    and "\<And>b r. x = (b, r) \<Longrightarrow> account_step ul ci boot (adb_of w) b"
    and "\<And>b e. x = (b, Inl e) \<Longrightarrow> b = adb_of w \<or> rs_status (failed e) \<ge> 500" and "\<And>e. rs_status (failed e) \<ge> 400"
    and "\<And>e. e \<noteq> ErrForbidden \<Longrightarrow> e \<noteq> ErrConflict \<Longrightarrow> rs_status (failure e) \<ge> 500" and "\<And>v. rs_status (success v) < 400"
  shows "outcome (account_move ul ci boot) rq action user w w' rs"
proof -
  obtain b r where x: "x = (b, r)" by (cases x)
  have m: "account_move ul ci boot (site_db w) (site_db (set_adb b w))" using assms(2) [OF x] by (rule account_moveI)
  show ?thesis
  proof (cases r)
    case (Inl e)
    then have "w' = set_adb b w" "rs = failed e" using assms(1) x by auto
    with assms(3) [of b e] assms(4) [of e] m x Inl show ?thesis by (auto intro: outcome_refused outcome_failed)
  next
    case (Inr v)
    then have "recorded env am (set_adb b w) (user_event rq user action t (i v) reason md) failure (success v) = (w', rs)"
      using assms(1) x by simp
    then show ?thesis by (rule outcome_recorded) (use m assms(5,6) in simp_all)
  qed
qed

lemma outcome_result:
  assumes "(case x of Inl e \<Rightarrow> (w, failed e)
              | Inr v \<Rightarrow> recorded env am (next_site v) (user_event rq user action t (i v) reason md) failure (success v)) = (w', rs)"
    and "\<And>v. x = Inr v \<Longrightarrow> D (site_db w) (site_db (next_site v)) \<and> site_log (next_site v) = site_log w" and "\<And>e. rs_status (failed e) \<ge> 400"
    and "\<And>e. e \<noteq> ErrForbidden \<Longrightarrow> e \<noteq> ErrConflict \<Longrightarrow> rs_status (failure e) \<ge> 500" and "\<And>v. rs_status (success v) < 400"
  shows "outcome D rq action user w w' rs"
proof (cases x)
  case (Inl e)
  then show ?thesis using assms(1,3) by (auto intro: outcome_refused)
next
  case (Inr v)
  then have "recorded env am (next_site v) (user_event rq user action t (i v) reason md) failure (success v) = (w', rs)"
    using assms(1) by simp
  then show ?thesis by (rule outcome_recorded) (use assms(2) [OF Inr] assms(4,5) in simp_all)
qed

lemma logout_guarded:
  "logout env am rq w = (w', rs) \<Longrightarrow> guarded env am rq True (account_move ul ci boot) ''auth.logout'' w w' rs"
  unfolding logout_def
  by (erule guarded_with_token, erule outcome_result) (auto intro!: account_moveI [unfolded site_simps] account_step.revoke)

lemmas account_moves = account_moveI [unfolded site_simps]

lemma clearView_guarded:
  "clearView env am rq w = (w', rs) \<Longrightarrow> guarded env am rq True (account_move ul ci boot) ''admin.view_as.stop'' w w' rs"
  unfolding clearView_def
  by (erule guarded_with_token, erule outcome_result) (auto intro!: account_moves account_step.unview simp: fail_status)

text \<open>A body that cannot be decoded, and a check of the decoded one.\<close>

lemma outcome_decode:
  assumes "(case x of None \<Rightarrow> (w, p) | Some v \<Rightarrow> k v) = (w', rs)" and "rs_status p \<ge> 400"
    and "\<And>v. k v = (w', rs) \<Longrightarrow> outcome D rq action user w w' rs"
  shows "outcome D rq action user w w' rs"
  using assms by (cases x) (auto intro: outcome_refused)

lemma outcome_if:
  assumes "(if c then (w, p) else k) = (w', rs)" and "rs_status p \<ge> 400" and "k = (w', rs) \<Longrightarrow> outcome D rq action user w w' rs"
  shows "outcome D rq action user w w' rs"
  using assms by (cases c) (auto intro: outcome_refused)

lemma outcome_parse:
  assumes "(case x of Inl e \<Rightarrow> (w, p) | Inr v \<Rightarrow> k v) = (w', rs)" and "rs_status p \<ge> 400"
    and "\<And>v. k v = (w', rs) \<Longrightarrow> outcome D rq action user w w' rs"
  shows "outcome D rq action user w w' rs"
  using assms by (cases x) (auto intro: outcome_refused)

lemma outcome_pair:
  assumes "(case v of (a, b) \<Rightarrow> k a b) = (w', rs)" and "\<And>a b. k a b = (w', rs) \<Longrightarrow> outcome D rq action user w w' rs"
  shows "outcome D rq action user w w' rs"
  using assms by (cases v) auto

lemma approve_guarded:
  "approve decoder env am rq w = (w', rs) \<Longrightarrow>
   guarded env am rq False (account_move ul (in_ci env) boot) ''student_link.approve'' w w' rs"
  unfolding approve_def
  by (erule guarded_mutating, erule outcome_decode, simp, erule outcome_pair, erule outcome_if, simp, erule outcome_if, simp, erule outcome_split)
    (auto simp: fail_status Approve_def dest: ApproveStudent_error intro: account_step.approve [unfolded Approve_def])

lemma reject_guarded:
  "reject decoder env am rq w = (w', rs) \<Longrightarrow>
   guarded env am rq False (account_move ul (in_ci env) boot) ''student_link.reject'' w w' rs"
  unfolding reject_def
  by (erule guarded_mutating, erule outcome_decode, simp, erule outcome_if, simp, erule outcome_if, simp, erule outcome_split)
    (auto simp: fail_status Reject_def dest: RejectUser_error intro: account_step.reject [unfolded Reject_def] split: if_splits)

lemma setRole_guarded:
  "setRole decoder env am rq w = (w', rs) \<Longrightarrow> guarded env am rq False (account_move ul ci boot) ''admin.user.role'' w w' rs"
  unfolding setRole_def
  by (erule guarded_mutating, erule outcome_decode, simp, erule outcome_split)
    (auto simp: fail_status dest: admin_change_error intro: account_step.set_role)

lemma block_guarded:
  "block decoder env am rq w = (w', rs) \<Longrightarrow> guarded env am rq False (account_move ul ci boot) ''admin.user.block'' w w' rs"
  unfolding block_def
  by (erule guarded_mutating, erule outcome_decode, simp, erule outcome_if, simp, erule outcome_split)
    (auto simp: fail_status dest: admin_change_error intro: account_step.block)

lemma assignTeacher_guarded:
  "assignTeacher decoder env am rq w = (w', rs) \<Longrightarrow>
   guarded env am rq False (account_move ul ci boot) ''admin.group.assign_teacher'' w w' rs"
  unfolding assignTeacher_def
  by (erule guarded_mutating, erule outcome_decode, simp, erule outcome_if, simp, erule outcome_result)
    (auto simp: fail_status intro!: account_moves account_step.assign)

lemma view_guarded:
  "view decoder env am rq w = (w', rs) \<Longrightarrow> guarded env am rq False (account_move ul ci boot) ''admin.view_as.start'' w w' rs"
  unfolding view_def Let_def
  by (erule guarded_mutating, erule outcome_decode, simp, erule outcome_result)
    (auto simp: fail_status intro!: account_moves account_step.view)

lemma outcome_result_pair:
  assumes "(case x of Inl e \<Rightarrow> (w, failed e)
              | Inr (b, v) \<Rightarrow> recorded env am (next_site b) (user_event rq user action t (i v) reason md) failure (success v)) = (w', rs)"
    and "\<And>b v. x = Inr (b, v) \<Longrightarrow> D (site_db w) (site_db (next_site b)) \<and> site_log (next_site b) = site_log w"
    and "\<And>e. rs_status (failed e) \<ge> 400"
    and "\<And>e. e \<noteq> ErrForbidden \<Longrightarrow> e \<noteq> ErrConflict \<Longrightarrow> rs_status (failure e) \<ge> 500" and "\<And>v. rs_status (success v) < 400"
  shows "outcome D rq action user w w' rs"
proof -
  have "(case x of Inl e \<Rightarrow> (w, failed e)
           | Inr y \<Rightarrow> recorded env am (next_site (fst y)) (user_event rq user action t (i (snd y)) reason md) failure (success (snd y))) = (w', rs)"
    using assms(1) by (cases x) auto
  then show ?thesis by (rule outcome_result) (use assms(2-5) in auto)
qed

lemma applyRoster_guarded:
  assumes "applyRoster decoder env am rq w = (w', rs)"
  shows "guarded env am rq False (account_move ul (in_ci env) boot) ''admin.roster.apply'' w w' rs"
proof -
  have step: "account_step ul (in_ci env) boot (adb_of w) b"
    if "ApplyRoster (in_ci env) eqf clk ids u d (adb_of w) = Inr (b, v)" for eqf clk ids u d b v
    using that by (auto simp: ApplyRoster_def bind_result_def split: sum.splits intro: account_step.roster)
  from assms show ?thesis
    unfolding applyRoster_def
    by (elim guarded_mutating outcome_if outcome_decode outcome_parse outcome_result_pair)
      (auto simp: fail_status intro!: account_moves dest: step)
qed

text \<open>Creating a group or a laboratory adds one row.\<close>

definition adds_group :: "idb \<Rightarrow> idb \<Rightarrow> bool" where
  "adds_group d d' \<longleftrightarrow> (\<exists>g. d' = d\<lparr>base := (base d)\<lparr>groups := groups (base d) @ [g]\<rparr>\<rparr>)"

definition adds_lab :: "idb \<Rightarrow> idb \<Rightarrow> bool" where
  "adds_lab d d' \<longleftrightarrow> (\<exists>l. d' = d\<lparr>courses := courses d @ [l]\<rparr>)"

lemma CreateGroup_adds: "CreateGroup ul ci now i actor code name demo d = Inr (d', v) \<Longrightarrow> adds_group d d'"
  by (auto simp: CreateGroup_def bind_result_def Let_def insert_group_def adds_group_def statement_def split: if_splits sum.splits option.splits)

lemma CreateLab_adds: "CreateLab ul ci i actor g code name d = Inr (d', v) \<Longrightarrow> adds_lab d d'"
  by (auto simp: CreateLab_def bind_result_def Let_def insert_course_def adds_lab_def statement_def split: if_splits sum.splits option.splits)

lemma createGroup_guarded:
  "createGroup decoder env am rq w = (w', rs) \<Longrightarrow> guarded env am rq False adds_group ''group.create'' w w' rs"
  unfolding createGroup_def
  by (elim guarded_mutating outcome_if outcome_decode outcome_pair outcome_result_pair) (auto simp: fail_status dest: CreateGroup_adds)

lemma createLab_guarded:
  "createLab decoder env am rq w = (w', rs) \<Longrightarrow> guarded env am rq False adds_lab ''lab.create'' w w' rs"
  unfolding createLab_def
  by (elim guarded_mutating outcome_if outcome_decode outcome_pair outcome_result_pair) (auto simp: fail_status dest: CreateLab_adds)

text \<open>Reading changes nothing.\<close>

lemma signed_in_reads:
  assumes "signed_in env am rq w k = (w', rs)" and "\<And>session user. fst (k session user) = w"
  shows "w' = w"
  using assms(1) by (rule signed_in_cases) (metis assms(2) fst_conv)+

lemma reads:
  "me env am rq w = (w', rs) \<Longrightarrow> w' = w"
  "pendingLinks env am rq w = (w', rs) \<Longrightarrow> w' = w"
  "users env am rq w = (w', rs) \<Longrightarrow> w' = w"
  "previewRoster decoder env am rq w = (w', rs) \<Longrightarrow> w' = w"
  "list_groups env am rq w = (w', rs) \<Longrightarrow> w' = w"
  "labs env am rq w = (w', rs) \<Longrightarrow> w' = w"
  "submissions newest env am rq w = (w', rs) \<Longrightarrow> w' = w"
  "app newest env am rq w = (w', rs) \<Longrightarrow> w' = w"
  unfolding me_def pendingLinks_def users_def previewRoster_def list_groups_def labs_def submissions_def app_def
  by (erule signed_in_reads; auto split: option.splits sum.splits)+

section \<open>Every route\<close>

fun route_action :: "route \<Rightarrow> string option" where
  "route_action PostLogout = Some ''auth.logout''"
| "route_action PostApprove = Some ''student_link.approve''"
| "route_action PostReject = Some ''student_link.reject''"
| "route_action PutRole = Some ''admin.user.role''"
| "route_action PostBlock = Some ''admin.user.block''"
| "route_action PostTeachers = Some ''admin.group.assign_teacher''"
| "route_action PostRoster = Some ''admin.roster.apply''"
| "route_action PutView = Some ''admin.view_as.start''"
| "route_action DeleteView = Some ''admin.view_as.stop''"
| "route_action PostGroups = Some ''group.create''"
| "route_action PostLabs = Some ''lab.create''"
| "route_action r = None"

fun route_move :: "(string \<Rightarrow> string) \<Rightarrow> (string \<Rightarrow> string) \<Rightarrow> int \<Rightarrow> route \<Rightarrow> idb \<Rightarrow> idb \<Rightarrow> bool" where
  "route_move ul ci boot PostGroups = adds_group"
| "route_move ul ci boot PostLabs = adds_lab"
| "route_move ul ci boot r = account_move ul ci boot"

definition previewable :: "route \<Rightarrow> bool" where
  "previewable r \<longleftrightarrow> r = PostLogout \<or> r = DeleteView"

lemmas handlers_guarded = logout_guarded approve_guarded reject_guarded setRole_guarded block_guarded assignTeacher_guarded
  applyRoster_guarded view_guarded clearView_guarded createGroup_guarded createLab_guarded

lemma dispatch_guarded:
  assumes "dispatch oa newest dc env am r rq w = (w', rs)" and "route_action r = Some a"
  shows "guarded env am rq (previewable r) (route_move ul (in_ci env) boot r) a w w' rs"
  using assms by (cases r) (auto simp: previewable_def intro: handlers_guarded)

lemma dispatch_reads:
  assumes "dispatch oa newest dc env am r rq w = (w', rs)" and "route_action r = None" and "r \<noteq> GetStart" and "r \<noteq> GetCallback"
  shows "w' = w"
  using assms by (cases r) (auto dest: reads)

lemma presents_id [simp]: "presents env am (rq\<lparr>rq_id := i\<rparr>) b ws user = presents env am rq b ws user"
  "has_csrf env (rq\<lparr>rq_id := i\<rparr>) ws = has_csrf env rq ws"
  by (simp_all add: presents_def has_csrf_def)

text \<open>The source of randomness gives the sixteen bytes that are asked for.\<close>

definition entropy_ok :: "8 word list option \<Rightarrow> bool" where
  "entropy_ok rnd \<longleftrightarrow> (case rnd of None \<Rightarrow> True | Some b \<Rightarrow> length b = 16)"

lemma serve_cases:
  assumes "serve oa newest dc env am rnd ms r rq w = (w', rs)"
  obtains (no_id) "w' = w" "rs_status rs = 500"
    | (handled) i where "entropy_ok rnd \<Longrightarrow> uuid_pattern i" "dispatch oa newest dc env am r (rq\<lparr>rq_id := i\<rparr>) w = (w', rs)"
proof (cases "uuid_pattern (rq_header rq ''X-Request-ID'')")
  case True
  then show thesis using assms by (intro handled) (simp_all add: serve_def requestID_def)
next
  case False
  show thesis
  proof (cases "NewUUIDv7 rnd ms")
    case (Inl e)
    then show thesis using assms False no_id by (auto simp: serve_def requestID_def)
  next
    case (Inr i)
    then have "entropy_ok rnd \<Longrightarrow> uuid_pattern i"
      by (auto simp: NewUUIDv7_def entropy_ok_def uuid_text_pattern split: option.splits)
    then show thesis using assms False Inr by (intro handled [of i]) (simp_all add: serve_def requestID_def)
  qed
qed



text \<open>The events of the interface keep the separator of the payload out of their fields.\<close>

lemma uuid_pattern_no_bar:
  assumes "uuid_pattern i"
  shows "CHR ''|'' \<notin> set i"
proof -
  obtain a b c d e where i: "i = a @ ''-'' @ b @ ''-'' @ c @ ''-'' @ d @ ''-'' @ e" and g: "uuid_pattern_groups [a, b, c, d, e]"
    using assms by (auto simp: uuid_pattern_iff)
  have "CHR ''|'' \<notin> set x" if "list_all lower_hex x" for x
    using that by (auto simp: list_all_iff lower_hex_def)
  moreover have "list_all lower_hex a" "list_all lower_hex b" "list_all lower_hex c" "list_all lower_hex d" "list_all lower_hex e"
    using g by (auto simp: hex_group_def)
  ultimately show ?thesis by (simp add: i)
qed

lemma interface_events_separable:
  assumes "route_action r = Some a" and "uuid_pattern (rq_id rq)" and "t = ''user'' \<or> t = ''session'' \<or> t = ''organization'' \<or> t = ''group'' \<or> t = ''lab''"
  shows "separable (i, gap, now, user_event rq user a t target reason md)"
proof -
  have "CHR ''|'' \<notin> set a" using assms(1) by (cases r) auto
  then show ?thesis using assms(2,3) uuid_pattern_no_bar by (auto simp: separable_def user_event_def)
qed

section \<open>The account model behind the interface\<close>

lemma try_revoke_run: "account_run ul ci boot b (try_revoke now i b)"
  by (auto simp: try_revoke_def split: sum.splits intro: account_run.stay account_run.more [OF account_run.stay] account_step.revoke)

lemma end_previous_run: "account_run ul ci boot b (end_previous env am rq b)"
  by (auto simp: end_previous_def split: option.splits sum.splits intro: account_run.stay try_revoke_run)

lemma Complete_run:
  assumes "Complete unseal github ul ci boot config clk i j code state s = (s', r)"
  shows "account_run ul ci boot s s'"
proof (cases "ConsumeFlow (clk 0) (sha256 state) s")
  case (Inl e)
  then show ?thesis using assms by (auto simp: Complete_def split: if_splits intro: account_run.stay)
next
  case (Inr x)
  obtain s1 flow where x: "x = (s1, flow)" by (cases x)
  have one: "account_run ul ci boot s s1"
    using Inr x by (auto intro: account_run.more [OF account_run.stay] account_step.consume)
  consider "s' = s" | "s' = s1" | profile r' where "LoginGitHub ul ci boot (\<lambda>n. clk (Suc n)) i j profile s1 = (s', r')"
    using assms Inr x by (auto simp: Complete_def split: if_splits option.splits sum.splits prod.splits)
  then show ?thesis
    by cases (auto intro: account_run.stay one account_run.more [OF one] account_step.login)
qed

lemma setCookies_status [simp]: "rs_status (setCookies env now session rs) = rs_status rs" "rs_status (Redirect l) = 302"
  by (simp_all add: setCookies_def Let_def Redirect_def)

lemma callback_cases:
  assumes "callback oa env am rq w = (w', rs)"
  obtains (stopped) b1 r where
      "Complete (oa_unseal oa) (oa_github oa) (in_ul env) (in_ci env) (oa_boot oa) (oa_config oa) (am_clk am) (am_ids am 0)
         (am_ids am 1) (rq_query rq ''code'') (rq_query rq ''state'') (adb_of w) = (b1, r)"
      "adb_of w' = b1" "rs_status rs \<ge> 400"
    | (created) b1 user path b2 session where
      "Complete (oa_unseal oa) (oa_github oa) (in_ul env) (in_ci env) (oa_boot oa) (oa_config oa) (am_clk am) (am_ids am 0)
         (am_ids am 1) (rq_query rq ''code'') (rq_query rq ''state'') (adb_of w) = (b1, Inr (user, path))"
      "Create_session (in_hash_key env) (in_csrf_key env) (am_app am) (am_clk am 20) (in_session_ttl env) (am_ids am 2)
         (am_random am 0) (am_random am 1) (usr_id user) b1 = Inr (b2, session)"
      "adb_of w' = end_previous env am rq b2 \<and> rs_status rs = 302
       \<or> adb_of w' = try_revoke (am_clk am 22) (se_id (ns_session session)) (end_previous env am rq b2) \<and> rs_status rs = 500"
proof -
  obtain b1 r where c: "Complete (oa_unseal oa) (oa_github oa) (in_ul env) (in_ci env) (oa_boot oa) (oa_config oa) (am_clk am) (am_ids am 0)
      (am_ids am 1) (rq_query rq ''code'') (rq_query rq ''state'') (adb_of w) = (b1, r)" by force
  show thesis
  proof (cases r)
    case (Inl e)
    then show thesis using assms c by (intro stopped [OF c]) (auto simp: callback_def)
  next
    case (Inr x)
    obtain user path where x: "x = (user, path)" by (cases x)
    show thesis
    proof (cases "Create_session (in_hash_key env) (in_csrf_key env) (am_app am) (am_clk am 20) (in_session_ttl env) (am_ids am 2)
        (am_random am 0) (am_random am 1) (usr_id user) b1")
      case err: (Inl e)
      then show thesis using assms c Inr x by (intro stopped [OF c]) (auto simp: callback_def)
    next
      case ok: (Inr y)
      obtain b2 session where y: "y = (b2, session)" by (cases y)
      show thesis
        by (rule created [OF c [unfolded Inr x] ok [unfolded y]])
          (use assms c Inr x ok y in \<open>auto simp: callback_def Let_def split: sum.splits\<close>)
    qed
  qed
qed

lemma callback_run:
  assumes "callback oa env am rq w = (w', rs)"
  shows "account_run (in_ul env) (in_ci env) (oa_boot oa) (adb_of w) (adb_of w')"
  using assms
proof (cases rule: callback_cases)
  case (created b1 user path b2 session)
  have "account_run (in_ul env) (in_ci env) (oa_boot oa) (adb_of w) b2"
    using Complete_run [OF created(1)] created(2) by (rule account_run.more [OF _ account_step.create])
  then have run: "account_run (in_ul env) (in_ci env) (oa_boot oa) (adb_of w) (end_previous env am rq b2)"
    by (rule account_run_trans [OF end_previous_run])
  from created(3) show ?thesis using run account_run_trans [OF try_revoke_run run] by auto
qed (auto dest: Complete_run)


section \<open>A sign-in that fails\<close>

lemma no_session_statements:
  "update_accounts now c f s = Some s' \<Longrightarrow> sessions s' = sessions s"
  "update_identities c1 f1 s = Some s' \<Longrightarrow> sessions s' = sessions s"
  "update_members ci c2 f2 s = Some s' \<Longrightarrow> sessions s' = sessions s"
  "update_flows c3 f3 s = Some s' \<Longrightarrow> sessions s' = sessions s"
  "insert_account a s = Some s' \<Longrightarrow> sessions s' = sessions s"
  "insert_identity g s = Some s' \<Longrightarrow> sessions s' = sessions s"
  "commit touched s = Some s' \<Longrightarrow> sessions s' = sessions s"
  by (auto simp: update_accounts_def update_identities_def update_members_def update_flows_def insert_account_def insert_identity_def
      commit_def split: if_splits)

lemma LoginGitHub_sessions:
  assumes "LoginGitHub ul ci boot clk i j profile s = (s', r)"
  shows "sessions s' = sessions s"
proof -
  have known: "sessions t = sessions s" if "login_known ul boot clk profile user s = Inr (t, u)" for t u user
    using that by (auto simp: login_known_def Let_def dest!: no_session_statements split: if_splits)
  have new: "sessions t = sessions s" if "login_new ul ci boot clk i j profile s = Inr (t, u)" for t u
    using that by (auto simp: login_new_def Let_def dest!: no_session_statements split: if_splits)
  show ?thesis
    using assms known new by (auto simp: LoginGitHub_def then_user_def split: sum.splits if_splits)
qed

lemma Complete_sessions:
  assumes "Complete unseal github ul ci boot config clk i j code state s = (s', r)"
  shows "sessions s' = sessions s"
proof (cases "ConsumeFlow (clk 0) (sha256 state) s")
  case (Inl e)
  then show ?thesis using assms by (auto simp: Complete_def split: if_splits)
next
  case (Inr x)
  obtain s1 flow where x: "x = (s1, flow)" by (cases x)
  have one: "sessions s1 = sessions s"
    using Inr x by (auto simp: ConsumeFlow_def dest!: no_session_statements split: option.splits)
  consider "s' = s" | "s' = s1" | profile r' where "LoginGitHub ul ci boot (\<lambda>n. clk (Suc n)) i j profile s1 = (s', r')"
    using assms Inr x by (auto simp: Complete_def split: if_splits option.splits sum.splits prod.splits)
  then show ?thesis using one by cases (auto dest: LoginGitHub_sessions)
qed

text \<open>A revocation of tables in order goes through; the sessions left open are as they were, and others.\<close>

lemma Revoke_effect:
  assumes "Revoke now i b = Inr b'" and "ws \<in> set (sessions b')" and "ws_revoked_at ws = None"
  shows "ws \<in> set (sessions b) \<and> ws_id ws \<noteq> i"
proof -
  from assms(1) obtain xs where xs: "b' = b\<lparr>sessions := xs\<rparr>"
      "exec_update (\<lambda>w. ws_id w = i) (\<lambda>w. row_check session_check (revoke_session now w)) (sessions b) = Some xs"
    by (auto simp: Revoke_def update_sessions_def checked_Some_iff)
  from exec_update_memD [OF xs(2)] assms(2) xs(1) obtain w where "w \<in> set (sessions b)"
      "updated_row (\<lambda>w. ws_id w = i) (\<lambda>w. row_check session_check (revoke_session now w)) w ws"
    by auto
  then show ?thesis
    using assms(3) by (auto simp: updated_row_def row_check_def revoke_session_def split: if_splits option.splits)
qed

lemma Revoke_succeeds:
  assumes "adb_ok ci b"
  shows "\<not> isl (Revoke now i b)"
proof -
  have ok: "list_all session_check (sessions b)" "sessions_unique (sessions b)" using assms by (simp_all add: adb_ok_def)
  obtain xs where xs: "exec_update (\<lambda>w. ws_id w = i) (\<lambda>w. row_check session_check (revoke_session now w)) (sessions b) = Some xs"
    using exec_update_total [of "sessions b" "\<lambda>w. ws_id w = i" "\<lambda>w. row_check session_check (revoke_session now w)"] ok(1)
    by (force simp: row_check_def list_all_iff session_check_def revoke_session_def)
  have "map ws_id xs = map ws_id (sessions b)" "map ws_token_hash xs = map ws_token_hash (sessions b)"
    by (rule exec_update_map [OF xs]; force simp: row_check_def revoke_session_def split: if_splits)+
  then have "sessions_unique xs" using ok(2) by (simp add: sessions_unique_def unique_on_def)
  with xs show ?thesis by (simp add: Revoke_def update_sessions_def checked_def)
qed

lemma end_previous_open:
  "ws \<in> set (sessions (end_previous env am rq b)) \<Longrightarrow> ws_revoked_at ws = None \<Longrightarrow> ws \<in> set (sessions b)"
  by (auto simp: end_previous_def try_revoke_def split: option.splits sum.splits dest: Revoke_effect)


section \<open>An example\<close>

text \<open>The administrator \<open>root\<close> has a session and signs out.\<close>

definition web_session :: session_row where
  "web_session =
     \<lparr>ws_id = ''sid'', ws_user_id = ''root'', ws_token_hash = HashToken ''k'' (base64_url ''x''),
      ws_csrf_hash = HashToken ''c'' (''sid.'' @ base64_url ''y''), ws_view_role = None, ws_view_target = None, ws_created_at = 0,
      ws_expires_at = 10, ws_revoked_at = None\<rparr>"

definition web_adb :: adb where
  "web_adb = acct_root\<lparr>sessions := [web_session]\<rparr>"

definition web_site :: site where
  "web_site = \<lparr>site_db = imp_start\<lparr>base := web_adb\<rparr>, site_log = []\<rparr>"

definition web_env :: installation where
  "web_env =
     \<lparr>in_hash_key = ''k'', in_csrf_key = ''c'', in_session_ttl = 10, in_secure = True, in_ul = id, in_ci = id, in_eqfold = (=),
      in_collate = (\<lambda>a b. False), in_marshal = ex_marshal\<rparr>"

definition web_am :: ambient where
  "web_am =
     \<lparr>am_find = 5, am_clk = (\<lambda>_. 6), am_roster_clk = (\<lambda>_ _. 6), am_app = 6, am_event_time = 6000, am_event_id = Some ''e1'', am_event_gap = 0,
      am_ids = (\<lambda>_. ''n''), am_random = (\<lambda>_. None)\<rparr>"

definition web_rq :: Request where
  "web_rq =
     \<lparr>rq_header = (\<lambda>h. if h = ''X-Request-ID'' then ''01890a5d-ac96-774b-bcce-b302099a8057''
                       else if h = ''X-CSRF-Token'' then ''sid.'' @ base64_url ''y'' else ''''),
      rq_cookie = (\<lambda>c. Some (base64_url ''x'')), rq_path = (\<lambda>_. ''''), rq_query = (\<lambda>_. ''''), rq_body = '''', rq_id = ''''\<rparr>"

definition web_oauth :: oauth where
  "web_oauth =
     \<lparr>oa_seal = acct_seal, oa_unseal = acct_unseal, oa_github = (\<lambda>_ _ _ _. Inl ErrUnavailable), oa_boot = 1, oa_config = acct_config\<rparr>"

definition web_dc :: decoders where
  "web_dc =
     \<lparr>dc_approve = (\<lambda>_ _. None), dc_reason = (\<lambda>_ _. None), dc_role = (\<lambda>_ _. None), dc_teacher = (\<lambda>_ _. None), dc_view = (\<lambda>_ _. None),
      dc_group = (\<lambda>_ _. None), dc_lab = (\<lambda>_ _. None), dc_roster = (\<lambda>_. Inl ErrDatabase)\<rparr>"

abbreviation web_serve :: "route \<Rightarrow> site \<times> Response" where
  "web_serve r \<equiv> serve web_oauth (\<lambda>_. None) web_dc web_env web_am None 0 r web_rq web_site"

lemma length_HashToken [simp]: "length (HashToken k m) = 32"
  by (simp add: HashToken_def hmac_def Let_def)

lemma acct_root_facts:
  "exists_id acc_id ''root'' (accounts acct_root)" "sessions acct_root = []"
  by code_simp+

lemma web_adb_reachable: "account_reachable id id 1 web_adb"
proof -
  have "account_run id id 1 acct_empty acct_root"
    unfolding acct_root_def by (rule account_run.more [OF account_run.stay account_step.login]) (rule prod.collapse [symmetric])
  moreover obtain n where "Create_session ''k'' ''c'' 0 0 10 ''sid'' (Some ''x'') (Some ''y'') ''root'' acct_root = Inr (web_adb, n)"
    using acct_root_facts
    by (auto simp: Create_session_def NewToken_def NewCSRFToken_def Let_def insert_session_def session_check_def sessions_unique_def
        unique_on_def web_adb_def web_session_def simp del: base64_url.simps)
  ultimately have "account_run id id 1 acct_empty web_adb" by (rule account_run.more [OF _ account_step.create])
  then show ?thesis by (rule acct_run_reachable)
qed

lemma web_user: "\<exists>u. UserByID web_adb ''root'' = Inr u \<and> usr_id u = ''root'' \<and> usr_status u = UserActive"
proof -
  have "case UserByID acct_root ''root'' of Inl _ \<Rightarrow> False | Inr u \<Rightarrow> usr_id u = ''root'' \<and> usr_status u = UserActive" by code_simp
  moreover have "UserByID web_adb ''root'' = UserByID acct_root ''root''"
    by (simp add: UserByID_def queryUser_def account_def identity_of_def web_adb_def)
  ultimately show ?thesis by (auto split: sum.splits)
qed

lemma web_authenticated:
  "\<exists>u. authenticate web_env web_am (web_rq\<lparr>rq_id := i\<rparr>) web_adb = Inr (session_view web_session, u, ws_csrf_hash web_session) \<and> usr_id u = ''root''"
proof -
  have "base64_url ''x'' \<noteq> ''''" by code_simp
  then show ?thesis
    using web_user
    by (auto simp: authenticate_def web_env_def web_am_def web_rq_def FindActive_def select_one_def live_session_def web_adb_def
        web_session_def session_view_def simp del: base64_url.simps)
qed

definition web_signed_out :: adb where
  "web_signed_out = acct_root\<lparr>sessions := [web_session\<lparr>ws_revoked_at := Some 6\<rparr>]\<rparr>"

lemma web_revoke: "Revoke 6 ''sid'' web_adb = Inr web_signed_out"
  by (simp add: Revoke_def update_sessions_def web_adb_def web_signed_out_def checked_def row_check_def session_check_def sessions_unique_def
      unique_on_def revoke_session_def web_session_def)

lemma web_id: "uuid_pattern ''01890a5d-ac96-774b-bcce-b302099a8057''"
  by code_simp

lemma web_rq_id: "rq_header web_rq ''X-Request-ID'' = ''01890a5d-ac96-774b-bcce-b302099a8057''"
  by (simp add: web_rq_def)

lemma web_fields:
  "se_id (session_view web_session) = ''sid''" "am_clk web_am n = 6" "am_event_id web_am = Some ''e1''" "am_event_gap web_am = 0"
  "am_event_time web_am = 6000" "in_marshal web_env = ex_marshal" "in_ul web_env = id" "in_ci web_env = id" "oa_boot web_oauth = 1"
  by (simp_all add: session_view_def web_session_def web_am_def web_env_def web_oauth_def)

lemma web_logout: "\<exists>w' rs. web_serve PostLogout = (w', rs) \<and> w' \<noteq> web_site \<and> rs_status rs = 204"
proof -
  let ?rq = "web_rq\<lparr>rq_id := ''01890a5d-ac96-774b-bcce-b302099a8057''\<rparr>"
  obtain u where u: "authenticate web_env web_am ?rq web_adb = Inr (session_view web_session, u, ws_csrf_hash web_session)" "usr_id u = ''root''"
    using web_authenticated by blast
  have csrf: "authorizeCSRF web_env ?rq (session_view web_session) (ws_csrf_hash web_session) = Inr ()"
    by (simp add: authorizeCSRF_def VerifyCSRFToken_def VerifyToken_def web_env_def web_rq_def session_view_def web_session_def has_prefix_def
        del: base64_url.simps)
  let ?ev = "user_event ?rq u ''auth.logout'' ''session'' (Some ''sid'') None []"
  have "\<exists>rows. Record ex_marshal web_signed_out (Inr ''e1'') 0 6000 ?ev [] = Inr rows"
    using acct_root_facts u(2)
    by (simp add: Record_def Append_def user_event_def web_rq_def insert_audit_def audit_check_def new_audit_row_def Let_def audit_kinds_def
        previous_hash_def slice_stable_def nullableBytes_def references_def unique_on_def web_signed_out_def del: base64_url.simps)
  then obtain rows where rows: "Record ex_marshal web_signed_out (Inr ''e1'') 0 6000 ?ev [] = Inr rows" by blast
  have site: "adb_of web_site = web_adb" "site_log web_site = []" by (simp_all add: web_site_def adb_of_def)
  have "dispatch web_oauth (\<lambda>_. None) web_dc web_env web_am PostLogout ?rq web_site =
      ((set_adb web_signed_out web_site)\<lparr>site_log := rows\<rparr>, clearCookies web_env (reply 204 NoBody))"
    using u csrf rows site web_revoke by (simp add: logout_def with_token_def admitted_def recorded_def event_id_def web_fields)
  moreover have "rows \<noteq> []" using Record_row [OF rows] by auto
  ultimately show ?thesis
    by (auto simp: serve_def requestID_def web_rq_def web_id site dest!: arg_cong [where f = site_log] simp del: dispatch.simps base64_url.simps)
qed





end
