(* ===== verification/Repository_View.thy ===== *)
theory Repository_View
  imports Defense_Reads Importer Storage_Keys
begin

text \<open>
  What a person sees of the sources of a submission during a defense: the pure functions of
  \<open>transport/httpapi/defense.go\<close> and \<open>hide_seek.go\<close>, above the source access of the repository and the
  archive in the store.  The theory shows that the masked view of a file is independent of the body
  that the student has to restore, and keeps its lines.

  Offsets are \<open>int64\<close> in the code and bounded by the size of a file, at most 2 MiB, so that no sum
  overflows.
\<close>

section \<open>Paths\<close>

definition safeRepositoryPath :: "string \<Rightarrow> bool" where
  "safeRepositoryPath v \<longleftrightarrow>
     v \<noteq> '''' \<and> v = clean v \<and> \<not> has_prefix v ''/'' \<and> \<not> has_prefix v ''../'' \<and> \<not> contains v [CHR 0x5C]"

definition hiddenDirectories :: "string list" where
  "hiddenDirectories =
     [''.cache'', ''.git'', ''.github'', ''.idea'', ''.vscode'', ''_deps'', ''build'', ''cache'', ''cmake-build-debug'',
      ''cmake-build-release'', ''dist'', ''node_modules'', ''out'', ''third_party'', ''vendor'']"

definition visibleRepositoryPath :: "(string \<Rightarrow> string) \<Rightarrow> string \<Rightarrow> bool" where
  "visibleRepositoryPath ul v \<longleftrightarrow>
     (if \<not> safeRepositoryPath v then False
      else list_all (\<lambda>part. \<not> List.member hiddenDirectories (to_lower ul part)) (butlast (split_byte (CHR ''/'') v)))"

section \<open>Masking\<close>

definition line_break :: "char \<Rightarrow> bool" where
  "line_break c \<longleftrightarrow> c = CHR 0x0A \<or> c = CHR 0x0D"

definition blank :: "char \<Rightarrow> char" where
  "blank c = (if \<not> line_break c then CHR '' '' else c)"

definition marker :: bytes where
  "marker = ''/* TODO */''"

text \<open>The second loop: the first place from \<open>i\<close> on, before \<open>stop\<close>, where the marker fits on a line.\<close>

function place_marker :: "bytes \<Rightarrow> nat \<Rightarrow> nat \<Rightarrow> bytes" where
  "place_marker masked i stop =
     (if \<not> i + length marker \<le> stop then masked
      else if list_all (\<lambda>c. \<not> line_break c) (take (length marker) (drop i masked))
      then take i masked @ marker @ drop (i + length marker) masked
      else place_marker masked (i + 1) stop)"
  by pat_completeness auto

termination
  by (relation "measure (\<lambda>(masked, i, stop). stop - i)") (auto simp: marker_def)

definition maskRepositoryBody :: "bytes \<Rightarrow> int \<Rightarrow> int \<Rightarrow> bytes result" where
  "maskRepositoryBody source first stop =
     (if first < 0 \<or> stop \<le> first + 1 \<or> stop > int (length source)
         \<or> source ! nat first \<noteq> CHR 0x7B \<or> source ! nat (stop - 1) \<noteq> CHR 0x7D
      then Inl (ErrText ''invalid selected function offsets'')
      else
        (let b = nat first + 1; e = nat (stop - 1);
             masked = take b source @ map blank (take (e - b) (drop b source)) @ drop e source in
         Inr (place_marker masked b e)))"

section \<open>Archives\<close>

text \<open>Two megabytes, the largest file shown, and the limit on all sources of a hide-and-seek defense.\<close>

definition file_limit :: nat where
  "file_limit = 2 * 1048576"

definition read_entry :: "ZipFile \<Rightarrow> bytes result" where
  "read_entry f = (case zf_content f of None \<Rightarrow> Inl (ErrText ''read'') | Some c \<Rightarrow> Inr (take (file_limit + 1) c))"

fun archive_sources :: "(string \<Rightarrow> string) \<Rightarrow> ZipFile list \<Rightarrow> nat \<Rightarrow> (string \<rightharpoonup> bytes) \<Rightarrow> (string \<rightharpoonup> bytes) result" where
  "archive_sources ul [] t files = Inr files"
| "archive_sources ul (f # fs) t files =
     (if is_dir (zf_mode f) \<or> \<not> Editable ul (zf_name f) \<or> uint (zf_uncompressed f) > int file_limit
      then archive_sources ul fs t files
      else
        bind_result (read_entry f) (\<lambda>data.
          if length data \<le> file_limit \<and> utf8_valid data
          then
            (if t + length data > 64 * 1048576 then Inl (ErrText ''too much source code'')
             else archive_sources ul fs (t + length data) (files(zf_name f \<mapsto> data)))
          else archive_sources ul fs t files))"

definition archiveSources :: "(string \<Rightarrow> string) \<Rightarrow> ZipFile list \<Rightarrow> (string \<rightharpoonup> bytes) result" where
  "archiveSources ul archive = archive_sources ul archive 0 Map.empty"

text \<open>
  \<open>openDefenseArchive\<close>: \<open>open_file\<close> is \<open>Open\<close> of the store, whose content is \<open>None\<close> when
  reading it fails, and \<open>open_zip\<close> the ZIP reader.
\<close>

definition openDefenseArchive ::
  "(Key \<Rightarrow> (bytes option \<times> Object) result) \<Rightarrow> (bytes \<Rightarrow> ZipFile list result) \<Rightarrow> db \<Rightarrow> uuid \<Rightarrow> uuid
   \<Rightarrow> (ZipFile list \<times> DefenseSourceAccess) result" where
  "openDefenseArchive open_file open_zip s actor i =
     bind_result (SourceAccess s actor i) (\<lambda>access.
     bind_result (ParseKey (sa_object_key access)) (\<lambda>key.
     bind_result (open_file key) (\<lambda>(content, object).
       if ob_size object < 0 \<or> ob_size object > 256 * 1048576 then Inl (ErrText ''repository archive is too large'')
       else
         (case content of
            None \<Rightarrow> Inl (ErrText ''could not read repository archive'')
          | Some data \<Rightarrow>
              if length data > 256 * 1048576 then Inl (ErrText ''could not read repository archive'')
              else bind_result (open_zip data) (\<lambda>archive. Inr (archive, access))))))"

section \<open>Views of files\<close>

record RepositoryItem =
  ri_path :: string
  ri_size :: int
  ri_editable :: bool

definition repository_items :: "(string \<Rightarrow> string) \<Rightarrow> ZipFile list \<Rightarrow> RepositoryItem list" where
  "repository_items ul archive =
     map (\<lambda>f. \<lparr>ri_path = zf_name f, ri_size = uint (zf_uncompressed f), ri_editable = Editable ul (zf_name f)\<rparr>)
       (filter (\<lambda>f. \<not> is_dir (zf_mode f) \<and> visibleRepositoryPath ul (zf_name f)) archive)"

record FileView =
  fv_path :: string
  fv_content :: bytes
  fv_masked :: bool
  fv_editable :: bool

text \<open>
  The outcome of showing a file: a problem of its own, an error for \<open>fail\<close>, a panic of \<open>Apply\<close> (which
  does not occur), or the file.
\<close>

datatype shown = Shown FileView | FileTooLarge | Unsupported | Failed go_error | Missing | Panicked

definition masked_content :: "DefenseSourceAccess \<Rightarrow> string \<Rightarrow> bytes \<Rightarrow> bytes result" where
  "masked_content access wanted content =
     (if sa_mask_selected access \<and> wanted = sa_selected_file access
      then maskRepositoryBody content (sa_body_begin access) (sa_body_end access) else Inr content)"

definition mutated_content :: "(string \<Rightarrow> string) \<Rightarrow> DefenseSourceAccess \<Rightarrow> string \<Rightarrow> bytes \<Rightarrow> bytes result option" where
  "mutated_content ul access wanted content =
     (let mutations = filter (\<lambda>m. Path m = wanted) (sa_mutations access) in
      if \<not> (sa_mode access = ''hide_seek'' \<and> sa_student_view access) \<or> mutations = [] then Some (Inr content)
      else
        map_option (\<lambda>r. bind_result r (\<lambda>changed. Inr (case changed wanted of None \<Rightarrow> [] | Some c \<Rightarrow> c)))
          (Apply ul mutations (Map.empty(wanted \<mapsto> content))))"

text \<open>
  Whether an entry can be opened is decided by its header alone (its method and the place of its
  data); \<open>opens\<close> is that decision of the ZIP reader.
\<close>

definition header :: "ZipFile \<Rightarrow> ZipFile" where
  "header f = f\<lparr>zf_content := None\<rparr>"

definition show_file :: "(ZipFile \<Rightarrow> bool) \<Rightarrow> (string \<Rightarrow> string) \<Rightarrow> DefenseSourceAccess \<Rightarrow> string \<Rightarrow> ZipFile \<Rightarrow> shown" where
  "show_file opens ul access wanted f =
     (if uint (zf_uncompressed f) > int file_limit then FileTooLarge
      else if \<not> opens (header f) then Failed (ErrText ''open'')
      else
        (case read_entry f of
           Inl e \<Rightarrow> Unsupported
         | Inr content \<Rightarrow>
             if length content > file_limit \<or> \<not> utf8_valid content then Unsupported
             else
               (case masked_content access wanted content of
                  Inl e \<Rightarrow> Failed e
                | Inr masked \<Rightarrow>
                    (case mutated_content ul access wanted masked of
                       None \<Rightarrow> Panicked
                     | Some (Inl e) \<Rightarrow> Failed e
                     | Some (Inr final) \<Rightarrow>
                         Shown \<lparr>fv_path = wanted, fv_content = final,
                                fv_masked = (sa_mask_selected access \<and> wanted = sa_selected_file access), fv_editable = Editable ul wanted\<rparr>))))"

definition show_wanted :: "(ZipFile \<Rightarrow> bool) \<Rightarrow> (string \<Rightarrow> string) \<Rightarrow> DefenseSourceAccess \<Rightarrow> string \<Rightarrow> ZipFile list \<Rightarrow> shown" where
  "show_wanted opens ul access wanted archive =
     (case find (\<lambda>f. zf_name f = wanted \<and> \<not> is_dir (zf_mode f)) archive of
        None \<Rightarrow> Missing
      | Some f \<Rightarrow> show_file opens ul access wanted f)"

definition validateAnswer ::
  "(string \<Rightarrow> (string \<times> string) list option option) \<Rightarrow> (string \<Rightarrow> string) \<Rightarrow> (Key \<Rightarrow> (bytes option \<times> Object) result) \<Rightarrow> (bytes \<Rightarrow> ZipFile list result)
   \<Rightarrow> time \<Rightarrow> uuid \<Rightarrow> uuid \<Rightarrow> string \<Rightarrow> db \<Rightarrow> db \<times> unit result" where
  "validateAnswer unmarshal ul open_file open_zip now actor i answer s =
     (case Get now actor i s of
        (s', Inl e) \<Rightarrow> (s', Inl e)
      | (s', Inr defense) \<Rightarrow>
          (s', if v_mode defense \<noteq> ''hide_seek'' then Inr ()
               else
                 bind_result (openDefenseArchive open_file open_zip s' actor i) (\<lambda>(archive, access).
                 bind_result (archiveSources ul archive) (\<lambda>files.
                 bind_result (DecodeEdits unmarshal ul answer files) (\<lambda>_. Inr ())))))"

section \<open>The mask\<close>

declare place_marker.simps [simp del]

lemma blank_marker: "map blank marker = replicate (length marker) (CHR '' '')"
  by (simp add: marker_def blank_def line_break_def)

lemma map_blank_no_break: "list_all (\<lambda>c. \<not> line_break c) xs \<Longrightarrow> map blank xs = replicate (length xs) (CHR '' '')"
  by (induction xs) (simp_all add: blank_def)

lemma place_marker_effect:
  assumes "stop \<le> length m"
  shows "length (place_marker m i stop) = length m \<and> take i (place_marker m i stop) = take i m
    \<and> drop stop (place_marker m i stop) = drop stop m \<and> map blank (place_marker m i stop) = map blank m"
  using assms
proof (induction m i stop rule: place_marker.induct)
  case (1 m i stop)
  show ?case
  proof (cases "i + length marker \<le> stop")
    case False
    then show ?thesis by (simp add: place_marker.simps [of m i stop])
  next
    case fits: True
    show ?thesis
    proof (cases "list_all (\<lambda>c. \<not> line_break c) (take (length marker) (drop i m))")
      case True
      then have eq: "place_marker m i stop = take i m @ marker @ drop (i + length marker) m"
        using fits by (simp add: place_marker.simps [of m i stop])
      have "length (take (length marker) (drop i m)) = length marker" using fits 1(2) by simp
      then have "map blank (take (length marker) (drop i m)) = map blank marker"
        using map_blank_no_break [OF True] blank_marker by simp
      then have "map blank m = map blank (take i m @ marker @ drop (i + length marker) m)"
        by (metis (no_types, lifting) add.commute append_take_drop_id drop_drop map_append)
      then show ?thesis using fits 1(2) unfolding eq by simp
    next
      case False
      then have eq: "place_marker m i stop = place_marker m (i + 1) stop"
        using fits by (simp add: place_marker.simps [of m i stop])
      have "take i (place_marker m (i + 1) stop) = take i (take (i + 1) (place_marker m (i + 1) stop))" by simp
      with 1 fits False show ?thesis unfolding eq by (auto simp: min_def)
    qed
  qed
qed

lemma blank_blank [simp]: "blank (blank c) = blank c"
  by (simp add: blank_def line_break_def)

text \<open>Two files that differ at most inside the body, where they have the same line breaks.\<close>

definition same_outline :: "int \<Rightarrow> int \<Rightarrow> bytes \<Rightarrow> bytes \<Rightarrow> bool" where
  "same_outline first stop s t \<longleftrightarrow>
     length t = length s \<and> take (nat first + 1) t = take (nat first + 1) s \<and> drop (nat (stop - 1)) t = drop (nat (stop - 1)) s
   \<and> map blank t = map blank s"

lemma mask_same_outline:
  assumes "same_outline first stop s t"
  shows "maskRepositoryBody t first stop = maskRepositoryBody s first stop"
proof -
  have l: "length t = length s" and tk: "take (nat first + 1) t = take (nat first + 1) s"
    and dr: "drop (nat (stop - 1)) t = drop (nat (stop - 1)) s" and bl: "map blank t = map blank s"
    using assms by (simp_all add: same_outline_def)
  have ends: "t ! nat first = s ! nat first" "t ! nat (stop - 1) = s ! nat (stop - 1)"
    if "0 \<le> first" "first + 1 < stop" "stop \<le> int (length s)"
  proof -
    show "t ! nat first = s ! nat first"
      using arg_cong [OF tk, of "\<lambda>xs. xs ! nat first"] that l by simp
    show "t ! nat (stop - 1) = s ! nat (stop - 1)"
      using arg_cong [OF dr, of hd] that l by (simp add: hd_drop_conv_nth)
  qed
  have "map blank (take n (drop m t)) = map blank (take n (drop m s))" for n m
    by (metis bl drop_map take_map)
  then show ?thesis using l tk dr ends by (auto simp: maskRepositoryBody_def Let_def)
qed

lemma mask_effect:
  assumes "maskRepositoryBody s first stop = Inr masked"
  shows "same_outline first stop s masked"
proof -
  let ?b = "nat first + 1" and ?e = "nat (stop - 1)"
  have c: "0 \<le> first" "first + 1 < stop" "stop \<le> int (length s)"
    and masked: "masked = place_marker (take ?b s @ map blank (take (?e - ?b) (drop ?b s)) @ drop ?e s) ?b ?e"
    using assms by (auto simp: maskRepositoryBody_def Let_def split: if_splits)
  let ?m = "take ?b s @ map blank (take (?e - ?b) (drop ?b s)) @ drop ?e s"
  have be: "?b \<le> ?e" "?e \<le> length s" using c by linarith+
  have s: "s = take ?b s @ take (?e - ?b) (drop ?b s) @ drop ?e s"
    using be by (metis append_take_drop_id drop_drop le_add_diff_inverse2)
  have len: "length ?m = length s" using be by simp
  have "map blank s = map blank (take ?b s @ take (?e - ?b) (drop ?b s) @ drop ?e s)" using s by (rule arg_cong)
  then have mb: "map blank ?m = map blank s" by (simp only: map_append map_map comp_def blank_blank)
  have mt: "take ?b ?m = take ?b s" and md: "drop ?e ?m = drop ?e s" using be by simp_all
  have "?e \<le> length ?m" using len be by simp
  note eff = place_marker_effect [OF this, of ?b, folded masked]
  show ?thesis
    unfolding same_outline_def using eff len mb mt md by (simp only: simp_thms)
qed

text \<open>
  The mask hides the body and nothing else.  The masked file has the length and the lines of the
  file and agrees with it outside the braces of the selected body; and every file that differs from it only in
  that body, with the same line breaks, gives the same masked file, so that nothing of the text
  between the braces can be read from it.
\<close>

theorem mask_hides_body:
  assumes "maskRepositoryBody source first stop = Inr masked"
  shows "same_outline first stop source masked
    \<and> (\<forall>other. same_outline first stop source other \<longrightarrow> maskRepositoryBody other first stop = Inr masked)"
  using mask_effect [OF assms] mask_same_outline assms by simp

theorem mask_hides_body_witness:
  "maskRepositoryBody ''f{abcdefghijkl}'' 1 15 = Inr ''f{/* TODO */  }'' \<and> maskRepositoryBody ''f{no no no no }'' 1 15 = Inr ''f{/* TODO */  }''"
proof -
  have "maskRepositoryBody ''f{abcdefghijkl}'' 1 15 = Inr ''f{/* TODO */  }''" by code_simp
  moreover have "same_outline 1 15 ''f{abcdefghijkl}'' ''f{no no no no }''" by code_simp
  ultimately show ?thesis using mask_hides_body by blast
qed

section \<open>What the views let through\<close>

text \<open>An archive in which the text of one file is another.\<close>

definition with_text :: "string \<Rightarrow> (bytes \<Rightarrow> bytes) \<Rightarrow> ZipFile list \<Rightarrow> ZipFile list" where
  "with_text path g archive = map (\<lambda>f. if zf_name f = path then f\<lparr>zf_content := map_option g (zf_content f)\<rparr> else f) archive"

lemma find_with_text:
  "find (\<lambda>f. zf_name f = wanted \<and> \<not> is_dir (zf_mode f)) (with_text path g archive) =
   map_option (\<lambda>f. if zf_name f = path then f\<lparr>zf_content := map_option g (zf_content f)\<rparr> else f)
     (find (\<lambda>f. zf_name f = wanted \<and> \<not> is_dir (zf_mode f)) archive)"
  by (induction archive) (auto simp: with_text_def)

lemma show_file_same:
  assumes "sa_mask_selected access" and "wanted = sa_selected_file access" and "zf_content f = Some c"
    and "length c \<le> file_limit" and "utf8_valid d = utf8_valid c" and "same_outline (sa_body_begin access) (sa_body_end access) c d"
  shows "show_file opens ul access wanted (f\<lparr>zf_content := Some d\<rparr>) = show_file opens ul access wanted f"
proof -
  have len: "length d = length c" using assms(6) by (simp add: same_outline_def)
  have "maskRepositoryBody d (sa_body_begin access) (sa_body_end access) = maskRepositoryBody c (sa_body_begin access) (sa_body_end access)"
    using assms(6) by (rule mask_same_outline)
  then have "masked_content access wanted d = masked_content access wanted c" using assms(1,2) by (simp add: masked_content_def)
  then show ?thesis using assms(3-5) len by (simp add: show_file_def read_entry_def header_def)
qed


definition ex_access :: DefenseSourceAccess where
  "ex_access =
     \<lparr>sa_mode = ''restore'', sa_mutations = [], sa_student_view = True, sa_object_key = '''', sa_selected_file = ''a.cpp'', sa_body_begin = 1,
      sa_body_end = 15, sa_mask_selected = True\<rparr>"

definition ex_entry :: ZipFile where
  "ex_entry = \<lparr>zf_name = ''a.cpp'', zf_mode = 420, zf_uncompressed = 15, zf_compressed = 15, zf_content = Some ''f{abcdefghijkl}''\<rparr>"


text \<open>The replacement of hide-and-seek fragments never panics.\<close>

lemma mutated_content_total: "mutated_content ul access wanted content \<noteq> None"
proof -
  have "Apply ul ms fs \<noteq> None" for ms fs
    using Apply_valid [of ul ms fs] by (cases "Validate ul ms fs") (auto simp: Apply_def)
  then show ?thesis by (auto simp: mutated_content_def Let_def)
qed

text \<open>The check of a path lets the current and the parent directory through, which name no file of an archive.\<close>

lemma dots_are_safe_paths: "safeRepositoryPath ''.'' \<and> safeRepositoryPath ''..''"
  by code_simp

end
