(* ===== verification/Http_Defense.thy ===== *)
theory Http_Defense
  imports Http_Properties Repository_View
begin

text \<open>
  The HTTP interface to defenses: the handlers of \<open>transport/httpapi/defense.go\<close> and \<open>hide_seek.go\<close>
  for students, teachers and runners.

  The state is the site of accounts, sessions and the audit log together with the tables of
  defenses, which have their own copies of the users and versions they refer to.  The store, the ZIP
  reader and the JSON decoders are parameters.  A handler that returns without writing has the
  status 200 and no body, as \<open>net/http\<close> supplies it.
\<close>

section \<open>State and replies\<close>

record defense_site =
  dw_site :: site
  dw_db :: db

datatype defense_reply =
    Plain Response
  | DefenseReply nat Defense
  | DefensesReply "Defense list"
  | ItemsReply "RepositoryItem list"
  | FileReply FileView
  | DraftReply int time
  | AttemptReply nat Attempt
  | HistoryReply "Attempt list"
  | LeaseReply Lease
  | PreparedReply

fun status_of :: "defense_reply \<Rightarrow> nat" where
  "status_of (Plain rs) = rs_status rs"
| "status_of (DefenseReply n v) = n"
| "status_of (AttemptReply n v) = n"
| "status_of r = 200"

definition problem :: "Request \<Rightarrow> nat \<Rightarrow> string \<Rightarrow> defense_reply" where
  "problem rq n code = Plain (writeProblem rq n code)"

definition nothing_written :: defense_reply where
  "nothing_written = Plain (reply 200 NoBody)"

definition defense_fail :: "Request \<Rightarrow> go_error \<Rightarrow> defense_reply" where
  "defense_fail rq e =
     (if e = ErrForbidden then problem rq 404 ''NOT_FOUND''
      else if e = ErrConflict then problem rq 409 ''STATE_CONFLICT''
      else problem rq 500 ''DEFENSE_ERROR'')"

text \<open>
  What surrounds the handlers: the store, the ZIP reader, the decoder of project edits, the token of the
  runners, the seed of the wheel and the clock of the service in nanoseconds.
\<close>

record defense_env =
  de_open :: "Key \<Rightarrow> (bytes option \<times> Object) result"
  de_zip :: "bytes \<Rightarrow> ZipFile list result"
  de_opens :: "ZipFile \<Rightarrow> bool"
  de_edits :: "string \<Rightarrow> (string \<times> string) list option option"
  de_runner_token :: string
  de_seed :: int
  de_now :: int

definition viewer ::
  "installation \<Rightarrow> ambient \<Rightarrow> Request \<Rightarrow> defense_site \<Rightarrow> (User \<Rightarrow> defense_site \<times> defense_reply) \<Rightarrow> defense_site \<times> defense_reply" where
  "viewer env am rq w k =
     admitted (\<lambda>env rq session csrfHash. Inr ()) env am rq (adb_of (dw_site w)) (\<lambda>p. (w, Plain p)) (\<lambda>session user. k user)"

definition actor ::
  "installation \<Rightarrow> ambient \<Rightarrow> Request \<Rightarrow> defense_site \<Rightarrow> (User \<Rightarrow> defense_site \<times> defense_reply) \<Rightarrow> defense_site \<times> defense_reply" where
  "actor env am rq w k =
     admitted authorizeMutation env am rq (adb_of (dw_site w)) (\<lambda>p. (w, Plain p)) (\<lambda>session user. k user)"

definition is_staff :: "User \<Rightarrow> bool" where
  "is_staff user \<longleftrightarrow> usr_role user = Some Teacher \<or> usr_role user = Some Admin"

definition noted :: "installation \<Rightarrow> ambient \<Rightarrow> Request \<Rightarrow> Event \<Rightarrow> defense_site \<Rightarrow> defense_reply \<Rightarrow> defense_site \<times> defense_reply" where
  "noted env am rq ev w success =
     (case Record (in_marshal env) (adb_of (dw_site w)) (event_id am) (am_event_gap am) (am_event_time am) ev (site_log (dw_site w)) of
        Inl e \<Rightarrow> (w, problem rq 500 ''AUDIT_WRITE_FAILED'')
      | Inr rows \<Rightarrow> (w\<lparr>dw_site := (dw_site w)\<lparr>site_log := rows\<rparr>\<rparr>, success))"

section \<open>Numbers in headers and queries\<close>

definition trim_quotes :: "string \<Rightarrow> string" where
  "trim_quotes v = rev (dropWhile (\<lambda>c. c = CHR 0x22) (rev (dropWhile (\<lambda>c. c = CHR 0x22) v)))"

fun digits_value :: "nat \<Rightarrow> string \<Rightarrow> nat option" where
  "digits_value acc [] = Some acc"
| "digits_value acc (c # cs) = (if is_digit c then digits_value (10 * acc + (ord_of c - 48)) cs else None)"

definition integer_text :: "string \<Rightarrow> int option" where
  "integer_text v =
     (case v of
        [] \<Rightarrow> None
      | c # cs \<Rightarrow>
          if c = CHR ''-'' \<or> c = CHR ''+'' then
            (if cs = [] then None else map_option (\<lambda>n. if c = CHR ''-'' then - int n else int n) (digits_value 0 cs))
          else map_option int (digits_value 0 v))"

definition ParseInt64 :: "string \<Rightarrow> int option" where
  "ParseInt64 v =
     Option.bind (integer_text v) (\<lambda>n. if - (2 ^ 63) \<le> n \<and> n < 2 ^ 63 then Some n else None)"

text \<open>\<open>strconv.Atoi\<close> whose error is ignored: no number reads as 0, one out of range as the nearest.\<close>

definition Atoi_or_zero :: "string \<Rightarrow> int" where
  "Atoi_or_zero v = (case integer_text v of None \<Rightarrow> 0 | Some n \<Rightarrow> max (- (2 ^ 63)) (min (2 ^ 63 - 1) n))"

section \<open>Handlers for people\<close>

definition create ::
  "(bytes \<Rightarrow> bool \<Rightarrow> string option) \<Rightarrow> defense_env \<Rightarrow> installation \<Rightarrow> ambient \<Rightarrow> Request \<Rightarrow> defense_site \<Rightarrow> defense_site \<times> defense_reply" where
  "create decoder de env am rq w =
     actor env am rq w (\<lambda>a.
       case decodeJSON decoder rq of
         None \<Rightarrow> (w, problem rq 400 ''INVALID_REQUEST'')
       | Some submission \<Rightarrow>
           if \<not> uuid_pattern submission \<or> \<not> validIdempotencyKey rq then (w, problem rq 400 ''INVALID_REQUEST'')
           else
             (case Defense_Repository.Create (am_clk am) (usr_id a) submission (rq_header rq ''Idempotency-Key'') (am_ids am 0) (am_ids am 1)
                 (am_ids am 2) (de_seed de) (dw_db w) of
                (s, Inl e) \<Rightarrow> (w\<lparr>dw_db := s\<rparr>, defense_fail rq e)
              | (s, Inr v) \<Rightarrow>
                  noted env am rq (user_event rq a ''defense.start'' ''defense'' (Some (v_id v)) None
                    [(''submission_version_id'', JString submission)]) (w\<lparr>dw_db := s\<rparr>) (DefenseReply 202 v)))"

definition get :: "installation \<Rightarrow> ambient \<Rightarrow> Request \<Rightarrow> defense_site \<Rightarrow> defense_site \<times> defense_reply" where
  "get env am rq w =
     viewer env am rq w (\<lambda>a.
       case Get (am_clk am 0) (usr_id a) (rq_path rq ''defense_id'') (dw_db w) of
         (s, Inl e) \<Rightarrow> (w\<lparr>dw_db := s\<rparr>, defense_fail rq e)
       | (s, Inr v) \<Rightarrow> (w\<lparr>dw_db := s\<rparr>, DefenseReply 200 v))"

definition pendingConfiguration :: "installation \<Rightarrow> ambient \<Rightarrow> Request \<Rightarrow> defense_site \<Rightarrow> defense_site \<times> defense_reply" where
  "pendingConfiguration env am rq w =
     viewer env am rq w (\<lambda>a.
       if \<not> is_staff a then (w, problem rq 403 ''FORBIDDEN'')
       else
         case PendingConfiguration (am_clk am) (in_collate env) (usr_id a) (dw_db w) of
           (s, Inl e) \<Rightarrow> (w\<lparr>dw_db := s\<rparr>, defense_fail rq e)
         | (s, Inr vs) \<Rightarrow> (w\<lparr>dw_db := s\<rparr>, DefensesReply vs))"

record configureInput =
  cfi_selection_mode :: string
  cfi_candidate_id :: string
  cfi_time_limit :: int
  cfi_wheel_size :: int
  cfi_entity_mode :: string

definition valid_configuration :: "configureInput \<Rightarrow> bool" where
  "valid_configuration input \<longleftrightarrow>
     (cfi_selection_mode input = ''automatic'' \<or> cfi_selection_mode input = ''manual'')
   \<and> (cfi_entity_mode input = ''functions_only'' \<or> cfi_entity_mode input = ''functions_classes_structs'')
   \<and> (cfi_selection_mode input = ''automatic'' \<and> cfi_candidate_id input = ''''
      \<or> cfi_selection_mode input = ''manual'' \<and> uuid_pattern (cfi_candidate_id input))
   \<and> \<not> (cfi_time_limit input < 60 \<or> cfi_time_limit input > 1800 \<or> cfi_wheel_size input < 2 \<or> cfi_wheel_size input > 12)"

definition configure ::
  "(bytes \<Rightarrow> bool \<Rightarrow> configureInput option) \<Rightarrow> installation \<Rightarrow> ambient \<Rightarrow> Request \<Rightarrow> defense_site \<Rightarrow> defense_site \<times> defense_reply" where
  "configure decoder env am rq w =
     actor env am rq w (\<lambda>a.
       if \<not> is_staff a then (w, problem rq 403 ''FORBIDDEN'')
       else
         case decodeJSON decoder rq of
           None \<Rightarrow> (w, nothing_written)
         | Some input \<Rightarrow>
             if \<not> validIdempotencyKey rq \<or> \<not> valid_configuration input then (w, problem rq 400 ''INVALID_REQUEST'')
             else
               (case Configure (am_clk am) (usr_id a) (rq_path rq ''defense_id'') (cfi_selection_mode input) (cfi_candidate_id input)
                   (cfi_entity_mode input) (cfi_time_limit input) (cfi_wheel_size input) (am_ids am 0) (dw_db w) of
                  (s, Inl e) \<Rightarrow> (w\<lparr>dw_db := s\<rparr>, defense_fail rq e)
                | (s, Inr v) \<Rightarrow>
                    noted env am rq (user_event rq a ''defense.configure'' ''defense'' (Some (v_id v)) None
                      [(''selection_mode'', JString (cfi_selection_mode input)), (''entity_mode'', JString (cfi_entity_mode input)),
                       (''wheel_size'', JInt (cfi_wheel_size input)), (''time_limit_seconds'', JInt (cfi_time_limit input))])
                      (w\<lparr>dw_db := s\<rparr>) (DefenseReply 202 v)))"

definition configureHide ::
  "(bytes \<Rightarrow> bool \<Rightarrow> (int \<times> Mutation list) option) \<Rightarrow> defense_env \<Rightarrow> installation \<Rightarrow> ambient \<Rightarrow> Request \<Rightarrow> defense_site
   \<Rightarrow> defense_site \<times> defense_reply" where
  "configureHide decoder de env am rq w =
     actor env am rq w (\<lambda>a.
       if \<not> is_staff a then (w, problem rq 403 ''FORBIDDEN'')
       else
         case decodeJSONLimit decoder (256 * 1024) rq of
           None \<Rightarrow> (w, nothing_written)
         | Some (secs, mutations) \<Rightarrow>
             if \<not> validIdempotencyKey rq then (w, problem rq 400 ''INVALID_REQUEST'')
             else if secs < 60 \<or> secs > 1800 then (w, problem rq 422 ''INVALID_TIME'')
             else
               (case openDefenseArchive (de_open de) (de_zip de) (dw_db w) (usr_id a) (rq_path rq ''defense_id'') of
                  Inl e \<Rightarrow> (w, defense_fail rq e)
                | Inr (archive, access) \<Rightarrow>
                    (case archiveSources (in_ul env) archive of
                       Inl e \<Rightarrow> (w, defense_fail rq e)
                     | Inr files \<Rightarrow>
                         (case Validate (in_ul env) mutations files of
                            Inl e \<Rightarrow> (w, problem rq 422 ''INVALID_MUTATIONS'')
                          | Inr _ \<Rightarrow>
                              (case ConfigureHide (am_clk am) (usr_id a) (rq_path rq ''defense_id'') secs mutations (am_ids am 0) (dw_db w) of
                                 (s, Inl e) \<Rightarrow> (w\<lparr>dw_db := s\<rparr>, defense_fail rq e)
                               | (s, Inr v) \<Rightarrow>
                                   noted env am rq (user_event rq a ''defense.configure_hide_seek'' ''defense'' (Some (v_id v)) None
                                     [(''error_count'', JInt (int (length mutations))), (''time_limit_seconds'', JInt secs)])
                                     (w\<lparr>dw_db := s\<rparr>) (DefenseReply 202 v))))))"

definition repositoryFiles :: "defense_env \<Rightarrow> installation \<Rightarrow> ambient \<Rightarrow> Request \<Rightarrow> defense_site \<Rightarrow> defense_site \<times> defense_reply" where
  "repositoryFiles de env am rq w =
     viewer env am rq w (\<lambda>a.
       case openDefenseArchive (de_open de) (de_zip de) (dw_db w) (usr_id a) (rq_path rq ''defense_id'') of
         Inl e \<Rightarrow> (w, defense_fail rq e)
       | Inr (archive, access) \<Rightarrow> (w, ItemsReply (repository_items (in_ul env) archive)))"

text \<open>A panic ends the request, which the server answers with a status of its own.\<close>

fun shown_reply :: "Request \<Rightarrow> shown \<Rightarrow> defense_reply" where
  "shown_reply rq (Shown v) = FileReply v"
| "shown_reply rq FileTooLarge = problem rq 413 ''FILE_TOO_LARGE''"
| "shown_reply rq Unsupported = problem rq 422 ''UNSUPPORTED_FILE''"
| "shown_reply rq (Failed e) = defense_fail rq e"
| "shown_reply rq Missing = problem rq 404 ''NOT_FOUND''"
| "shown_reply rq Panicked = Plain (reply 500 NoBody)"

definition repositoryFile :: "defense_env \<Rightarrow> installation \<Rightarrow> ambient \<Rightarrow> Request \<Rightarrow> defense_site \<Rightarrow> defense_site \<times> defense_reply" where
  "repositoryFile de env am rq w =
     viewer env am rq w (\<lambda>a.
       let wanted = rq_query rq ''path'' in
       if \<not> safeRepositoryPath wanted then (w, problem rq 400 ''INVALID_PATH'')
       else
         case openDefenseArchive (de_open de) (de_zip de) (dw_db w) (usr_id a) (rq_path rq ''defense_id'') of
           Inl e \<Rightarrow> (w, defense_fail rq e)
         | Inr (archive, access) \<Rightarrow> (w, shown_reply rq (show_wanted (de_opens de) (in_ul env) access wanted archive)))"

definition answer_limit :: nat where
  "answer_limit = 1048576"

definition check_answer :: "defense_env \<Rightarrow> installation \<Rightarrow> ambient \<Rightarrow> Request \<Rightarrow> User \<Rightarrow> string \<Rightarrow> db \<Rightarrow> db \<times> unit result" where
  "check_answer de env am rq a answer s =
     validateAnswer (de_edits de) (in_ul env) (de_open de) (de_zip de) (am_clk am 0) (usr_id a) (rq_path rq ''defense_id'') answer s"

text \<open>The clock of the statements that follow the check of the answer.\<close>

definition later :: "ambient \<Rightarrow> nat \<Rightarrow> time" where
  "later am n = am_clk am (Suc n)"

definition draft ::
  "(bytes \<Rightarrow> bool \<Rightarrow> string option) \<Rightarrow> defense_env \<Rightarrow> installation \<Rightarrow> ambient \<Rightarrow> Request \<Rightarrow> defense_site \<Rightarrow> defense_site \<times> defense_reply" where
  "draft decoder de env am rq w =
     actor env am rq w (\<lambda>a.
       case (ParseInt64 (trim_quotes (rq_header rq ''If-Match'')), decodeJSONLimit decoder (2 * 1048576) rq) of
         (Some version, Some answer) \<Rightarrow>
           if length answer > answer_limit then (w, problem rq 400 ''INVALID_REQUEST'')
           else
             (case check_answer de env am rq a answer (dw_db w) of
                (s, Inl e) \<Rightarrow> (w\<lparr>dw_db := s\<rparr>, problem rq 422 ''INVALID_PROJECT_EDITS'')
              | (s, Inr _) \<Rightarrow>
                  (case SaveDraft (later am 0) (usr_id a) (rq_path rq ''defense_id'') answer version s of
                     (s', Inl e) \<Rightarrow> (w\<lparr>dw_db := s'\<rparr>, defense_fail rq e)
                   | (s', Inr (n, saved)) \<Rightarrow> (w\<lparr>dw_db := s'\<rparr>, DraftReply n saved)))
       | _ \<Rightarrow> (w, problem rq 400 ''INVALID_REQUEST''))"

definition attempt ::
  "(bytes \<Rightarrow> bool \<Rightarrow> string option) \<Rightarrow> defense_env \<Rightarrow> installation \<Rightarrow> ambient \<Rightarrow> Request \<Rightarrow> defense_site \<Rightarrow> defense_site \<times> defense_reply" where
  "attempt decoder de env am rq w =
     actor env am rq w (\<lambda>a.
       case decodeJSONLimit decoder (2 * 1048576) rq of
         None \<Rightarrow> (w, problem rq 400 ''INVALID_REQUEST'')
       | Some answer \<Rightarrow>
           if length answer > answer_limit \<or> \<not> validIdempotencyKey rq then (w, problem rq 400 ''INVALID_REQUEST'')
           else
             (case check_answer de env am rq a answer (dw_db w) of
                (s, Inl e) \<Rightarrow> (w\<lparr>dw_db := s\<rparr>, problem rq 422 ''INVALID_PROJECT_EDITS'')
              | (s, Inr _) \<Rightarrow>
                  (case Attempt_op (later am) (usr_id a) (rq_path rq ''defense_id'') (rq_header rq ''Idempotency-Key'') answer
                      (am_ids am 0) (am_ids am 1) s of
                     (s', Inl e) \<Rightarrow> (w\<lparr>dw_db := s'\<rparr>, defense_fail rq e)
                   | (s', Inr v) \<Rightarrow>
                       noted env am rq (user_event rq a ''defense.attempt'' ''attempt'' (Some (at_id v)) None
                         [(''defense_id'', JString (at_defense_id v)), (''attempt_no'', JInt (at_no v))])
                         (w\<lparr>dw_db := s'\<rparr>) (AttemptReply 202 v))))"

definition cancel :: "installation \<Rightarrow> ambient \<Rightarrow> Request \<Rightarrow> defense_site \<Rightarrow> defense_site \<times> defense_reply" where
  "cancel env am rq w =
     actor env am rq w (\<lambda>a.
       if \<not> validIdempotencyKey rq then (w, problem rq 400 ''INVALID_REQUEST'')
       else
         case Cancel (am_clk am) (usr_id a) (rq_path rq ''defense_id'') (dw_db w) of
           (s, Inl e) \<Rightarrow> (w\<lparr>dw_db := s\<rparr>, defense_fail rq e)
         | (s, Inr v) \<Rightarrow>
             noted env am rq (user_event rq a ''defense.cancel'' ''defense'' (Some (v_id v)) None []) (w\<lparr>dw_db := s\<rparr>) (DefenseReply 200 v))"

definition getAttempt :: "installation \<Rightarrow> ambient \<Rightarrow> Request \<Rightarrow> defense_site \<Rightarrow> defense_site \<times> defense_reply" where
  "getAttempt env am rq w =
     viewer env am rq w (\<lambda>a.
       case GetAttempt (dw_db w) (usr_id a) (rq_path rq ''attempt_id'') of
         Inl e \<Rightarrow> (w, defense_fail rq e)
       | Inr v \<Rightarrow> (w, AttemptReply 200 v))"

definition history :: "installation \<Rightarrow> ambient \<Rightarrow> Request \<Rightarrow> defense_site \<Rightarrow> defense_site \<times> defense_reply" where
  "history env am rq w =
     viewer env am rq w (\<lambda>a.
       let limit = Atoi_or_zero (rq_query rq ''limit''); groupID = rq_query rq ''group_id'';
           studentID = rq_query rq ''student_record_id''; labID = rq_query rq ''lab_id''; result = rq_query rq ''outcome'' in
       if list_ex (\<lambda>i. i \<noteq> '''' \<and> \<not> uuid_pattern i) [groupID, studentID, labID] then (w, problem rq 400 ''INVALID_REQUEST'')
       else if result \<noteq> '''' \<and> result \<noteq> ''pending'' \<and> result \<noteq> ''passed'' \<and> result \<noteq> ''failed'' \<and> result \<noteq> ''error''
       then (w, problem rq 400 ''INVALID_REQUEST'')
       else (w, HistoryReply (History (dw_db w) (usr_id a) groupID studentID labID result limit)))"

section \<open>Handlers for runners\<close>

definition runnerAuthorized :: "defense_env \<Rightarrow> Request \<Rightarrow> bool" where
  "runnerAuthorized de rq \<longleftrightarrow>
     (let provided = trim_prefix (rq_header rq ''Authorization'') ''Bearer '' in provided \<noteq> '''' \<and> provided = de_runner_token de)"

text \<open>
  \<open>postgres.LeaseWaiting\<close>.  A round is one call of \<open>Lease\<close> with its clocks, locked rows and fresh
  values.  The wait lasts at most 20 seconds, so that there are finitely many rounds: after each but
  the last a notification or a tick of a second arrives, and others may have changed the tables; after the
  last the wait is over, the request is cancelled, or the connection fails.  \<open>listening\<close> is that the
  connection could be opened and listens.
\<close>

record lease_round =
  lr_clk :: "nat \<Rightarrow> time"
  lr_app :: time
  lr_locked :: "uuid \<Rightarrow> bool"
  lr_token :: string
  lr_id :: uuid

datatype wait_end = WaitOver | RequestEnded go_error | ConnectionFailed go_error

datatype schedule = LastRound lease_round wait_end | Round lease_round "db \<Rightarrow> db" schedule

definition lease_once :: "uuid \<Rightarrow> int \<Rightarrow> bytes \<Rightarrow> lease_round \<Rightarrow> db \<Rightarrow> db \<times> Lease result" where
  "lease_once runner slots digest r s = Lease_op (lr_clk r) (lr_app r) (lr_locked r) runner slots digest (lr_token r) (lr_id r) s"

fun wait_result :: "wait_end \<Rightarrow> Lease result" where
  "wait_result WaitOver = Inl ErrNoRows"
| "wait_result (RequestEnded e) = Inl e"
| "wait_result (ConnectionFailed e) = Inl e"

fun lease_rounds :: "uuid \<Rightarrow> int \<Rightarrow> bytes \<Rightarrow> schedule \<Rightarrow> db \<Rightarrow> db \<times> Lease result" where
  "lease_rounds runner slots digest (LastRound r stop) s =
     (case lease_once runner slots digest r s of
        (s', res) \<Rightarrow> if res \<noteq> Inl ErrNoRows then (s', res) else (s', wait_result stop))"
| "lease_rounds runner slots digest (Round r others rest) s =
     (case lease_once runner slots digest r s of
        (s', res) \<Rightarrow> if res \<noteq> Inl ErrNoRows then (s', res) else lease_rounds runner slots digest rest (others s'))"

fun first_round :: "schedule \<Rightarrow> lease_round" where
  "first_round (LastRound r stop) = r"
| "first_round (Round r others rest) = r"

definition LeaseWaiting :: "bool \<Rightarrow> schedule \<Rightarrow> uuid \<Rightarrow> int \<Rightarrow> bytes \<Rightarrow> int \<Rightarrow> db \<Rightarrow> db \<times> Lease result" where
  "LeaseWaiting listening sched runner slots digest wait s =
     (if wait \<le> 0 \<or> \<not> listening then lease_once runner slots digest (first_round sched) s
      else lease_rounds runner slots digest sched s)"

record leaseInput =
  lin_runner :: string
  lin_capacity :: int
  lin_wait_ms :: int

definition valid_lease_request :: "leaseInput \<Rightarrow> bool" where
  "valid_lease_request input \<longleftrightarrow>
     uuid_pattern (lin_runner input) \<and> \<not> (lin_capacity input < 1 \<or> lin_capacity input > 6 \<or> lin_wait_ms input < 0 \<or> lin_wait_ms input > 20000)"

definition runner :: "defense_env \<Rightarrow> Request \<Rightarrow> defense_site \<Rightarrow> (unit \<Rightarrow> defense_site \<times> defense_reply) \<Rightarrow> defense_site \<times> defense_reply" where
  "runner de rq w k = (if \<not> runnerAuthorized de rq then (w, problem rq 401 ''RUNNER_UNAUTHORIZED'') else k ())"

definition lease ::
  "(bytes \<Rightarrow> bool \<Rightarrow> leaseInput option) \<Rightarrow> bool \<Rightarrow> schedule \<Rightarrow> defense_env \<Rightarrow> Request \<Rightarrow> defense_site \<Rightarrow> defense_site \<times> defense_reply" where
  "lease decoder listening sched de rq w =
     runner de rq w (\<lambda>_.
       case decodeJSON decoder rq of
         None \<Rightarrow> (w, problem rq 400 ''INVALID_REQUEST'')
       | Some input \<Rightarrow>
           if \<not> valid_lease_request input then (w, problem rq 400 ''INVALID_REQUEST'')
           else
             (case LeaseWaiting listening sched (lin_runner input) (lin_capacity input) (sha256 (de_runner_token de)) (lin_wait_ms input) (dw_db w) of
                (s, Inl e) \<Rightarrow> (w\<lparr>dw_db := s\<rparr>, if e = ErrNoRows then Plain (reply 204 NoBody) else defense_fail rq e)
              | (s, Inr v) \<Rightarrow> (w\<lparr>dw_db := s\<rparr>, LeaseReply v)))"

definition heartbeat :: "defense_env \<Rightarrow> ambient \<Rightarrow> Request \<Rightarrow> defense_site \<Rightarrow> defense_site \<times> defense_reply" where
  "heartbeat de am rq w =
     runner de rq w (\<lambda>_.
       case Heartbeat (am_clk am 0) (rq_path rq ''job_id'') (rq_header rq ''X-Lease-Token'') (dw_db w) of
         (s, Inl e) \<Rightarrow> (w\<lparr>dw_db := s\<rparr>, defense_fail rq e)
       | (s, Inr _) \<Rightarrow> (w\<lparr>dw_db := s\<rparr>, Plain (reply 204 NoBody)))"

definition runner_event :: "Request \<Rightarrow> Completion \<Rightarrow> Event" where
  "runner_event rq input =
     \<lparr>ev_occurred_at = None, ev_actor_id = None, ev_actor_kind = ''runner'', ev_action = ''runner.job.complete'',
      ev_target_type = ''runner_job'', ev_target_id = Some (rq_path rq ''job_id''), ev_request_id = rq_id rq, ev_reason = None,
      ev_metadata = [(''outcome'', JString (Outcome input))]\<rparr>"

definition complete ::
  "(bytes \<Rightarrow> bool \<Rightarrow> Completion option) \<Rightarrow> defense_env \<Rightarrow> installation \<Rightarrow> ambient \<Rightarrow> Request \<Rightarrow> defense_site \<Rightarrow> defense_site \<times> defense_reply" where
  "complete decoder de env am rq w =
     runner de rq w (\<lambda>_.
       case decodeJSONLimit decoder (16 * 1048576) rq of
         None \<Rightarrow> (w, problem rq 400 ''INVALID_REQUEST'')
       | Some input \<Rightarrow>
           (case Defense_Repository.Complete (am_clk am) (de_now de) (am_ids am) (rq_path rq ''job_id'') (rq_header rq ''X-Lease-Token'') input (dw_db w) of
              (s, Inl e) \<Rightarrow> (w\<lparr>dw_db := s\<rparr>, defense_fail rq e)
            | (s, Inr v) \<Rightarrow>
                noted env am rq (runner_event rq input) (w\<lparr>dw_db := s\<rparr>) (case v of None \<Rightarrow> PreparedReply | Some a \<Rightarrow> AttemptReply 200 a)))"

section \<open>Routes\<close>

datatype defense_route =
    PostDefense | GetDefense | GetPending | PostConfigure | PostConfigureHide | GetRepository | GetRepositoryFile
  | PutDraft | PostAttempt | PostCancel | GetAttemptById | GetHistory
  | PostLease | PostHeartbeat | PostComplete

record defense_decoders =
  dd_submission :: "bytes \<Rightarrow> bool \<Rightarrow> string option"
  dd_configure :: "bytes \<Rightarrow> bool \<Rightarrow> configureInput option"
  dd_hide :: "bytes \<Rightarrow> bool \<Rightarrow> (int \<times> Mutation list) option"
  dd_answer :: "bytes \<Rightarrow> bool \<Rightarrow> string option"
  dd_lease :: "bytes \<Rightarrow> bool \<Rightarrow> leaseInput option"
  dd_completion :: "bytes \<Rightarrow> bool \<Rightarrow> Completion option"

fun defense_dispatch ::
  "defense_decoders \<Rightarrow> bool \<Rightarrow> schedule \<Rightarrow> defense_env \<Rightarrow> installation \<Rightarrow> ambient \<Rightarrow> defense_route \<Rightarrow> Request \<Rightarrow> defense_site
   \<Rightarrow> defense_site \<times> defense_reply" where
  "defense_dispatch dd listening sched de env am PostDefense rq w = create (dd_submission dd) de env am rq w"
| "defense_dispatch dd listening sched de env am GetDefense rq w = get env am rq w"
| "defense_dispatch dd listening sched de env am GetPending rq w = pendingConfiguration env am rq w"
| "defense_dispatch dd listening sched de env am PostConfigure rq w = configure (dd_configure dd) env am rq w"
| "defense_dispatch dd listening sched de env am PostConfigureHide rq w = configureHide (dd_hide dd) de env am rq w"
| "defense_dispatch dd listening sched de env am GetRepository rq w = repositoryFiles de env am rq w"
| "defense_dispatch dd listening sched de env am GetRepositoryFile rq w = repositoryFile de env am rq w"
| "defense_dispatch dd listening sched de env am PutDraft rq w = draft (dd_answer dd) de env am rq w"
| "defense_dispatch dd listening sched de env am PostAttempt rq w = attempt (dd_answer dd) de env am rq w"
| "defense_dispatch dd listening sched de env am PostCancel rq w = cancel env am rq w"
| "defense_dispatch dd listening sched de env am GetAttemptById rq w = getAttempt env am rq w"
| "defense_dispatch dd listening sched de env am GetHistory rq w = history env am rq w"
| "defense_dispatch dd listening sched de env am PostLease rq w = lease (dd_lease dd) listening sched de rq w"
| "defense_dispatch dd listening sched de env am PostHeartbeat rq w = heartbeat de am rq w"
| "defense_dispatch dd listening sched de env am PostComplete rq w = complete (dd_completion dd) de env am rq w"

end
