(* ===== verification/Http_Defense_Properties.thy ===== *)
theory Http_Defense_Properties
  imports Http_Defense
begin

text \<open>
  What the HTTP interface to defenses promises: who may change a defense, that what people and
  runners do is recorded, and that requests move the tables of defenses only by the steps of the
  defense model, so that its invariants hold behind the interface.
\<close>

section \<open>The operations as steps\<close>

text \<open>Reading a defense may note that its time is over, and changes nothing else.\<close>

definition expires :: "db \<Rightarrow> db \<Rightarrow> bool" where
  "expires s s' \<longleftrightarrow> (\<exists>now i. s' = expire now i s)"

lemma expires_step: "expires\<^sup>*\<^sup>* s s' \<Longrightarrow> step\<^sup>*\<^sup>* s s'"
  by (erule rtranclp_mono [THEN predicate2D, rotated]) (auto simp: expires_def intro: step.expiry)

lemma Get_expires: "Get now a i s = (s', r) \<Longrightarrow> expires\<^sup>*\<^sup>* s s'"
  unfolding Get_def Let_def expires_def by blast

lemma then_get_steps:
  assumes "then_get now a s x = (s', r)" and "\<And>s1 i. x = Inr (s1, i) \<Longrightarrow> step s s1"
  shows "step\<^sup>*\<^sup>* s s'"
proof (cases x)
  case (Inr y)
  then obtain s1 i where y: "x = Inr (s1, i)" by (cases y) auto
  then have "step s s1" "expires\<^sup>*\<^sup>* s1 s'" using assms Get_expires by (auto simp: then_get_def)
  then show ?thesis using expires_step converse_rtranclp_into_rtranclp by metis
qed (use assms in \<open>simp add: then_get_def\<close>)

lemma pending_views_expires: "pending_views clk collate a n is s = (s', r) \<Longrightarrow> expires\<^sup>*\<^sup>* s s'"
proof (induction "is" arbitrary: n s s' r)
  case (Cons i "is")
  obtain s1 x where g: "Get (clk n) a i s = (s1, x)" by fastforce
  show ?case
  proof (cases x)
    case (Inl e)
    then show ?thesis using Cons.prems g Get_expires by fastforce
  next
    case (Inr v)
    obtain s2 y where p: "pending_views clk collate a (Suc n) is s1 = (s2, y)" by fastforce
    then have "s' = s2" using Cons.prems g Inr by (cases y) auto
    then show ?thesis using Get_expires [OF g] Cons.IH [OF p] by (meson rtranclp_trans)
  qed
qed simp

lemma validateAnswer_expires: "validateAnswer u ul opn z now a i answer s = (s', r) \<Longrightarrow> expires\<^sup>*\<^sup>* s s'"
  by (auto simp: validateAnswer_def split: prod.splits sum.splits dest: Get_expires)

lemma operation_steps:
  "Defense_Repository.Create clk a sub key i ses job seed s = (s', r) \<Longrightarrow> step\<^sup>*\<^sup>* s s'"
  "Configure clk a i mode cand ent secs n job s = (s', r) \<Longrightarrow> step\<^sup>*\<^sup>* s s'"
  "ConfigureHide clk a i secs ms job s = (s', r) \<Longrightarrow> step\<^sup>*\<^sup>* s s'"
  "Cancel clk a i s = (s', r) \<Longrightarrow> step\<^sup>*\<^sup>* s s'"
  unfolding Create_def Configure_def ConfigureHide_def Cancel_def
  by (erule then_get_steps; blast intro: step.intros)+

lemma attempt_steps: "Attempt_op clk a i key ans aid jid s = (s', r) \<Longrightarrow> step\<^sup>*\<^sup>* s s'"
  by (auto simp: Attempt_op_def split: sum.splits prod.splits intro: step.attempt)

lemma complete_steps: "Defense_Repository.Complete clk now new job tok inp s = (s', r) \<Longrightarrow> step\<^sup>*\<^sup>* s s'"
  by (auto simp: Defense_Repository.Complete_def split: sum.splits prod.splits intro: step.complete)

lemma lease_once_steps: "lease_once rn n dg r s = (s', x) \<Longrightarrow> step\<^sup>*\<^sup>* s s'"
  by (auto simp: lease_once_def Lease_op_def split: sum.splits prod.splits option.splits intro: step.lease)

text \<open>While a runner waits, the others make steps of the model.\<close>

fun others_step :: "schedule \<Rightarrow> bool" where
  "others_step (LastRound r stop) \<longleftrightarrow> True"
| "others_step (Round r others rest) \<longleftrightarrow> (\<forall>s. step\<^sup>*\<^sup>* s (others s)) \<and> others_step rest"

lemma lease_rounds_steps: "lease_rounds rn n dg sched s = (s', x) \<Longrightarrow> others_step sched \<Longrightarrow> step\<^sup>*\<^sup>* s s'"
proof (induction sched arbitrary: s)
  case (LastRound r stop)
  then show ?case by (auto split: prod.splits if_splits dest: lease_once_steps)
next
  case (Round r others rest)
  obtain s1 y where l: "lease_once rn n dg r s = (s1, y)" by fastforce
  note first = lease_once_steps [OF l]
  show ?case
  proof (cases "y = Inl ErrNoRows")
    case True
    then have "step\<^sup>*\<^sup>* (others s1) s'" using Round l by simp
    moreover have "step\<^sup>*\<^sup>* s1 (others s1)" using Round.prems(2) by simp
    ultimately show ?thesis using first by (meson rtranclp_trans)
  qed (use Round.prems(1) l first in simp)
qed

lemma LeaseWaiting_steps: "LeaseWaiting ls sched rn n dg wait s = (s', x) \<Longrightarrow> others_step sched \<Longrightarrow> step\<^sup>*\<^sup>* s s'"
  by (auto simp: LeaseWaiting_def split: if_splits dest: lease_once_steps lease_rounds_steps)

section \<open>Outcomes\<close>

text \<open>
  The accounts are untouched, the tables of defenses move as \<open>M\<close> says, and the log either stays, or
  gets one event for which \<open>A\<close> holds.
\<close>

definition logs :: "(audit_row \<Rightarrow> bool) \<Rightarrow> defense_site \<Rightarrow> defense_site \<Rightarrow> defense_reply \<Rightarrow> bool" where
  "logs A w w' r \<longleftrightarrow>
     (\<exists>row. site_log (dw_site w') = site_log (dw_site w) @ [row] \<and> A row \<and> status_of r < 400)
   \<or> site_log (dw_site w') = site_log (dw_site w) \<and> (status_of r \<ge> 400 \<or> r = nothing_written \<and> w' = w)"

definition effect ::
  "(db \<Rightarrow> db \<Rightarrow> bool) \<Rightarrow> (audit_row \<Rightarrow> bool) option \<Rightarrow> defense_site \<Rightarrow> defense_site \<Rightarrow> defense_reply \<Rightarrow> bool" where
  "effect M A w w' r \<longleftrightarrow>
     site_db (dw_site w') = site_db (dw_site w) \<and> M (dw_db w) (dw_db w')
   \<and> (case A of None \<Rightarrow> dw_site w' = dw_site w | Some A \<Rightarrow> logs A w w' r)"

lemma defense_fail_status [simp]: "status_of (defense_fail rq e) \<ge> 400" "status_of (problem rq n c) = n"
  by (simp_all add: defense_fail_def problem_def)

lemma effect_same: "status_of r \<ge> 400 \<or> r = nothing_written \<Longrightarrow> effect M\<^sup>*\<^sup>* A w w r"
  by (auto simp: effect_def logs_def split: option.splits)

lemma effect_failed: "M (dw_db w) s \<Longrightarrow> status_of r \<ge> 400 \<Longrightarrow> effect M A w (w\<lparr>dw_db := s\<rparr>) r"
  by (auto simp: effect_def logs_def split: option.splits)

lemma effect_silent: "M (dw_db w) s \<Longrightarrow> effect M None w (w\<lparr>dw_db := s\<rparr>) r"
  by (simp add: effect_def)

lemma effect_noted:
  assumes "noted env am rq ev (w\<lparr>dw_db := s\<rparr>) success = (w', r)" and "M (dw_db w) s"
    and "\<And>row. event_row ev row \<Longrightarrow> A row" and "status_of success < 400"
  shows "effect M (Some A) w w' r"
  using assms by (auto simp: noted_def effect_def logs_def split: sum.splits dest!: Record_row)

text \<open>The common shape of the handlers: an operation, and on success an event.\<close>

lemma effect_operation:
  assumes "(case x of (s, Inl e) \<Rightarrow> (w\<lparr>dw_db := s\<rparr>, defense_fail rq e)
              | (s, Inr v) \<Rightarrow> noted env am rq (ev v) (w\<lparr>dw_db := s\<rparr>) (success v)) = (w', r)"
    and "\<And>s y. x = (s, y) \<Longrightarrow> M (dw_db w) s" and "\<And>v row. event_row (ev v) row \<Longrightarrow> A row" and "\<And>v. status_of (success v) < 400"
  shows "effect M (Some A) w w' r"
proof -
  obtain s y where x: "x = (s, y)" by (cases x)
  show ?thesis
  proof (cases y)
    case (Inl e)
    then have "(w', r) = (w\<lparr>dw_db := s\<rparr>, defense_fail rq e)" using assms(1) x by simp
    then show ?thesis using assms(2) [OF x] by (simp add: effect_failed)
  next
    case (Inr v)
    then have "noted env am rq (ev v) (w\<lparr>dw_db := s\<rparr>) (success v) = (w', r)" using assms(1) x by simp
    then show ?thesis by (rule effect_noted) (use assms x in auto)
  qed
qed

text \<open>The same without an event.\<close>

lemma effect_silent_operation:
  assumes "(case x of (s, Inl e) \<Rightarrow> (w\<lparr>dw_db := s\<rparr>, failed e) | (s, Inr v) \<Rightarrow> (w\<lparr>dw_db := s\<rparr>, success v)) = (w', r)"
    and "\<And>s y. x = (s, y) \<Longrightarrow> M (dw_db w) s"
  shows "effect M None w w' r"
proof -
  obtain s y where x: "x = (s, y)" by (cases x)
  with assms show ?thesis by (cases y) (auto intro: effect_silent)
qed

section \<open>Who is behind a request\<close>

definition by_viewer :: "installation \<Rightarrow> ambient \<Rightarrow> Request \<Rightarrow> (User \<Rightarrow> bool) \<Rightarrow> defense_site \<Rightarrow> defense_site \<Rightarrow> defense_reply \<Rightarrow> bool" where
  "by_viewer env am rq P w w' r \<longleftrightarrow>
     w' = w \<and> status_of r \<ge> 400 \<or> (\<exists>ws user. presents env am rq (adb_of (dw_site w)) ws user \<and> P user)"

definition by_actor :: "installation \<Rightarrow> ambient \<Rightarrow> Request \<Rightarrow> (User \<Rightarrow> bool) \<Rightarrow> defense_site \<Rightarrow> defense_site \<Rightarrow> defense_reply \<Rightarrow> bool" where
  "by_actor env am rq P w w' r \<longleftrightarrow>
     w' = w \<and> status_of r \<ge> 400
   \<or> (\<exists>ws user. presents env am rq (adb_of (dw_site w)) ws user \<and> has_csrf env rq ws \<and> ws_view_role ws = None \<and> P user)"

definition by_runner :: "defense_env \<Rightarrow> Request \<Rightarrow> bool \<Rightarrow> defense_site \<Rightarrow> defense_site \<Rightarrow> defense_reply \<Rightarrow> bool" where
  "by_runner de rq P w w' r \<longleftrightarrow> w' = w \<and> status_of r = 401 \<or> runnerAuthorized de rq \<and> P"

lemma viewerI:
  assumes "viewer env am rq w k = (w', r)" and "\<And>user. k user = (w', r) \<Longrightarrow> P user"
  shows "by_viewer env am rq P w w' r"
  using assms(1) unfolding viewer_def
  by (rule admitted_cases) (use assms(2) in \<open>auto simp: by_viewer_def\<close>)

lemma actorI:
  assumes "actor env am rq w k = (w', r)" and "\<And>user. k user = (w', r) \<Longrightarrow> P user"
  shows "by_actor env am rq P w w' r"
  using assms(1) unfolding actor_def
  by (rule admitted_cases) (use assms(2) in \<open>auto simp: by_actor_def dest: authorizeMutation_refuses authorizeMutation_ok\<close>)

lemma runnerI:
  assumes "runner de rq w k = (w', r)" and "k () = (w', r) \<Longrightarrow> P"
  shows "by_runner de rq P w w' r"
  using assms by (auto simp: runner_def by_runner_def split: if_splits)

text \<open>The events of people and of runners.\<close>

definition event_of :: "Request \<Rightarrow> string \<Rightarrow> User \<Rightarrow> audit_row \<Rightarrow> bool" where
  "event_of rq action user row \<longleftrightarrow>
     au_action row = action \<and> au_actor_kind row = ''user'' \<and> au_actor_id row = Some (usr_id user) \<and> au_request_id row = rq_id rq"

definition event_of_runner :: "Request \<Rightarrow> audit_row \<Rightarrow> bool" where
  "event_of_runner rq row \<longleftrightarrow>
     au_action row = ''runner.job.complete'' \<and> au_actor_kind row = ''runner'' \<and> au_actor_id row = None
   \<and> au_target_id row = Some (rq_path rq ''job_id'') \<and> au_request_id row = rq_id rq"

lemma event_ofI: "event_row (user_event rq user action t i reason md) row \<Longrightarrow> event_of rq action user row"
  by (simp add: event_row_def event_of_def user_event_def)

lemma event_of_runnerI: "event_row (runner_event rq inp) row \<Longrightarrow> event_of_runner rq row"
  by (simp add: event_row_def event_of_runner_def runner_event_def)

text \<open>Guards that refuse a request.\<close>

lemma effect_if:
  assumes "(if c then (w, bad) else x) = (w', r)" and "status_of bad \<ge> 400" and "\<not> c \<Longrightarrow> x = (w', r) \<Longrightarrow> effect M\<^sup>*\<^sup>* A w w' r"
  shows "effect M\<^sup>*\<^sup>* A w w' r"
  using assms by (auto split: if_splits intro: effect_same)

lemma effect_decoded:
  assumes "(case x of None \<Rightarrow> (w, bad) | Some v \<Rightarrow> f v) = (w', r)" and "status_of bad \<ge> 400 \<or> bad = nothing_written"
    and "\<And>v. f v = (w', r) \<Longrightarrow> effect M\<^sup>*\<^sup>* A w w' r"
  shows "effect M\<^sup>*\<^sup>* A w w' r"
  using assms by (auto split: option.splits intro: effect_same)

lemma effect_result:
  assumes "(case x of Inl e \<Rightarrow> (w, bad e) | Inr v \<Rightarrow> f v) = (w', r)" and "\<And>e. status_of (bad e) \<ge> 400"
    and "\<And>v. f v = (w', r) \<Longrightarrow> effect M\<^sup>*\<^sup>* A w w' r"
  shows "effect M\<^sup>*\<^sup>* A w w' r"
  using assms by (auto split: sum.splits intro: effect_same)

lemma staff_only:
  assumes "(if \<not> is_staff user then (w, problem rq 403 c) else x) = (w', r)" and "x = (w', r) \<Longrightarrow> Q"
  shows "w' = w \<and> status_of r \<ge> 400 \<or> is_staff user \<and> Q"
  using assms by (auto split: if_splits)

section \<open>The handlers\<close>

lemma create_effect:
  assumes "create decoder de env am rq w = (w', r)"
  shows "by_actor env am rq (\<lambda>user. effect step\<^sup>*\<^sup>* (Some (event_of rq ''defense.start'' user)) w w' r) w w' r"
  using assms unfolding create_def
  by (rule actorI, elim effect_decoded effect_if effect_operation) (auto intro: operation_steps event_ofI)

lemma configure_effect:
  assumes "configure decoder env am rq w = (w', r)"
  shows "by_actor env am rq (\<lambda>user. w' = w \<and> status_of r \<ge> 400
      \<or> is_staff user \<and> effect step\<^sup>*\<^sup>* (Some (event_of rq ''defense.configure'' user)) w w' r) w w' r"
  using assms unfolding configure_def
  by (rule actorI, elim staff_only effect_decoded effect_if effect_operation) (auto intro: operation_steps event_ofI)

lemma configureHide_effect:
  assumes "configureHide decoder de env am rq w = (w', r)"
  shows "by_actor env am rq (\<lambda>user. w' = w \<and> status_of r \<ge> 400
      \<or> is_staff user \<and> effect step\<^sup>*\<^sup>* (Some (event_of rq ''defense.configure_hide_seek'' user)) w w' r) w w' r"
proof -
  have pair: "effect step\<^sup>*\<^sup>* A w w' r"
    if "(case p of (x, y) \<Rightarrow> f x y) = (w', r)" and "\<And>x y. f x y = (w', r) \<Longrightarrow> effect step\<^sup>*\<^sup>* A w w' r" for p :: "'x \<times> 'y" and f A
    using that by (cases p) simp
  show ?thesis
    using assms unfolding configureHide_def
    by (rule actorI, elim staff_only effect_decoded pair effect_if effect_result effect_operation) (auto intro: operation_steps event_ofI)
qed

lemma cancel_effect:
  assumes "cancel env am rq w = (w', r)"
  shows "by_actor env am rq (\<lambda>user. effect step\<^sup>*\<^sup>* (Some (event_of rq ''defense.cancel'' user)) w w' r) w w' r"
  using assms unfolding cancel_def
  by (rule actorI, elim effect_if effect_operation) (auto intro: operation_steps event_ofI)

text \<open>An answer is checked before it is used, which reads the defense.\<close>

lemma effect_checked:
  assumes "(case check_answer de env am rq user answer (dw_db w) of
              (s, Inl e) \<Rightarrow> (w\<lparr>dw_db := s\<rparr>, problem rq 422 c) | (s, Inr u) \<Rightarrow> f s) = (w', r)"
    and "\<And>s. step\<^sup>*\<^sup>* (dw_db w) s \<Longrightarrow> f s = (w', r) \<Longrightarrow> effect step\<^sup>*\<^sup>* A w w' r"
  shows "effect step\<^sup>*\<^sup>* A w w' r"
proof -
  obtain s x where x: "check_answer de env am rq user answer (dw_db w) = (s, x)" by fastforce
  then have steps: "step\<^sup>*\<^sup>* (dw_db w) s" unfolding check_answer_def by (rule expires_step [OF validateAnswer_expires])
  show ?thesis
  proof (cases x)
    case (Inl e)
    then have "(w', r) = (w\<lparr>dw_db := s\<rparr>, problem rq 422 c)" using assms(1) x by simp
    then show ?thesis using steps by (simp add: effect_failed)
  qed (use assms x steps in simp)
qed

lemma draft_effect:
  assumes "draft decoder de env am rq w = (w', r)"
  shows "by_actor env am rq (\<lambda>user. effect step\<^sup>*\<^sup>* None w w' r) w w' r"
proof -
  have save: "effect step\<^sup>*\<^sup>* None w w' r"
    if "(case SaveDraft now a i answer version s of (s', Inl e) \<Rightarrow> (w\<lparr>dw_db := s'\<rparr>, defense_fail rq e)
           | (s', Inr (n, saved)) \<Rightarrow> (w\<lparr>dw_db := s'\<rparr>, DraftReply n saved)) = (w', r)" and "step\<^sup>*\<^sup>* (dw_db w) s"
    for now a i answer version s
  proof -
    obtain s' y where x: "SaveDraft now a i answer version s = (s', y)" by fastforce
    then have "step\<^sup>*\<^sup>* (dw_db w) s'" using that(2) step.saveDraft by (metis rtranclp.rtrancl_into_rtrancl)
    moreover have "w' = w\<lparr>dw_db := s'\<rparr>" using that(1) x by (auto split: sum.splits prod.splits)
    ultimately show ?thesis by (simp add: effect_silent)
  qed
  have both: "effect step\<^sup>*\<^sup>* None w w' r"
    if "(case (x, y) of (Some v, Some t) \<Rightarrow> f v t | _ \<Rightarrow> (w, problem rq 400 c)) = (w', r)"
      and "\<And>v t. f v t = (w', r) \<Longrightarrow> effect step\<^sup>*\<^sup>* None w w' r" for x :: "int option" and y :: "string option" and f c
    using that by (auto split: option.splits intro: effect_same)
  show ?thesis
    using assms unfolding draft_def
    by (rule actorI, elim both effect_if effect_checked save) simp_all
qed

lemma attempt_effect:
  assumes "attempt decoder de env am rq w = (w', r)"
  shows "by_actor env am rq (\<lambda>user. effect step\<^sup>*\<^sup>* (Some (event_of rq ''defense.attempt'' user)) w w' r) w w' r"
  using assms unfolding attempt_def
  by (rule actorI, elim effect_decoded effect_if effect_checked effect_operation) (auto intro: attempt_steps event_ofI rtranclp_trans)

text \<open>The routes that only read.\<close>

lemma get_effect: "get env am rq w = (w', r) \<Longrightarrow> by_viewer env am rq (\<lambda>user. effect expires\<^sup>*\<^sup>* None w w' r) w w' r"
  unfolding get_def by (rule viewerI, assumption, erule effect_silent_operation) (rule Get_expires)

lemma pendingConfiguration_effect:
  "pendingConfiguration env am rq w = (w', r) \<Longrightarrow> by_viewer env am rq (\<lambda>user. effect expires\<^sup>*\<^sup>* None w w' r) w w' r"
  unfolding pendingConfiguration_def PendingConfiguration_def
  by (rule viewerI, assumption, elim effect_if effect_silent_operation) (auto intro: pending_views_expires)

lemma viewer_reads:
  assumes "viewer env am rq w k = (w', r)" and "\<And>user. fst (k user) = w"
  shows "w' = w"
  using assms(1) unfolding viewer_def by (rule admitted_cases) (use assms(2) in \<open>auto dest: arg_cong [where f = fst]\<close>)

lemma defense_reads:
  "repositoryFiles de env am rq w = (w', r) \<Longrightarrow> w' = w"
  "repositoryFile de env am rq w = (w', r) \<Longrightarrow> w' = w"
  "getAttempt env am rq w = (w', r) \<Longrightarrow> w' = w"
  "history env am rq w = (w', r) \<Longrightarrow> w' = w"
  unfolding repositoryFiles_def repositoryFile_def getAttempt_def history_def
  by (erule viewer_reads; auto simp: Let_def split: sum.splits)+

text \<open>The routes of runners.\<close>

lemma lease_effect:
  assumes "lease decoder listening sched de rq w = (w', r)" and "others_step sched"
  shows "by_runner de rq (effect step\<^sup>*\<^sup>* None w w' r) w w' r"
  using assms(1) unfolding lease_def
  by (rule runnerI, elim effect_decoded effect_if effect_silent_operation) (auto intro: LeaseWaiting_steps assms(2))

lemma heartbeat_effect:
  "heartbeat de am rq w = (w', r) \<Longrightarrow> by_runner de rq (effect step\<^sup>*\<^sup>* None w w' r) w w' r"
  unfolding heartbeat_def by (rule runnerI, assumption, erule effect_silent_operation) (auto intro: step.heartbeat)

lemma complete_effect:
  assumes "complete decoder de env am rq w = (w', r)"
  shows "by_runner de rq (effect step\<^sup>*\<^sup>* (Some (event_of_runner rq)) w w' r) w w' r"
  using assms unfolding complete_def
  by (rule runnerI, elim effect_decoded effect_operation) (auto intro: complete_steps event_of_runnerI split: option.splits)

section \<open>Every route\<close>

datatype caller = AsViewer | AsPerson | AsStaff | AsRunner

fun caller_of :: "defense_route \<Rightarrow> caller" where
  "caller_of PostDefense = AsPerson"
| "caller_of PutDraft = AsPerson"
| "caller_of PostAttempt = AsPerson"
| "caller_of PostCancel = AsPerson"
| "caller_of PostConfigure = AsStaff"
| "caller_of PostConfigureHide = AsStaff"
| "caller_of PostLease = AsRunner"
| "caller_of PostHeartbeat = AsRunner"
| "caller_of PostComplete = AsRunner"
| "caller_of rt = AsViewer"

fun defense_action :: "defense_route \<Rightarrow> string option" where
  "defense_action PostDefense = Some ''defense.start''"
| "defense_action PostConfigure = Some ''defense.configure''"
| "defense_action PostConfigureHide = Some ''defense.configure_hide_seek''"
| "defense_action PostAttempt = Some ''defense.attempt''"
| "defense_action PostCancel = Some ''defense.cancel''"
| "defense_action PostComplete = Some ''runner.job.complete''"
| "defense_action rt = None"

text \<open>Whose request it is, and what it did.\<close>

definition entitled_caller :: "defense_env \<Rightarrow> installation \<Rightarrow> ambient \<Rightarrow> defense_route \<Rightarrow> Request \<Rightarrow> adb \<Rightarrow> bool" where
  "entitled_caller de env am rt rq b \<longleftrightarrow>
     (if caller_of rt = AsRunner then runnerAuthorized de rq
      else \<exists>ws user. presents env am rq b ws user
             \<and> (caller_of rt = AsViewer \<or> has_csrf env rq ws \<and> ws_view_role ws = None) \<and> (caller_of rt \<noteq> AsStaff \<or> is_staff user))"

definition route_event :: "defense_route \<Rightarrow> Request \<Rightarrow> audit_row \<Rightarrow> bool" where
  "route_event rt rq row \<longleftrightarrow>
     defense_action rt = Some (au_action row) \<and> au_request_id row = rq_id rq
   \<and> (if caller_of rt = AsRunner then au_actor_kind row = ''runner'' \<and> au_actor_id row = None
      else au_actor_kind row = ''user'' \<and> au_actor_id row \<noteq> None)"

definition route_effect :: "defense_route \<Rightarrow> Request \<Rightarrow> defense_site \<Rightarrow> defense_site \<Rightarrow> defense_reply \<Rightarrow> bool" where
  "route_effect rt rq w w' r \<longleftrightarrow>
     effect (if caller_of rt = AsViewer then expires\<^sup>*\<^sup>* else step\<^sup>*\<^sup>*) (if defense_action rt = None then None else Some (route_event rt rq)) w w' r"

lemma logs_mono: "logs A w w' r \<Longrightarrow> (\<And>row. A row \<Longrightarrow> B row) \<Longrightarrow> logs B w w' r"
  unfolding logs_def by blast

lemma effect_mono: "effect M (Some A) w w' r \<Longrightarrow> (\<And>row. A row \<Longrightarrow> B row) \<Longrightarrow> effect M (Some B) w w' r"
  unfolding effect_def by (auto elim: logs_mono)

lemma route_effect_same: "status_of r \<ge> 400 \<Longrightarrow> route_effect rt rq w w r"
  by (auto simp: route_effect_def intro: effect_same)

lemma actor_route:
  assumes "by_actor env am rq P w w' r" and "caller_of rt \<noteq> AsViewer" and "caller_of rt \<noteq> AsRunner"
    and "\<And>user. P user \<Longrightarrow> w' = w \<and> status_of r \<ge> 400 \<or> (caller_of rt \<noteq> AsStaff \<or> is_staff user) \<and> route_effect rt rq w w' r"
  shows "route_effect rt rq w w' r \<and> (w' = w \<or> entitled_caller de env am rt rq (adb_of (dw_site w)))"
  using assms unfolding by_actor_def entitled_caller_def by (auto intro: route_effect_same)

lemma viewer_route:
  assumes "by_viewer env am rq P w w' r" and "caller_of rt = AsViewer" and "\<And>user. P user \<Longrightarrow> route_effect rt rq w w' r"
  shows "route_effect rt rq w w' r \<and> (w' = w \<or> entitled_caller de env am rt rq (adb_of (dw_site w)))"
  using assms unfolding by_viewer_def entitled_caller_def by (auto intro: route_effect_same)

lemma runner_route:
  assumes "by_runner de rq P w w' r" and "caller_of rt = AsRunner" and "P \<Longrightarrow> route_effect rt rq w w' r"
  shows "route_effect rt rq w w' r \<and> (w' = w \<or> entitled_caller de env am rt rq (adb_of (dw_site w)))"
  using assms unfolding by_runner_def entitled_caller_def by (auto intro: route_effect_same)

lemma read_route: "w' = w \<Longrightarrow> caller_of rt = AsViewer \<Longrightarrow> route_effect rt rq w w' r \<and> (w' = w \<or> entitled_caller de env am rt rq b)"
  by (cases rt) (auto simp: route_effect_def effect_def)

lemma person_event: "event_of rq a user row \<Longrightarrow> defense_action rt = Some a \<Longrightarrow> caller_of rt \<noteq> AsRunner \<Longrightarrow> route_event rt rq row"
  by (simp add: event_of_def route_event_def)

lemma runner_event: "event_of_runner rq row \<Longrightarrow> route_event PostComplete rq row"
  by (simp add: event_of_runner_def route_event_def)

lemma event_route:
  assumes "effect step\<^sup>*\<^sup>* (Some (event_of rq a user)) w w' r" and "defense_action rt = Some a" and "caller_of rt = AsPerson \<or> caller_of rt = AsStaff"
  shows "route_effect rt rq w w' r"
  using assms by (auto simp: route_effect_def intro: person_event elim!: effect_mono)

lemma silent_route: "effect step\<^sup>*\<^sup>* None w w' r \<Longrightarrow> defense_action rt = None \<Longrightarrow> caller_of rt \<noteq> AsViewer \<Longrightarrow> route_effect rt rq w w' r"
  by (simp add: route_effect_def)

lemma defense_dispatch_route:
  assumes "defense_dispatch dd listening sched de env am rt rq w = (w', r)" and "others_step sched"
  shows "route_effect rt rq w w' r \<and> (w' = w \<or> entitled_caller de env am rt rq (adb_of (dw_site w)))"
proof (cases rt)
  case PostDefense
  then show ?thesis using assms(1) by (intro actor_route [OF create_effect]) (auto dest: event_route [where rt = PostDefense])
next
  case PostConfigure
  then show ?thesis using assms(1) by (intro actor_route [OF configure_effect]) (auto dest: event_route [where rt = PostConfigure])
next
  case PostConfigureHide
  then show ?thesis using assms(1) by (intro actor_route [OF configureHide_effect]) (auto dest: event_route [where rt = PostConfigureHide])
next
  case PutDraft
  then show ?thesis using assms(1) by (intro actor_route [OF draft_effect]) (auto dest: silent_route [where rt = PutDraft])
next
  case PostAttempt
  then show ?thesis using assms(1) by (intro actor_route [OF attempt_effect]) (auto dest: event_route [where rt = PostAttempt])
next
  case PostCancel
  then show ?thesis using assms(1) by (intro actor_route [OF cancel_effect]) (auto dest: event_route [where rt = PostCancel])
next
  case GetDefense
  then show ?thesis using assms(1) by (intro viewer_route [OF get_effect]) (auto simp: route_effect_def)
next
  case GetPending
  then show ?thesis using assms(1) by (intro viewer_route [OF pendingConfiguration_effect]) (auto simp: route_effect_def)
next
  case PostLease
  then show ?thesis using assms by (intro runner_route [OF lease_effect]) (auto dest: silent_route [where rt = PostLease])
next
  case PostHeartbeat
  then show ?thesis using assms(1) by (intro runner_route [OF heartbeat_effect]) (auto dest: silent_route [where rt = PostHeartbeat])
next
  case PostComplete
  then show ?thesis using assms(1)
    by (intro runner_route [OF complete_effect]) (auto simp: route_effect_def intro: runner_event elim!: effect_mono)
qed (use assms(1) in \<open>auto intro!: read_route dest: defense_reads\<close>)

section \<open>The promises of the interface\<close>

text \<open>
  C19: Only those who may change a defense do.  Whatever the request, if anything is changed then a
  runner's route was called with the token of the runners, or the request presents the cookie of a
  live session of an account that exists and is not blocked; for every route but the two that read a
  defense (which may note that its time is over) also the token of that session, which then previews
  no other role; and only a teacher or an administrator configures a defense.
\<close>

theorem defense_change_guarded:
  assumes "defense_dispatch dd listening sched de env am rt rq w = (w', r)" and "others_step sched" and "w' \<noteq> w"
  shows "if caller_of rt = AsRunner then runnerAuthorized de rq
    else \<exists>ws user. presents env am rq (adb_of (dw_site w)) ws user
           \<and> (caller_of rt = AsViewer \<or> has_csrf env rq ws \<and> ws_view_role ws = None) \<and> (caller_of rt \<noteq> AsStaff \<or> is_staff user)"
  using defense_dispatch_route [OF assms(1,2)] assms(3) unfolding entitled_caller_def by blast


text \<open>
  C18: The interface refines the defense model.  Every request moves the tables of defenses by steps of
  the model, one after the other, and none of the routes changes the accounts; so that the tables stay
  reachable, and the invariants of the model hold behind the interface.  A route that only reads does no more than
  note that the time of defenses is over.
\<close>

theorem http_refines_defenses:
  assumes "defense_dispatch dd listening sched de env am rt rq w = (w', r)" and "others_step sched" and "reachable (dw_db w)"
  shows "step\<^sup>*\<^sup>* (dw_db w) (dw_db w') \<and> reachable (dw_db w') \<and> inv (dw_db w') \<and> site_db (dw_site w') = site_db (dw_site w)
    \<and> (caller_of rt \<noteq> AsViewer \<or> expires\<^sup>*\<^sup>* (dw_db w) (dw_db w'))"
proof -
  have e: "site_db (dw_site w') = site_db (dw_site w)"
    "(if caller_of rt = AsViewer then expires\<^sup>*\<^sup>* else step\<^sup>*\<^sup>*) (dw_db w) (dw_db w')"
    using defense_dispatch_route [OF assms(1,2)] by (simp_all add: route_effect_def effect_def)
  then have steps: "step\<^sup>*\<^sup>* (dw_db w) (dw_db w')" using expires_step by (auto split: if_splits)
  from this assms(3) have "reachable (dw_db w')" by (induction) (auto intro: reachable.next_state)
  then show ?thesis using e steps reachable_inv by (auto split: if_splits)
qed

section \<open>An example\<close>

text \<open>The administrator \<open>root\<close> cancels a defense that is being prepared.\<close>

definition desk_db :: db where
  "desk_db = example_created\<lparr>users := \<lparr>u_id = ''root'', u_status = UserActive, u_role = Some Admin\<rparr> # db.users example_created\<rparr>"

definition desk :: defense_site where
  "desk = \<lparr>dw_site = web_site, dw_db = desk_db\<rparr>"

definition desk_rq :: Request where
  "desk_rq =
     web_rq\<lparr>rq_header := (\<lambda>h. if h = ''Idempotency-Key'' then ''01890a5d-ac96-774b-bcce-b302099a8057'' else rq_header web_rq h),
            rq_path := (\<lambda>_. ''def''), rq_id := ''r''\<rparr>"

definition desk_env :: defense_env where
  "desk_env =
     \<lparr>de_open = (\<lambda>_. Inl ErrDatabase), de_zip = (\<lambda>_. Inl ErrDatabase), de_opens = (\<lambda>_. True), de_edits = (\<lambda>_. None), de_runner_token = ''t'',
      de_seed = 0, de_now = 0\<rparr>"

definition desk_decoders :: defense_decoders where
  "desk_decoders =
     \<lparr>dd_submission = (\<lambda>_ _. None), dd_configure = (\<lambda>_ _. None), dd_hide = (\<lambda>_ _. None), dd_answer = (\<lambda>_ _. None), dd_lease = (\<lambda>_ _. None),
      dd_completion = (\<lambda>_ _. None)\<rparr>"

definition desk_round :: schedule where
  "desk_round = LastRound \<lparr>lr_clk = (\<lambda>_. 6), lr_app = 6, lr_locked = (\<lambda>_. False), lr_token = ''l'', lr_id = ''i''\<rparr> WaitOver"

abbreviation desk_call :: "defense_route \<Rightarrow> defense_site \<times> defense_reply" where
  "desk_call rt \<equiv> defense_dispatch desk_decoders False desk_round desk_env web_env web_am rt desk_rq desk"

lemma desk_reachable: "reachable desk_db"
proof -
  have "step example_created (example_created\<lparr>users := db.users desk_db, student_records := student_records desk_db,
      group_teachers := group_teachers desk_db, labs := db.labs desk_db, submission_versions := submission_versions desk_db\<rparr>)"
    by (rule step.others)
  moreover have "\<dots> = desk_db" by (simp add: desk_db_def)
  ultimately show ?thesis using example_reachable reachable.next_state by metis
qed

lemma desk_cancels:
  "\<exists>s v. Cancel (\<lambda>_. 6) ''root'' ''def'' desk_db = (s, Inr v) \<and> v_id v = ''def'' \<and> s \<noteq> desk_db"
proof -
  have "case Cancel (\<lambda>_. 6) ''root'' ''def'' desk_db of
      (s, Inl e) \<Rightarrow> False | (s, Inr v) \<Rightarrow> v_id v = ''def'' \<and> list_all (\<lambda>d. d_status d = DCancelled) (defenses s)" by code_simp
  moreover have "\<not> list_all (\<lambda>d. d_status d = DCancelled) (defenses desk_db)" by code_simp
  ultimately show ?thesis by (auto split: prod.splits sum.splits)
qed

lemma desk_cancel: "\<exists>w' r. desk_call PostCancel = (w', r) \<and> dw_db w' \<noteq> dw_db desk \<and> status_of r = 200"
proof -
  obtain u where u: "authenticate web_env web_am desk_rq web_adb = Inr (session_view web_session, u, ws_csrf_hash web_session)" "usr_id u = ''root''"
    using web_authenticated [of "''r''"] by (auto simp: authenticate_def desk_rq_def split: option.splits if_splits sum.splits prod.splits)
  have csrf: "authorizeMutation web_env desk_rq (session_view web_session) (ws_csrf_hash web_session) = Inr ()"
    by (simp add: authorizeMutation_def authorizeCSRF_def VerifyCSRFToken_def VerifyToken_def web_env_def web_rq_def desk_rq_def session_view_def
        web_session_def has_prefix_def del: base64_url.simps)
  obtain s v where c: "Cancel (\<lambda>_. 6) ''root'' ''def'' desk_db = (s, Inr v)" "v_id v = ''def''" "s \<noteq> desk_db" using desk_cancels by blast
  let ?ev = "user_event desk_rq u ''defense.cancel'' ''defense'' (Some ''def'') None []"
  have "\<exists>rows. Record ex_marshal web_adb (Inr ''e1'') 0 6000 ?ev [] = Inr rows"
    using acct_root_facts u(2)
    by (simp add: Record_def Append_def user_event_def desk_rq_def web_rq_def insert_audit_def audit_check_def new_audit_row_def Let_def audit_kinds_def
        previous_hash_def slice_stable_def nullableBytes_def references_def unique_on_def web_adb_def del: base64_url.simps)
  then obtain rows where rows: "Record ex_marshal web_adb (Inr ''e1'') 0 6000 ?ev [] = Inr rows" by blast
  have site: "adb_of (dw_site desk) = web_adb" "site_log (dw_site desk) = []" "dw_db desk = desk_db" "rq_path desk_rq p = ''def''"
    "am_clk web_am = (\<lambda>_. 6)" "validIdempotencyKey desk_rq" for p
    using web_id by (simp_all add: desk_def web_site_def adb_of_def desk_rq_def web_am_def validIdempotencyKey_def)
  have "cancel web_env web_am desk_rq desk =
      (desk\<lparr>dw_db := s, dw_site := (dw_site desk)\<lparr>site_log := rows\<rparr>\<rparr>, DefenseReply 200 v)"
    using u csrf rows site c by (simp add: cancel_def actor_def admitted_def noted_def event_id_def web_fields)
  then show ?thesis using c(3) site(3) by simp
qed

theorem defense_change_guarded_witness:
  "\<exists>w' r ws user. desk_call PostCancel = (w', r) \<and> w' \<noteq> desk \<and> presents web_env web_am desk_rq (adb_of (dw_site desk)) ws user
     \<and> has_csrf web_env desk_rq ws \<and> ws_view_role ws = None"
proof -
  obtain w' r where c: "desk_call PostCancel = (w', r)" "dw_db w' \<noteq> dw_db desk" using desk_cancel by blast
  then have "w' \<noteq> desk" by blast
  with defense_change_guarded [OF c(1) _ this] c(1) show ?thesis by (auto simp: desk_round_def)
qed


theorem http_refines_defenses_witness:
  "\<exists>w' r. desk_call PostCancel = (w', r) \<and> dw_db w' \<noteq> dw_db desk \<and> reachable (dw_db desk) \<and> step\<^sup>*\<^sup>* (dw_db desk) (dw_db w') \<and> inv (dw_db w')"
proof -
  obtain w' r where c: "desk_call PostCancel = (w', r)" "dw_db w' \<noteq> dw_db desk" using desk_cancel by blast
  moreover have "reachable (dw_db desk)" using desk_reachable by (simp add: desk_def)
  ultimately show ?thesis using http_refines_defenses [OF c(1)] by (auto simp: desk_round_def)
qed

text \<open>
  The exception: a configuration whose body cannot be decoded changes nothing and yet is answered
  with success, because the handler returns without writing a response.
\<close>

lemma undecodable_configuration_succeeds:
  assumes "authenticate env am rq (adb_of (dw_site w)) = Inr (session, user, h)" and "authorizeMutation env rq session h = Inr ()"
    and "is_staff user" and "decodeJSON decoder rq = None"
  shows "configure decoder env am rq w = (w, nothing_written) \<and> status_of (snd (configure decoder env am rq w)) = 200"
  using assms by (simp add: configure_def actor_def admitted_def nothing_written_def)

end
