(* ===== verification/Http_Imports.thy ===== *)
theory Http_Imports
  imports Http_Properties Storage_Clients Importer
begin

text \<open>
  The HTTP interface to imports: the handlers of \<open>transport/httpapi/imports.go\<close> and \<open>local_import.go\<close>,
  and the download of \<open>catalog.go\<close>.

  The state is the site together with the object store, and a handler works on both: it uploads to
  the store, changes the database, and undoes the upload when that fails.  The store is a record of the
  type \<open>FileStorage\<close>.  The multipart parser, the codecs of ZIP, JSON and zlib, the clock and the text of
  errors are parameters.  Response headers are left out.
\<close>

section \<open>State and replies\<close>

record 's import_site =
  iw_site :: site
  iw_store :: 's

record form =
  fm_value :: "string \<Rightarrow> string"
  fm_archive :: "(string \<times> int \<times> reader) option"

record localImportItem =
  li_id :: uuid
  li_group_id :: uuid
  li_group_code :: string
  li_login :: string
  li_lab :: string
  li_repository :: string
  li_branch :: string

record localImportPlan =
  lp_actor :: uuid
  lp_expires :: int
  lp_items :: "localImportItem list"

datatype import_reply =
    IPlain Response
  | ImportReply nat Import
  | ImportsReply "Import list"
  | ContextReply "GitHubImportGroup list"
  | ArchiveReply string int bytes
  | AppliedReply uuid
  | TicketReply string nat int
  | PlanReply localImportPlan
  | LocalReply uuid import_state

fun import_status :: "import_reply \<Rightarrow> nat" where
  "import_status (IPlain rs) = rs_status rs"
| "import_status (ImportReply n v) = n"
| "import_status (TicketReply t n e) = 201"
| "import_status (LocalReply i st) = 202"
| "import_status r = 200"

text \<open>
  What surrounds a handler: the store, the environment of its calls in order, the results of
  \<open>NewUUIDv7\<close> in order, the parser of multipart forms (on the bytes that \<open>MaxBytesReader\<close> lets through and
  whether there were more), whether reading an archive back fails, the codecs, the text of an error
  and the clock in seconds.
\<close>

record ('s, 'e) import_env =
  ie_files :: "('s, 'e) FileStorage"
  ie_call :: "nat \<Rightarrow> 'e"
  ie_fresh :: "nat \<Rightarrow> uuid result"
  ie_form :: "bytes \<Rightarrow> bool \<Rightarrow> form option"
  ie_read_fails :: bool
  ie_zip :: "bytes \<Rightarrow> ZipFile list result"
  ie_write_zip :: "(string \<times> bytes) list \<Rightarrow> bytes result"
  ie_decode_manifest :: "bytes \<Rightarrow> Manifest result"
  ie_encode_manifest :: "Manifest \<Rightarrow> bytes"
  ie_json_valid :: "bytes \<Rightarrow> bool"
  ie_json_object :: "string \<Rightarrow> bool"
  ie_message :: "go_error \<Rightarrow> string"
  ie_unix :: int
  ie_marshal_plan :: "localImportPlan \<Rightarrow> bytes"
  ie_unmarshal_plan :: "bytes \<Rightarrow> localImportPlan option"
  ie_deflate :: "bytes \<Rightarrow> bytes"
  ie_inflate :: "bytes \<Rightarrow> reader option"

definition iproblem :: "Request \<Rightarrow> nat \<Rightarrow> string \<Rightarrow> import_reply" where
  "iproblem rq n code = IPlain (writeProblem rq n code)"

definition idb_of :: "'s import_site \<Rightarrow> idb" where
  "idb_of w = site_db (iw_site w)"

definition set_idb :: "idb \<Rightarrow> 's import_site \<Rightarrow> 's import_site" where
  "set_idb d w = w\<lparr>iw_site := (iw_site w)\<lparr>site_db := d\<rparr>\<rparr>"

definition import_fail :: "('s, 'e) import_env \<Rightarrow> Request \<Rightarrow> go_error \<Rightarrow> import_reply" where
  "import_fail ie rq e =
     (if e = ErrForbidden then iproblem rq 403 ''FORBIDDEN''
      else if contains (ie_message ie e) ''mismatch'' \<or> contains (ie_message ie e) ''unknown lab'' \<or> contains (ie_message ie e) ''invalid''
      then iproblem rq 422 ''IMPORT_INVALID''
      else iproblem rq 409 ''IMPORT_CONFLICT'')"

definition iviewer ::
  "installation \<Rightarrow> ambient \<Rightarrow> Request \<Rightarrow> 's import_site \<Rightarrow> (User \<Rightarrow> 's import_site \<times> import_reply) \<Rightarrow> 's import_site \<times> import_reply" where
  "iviewer env am rq w k =
     admitted (\<lambda>env rq session csrfHash. Inr ()) env am rq (adb_of (iw_site w)) (\<lambda>p. (w, IPlain p)) (\<lambda>session user. k user)"

definition iactor ::
  "installation \<Rightarrow> ambient \<Rightarrow> Request \<Rightarrow> 's import_site \<Rightarrow> (User \<Rightarrow> 's import_site \<times> import_reply) \<Rightarrow> 's import_site \<times> import_reply" where
  "iactor env am rq w k =
     admitted authorizeMutation env am rq (adb_of (iw_site w)) (\<lambda>p. (w, IPlain p)) (\<lambda>session user. k user)"

definition teacher_or_admin :: "User \<Rightarrow> bool" where
  "teacher_or_admin user \<longleftrightarrow> usr_role user = Some Teacher \<or> usr_role user = Some Admin"

definition inoted ::
  "installation \<Rightarrow> ambient \<Rightarrow> Request \<Rightarrow> Event \<Rightarrow> 's import_site \<Rightarrow> import_reply \<Rightarrow> 's import_site \<times> import_reply" where
  "inoted env am rq ev w success =
     (case Record (in_marshal env) (adb_of (iw_site w)) (event_id am) (am_event_gap am) (am_event_time am) ev (site_log (iw_site w)) of
        Inl e \<Rightarrow> (w, iproblem rq 500 ''AUDIT_WRITE_FAILED'')
      | Inr rows \<Rightarrow> (w\<lparr>iw_site := (iw_site w)\<lparr>site_log := rows\<rparr>\<rparr>, success))"

section \<open>Reading\<close>

definition githubContext :: "installation \<Rightarrow> ambient \<Rightarrow> Request \<Rightarrow> 's import_site \<Rightarrow> 's import_site \<times> import_reply" where
  "githubContext env am rq w =
     iviewer env am rq w (\<lambda>a.
       if \<not> teacher_or_admin a then (w, iproblem rq 403 ''FORBIDDEN'')
       else (w, ContextReply (GitHubImportContext (in_collate env) (usr_id a) (idb_of w))))"

definition listPending :: "('s, 'e) import_env \<Rightarrow> installation \<Rightarrow> ambient \<Rightarrow> Request \<Rightarrow> 's import_site \<Rightarrow> 's import_site \<times> import_reply" where
  "listPending ie env am rq w =
     iviewer env am rq w (\<lambda>a.
       let groupID = rq_query rq ''group_id'' in
       if groupID \<noteq> '''' \<and> \<not> uuid_pattern groupID then (w, iproblem rq 400 ''INVALID_GROUP_ID'')
       else
         case ListReviewPending (in_collate env) (usr_id a) groupID (idb_of w) of
           Inl e \<Rightarrow> (w, import_fail ie rq e)
         | Inr vs \<Rightarrow> (w, ImportsReply vs))"

definition slashed :: "string \<Rightarrow> string" where
  "slashed v = map (\<lambda>c. if c = CHR 0x5C then CHR ''/'' else c) v"

definition clean_filename :: "string \<Rightarrow> string" where
  "clean_filename v = Go_Text.base (slashed (trim_space v))"

definition downloadOriginal :: "('s, 'e) import_env \<Rightarrow> installation \<Rightarrow> ambient \<Rightarrow> Request \<Rightarrow> 's import_site \<Rightarrow> 's import_site \<times> import_reply" where
  "downloadOriginal ie env am rq w =
     iviewer env am rq w (\<lambda>a.
       case OriginalObject (in_collate env) (usr_id a) (rq_path rq ''import_id'') (idb_of w) of
         Inl e \<Rightarrow> (w, import_fail ie rq e)
       | Inr (key, filename) \<Rightarrow>
           (case Open (ie_files ie) (ie_call ie 0) key (iw_store w) of
              Inl e \<Rightarrow> (w, iproblem rq 503 ''STORAGE_UNAVAILABLE'')
            | Inr (content, obj) \<Rightarrow> (w, ArchiveReply (clean_filename filename) (ob_size obj) content)))"

definition get_import :: "('s, 'e) import_env \<Rightarrow> installation \<Rightarrow> ambient \<Rightarrow> Request \<Rightarrow> 's import_site \<Rightarrow> 's import_site \<times> import_reply" where
  "get_import ie env am rq w =
     iviewer env am rq w (\<lambda>a.
       case Get_import (in_collate env) (usr_id a) (rq_path rq ''import_id'') (idb_of w) of
         Inl e \<Rightarrow> (w, import_fail ie rq e)
       | Inr v \<Rightarrow> (w, ImportReply 200 v))"

text \<open>The download of a submission, in \<open>catalog.go\<close>.\<close>

definition download :: "('s, 'e) import_env \<Rightarrow> installation \<Rightarrow> ambient \<Rightarrow> Request \<Rightarrow> 's import_site \<Rightarrow> 's import_site \<times> import_reply" where
  "download ie env am rq w =
     iviewer env am rq w (\<lambda>a.
       let i = rq_path rq ''submission_id'' in
       if \<not> uuid_pattern i then (w, iproblem rq 404 ''NOT_FOUND'')
       else
         case OpenSubmission (ie_files ie) ReadableSubmissionKey (ie_call ie 0) (usr_id a) i (iw_store w) (idb_of w) of
           Inl e \<Rightarrow> (w, iproblem rq 404 ''NOT_FOUND'')
         | Inr (content, obj) \<Rightarrow> (w, ArchiveReply (''submission-'' @ i @ ''.zip'') (ob_size obj) content))"

section \<open>Uploads\<close>

text \<open>The largest archive, and the largest body around it.\<close>

definition archive_limit :: nat where
  "archive_limit = 100 * 1048576"

definition form_limit :: nat where
  "form_limit = 101 * 1048576"

definition ParseMultipartForm :: "('s, 'e) import_env \<Rightarrow> Request \<Rightarrow> form option" where
  "ParseMultipartForm ie rq = ie_form ie (take form_limit (rq_body rq)) (length (rq_body rq) > form_limit)"

text \<open>\<open>io.ReadAll(io.LimitReader(file, 100<<20+1))\<close> and the comparison with the limit.\<close>

definition read_archive :: "reader \<Rightarrow> bytes option" where
  "read_archive r =
     (case delivers (LimitReader (int archive_limit + 1) r) of
        None \<Rightarrow> None
      | Some data \<Rightarrow> if length data > archive_limit then None else Some data)"

text \<open>
  How every upload ends: the archive goes to the store, \<open>op\<close> creates the import, and an archive whose
  import was refused is deleted again.  \<open>redundant\<close> tells whether the import turned out to have
  an archive already, which makes the new one superfluous.
\<close>

definition submit_archive ::
  "('s, 'e) import_env \<Rightarrow> installation \<Rightarrow> ambient \<Rightarrow> Request \<Rightarrow> bytes \<Rightarrow> (Object \<Rightarrow> idb \<Rightarrow> idb \<times> Import result) \<Rightarrow> (go_error \<Rightarrow> import_reply)
   \<Rightarrow> (idb \<Rightarrow> Import \<Rightarrow> Object \<Rightarrow> bool) \<Rightarrow> (Import \<Rightarrow> Event) \<Rightarrow> (Import \<Rightarrow> import_reply) \<Rightarrow> 's import_site \<Rightarrow> 's import_site \<times> import_reply" where
  "submit_archive ie env am rq canonical op refused redundant event success w =
     (case StoreOriginalArchive (ie_files ie) (ie_call ie 0) (ie_fresh ie 0) (int (length canonical)) (Some (bytes_reader canonical)) (iw_store w) of
        (st, Inl e) \<Rightarrow> (w\<lparr>iw_store := st\<rparr>, iproblem rq 503 ''STORAGE_UNAVAILABLE'')
      | (st, Inr obj) \<Rightarrow>
          (case op obj (idb_of w) of
             (d, Inl e) \<Rightarrow>
               (set_idb d (w\<lparr>iw_store := fst (Delete (ie_files ie) (ie_call ie 1) (ob_key obj) st)\<rparr>), refused e)
           | (d, Inr v) \<Rightarrow>
               inoted env am rq (event v)
                 (set_idb d (w\<lparr>iw_store := (if redundant d v obj then fst (Delete (ie_files ie) (ie_call ie 1) (ob_key obj) st) else st)\<rparr>))
                 (success v)))"

definition lower_trimmed :: "installation \<Rightarrow> string \<Rightarrow> string" where
  "lower_trimmed env v = to_lower (in_ul env) (trim_space v)"

definition github_metadata :: "string \<Rightarrow> string \<Rightarrow> string \<Rightarrow> string \<Rightarrow> string \<Rightarrow> string \<Rightarrow> ProjectArchiveMetadata" where
  "github_metadata groupCode labCode login versionLabel repository commitSHA =
     \<lparr>md_group_code = groupCode, md_lab_code = labCode, md_login = login, md_version_label = versionLabel, md_source = '''',
      md_source_reference = ''https://github.com/'' @ repository @ ''/tree/'' @ commitSHA, md_commit_sha = commitSHA\<rparr>"

definition prepare_github :: "('s, 'e) import_env \<Rightarrow> installation \<Rightarrow> bytes \<Rightarrow> ProjectArchiveMetadata \<Rightarrow> (bytes \<times> Analysis) result" where
  "prepare_github ie env data m =
     PrepareGitHubArchive (in_ul env) (ie_zip ie) (ie_write_zip ie) (ie_decode_manifest ie) (ie_encode_manifest ie) data m DefaultLimits"

definition createGitHub :: "('s, 'e) import_env \<Rightarrow> installation \<Rightarrow> ambient \<Rightarrow> Request \<Rightarrow> 's import_site \<Rightarrow> 's import_site \<times> import_reply" where
  "createGitHub ie env am rq w =
     iactor env am rq w (\<lambda>a.
       if \<not> teacher_or_admin a then (w, iproblem rq 403 ''FORBIDDEN'')
       else if \<not> validIdempotencyKey rq then (w, iproblem rq 400 ''INVALID_IDEMPOTENCY_KEY'')
       else
         case ParseMultipartForm ie rq of
           None \<Rightarrow> (w, iproblem rq 413 ''ARCHIVE_TOO_LARGE'')
         | Some fm \<Rightarrow>
             (let groupID = trim_space (fm_value fm ''group_id''); login = lower_trimmed env (fm_value fm ''github_login'');
                  labCode = lower_trimmed env (fm_value fm ''lab_code''); versionLabel = lower_trimmed env (fm_value fm ''version_label'');
                  repository = trim_space (fm_value fm ''repository_full_name''); commitSHA = lower_trimmed env (fm_value fm ''commit_sha'') in
              if \<not> uuid_pattern groupID then (w, iproblem rq 400 ''INVALID_GROUP_ID'')
              else
                (case fm_archive fm of
                   None \<Rightarrow> (w, iproblem rq 400 ''ARCHIVE_REQUIRED'')
                 | Some (filename, sz, content) \<Rightarrow>
                     (case read_archive content of
                        None \<Rightarrow> (w, iproblem rq 413 ''ARCHIVE_TOO_LARGE'')
                      | Some data \<Rightarrow>
                          (case prepare_github ie env data
                               (github_metadata (lower_trimmed env (fm_value fm ''group_code'')) labCode login versionLabel repository commitSHA) of
                             Inl e \<Rightarrow> (w, iproblem rq 422 ''GITHUB_ARCHIVE_INVALID'')
                           | Inr (canonical, analysis) \<Rightarrow>
                               submit_archive ie env am rq canonical
                                 (\<lambda>obj d. CreateGitHubReview (in_ul env) (in_ci env) (in_eqfold env) (in_collate env) (am_clk am 0) (am_ids am 0) (am_ids am 1)
                                    (usr_id a) groupID repository obj analysis None d)
                                 (import_fail ie rq) (\<lambda>d v obj. False)
                                 (\<lambda>v. user_event rq a ''teacher.github_import.upload'' ''import'' (Some (iv_id v)) None
                                    [(''repository'', JString repository), (''commit_sha'', JString commitSHA), (''version'', JString versionLabel)])
                                 (ImportReply 202) w)))))"

definition createStudent :: "('s, 'e) import_env \<Rightarrow> installation \<Rightarrow> ambient \<Rightarrow> Request \<Rightarrow> 's import_site \<Rightarrow> 's import_site \<times> import_reply" where
  "createStudent ie env am rq w =
     iactor env am rq w (\<lambda>a.
       if \<not> validIdempotencyKey rq then (w, iproblem rq 400 ''INVALID_IDEMPOTENCY_KEY'')
       else
         case StudentContext (usr_id a) (idb_of w) of
           Inl e \<Rightarrow> (w, iproblem rq 403 ''STUDENT_RECORD_REQUIRED'')
         | Inr student \<Rightarrow>
             (case ParseMultipartForm ie rq of
                None \<Rightarrow> (w, iproblem rq 413 ''ARCHIVE_TOO_LARGE'')
              | Some fm \<Rightarrow>
                  (case fm_archive fm of
                     None \<Rightarrow> (w, iproblem rq 400 ''ARCHIVE_REQUIRED'')
                   | Some (header_filename, sz, content) \<Rightarrow>
                       (case read_archive content of
                          None \<Rightarrow> (w, iproblem rq 413 ''ARCHIVE_TOO_LARGE'')
                        | Some data \<Rightarrow>
                            (case PrepareStudentArchive (in_ul env) (ie_zip ie) (ie_write_zip ie) (ie_decode_manifest ie) (ie_encode_manifest ie) data
                                 header_filename (sc_github_login student) (sc_group_code student) DefaultLimits of
                               Inl e \<Rightarrow> (w, iproblem rq 422 ''STUDENT_ARCHIVE_INVALID'')
                             | Inr (canonical, analysis) \<Rightarrow>
                                 (let filename = clean_filename header_filename in
                                  submit_archive ie env am rq canonical
                                    (\<lambda>obj d. CreateStudentReview (in_ci env) (in_eqfold env) (in_collate env) (am_clk am 0) (am_ids am 0) (am_ids am 1)
                                       (usr_id a) filename obj analysis d)
                                    (\<lambda>e. if contains (ie_message ie e) ''unknown lab'' then iproblem rq 422 ''LAB_NOT_FOUND'' else import_fail ie rq e)
                                    (\<lambda>d v obj. False)
                                    (\<lambda>v. user_event rq a ''student.import.upload'' ''import'' (Some (iv_id v)) None [(''filename'', JString filename)])
                                    (ImportReply 202) w))))))"

definition create_import :: "('s, 'e) import_env \<Rightarrow> installation \<Rightarrow> ambient \<Rightarrow> Request \<Rightarrow> 's import_site \<Rightarrow> 's import_site \<times> import_reply" where
  "create_import ie env am rq w =
     iactor env am rq w (\<lambda>a.
       if \<not> validIdempotencyKey rq then (w, iproblem rq 400 ''INVALID_IDEMPOTENCY_KEY'')
       else
         case ParseMultipartForm ie rq of
           None \<Rightarrow> (w, iproblem rq 413 ''ARCHIVE_TOO_LARGE'')
         | Some fm \<Rightarrow>
             (let g = fm_value fm ''group_id''; kind = fm_value fm ''kind'' in
              if \<not> uuid_pattern g \<or> kind \<noteq> ''group'' \<and> kind \<noteq> ''lab'' then (w, iproblem rq 400 ''INVALID_REQUEST'')
              else
                (case fm_archive fm of
                   None \<Rightarrow> (w, iproblem rq 400 ''ARCHIVE_REQUIRED'')
                 | Some (filename, sz, content) \<Rightarrow>
                     if sz < 0 \<or> sz > int archive_limit then (w, iproblem rq 413 ''ARCHIVE_TOO_LARGE'')
                     else
                       (case read_archive content of
                          None \<Rightarrow> (w, iproblem rq 413 ''ARCHIVE_TOO_LARGE'')
                        | Some data \<Rightarrow>
                            (case Analyze (in_ul env) (ie_zip ie) (ie_write_zip ie) (ie_decode_manifest ie) data kind DefaultLimits of
                               Inl e \<Rightarrow> (w, iproblem rq 422 ''ARCHIVE_INVALID'')
                             | Inr analysis \<Rightarrow>
                                 submit_archive ie env am rq data
                                   (\<lambda>obj d. CreateReview (in_ul env) (in_ci env) (in_eqfold env) (in_collate env) (am_clk am) (am_ids am) (usr_id a) g kind
                                      obj analysis d)
                                   (import_fail ie rq) (\<lambda>d v obj. False)
                                   (\<lambda>v. user_event rq a ''import.upload'' ''import'' (Some (iv_id v)) None [(''group_id'', JString g), (''kind'', JString kind)])
                                   (ImportReply 202) w)))))"

section \<open>Review\<close>

datatype check_value = CheckBool bool | CheckOther

record reviewInput =
  rv_decision :: string
  rv_archive_sha256 :: string
  rv_checklist :: "(string \<times> check_value) list"
  rv_reason :: string

text \<open>The checklist is a map, so that its keys are distinct; both points are confirmed and there is no other.\<close>

definition checklist_confirmed :: "(string \<times> check_value) list \<Rightarrow> bool" where
  "checklist_confirmed cl \<longleftrightarrow>
     map_of cl ''paths_checked'' = Some (CheckBool True) \<and> map_of cl ''ownership_checked'' = Some (CheckBool True) \<and> length cl = 2"

definition review ::
  "(bytes \<Rightarrow> bool \<Rightarrow> reviewInput option) \<Rightarrow> ((string \<times> check_value) list \<Rightarrow> string) \<Rightarrow> ('s, 'e) import_env \<Rightarrow> installation \<Rightarrow> ambient \<Rightarrow> Request
   \<Rightarrow> 's import_site \<Rightarrow> 's import_site \<times> import_reply" where
  "review decoder encode_checklist ie env am rq w =
     iactor env am rq w (\<lambda>a.
       case decodeJSON decoder rq of
         None \<Rightarrow> (w, iproblem rq 400 ''INVALID_REQUEST'')
       | Some input \<Rightarrow>
           if \<not> validIdempotencyKey rq \<or> rv_decision input \<noteq> ''approve'' \<and> rv_decision input \<noteq> ''reject''
           then (w, iproblem rq 400 ''INVALID_REQUEST'')
           else if \<not> checklist_confirmed (rv_checklist input) then (w, iproblem rq 400 ''REVIEW_CHECKLIST_INCOMPLETE'')
           else
             (case Review (in_collate env) (am_clk am 0) (usr_id a) (rq_path rq ''import_id'') (rv_decision input) (rv_archive_sha256 input)
                 (encode_checklist (rv_checklist input)) (rv_reason input) (idb_of w) of
                (d, Inl e) \<Rightarrow> (set_idb d w, import_fail ie rq e)
              | (d, Inr v) \<Rightarrow>
                  inoted env am rq (user_event rq a (''import.review.'' @ rv_decision input) ''import'' (Some (rq_path rq ''import_id''))
                    (optionalString (rv_reason input)) []) (set_idb d w) (ImportReply 200 v)))"

section \<open>Application\<close>

text \<open>
  The loop over the projects of the archive: the target of each is looked up, and its archive is
  stored under a fresh key.  It ends with the keys that were uploaded and the items for the
  database, or with the problem that stopped it.
\<close>

definition apply_entry :: "Analysis \<Rightarrow> Key \<Rightarrow> Object \<Rightarrow> uuid \<times> uuid \<times> uuid \<Rightarrow> ApplyItem" where
  "apply_entry analysis key obj target =
     (case target of (item, student, lab) \<Rightarrow>
        \<lparr>ai_item_id = item, ai_student_record_id = student, ai_lab_id = lab, ai_object_key = key, ai_sha256 = ob_sha256 obj,
         ai_manifest = an_manifest_json analysis, ai_version_label = mf_version_label (an_manifest analysis),
         ai_source_reference = mf_source_reference (an_manifest analysis), ai_commit_sha = mf_commit_sha (an_manifest analysis)\<rparr>)"

fun upload_projects ::
  "('s, 'e) import_env \<Rightarrow> idb \<Rightarrow> uuid \<Rightarrow> Analysis \<Rightarrow> nat \<Rightarrow> Project list \<Rightarrow> Key list \<Rightarrow> ApplyItem list \<Rightarrow> 's
   \<Rightarrow> 's \<times> Key list \<times> ((nat \<times> string) + ApplyItem list)" where
  "upload_projects ie d importID analysis n [] uploaded xs st = (st, uploaded, Inr xs)"
| "upload_projects ie d importID analysis n (p # ps) uploaded xs st =
     (case ItemTarget importID (it_project_path (pr_item p)) d of
        Inl e \<Rightarrow> (st, uploaded, Inl (409, ''IMPORT_CHANGED''))
      | Inr target \<Rightarrow>
          (case bind_result (ie_fresh ie n) (\<lambda>objectID. NewKey NormalizedSubmissions objectID ''.zip'') of
             Inl e \<Rightarrow> (st, uploaded, Inl (500, ''IMPORT_APPLY_FAILED''))
           | Inr key \<Rightarrow>
               (case Put (ie_files ie) (ie_call ie (Suc n)) key (bytes_reader (pr_archive p))
                   \<lparr>po_size = int (length (pr_archive p)), po_content_type = ''application/zip''\<rparr> st of
                  (st', Inl e) \<Rightarrow> (st', uploaded, Inl (500, ''IMPORT_APPLY_FAILED''))
                | (st', Inr obj) \<Rightarrow>
                    upload_projects ie d importID analysis (Suc n) ps (uploaded @ [key]) (xs @ [apply_entry analysis key obj target]) st')))"

fun delete_all :: "('s, 'e) import_env \<Rightarrow> nat \<Rightarrow> Key list \<Rightarrow> 's \<Rightarrow> 's" where
  "delete_all ie n [] st = st"
| "delete_all ie n (k # ks) st = delete_all ie (Suc n) ks (fst (Delete (ie_files ie) (ie_call ie n) k st))"

text \<open>The deferred call of \<open>Finish\<close> when the application did not succeed; its error is ignored.\<close>

definition abandon :: "time \<Rightarrow> uuid \<Rightarrow> 's import_site \<Rightarrow> 's import_site" where
  "abandon now importID w = (case Finish now importID False (idb_of w) of Inl e \<Rightarrow> w | Inr d \<Rightarrow> set_idb d w)"

definition apply_projects ::
  "('s, 'e) import_env \<Rightarrow> installation \<Rightarrow> ambient \<Rightarrow> Request \<Rightarrow> User \<Rightarrow> uuid \<Rightarrow> Analysis \<Rightarrow> 's import_site \<Rightarrow> 's import_site \<times> import_reply" where
  "apply_projects ie env am rq a importID analysis w =
     (let n = length (an_projects analysis) in
      case upload_projects ie (idb_of w) importID analysis 0 (an_projects analysis) [] [] (iw_store w) of
        (st, uploaded, Inl (code, name)) \<Rightarrow>
          (abandon (am_clk am 1) importID (w\<lparr>iw_store := delete_all ie (n + 1) uploaded st\<rparr>), iproblem rq code name)
      | (st, uploaded, Inr xs) \<Rightarrow>
          (case CommitApply (ie_json_valid ie) (ie_json_object ie) (\<lambda>i. am_clk am (Suc i)) (\<lambda>i. am_ids am i) (usr_id a) importID xs (idb_of w) of
             Inl e \<Rightarrow>
               (abandon (am_clk am (n + 2)) importID (w\<lparr>iw_store := delete_all ie (n + 1) uploaded st\<rparr>), iproblem rq 500 ''IMPORT_APPLY_FAILED'')
           | Inr (d, duplicates) \<Rightarrow>
               inoted env am rq (user_event rq a ''import.apply'' ''import'' (Some importID) None [(''items'', JInt (int (length xs)))])
                 (set_idb d (w\<lparr>iw_store := delete_all ie (n + 1) duplicates st\<rparr>)) (AppliedReply importID)))"

definition apply_import :: "('s, 'e) import_env \<Rightarrow> installation \<Rightarrow> ambient \<Rightarrow> Request \<Rightarrow> 's import_site \<Rightarrow> 's import_site \<times> import_reply" where
  "apply_import ie env am rq w =
     iactor env am rq w (\<lambda>a.
       case BeginApply (am_clk am 0) (usr_id a) (rq_path rq ''import_id'') (idb_of w) of
         (d, Inl e) \<Rightarrow> (set_idb d w, import_fail ie rq e)
       | (d, Inr source) \<Rightarrow>
           (let w1 = set_idb d w; give_up = abandon (am_clk am 1) (as_import_id source) w1 in
            case Open (ie_files ie) (ie_call ie 0) (as_object_key source) (iw_store w) of
              Inl e \<Rightarrow> (give_up, iproblem rq 503 ''STORAGE_UNAVAILABLE'')
            | Inr (content, obj) \<Rightarrow>
                if ie_read_fails ie then (give_up, iproblem rq 500 ''ARCHIVE_READ_FAILED'')
                else
                  (case Analyze (in_ul env) (ie_zip ie) (ie_write_zip ie) (ie_decode_manifest ie) (take (archive_limit + 1) content) (as_kind source)
                       DefaultLimits of
                     Inl e \<Rightarrow> (give_up, iproblem rq 422 ''ARCHIVE_INVALID'')
                   | Inr analysis \<Rightarrow> apply_projects ie env am rq a (as_import_id source) analysis w1)))"

section \<open>Imports from the local client\<close>

text \<open>\<open>base64.RawURLEncoding.DecodeString\<close>: line breaks are skipped, spare bits are ignored.\<close>

definition sextet :: "char \<Rightarrow> nat option" where
  "sextet c =
     (let n = ord_of c in
      if is_upper c then Some (n - 65) else if is_lower c then Some (n - 71) else if is_digit c then Some (n + 4)
      else if c = CHR ''-'' then Some 62 else if c = CHR ''_'' then Some 63 else None)"

fun sextets :: "string \<Rightarrow> nat list option" where
  "sextets [] = Some []"
| "sextets (c # cs) =
     (if c = CHR 0x0A \<or> c = CHR 0x0D then sextets cs
      else case (sextet c, sextets cs) of (Some n, Some ns) \<Rightarrow> Some (n # ns) | _ \<Rightarrow> None)"

fun octets :: "nat list \<Rightarrow> bytes option" where
  "octets (a # b # c # d # rest) =
     map_option (\<lambda>bs. char_of (a * 4 + b div 16) # char_of (b mod 16 * 16 + c div 4) # char_of (c mod 4 * 64 + d) # bs) (octets rest)"
| "octets [a, b, c] = Some [char_of (a * 4 + b div 16), char_of (b mod 16 * 16 + c div 4)]"
| "octets [a, b] = Some [char_of (a * 4 + b div 16)]"
| "octets [a] = None"
| "octets [] = Some []"

definition base64_url_decode :: "string \<Rightarrow> bytes option" where
  "base64_url_decode s = Option.bind (sextets s) octets"

definition ticket_mac :: "bytes \<Rightarrow> string \<Rightarrow> bytes" where
  "ticket_mac key body = hmac key (''local-import-v1:'' @ body)"

definition signLocalPlan :: "('s, 'e) import_env \<Rightarrow> bytes \<Rightarrow> localImportPlan \<Rightarrow> string" where
  "signLocalPlan ie key plan =
     (let body = base64_url (ie_deflate ie (ie_marshal_plan ie plan)) in body @ ''.'' @ base64_url (ticket_mac key body))"

definition readLocalPlan :: "('s, 'e) import_env \<Rightarrow> bytes \<Rightarrow> string \<Rightarrow> localImportPlan result" where
  "readLocalPlan ie key token =
     (case split_byte (CHR ''.'') token of
        [body, sig] \<Rightarrow>
          if length token > 500000 then Inl (ErrText ''invalid ticket'')
          else
            (case base64_url_decode sig of
               None \<Rightarrow> Inl (ErrText ''illegal base64 data'')
             | Some signature \<Rightarrow>
                 if signature \<noteq> ticket_mac key body then Inl (ErrText ''invalid ticket'')
                 else
                   (case base64_url_decode body of
                      None \<Rightarrow> Inl (ErrText ''illegal base64 data'')
                    | Some data \<Rightarrow>
                        (case ie_inflate ie data of
                           None \<Rightarrow> Inl (ErrText ''zlib'')
                         | Some r \<Rightarrow>
                             (case delivers (LimitReader 512001 r) of
                                None \<Rightarrow> Inl (ErrText ''invalid plan'')
                              | Some text \<Rightarrow>
                                  if length text > 512000 then Inl (ErrText ''invalid plan'')
                                  else
                                    (case ie_unmarshal_plan ie text of
                                       None \<Rightarrow> Inl (ErrText ''json'')
                                     | Some plan \<Rightarrow>
                                         if lp_expires plan \<le> ie_unix ie \<or> lp_items plan = [] then Inl (ErrText ''expired ticket'')
                                         else Inr plan)))))
      | _ \<Rightarrow> Inl (ErrText ''invalid ticket''))"

definition localDeadline :: "string \<Rightarrow> bool" where
  "localDeadline v \<longleftrightarrow>
     has_prefix v ''deadline_'' \<and> length v > 9 \<and> list_all is_digit (drop 9 v)"

record planInput =
  pi_group_id :: string
  pi_students :: "string list"
  pi_labs :: "string list"
  pi_branch :: string
  pi_all :: bool

definition contains_fold :: "installation \<Rightarrow> string list \<Rightarrow> string \<Rightarrow> bool" where
  "contains_fold env values target \<longleftrightarrow> list_ex (\<lambda>v. in_eqfold env v target) values"

text \<open>The three nested loops: what is selected, in order, and then an item with a fresh identifier for each.\<close>

definition plan_targets ::
  "installation \<Rightarrow> planInput \<Rightarrow> GitHubImportGroup list \<Rightarrow> (GitHubImportGroup \<times> GitHubImportStudent \<times> GitHubImportLab) list" where
  "plan_targets env input gs =
     concat (map (\<lambda>g.
       concat (map (\<lambda>student. map (\<lambda>lab. (g, student, lab)) (filter (\<lambda>lab. contains_fold env (pi_labs input) (gl_code lab)) (gg_labs g)))
         (filter (\<lambda>student. pi_all input \<or> contains_fold env (pi_students input) (gs_github_login student)) (gg_students g))))
       (filter (\<lambda>g. gg_id g = pi_group_id input) gs))"

fun plan_items ::
  "('s, 'e) import_env \<Rightarrow> string \<Rightarrow> nat \<Rightarrow> (GitHubImportGroup \<times> GitHubImportStudent \<times> GitHubImportLab) list \<Rightarrow> localImportItem list result" where
  "plan_items ie branch n [] = Inr []"
| "plan_items ie branch n ((g, student, lab) # rest) =
     bind_result (ie_fresh ie n) (\<lambda>i.
     bind_result (plan_items ie branch (Suc n) rest) (\<lambda>xs.
       Inr (\<lparr>li_id = i, li_group_id = gg_id g, li_group_code = gg_code g, li_login = gs_github_login student, li_lab = gl_code lab,
             li_repository = gg_organization_login g @ ''/'' @ gl_code lab @ ''-'' @ gs_github_login student, li_branch = branch\<rparr> # xs)))"

definition createLocalPlan ::
  "(bytes \<Rightarrow> bool \<Rightarrow> planInput option) \<Rightarrow> ('s, 'e) import_env \<Rightarrow> installation \<Rightarrow> ambient \<Rightarrow> Request \<Rightarrow> 's import_site \<Rightarrow> 's import_site \<times> import_reply" where
  "createLocalPlan decoder ie env am rq w =
     iactor env am rq w (\<lambda>a.
       if \<not> teacher_or_admin a then (w, iproblem rq 403 ''FORBIDDEN'')
       else
         case decodeJSONLimit decoder 65536 rq of
           None \<Rightarrow> (w, iproblem rq 400 ''INVALID_PLAN'')
         | Some input \<Rightarrow>
             if pi_branch input \<noteq> ''latest'' \<and> \<not> localDeadline (pi_branch input) then (w, iproblem rq 400 ''INVALID_PLAN'')
             else
               (case plan_items ie (pi_branch input) 0 (plan_targets env input (GitHubImportContext (in_collate env) (usr_id a) (idb_of w))) of
                  Inl e \<Rightarrow> (w, import_fail ie rq e)
                | Inr xs \<Rightarrow>
                    if xs = [] \<or> length xs > 200 then (w, iproblem rq 422 ''INVALID_PLAN'')
                    else
                      (let plan = \<lparr>lp_actor = usr_id a, lp_expires = ie_unix ie + 7200, lp_items = xs\<rparr> in
                       (w, TicketReply (signLocalPlan ie (in_csrf_key env) plan) (length xs) (lp_expires plan)))))"

definition bearer_plan :: "('s, 'e) import_env \<Rightarrow> installation \<Rightarrow> Request \<Rightarrow> localImportPlan result" where
  "bearer_plan ie env rq = readLocalPlan ie (in_csrf_key env) (trim_prefix (rq_header rq ''Authorization'') ''Bearer '')"

definition localPlan :: "('s, 'e) import_env \<Rightarrow> installation \<Rightarrow> Request \<Rightarrow> 's import_site \<Rightarrow> 's import_site \<times> import_reply" where
  "localPlan ie env rq w =
     (case bearer_plan ie env rq of
        Inl e \<Rightarrow> (w, iproblem rq 401 ''TICKET_EXPIRED'')
      | Inr plan \<Rightarrow> (w, PlanReply plan))"

definition local_event :: "Request \<Rightarrow> uuid \<Rightarrow> string \<Rightarrow> string \<Rightarrow> Import \<Rightarrow> Event" where
  "local_event rq actorID repository branch v =
     \<lparr>ev_occurred_at = None, ev_actor_id = Some actorID, ev_actor_kind = ''user'', ev_action = ''teacher.local_import.upload'',
      ev_target_type = ''import'', ev_target_id = Some (iv_id v), ev_request_id = rq_id rq, ev_reason = None,
      ev_metadata = [(''repository'', JString repository), (''branch'', JString branch)]\<rparr>"

text \<open>A repeated upload finds the import of the first, whose archive is another one.\<close>

definition redundant_upload :: "installation \<Rightarrow> uuid \<Rightarrow> idb \<Rightarrow> Import \<Rightarrow> Object \<Rightarrow> bool" where
  "redundant_upload env actorID d v obj \<longleftrightarrow>
     (case OriginalObject (in_collate env) actorID (iv_id v) d of
        Inl e \<Rightarrow> False
      | Inr (original, filename) \<Rightarrow> key_string original \<noteq> key_string (ob_key obj))"

definition uploadLocalArchive :: "('s, 'e) import_env \<Rightarrow> installation \<Rightarrow> ambient \<Rightarrow> Request \<Rightarrow> 's import_site \<Rightarrow> 's import_site \<times> import_reply" where
  "uploadLocalArchive ie env am rq w =
     (case bearer_plan ie env rq of
        Inl e \<Rightarrow> (w, iproblem rq 401 ''TICKET_EXPIRED'')
      | Inr plan \<Rightarrow>
          (case find (\<lambda>x. li_id x = rq_path rq ''item_id'') (lp_items plan) of
             None \<Rightarrow> (w, iproblem rq 403 ''FORBIDDEN'')
           | Some selected \<Rightarrow>
               (case ParseMultipartForm ie rq of
                  None \<Rightarrow> (w, iproblem rq 413 ''ARCHIVE_TOO_LARGE'')
                | Some fm \<Rightarrow>
                    (let branch = fm_value fm ''branch'' in
                     if \<not> localDeadline branch \<or> li_branch selected \<noteq> ''latest'' \<and> branch \<noteq> li_branch selected
                     then (w, iproblem rq 422 ''INVALID_BRANCH'')
                     else
                       (case fm_archive fm of
                          None \<Rightarrow> (w, iproblem rq 400 ''ARCHIVE_REQUIRED'')
                        | Some (filename, sz, content) \<Rightarrow>
                            (case read_archive content of
                               None \<Rightarrow> (w, iproblem rq 413 ''ARCHIVE_TOO_LARGE'')
                             | Some data \<Rightarrow>
                                 (case prepare_github ie env data
                                     (github_metadata (li_group_code selected) (li_lab selected) (li_login selected) branch (li_repository selected)
                                       (fm_value fm ''commit_sha'')) of
                                    Inl e \<Rightarrow> (w, iproblem rq 422 ''ARCHIVE_INVALID'')
                                  | Inr (canonical, analysis) \<Rightarrow>
                                      submit_archive ie env am rq canonical
                                        (\<lambda>obj d. CreateGitHubReview (in_ul env) (in_ci env) (in_eqfold env) (in_collate env) (am_clk am 0) (am_ids am 0)
                                           (am_ids am 1) (lp_actor plan) (li_group_id selected) (li_repository selected) obj analysis (Some (li_id selected)) d)
                                        (import_fail ie rq) (redundant_upload env (lp_actor plan))
                                        (local_event rq (lp_actor plan) (li_repository selected) branch)
                                        (\<lambda>v. LocalReply (iv_id v) (iv_state v)) w)))))))"

section \<open>Routes\<close>

datatype import_route =
    PostImport | PostStudentImport | GetGitHubContext | PostGitHubImport | PostLocalPlan | GetLocalPlan | PostLocalArchive
  | GetPendingImports | GetOriginal | GetImport | PostReview | PostApply | GetDownload

record import_decoders =
  di_review :: "bytes \<Rightarrow> bool \<Rightarrow> reviewInput option"
  di_checklist :: "(string \<times> check_value) list \<Rightarrow> string"
  di_plan :: "bytes \<Rightarrow> bool \<Rightarrow> planInput option"

fun import_dispatch ::
  "import_decoders \<Rightarrow> ('s, 'e) import_env \<Rightarrow> installation \<Rightarrow> ambient \<Rightarrow> import_route \<Rightarrow> Request \<Rightarrow> 's import_site \<Rightarrow> 's import_site \<times> import_reply" where
  "import_dispatch di ie env am PostImport rq w = create_import ie env am rq w"
| "import_dispatch di ie env am PostStudentImport rq w = createStudent ie env am rq w"
| "import_dispatch di ie env am GetGitHubContext rq w = githubContext env am rq w"
| "import_dispatch di ie env am PostGitHubImport rq w = createGitHub ie env am rq w"
| "import_dispatch di ie env am PostLocalPlan rq w = createLocalPlan (di_plan di) ie env am rq w"
| "import_dispatch di ie env am GetLocalPlan rq w = localPlan ie env rq w"
| "import_dispatch di ie env am PostLocalArchive rq w = uploadLocalArchive ie env am rq w"
| "import_dispatch di ie env am GetPendingImports rq w = listPending ie env am rq w"
| "import_dispatch di ie env am GetOriginal rq w = downloadOriginal ie env am rq w"
| "import_dispatch di ie env am GetImport rq w = get_import ie env am rq w"
| "import_dispatch di ie env am PostReview rq w = review (di_review di) (di_checklist di) ie env am rq w"
| "import_dispatch di ie env am PostApply rq w = apply_import ie env am rq w"
| "import_dispatch di ie env am GetDownload rq w = download ie env am rq w"

end
