(* ===== verification/Http_Import_Properties.thy ===== *)
theory Http_Import_Properties
  imports Http_Imports
begin

text \<open>
  What the HTTP interface to imports promises: that the database never refers to an object that the
  store does not hold, that requests move the tables only by the steps of the import model, that
  nothing changes without a session and its token or a signed ticket, and that tickets are what the
  service has signed.
\<close>

section \<open>What the database refers to\<close>

definition refs :: "idb \<Rightarrow> (string \<times> bytes) set" where
  "refs d = (\<lambda>i. (im_object_key i, im_sha256 i)) ` set (import_rows d) \<union> (\<lambda>v. (vr_object_key v, vr_sha256 v)) ` set (versions d)"

lemma refs_referenced: "set (referenced_objects [] d) = refs d"
  by (simp add: referenced_objects_def refs_def)

text \<open>The columns of an import that never change.\<close>

definition fixed :: "import_row \<Rightarrow> uuid \<times> uuid \<times> string \<times> bytes" where
  "fixed i = (im_id i, im_uploaded_by i, im_object_key i, im_sha256 i)"

lemma refs_fixed: "refs d = (\<lambda>(i, u, k, h). (k, h)) ` set (map fixed (import_rows d)) \<union> (\<lambda>v. (vr_object_key v, vr_sha256 v)) ` set (versions d)"
  by (auto simp: refs_def fixed_def image_image)

lemma fixed_refs: "map fixed (import_rows d') = map fixed (import_rows d) \<Longrightarrow> versions d' = versions d \<Longrightarrow> refs d' = refs d"
  by (simp only: refs_fixed)

lemma update_imports_fixed:
  assumes "update_imports now c f s = Some s'" and "\<And>x. fixed (f x) = fixed x"
  shows "map fixed (import_rows s') = map fixed (import_rows s) \<and> versions s' = versions s \<and> base s' = base s \<and> imports_unique (import_rows s')"
proof -
  obtain xs where xs: "s' = s\<lparr>import_rows := xs\<rparr>" "imports_unique xs" "list_all2 (import_updated now c f) (import_rows s) xs"
    using update_imports_effect [OF assms(1)] by blast
  have upd: "fixed x' = fixed x" if "import_updated now c f x x'" for x x'
    using that assms(2) [of x] by (auto simp: import_updated_def fixed_def split: if_splits)
  have "map fixed xs = map fixed (import_rows s)"
    using xs(3) by (induction rule: list_all2_induct) (simp_all add: upd)
  with xs show ?thesis by simp
qed

lemma set_state_fixed [simp]: "fixed (set_state st x) = fixed x"
  by (simp add: fixed_def set_state_def)

lemma review_items_accounts: "review_items ul ci clk uid g imp n ps s = Inr s' \<Longrightarrow> accounts (base s') = accounts (base s)"
proof (induction ps arbitrary: n s)
  case (Cons p ps)
  have "accounts (base s1) = accounts (base s)" if "review_item ul ci t r i g imp p s = Inr s1" for t r i s1
    using that by (auto simp: review_item_def Let_def insert_record_def insert_member_def insert_item_def split: option.splits if_splits)
  with Cons show ?case by auto
qed simp

text \<open>
  An upload adds one import: it refers to the new object, belongs to the actor and is the only
  one with its identifier.
\<close>

definition uploaded :: "uuid \<Rightarrow> Object \<Rightarrow> uuid \<Rightarrow> idb \<Rightarrow> idb \<Rightarrow> bool" where
  "uploaded actor obj i d d' \<longleftrightarrow>
     map fixed (import_rows d') = map fixed (import_rows d) @ [(i, actor, key_string (ob_key obj), ob_sha256 obj)]
   \<and> versions d' = versions d \<and> accounts (base d') = accounts (base d) \<and> imports_unique (import_rows d')
   \<and> list_ex (\<lambda>u. acc_id u = actor \<and> acc_status u = UserActive) (accounts (base d))"

lemma insert_import_uploaded:
  assumes "insert_import (new_import now i g kind st actor obj sz filename) d = Some d'"
    and "list_ex (\<lambda>u. acc_id u = actor \<and> acc_status u = UserActive) (accounts (base d))"
  shows "uploaded actor obj i d d'"
  using assms by (auto simp: insert_import_def uploaded_def new_import_def fixed_def split: if_splits)

lemma uploaded_then:
  assumes "uploaded actor obj i d d1" and "map fixed (import_rows d2) = map fixed (import_rows d1)" and "versions d2 = versions d1"
    and "accounts (base d2) = accounts (base d1)" and "imports_unique (import_rows d2)"
  shows "uploaded actor obj i d d2"
  using assms by (simp add: uploaded_def)

lemma items_only_uploaded:
  assumes "uploaded actor obj i d d1" and "items_only d1 d2" and "accounts (base d2) = accounts (base d1)"
  shows "uploaded actor obj i d d2"
  using assms by (auto simp: uploaded_def items_only_def imports_move_def)

lemma move_import_uploaded:
  assumes "uploaded actor obj i d d1" and "move_import now j st d1 = Inr d2"
  shows "uploaded actor obj i d d2"
proof -
  from assms(2) have "update_imports now (\<lambda>x. im_id x = j) (set_state st) d1 = Some d2" by (simp add: move_import_def)
  from update_imports_fixed [OF this] show ?thesis by (intro uploaded_then [OF assms(1)]) auto
qed

lemma staff_active: "staff_role b actor g \<Longrightarrow> list_ex (\<lambda>u. acc_id u = actor \<and> acc_status u = UserActive) (accounts b)"
  by (auto simp: staff_role_def list_ex_iff)

lemma CreateReview_uploaded:
  assumes "CreateReview_tx ul ci eqfold clk uid actor g kind obj analysis d = Inr (d', i)"
  shows "uploaded actor obj i d d'"
proof -
  obtain s1 s2 s3 s4 where i: "i = uid 0" and st: "staff_role (base d) actor g"
    and 1: "insert_import (new_import (clk 0) i g kind ImportReceiving actor obj (an_total analysis) None) d = Some s1"
    and 2: "move_import (clk 1) i ImportStored s1 = Inr s2" and 3: "move_import (clk 2) i ImportValidating s2 = Inr s3"
    and 4: "review_items ul ci (\<lambda>n. clk (n + 3)) (\<lambda>n. uid (n + 1)) g i 0 (an_projects analysis) s3 = Inr s4"
    and 5: "move_import (clk (length (an_projects analysis) + 3)) i ImportReviewPending s4 = Inr d'"
    using assms by (auto simp: CreateReview_tx_def Let_def split: option.splits if_splits)
  have "uploaded actor obj i d s3"
    using insert_import_uploaded [OF 1 staff_active [OF st]] move_import_uploaded 2 3 by blast
  then have "uploaded actor obj i d s4"
    by (rule items_only_uploaded [OF _ review_items_only [OF 4] review_items_accounts [OF 4]])
  then show ?thesis using move_import_uploaded 5 by blast
qed

lemma insert_item_accounts: "insert_item x s = Some s' \<Longrightarrow> accounts (base s') = accounts (base s)"
  "insert_receipt r s = Some s' \<Longrightarrow> accounts (base s') = accounts (base s)"
  by (auto simp: insert_item_def insert_receipt_def split: if_splits)

lemma CreateStudentReview_uploaded:
  assumes "CreateStudentReview_tx ci eqfold now importID j actor filename obj analysis d = Inr (d', i)"
  shows "uploaded actor obj i d d'"
proof -
  obtain student x s1 where st: "StudentContext actor d = Inr student" "i = importID"
    and 1: "insert_import (new_import now i (sc_group_id student) ''lab'' ImportReviewPending actor obj (an_total analysis) (Some filename)) d = Some s1"
    and 2: "insert_item x s1 = Some d'"
    using assms by (auto simp: CreateStudentReview_tx_def split: option.splits if_splits)
  from st(1) have "list_ex (\<lambda>u. acc_id u = actor \<and> acc_status u = UserActive) (accounts (base d))"
    by (auto simp: StudentContext_def list_ex_iff dest!: select_one_SomeD split: option.splits)
  from insert_import_uploaded [OF 1 this] show ?thesis
    by (rule items_only_uploaded [OF _ insert_items_only(1) [OF 2] insert_item_accounts(1) [OF 2]])
qed

lemma CreateGitHubReview_uploaded:
  assumes "CreateGitHubReview_tx ul ci eqfold now importID j actor g repository obj analysis receipt d = Inr (d', i)"
  shows "d' = d \<or> uploaded actor obj i d d'"
proof -
  have "d' = d \<or> (\<exists>kind sz filename x s1 s2. i = importID \<and> staff_role (base d) actor g
      \<and> insert_import (new_import now importID g kind ImportReviewPending actor obj sz filename) d = Some s1
      \<and> insert_item x s1 = Some s2 \<and> (d' = s2 \<or> (\<exists>r. insert_receipt r s2 = Some d')))"
    using assms unfolding CreateGitHubReview_tx_def Let_def
    by (auto split: option.splits if_splits) blast+
  then show ?thesis
  proof (elim disjE exE conjE)
    fix kind sz filename x s1 s2
    assume *: "staff_role (base d) actor g" "insert_import (new_import now importID g kind ImportReviewPending actor obj sz filename) d = Some s1"
      "insert_item x s1 = Some s2" "i = importID"
    have "uploaded actor obj i d s1" using insert_import_uploaded * staff_active by blast
    then have u: "uploaded actor obj i d s2"
      by (rule items_only_uploaded [OF _ insert_items_only(1) [OF *(3)] insert_item_accounts(1) [OF *(3)]])
    { assume "d' = s2" then show ?thesis using u by simp }
    { fix r assume r: "insert_receipt r s2 = Some d'"
      show ?thesis using items_only_uploaded [OF u insert_items_only(2) [OF r] insert_item_accounts(2) [OF r]] by simp }
  qed simp
qed

lemma uploaded_visible:
  assumes "uploaded actor obj i d d'"
  shows "\<exists>x. import_by_id d' i = Some x \<and> im_object_key x = key_string (ob_key obj)" and "\<exists>v. Get_import collate actor i d' = Inr v \<and> iv_id v = i"
proof -
  have "(i, actor, key_string (ob_key obj), ob_sha256 obj) \<in> set (map fixed (import_rows d'))" using assms by (simp add: uploaded_def)
  then obtain x where x: "x \<in> set (import_rows d')" "im_id x = i" "im_uploaded_by x = actor" "im_object_key x = key_string (ob_key obj)"
    by (auto simp: fixed_def)
  have "unique_on (\<lambda>_. True) im_id (import_rows d')" using assms by (simp add: uploaded_def imports_unique_def)
  then have one: "import_by_id d' i = Some x" unfolding import_by_id_def using x(1,2) by (rule select_one_unique)
  then show "\<exists>x. import_by_id d' i = Some x \<and> im_object_key x = key_string (ob_key obj)" using x(4) by blast
  have "may_see_import (base d') actor x" using assms x(3) by (auto simp: may_see_import_def uploaded_def list_ex_iff)
  then show "\<exists>v. Get_import collate actor i d' = Inr v \<and> iv_id v = i" using one x(2) by (simp add: Get_import_def)
qed

lemma uploaded_refs:
  "uploaded actor obj i d d' \<Longrightarrow> refs d' = insert (key_string (ob_key obj), ob_sha256 obj) (refs d)"
  by (auto simp: uploaded_def refs_fixed)

text \<open>
  What \<open>submit_archive\<close> relies on: an operation that reports an error has changed nothing, and one
  that succeeds has added a reference to the object or none; in the first case the object is the
  archive of the import that is returned.
\<close>

definition registers :: "(Object \<Rightarrow> idb \<Rightarrow> idb \<times> Import result) \<Rightarrow> bool" where
  "registers op \<longleftrightarrow>
     (\<forall>obj d d' r. op obj d = (d', r) \<longrightarrow>
        (d' = d \<or> (\<exists>i v x. r = Inr v \<and> iv_id v = i \<and> refs d' = insert (key_string (ob_key obj), ob_sha256 obj) (refs d)
                    \<and> import_by_id d' i = Some x \<and> im_object_key x = key_string (ob_key obj))))"

lemma then_import_registers:
  assumes "\<And>obj d d' i. tx obj d = Inr (d', i) \<Longrightarrow> d' = d \<or> uploaded actor obj i d d'"
  shows "registers (\<lambda>obj d. then_import collate actor d (tx obj d))"
  unfolding registers_def
proof (intro allI impI)
  fix obj d d' r
  assume t: "then_import collate actor d (tx obj d) = (d', r)"
  show "d' = d \<or> (\<exists>i v x. r = Inr v \<and> iv_id v = i \<and> refs d' = insert (key_string (ob_key obj), ob_sha256 obj) (refs d)
      \<and> import_by_id d' i = Some x \<and> im_object_key x = key_string (ob_key obj))"
  proof (cases "tx obj d")
    case (Inr y)
    obtain i where y: "y = (d', i)" "r = Get_import collate actor i d'" using t Inr by (cases y) (simp add: then_import_def)
    with assms [of obj d d' i] Inr consider "d' = d" | "uploaded actor obj i d d'" by auto
    then show ?thesis
    proof cases
      case 2
      then show ?thesis using uploaded_visible [OF 2] uploaded_refs [OF 2] y(2) by metis
    qed simp
  qed (use t in \<open>simp add: then_import_def\<close>)
qed

lemma creates_register:
  "registers (\<lambda>obj d. CreateReview ul ci eqfold collate clk uid actor g kind obj analysis d)"
  "registers (\<lambda>obj d. CreateStudentReview ci eqfold collate now importID j actor filename obj analysis d)"
  "registers (\<lambda>obj d. CreateGitHubReview ul ci eqfold collate now importID j actor g repository obj analysis receipt d)"
  unfolding CreateReview_def CreateStudentReview_def CreateGitHubReview_def
  by (rule then_import_registers; blast dest: CreateReview_uploaded CreateStudentReview_uploaded CreateGitHubReview_uploaded)+

section \<open>Applying an import\<close>

text \<open>Which items became versions, and which turned out to be duplicates.\<close>

lemma apply_item_refs:
  assumes "apply_item jv jo now newID actor imp source filename b x d = Inr (d', ks)"
  shows "import_rows d' = import_rows d \<and> (ks = [ai_object_key x] \<and> versions d' = versions d
    \<or> ks = [] \<and> (\<exists>v. versions d' = versions d @ [v] \<and> vr_object_key v = key_string (ai_object_key x) \<and> vr_sha256 v = ai_sha256 x))"
  using assms
  by (auto simp: apply_item_def Let_def insert_version_def update_items_def split: option.splits if_splits)

lemma apply_items_refs:
  assumes "apply_items jv jo clk uid actor imp source filename b n xs d = Inr (d', ks)" and "distinct (map ai_object_key xs)"
  shows "import_rows d' = import_rows d \<and> set ks \<subseteq> set (map ai_object_key xs)
    \<and> refs d \<subseteq> refs d'
    \<and> refs d' \<subseteq> refs d \<union> (\<lambda>x. (key_string (ai_object_key x), ai_sha256 x)) ` {x \<in> set xs. ai_object_key x \<notin> set ks}"
  using assms
proof (induction xs arbitrary: n d ks)
  case Nil
  then show ?case by simp
next
  case (Cons x xs)
  then obtain d1 k1 k2 where 1: "apply_item jv jo (clk n) (uid n) actor imp source filename b x d = Inr (d1, k1)"
    and 2: "apply_items jv jo clk uid actor imp source filename b (Suc n) xs d1 = Inr (d', k2)" and ks: "ks = k1 @ k2" by auto
  have IH: "import_rows d' = import_rows d1" "set k2 \<subseteq> set (map ai_object_key xs)" "refs d1 \<subseteq> refs d'"
    "refs d' \<subseteq> refs d1 \<union> (\<lambda>x. (key_string (ai_object_key x), ai_sha256 x)) ` {x \<in> set xs. ai_object_key x \<notin> set k2}"
    using Cons.IH [OF 2] Cons.prems(2) by auto
  have fresh: "ai_object_key x \<notin> ai_object_key ` set xs" using Cons.prems(2) by simp
  note i = apply_item_refs [OF 1]
  then consider "k1 = [ai_object_key x]" "versions d1 = versions d"
    | v where "k1 = []" "versions d1 = versions d @ [v]" "vr_object_key v = key_string (ai_object_key x)" "vr_sha256 v = ai_sha256 x"
    by blast
  then show ?case
  proof cases
    case 1
    then have "refs d1 = refs d" using i by (simp add: refs_def)
    moreover have "{y \<in> set (x # xs). ai_object_key y \<notin> set ks} = {y \<in> set xs. ai_object_key y \<notin> set k2}"
      using fresh ks 1(1) by (auto simp: image_iff)
    ultimately show ?thesis using IH i 1 ks by auto
  next
    case 2
    then have "refs d1 = insert (key_string (ai_object_key x), ai_sha256 x) (refs d)" using i by (auto simp: refs_def)
    moreover have "ai_object_key x \<notin> set k2" using fresh IH(2) by auto
    ultimately show ?thesis using IH i 2 ks by auto
  qed
qed

lemma CommitApply_refs:
  assumes "CommitApply jv jo clk uid actor imp xs d = Inr (d', ks)" and "distinct (map ai_object_key xs)"
  shows "set ks \<subseteq> set (map ai_object_key xs)
    \<and> refs d' \<subseteq> refs d \<union> (\<lambda>x. (key_string (ai_object_key x), ai_sha256 x)) ` {x \<in> set xs. ai_object_key x \<notin> set ks}"
proof -
  obtain source filename b d1 where a: "apply_items jv jo clk uid actor imp source filename b 0 xs d = Inr (d1, ks)"
    and u: "update_imports (clk (length xs)) (\<lambda>x. im_id x = imp \<and> im_state x = ImportApplying) (set_state ImportCompleted) d1 = Some d'"
    using assms(1) by (auto simp: CommitApply_def Let_def split: option.splits if_splits)
  have "refs d' = refs d1" using update_imports_fixed [OF u] by (intro fixed_refs) auto
  then show ?thesis using apply_items_refs [OF a assms(2)] by auto
qed

text \<open>The remaining operations refer to what was referred to before.\<close>

lemma other_refs:
  "Review collate now actor i decision sha checklist reason d = (d', r) \<Longrightarrow> refs d' = refs d"
  "BeginApply now actor i d = (d', r') \<Longrightarrow> refs d' = refs d"
  "Finish now i success d = Inr d' \<Longrightarrow> refs d' = refs d"
proof -
  have upd: "refs d2 = refs d1" if "update_imports now c f d1 = Some d2" "\<And>x. fixed (f x) = fixed x" for now c f d1 d2
    using update_imports_fixed [OF that] by (intro fixed_refs) auto
  show "refs d' = refs d" if "Review collate now actor i decision sha checklist reason d = (d', r)"
  proof (cases "Review_tx now actor i decision sha checklist reason d")
    case (Inr y)
    then have "Review_tx now actor i decision sha checklist reason d = Inr (d', snd y)"
      using that by (cases y) (simp add: Review_def then_import_def)
    from Review_effect [OF this] show ?thesis by (auto intro!: upd simp: fixed_def)
  qed (use that in \<open>simp add: Review_def then_import_def\<close>)
  show "refs d' = refs d" if "BeginApply now actor i d = (d', r')"
    using that by (auto simp: BeginApply_def split: option.splits if_splits intro!: upd)
  show "refs d' = refs d" if "Finish now i success d = Inr d'"
    using that by (auto simp: Finish_def intro!: upd)
qed

section \<open>The store behind the references\<close>

definition backed :: "('s \<Rightarrow> Key \<Rightarrow> bytes option) \<Rightarrow> 's \<Rightarrow> (string \<times> bytes) set \<Rightarrow> bool" where
  "backed content st R \<longleftrightarrow> (\<forall>(p, h)\<in>R. valid_key (Key p) \<and> (\<exists>b. content st (Key p) = Some b \<and> sha256 b = h))"

definition sound :: "('s \<Rightarrow> Key \<Rightarrow> bytes option) \<Rightarrow> ('s \<Rightarrow> bool) \<Rightarrow> 's import_site \<Rightarrow> bool" where
  "sound content tidy w \<longleftrightarrow> tidy (iw_store w) \<and> backed content (iw_store w) (refs (idb_of w))"

lemma backedD: "backed content st R \<Longrightarrow> (p, h) \<in> R \<Longrightarrow> valid_key (Key p) \<and> (\<exists>b. content st (Key p) = Some b \<and> sha256 b = h)"
  by (auto simp: backed_def)

lemma backed_subset: "backed content st R \<Longrightarrow> S \<subseteq> R \<Longrightarrow> backed content st S"
  by (auto simp: backed_def)

text \<open>A store that keeps what is referred to keeps it backed.\<close>

lemma backed_keep:
  assumes "backed content st R" and "\<And>p h. (p, h) \<in> R \<Longrightarrow> content st' (Key p) = content st (Key p)"
  shows "backed content st' R"
  using assms by (auto simp: backed_def)

lemma site_sel [simp]:
  "idb_of (set_idb d w) = d" "iw_store (set_idb d w) = iw_store w" "idb_of (w\<lparr>iw_store := st\<rparr>) = idb_of w" "set_idb (idb_of w) w = w"
  "site_log (iw_site (set_idb d w)) = site_log (iw_site w)"
  by (simp_all add: idb_of_def set_idb_def)

lemma inoted_sel: "inoted env am rq ev w success = (w', r) \<Longrightarrow> iw_store w' = iw_store w \<and> idb_of w' = idb_of w"
  by (auto simp: inoted_def idb_of_def split: sum.splits)

context file_storage
begin

lemma put_backed:
  assumes "tidy st" and "backed content st R" and "valid_key k" and "Put F e k r opts st = (st', res)"
  shows "tidy st' \<and> backed content st' R
    \<and> (\<forall>obj. res = Inr obj \<longrightarrow> ob_key obj = k \<and> key_string k \<notin> fst ` R \<and> content st k = None
         \<and> backed content st' (insert (key_string k, ob_sha256 obj) R)
         \<and> (\<forall>k'. valid_key k' \<longrightarrow> content st k' \<noteq> None \<longrightarrow> content st' k' = content st k'))"
proof (cases res)
  case (Inl x)
  have p: "tidy st'" "\<And>k'. valid_key k' \<Longrightarrow> content st' k' = content st k' \<or> k' = k \<and> content st k = None"
    using put_error [OF assms(1,3) assms(4) [unfolded Inl]] by blast+
  have "backed content st' R"
    by (rule backed_keep [OF assms(2)]) (use backedD [OF assms(2)] p(2) in fastforce)
  then show ?thesis using p(1) Inl by simp
next
  case (Inr obj)
  obtain b where p: "tidy st'" "content st k = None" "\<And>k'. valid_key k' \<Longrightarrow> content st' k' = ((content st)(k \<mapsto> b)) k'"
      "ob_key obj = k" "ob_sha256 obj = sha256 b"
    using put_ok [OF assms(1,3) assms(4) [unfolded Inr]] by blast
  have keep: "content st' k' = content st k'" if "valid_key k'" "content st k' \<noteq> None" for k' using p(2,3) that by auto
  have "backed content st' R"
    by (rule backed_keep [OF assms(2)]) (use backedD [OF assms(2)] keep in fastforce)
  moreover have "key_string k \<notin> fst ` R" using backedD [OF assms(2)] p(2) by fastforce
  moreover have "content st' k = Some b" using p(3) [OF assms(3)] by simp
  ultimately show ?thesis using p keep assms(3) Inr by (simp add: backed_def)
qed

lemma delete_backed:
  assumes "tidy st" and "backed content st R" and "valid_key k" and "key_string k \<notin> fst ` R"
  shows "tidy (fst (Delete F e k st)) \<and> backed content (fst (Delete F e k st)) R"
proof -
  obtain st' res where d: "Delete F e k st = (st', res)" by fastforce
  show ?thesis
  proof (cases res)
    case (Inl x)
    then show ?thesis using delete_error [OF assms(1,3)] d assms(1,2) by auto
  next
    case (Inr u)
    then have p: "tidy st'" "\<And>k'. valid_key k' \<Longrightarrow> content st' k' = ((content st)(k := None)) k'"
      using delete_ok [OF assms(1,3)] d by blast+
    have "Key q \<noteq> k" if "(q, h) \<in> R" for q h using assms(4) that by (force simp: image_iff)
    then have "backed content st' R"
      by (intro backed_keep [OF assms(2)]) (use backedD [OF assms(2)] p(2) in fastforce)
    then show ?thesis using d p(1) by simp
  qed
qed

lemma delete_all_backed:
  assumes "tidy st" and "backed content st R" and "\<And>k. k \<in> set ks \<Longrightarrow> valid_key k \<and> key_string k \<notin> fst ` R" and "ie_files ie = F"
  shows "tidy (delete_all ie n ks st) \<and> backed content (delete_all ie n ks st) R"
  using assms(1-3)
proof (induction ks arbitrary: n st)
  case (Cons k ks)
  then show ?case using delete_backed [of st R k "ie_call ie n"] assms(4) by simp
qed simp

text \<open>Storing an archive and registering it, or taking it away again.\<close>

lemma submit_archive_sound:
  assumes "submit_archive ie env am rq canonical op refused redundant event success w = (w', r)"
    and "sound content tidy w" and "registers op" and "ie_files ie = F"
    and "\<And>d v obj x. redundant d v obj \<Longrightarrow> import_by_id d (iv_id v) = Some x \<Longrightarrow> im_object_key x \<noteq> key_string (ob_key obj)"
  shows "sound content tidy w'"
proof -
  have J: "tidy (iw_store w)" "backed content (iw_store w) (refs (idb_of w))" using assms(2) by (simp_all add: sound_def)
  obtain st res where s: "StoreOriginalArchive F (ie_call ie 0) (ie_fresh ie 0) (int (length canonical)) (Some (bytes_reader canonical)) (iw_store w) = (st, res)"
    by fastforce
  show ?thesis
  proof (cases "bind_result (ie_fresh ie 0) (\<lambda>i. NewKey OriginalArchives i ''.zip'')")
    case (Inl x)
    then have "st = iw_store w" "res = Inl x" using s by (auto simp: StoreOriginalArchive_def)
    then show ?thesis using assms(1,2,4) s by (auto simp: submit_archive_def sound_def)
  next
    case (Inr key)
    then have vk: "valid_key key" by (auto simp: valid_key_def)
    have p: "Put F (ie_call ie 0) key (bytes_reader canonical) \<lparr>po_size = int (length canonical), po_content_type = ''application/zip''\<rparr> (iw_store w) = (st, res)"
      using s Inr by (simp add: StoreOriginalArchive_def)
    note pb = put_backed [OF J vk p]
    show ?thesis
    proof (cases res)
      case (Inl x)
      then have "w' = w\<lparr>iw_store := st\<rparr>" using assms(1,4) s by (simp add: submit_archive_def)
      then show ?thesis using pb by (simp add: sound_def)
    next
      case obj: (Inr obj)
      then have k: "ob_key obj = key" "key_string key \<notin> fst ` refs (idb_of w)"
          "backed content st (insert (key_string key, ob_sha256 obj) (refs (idb_of w)))" "tidy st" "backed content st (refs (idb_of w))"
        using pb by auto
      obtain d' y where op: "op obj (idb_of w) = (d', y)" by fastforce
      have del: "tidy (fst (Delete F e key st)) \<and> backed content (fst (Delete F e key st)) (refs (idb_of w))" for e
        using k vk by (intro delete_backed)
      have reg: "d' = idb_of w \<or> (\<exists>i v x. y = Inr v \<and> iv_id v = i \<and> refs d' = insert (key_string key, ob_sha256 obj) (refs (idb_of w))
          \<and> import_by_id d' i = Some x \<and> im_object_key x = key_string key)"
        using assms(3) op k(1) unfolding registers_def by blast
      show ?thesis
      proof (cases y)
        case (Inl e)
        then have "d' = idb_of w" using reg by auto
        then show ?thesis using assms(1,4) s obj op Inl k(1) del by (auto simp: submit_archive_def sound_def)
      next
        case (Inr v)
        have st': "iw_store w' = (if redundant d' v obj then fst (Delete F (ie_call ie 1) key st) else st)" "idb_of w' = d'"
          using assms(1,4) s obj op Inr k(1) by (auto simp: submit_archive_def dest!: inoted_sel)
        from reg show ?thesis
        proof (elim disjE exE conjE)
          assume "d' = idb_of w"
          then show ?thesis using st' del k by (simp add: sound_def)
        next
          fix i v' x
          assume "y = Inr v'" "iv_id v' = i" and r: "refs d' = insert (key_string key, ob_sha256 obj) (refs (idb_of w))"
            "import_by_id d' i = Some x" "im_object_key x = key_string key"
          then have "\<not> redundant d' v obj" using assms(5) [of d' v obj x] Inr k(1) by auto
          then show ?thesis using st' k r by (simp add: sound_def)
        qed
      qed
    qed
  qed
qed

end

text \<open>The uploads of an application so far: present, under distinct keys that nothing refers to.\<close>

definition pending :: "('s \<Rightarrow> Key \<Rightarrow> bytes option) \<Rightarrow> ('s \<Rightarrow> bool) \<Rightarrow> (string \<times> bytes) set \<Rightarrow> ApplyItem list \<Rightarrow> 's \<Rightarrow> bool" where
  "pending content tidy R xs st \<longleftrightarrow>
     tidy st \<and> backed content st (R \<union> (\<lambda>x. (key_string (ai_object_key x), ai_sha256 x)) ` set xs) \<and> distinct (map ai_object_key xs)
   \<and> (\<forall>x\<in>set xs. valid_key (ai_object_key x) \<and> key_string (ai_object_key x) \<notin> fst ` R)"

context file_storage
begin

lemma put_pending:
  assumes "pending content tidy R xs st" and "valid_key k" and "Put F e k r opts st = (st', Inr obj)"
  shows "pending content tidy R (xs @ [apply_entry analysis k obj target]) st'"
proof -
  let ?S = "R \<union> (\<lambda>x. (key_string (ai_object_key x), ai_sha256 x)) ` set xs"
  have "tidy st" "backed content st ?S" using assms(1) by (simp_all add: pending_def)
  note p = put_backed [OF this assms(2,3)]
  have x: "ai_object_key (apply_entry analysis k obj target) = k" "ai_sha256 (apply_entry analysis k obj target) = ob_sha256 obj"
    by (simp_all add: apply_entry_def split: prod.splits)
  have "key_string k \<notin> fst ` ?S" using p by blast
  then have "key_string k \<notin> key_string ` ai_object_key ` set xs" "key_string k \<notin> fst ` R" by (simp_all add: image_Un image_image)
  then have "k \<notin> ai_object_key ` set xs" "key_string k \<notin> fst ` R" by blast+
  then show ?thesis using assms(1,2) p x by (simp add: pending_def)
qed

lemma put_pending_error:
  assumes "pending content tidy R xs st" and "valid_key k" and "Put F e k r opts st = (st', Inl x)"
  shows "pending content tidy R xs st'"
proof -
  have "tidy st" "backed content st (R \<union> (\<lambda>x. (key_string (ai_object_key x), ai_sha256 x)) ` set xs)"
    using assms(1) by (simp_all add: pending_def)
  from put_backed [OF this assms(2,3)] show ?thesis using assms(1) by (simp add: pending_def)
qed

lemma upload_projects_pending:
  assumes "upload_projects ie d imp analysis n ps (map ai_object_key xs) xs st = (st', up, res)"
    and "pending content tidy R xs st" and "ie_files ie = F"
  shows "\<exists>ys. up = map ai_object_key ys \<and> pending content tidy R ys st' \<and> (\<forall>zs. res = Inr zs \<longrightarrow> zs = ys)"
  using assms(1,2)
proof (induction ps arbitrary: n xs st)
  case Nil
  then show ?case by auto
next
  case (Cons p ps)
  show ?case
  proof (cases "ItemTarget imp (it_project_path (pr_item p)) d")
    case (Inl e)
    then show ?thesis using Cons.prems by auto
  next
    case target: (Inr target)
    show ?thesis
    proof (cases "bind_result (ie_fresh ie n) (\<lambda>i. NewKey NormalizedSubmissions i ''.zip'')")
      case (Inl e)
      then show ?thesis using Cons.prems target by auto
    next
      case key: (Inr key)
      then have vk: "valid_key key" by (auto simp: valid_key_def)
      obtain st1 y where p: "Put F (ie_call ie (Suc n)) key (bytes_reader (pr_archive p))
          \<lparr>po_size = int (length (pr_archive p)), po_content_type = ''application/zip''\<rparr> st = (st1, y)" by fastforce
      show ?thesis
      proof (cases y)
        case (Inl e)
        then have "pending content tidy R xs st1" using put_pending_error [OF Cons.prems(2) vk] p by blast
        then show ?thesis using Cons.prems(1) target key p Inl assms(3) by auto
      next
        case (Inr obj)
        let ?xs = "xs @ [apply_entry analysis key obj target]"
        have "ai_object_key (apply_entry analysis key obj target) = key" by (simp add: apply_entry_def split: prod.splits)
        then have "upload_projects ie d imp analysis (Suc n) ps (map ai_object_key ?xs) ?xs st1 = (st', up, res)"
          using Cons.prems(1) target key p Inr assms(3) by simp
        then show ?thesis by (rule Cons.IH) (use put_pending [OF Cons.prems(2) vk] p Inr in blast)
      qed
    qed
  qed
qed

lemma pending_discard:
  assumes "pending content tidy R xs st" and "set ks \<subseteq> set (map ai_object_key xs)" and "ie_files ie = F"
    and "S \<subseteq> R \<union> (\<lambda>x. (key_string (ai_object_key x), ai_sha256 x)) ` {x \<in> set xs. ai_object_key x \<notin> set ks}"
  shows "tidy (delete_all ie n ks st) \<and> backed content (delete_all ie n ks st) S"
proof (rule delete_all_backed)
  show "tidy st" using assms(1) by (simp add: pending_def)
  have "S \<subseteq> R \<union> (\<lambda>x. (key_string (ai_object_key x), ai_sha256 x)) ` set xs" using assms(4) by auto
  then show "backed content st S" using assms(1) by (auto simp: pending_def intro: backed_subset)
  fix k
  assume k: "k \<in> set ks"
  then obtain x where x: "x \<in> set xs" "k = ai_object_key x" using assms(2) by auto
  have "key_string k \<notin> fst ` S"
  proof
    assume "key_string k \<in> fst ` S"
    then have "key_string k \<in> fst ` R \<or> (\<exists>y\<in>set xs. ai_object_key y \<notin> set ks \<and> key_string (ai_object_key y) = key_string k)"
      using assms(4) by fastforce
    then have "key_string k \<in> fst ` R \<or> k \<notin> set ks" using Key.expand by metis
    then show False using assms(1) x k by (auto simp: pending_def)
  qed
  then show "valid_key k \<and> key_string k \<notin> fst ` S" using assms(1) x by (simp add: pending_def)
qed (rule assms(3))

lemma abandon_sound: "sound content tidy w \<Longrightarrow> sound content tidy (abandon now imp w)"
  by (auto simp: abandon_def sound_def split: sum.splits dest: other_refs(3))

lemma apply_projects_sound:
  assumes "apply_projects ie env am rq a imp analysis w = (w', r)" and "sound content tidy w" and "ie_files ie = F"
  shows "sound content tidy w'"
proof -
  let ?R = "refs (idb_of w)"
  obtain st up res where u: "upload_projects ie (idb_of w) imp analysis 0 (an_projects analysis) [] [] (iw_store w) = (st, up, res)"
    by (cases "upload_projects ie (idb_of w) imp analysis 0 (an_projects analysis) [] [] (iw_store w)")
  have "pending content tidy ?R [] (iw_store w)" using assms(2) by (simp add: pending_def sound_def)
  from upload_projects_pending [OF _ this assms(3), of "idb_of w" imp analysis 0 "an_projects analysis"] u
  obtain ys where ys: "up = map ai_object_key ys" "pending content tidy ?R ys st" "\<And>zs. res = Inr zs \<Longrightarrow> zs = ys" by auto
  have undo: "sound content tidy (w\<lparr>iw_store := delete_all ie n up st\<rparr>)" for n
    using pending_discard [OF ys(2), of up ie ?R n] ys(1) assms(3) by (simp add: sound_def)
  show ?thesis
  proof (cases res)
    case (Inl p)
    obtain code name where "p = (code, name)" by (cases p)
    then show ?thesis using assms(1) u Inl undo abandon_sound by (auto simp: apply_projects_def Let_def)
  next
    case (Inr xs)
    then have xs: "xs = ys" by (rule ys(3))
    show ?thesis
    proof (cases "CommitApply (ie_json_valid ie) (ie_json_object ie) (\<lambda>i. am_clk am (Suc i)) (\<lambda>i. am_ids am i) (usr_id a) imp xs (idb_of w)")
      case (Inl e)
      then show ?thesis using assms(1) u Inr undo abandon_sound by (auto simp: apply_projects_def Let_def)
    next
      case c: (Inr q)
      obtain d dups where q: "q = (d, dups)" by (cases q)
      have "distinct (map ai_object_key ys)" using ys(2) by (simp add: pending_def)
      note cr = CommitApply_refs [OF c [unfolded q xs] this]
      have "idb_of w' = d" "iw_store w' = delete_all ie (length (an_projects analysis) + 1) dups st"
        using assms(1) u Inr c q by (auto simp: apply_projects_def Let_def dest!: inoted_sel)
      then show ?thesis using pending_discard [OF ys(2) conjunct1 [OF cr] assms(3) conjunct2 [OF cr]] by (simp add: sound_def)
    qed
  qed
qed

end

section \<open>The handlers\<close>

text \<open>What a handler keeps: the soundness of the site, and that the tables move by steps of the import model.\<close>

definition lawful ::
  "('s \<Rightarrow> Key \<Rightarrow> bytes option) \<Rightarrow> ('s \<Rightarrow> bool) \<Rightarrow> installation \<Rightarrow> int \<Rightarrow> 's import_site \<Rightarrow> 's import_site \<Rightarrow> bool" where
  "lawful content tidy env boot w w' \<longleftrightarrow>
     (sound content tidy w \<longrightarrow> sound content tidy w') \<and> import_run (in_ul env) (in_ci env) boot (idb_of w) (idb_of w')"

lemma lawful_refl [simp]: "lawful content tidy env boot w w"
  by (simp add: lawful_def import_run.stay)

lemma step_run: "import_step ul ci boot d d' \<Longrightarrow> import_run ul ci boot d d'"
  by (rule import_run.more [OF import_run.stay])

lemma run_trans: "import_run ul ci boot t u \<Longrightarrow> import_run ul ci boot s t \<Longrightarrow> import_run ul ci boot s u"
  by (induction rule: import_run.induct) (auto intro: import_run.more)

text \<open>How a property of the outcome passes through the guards of a handler.\<close>

lemma pass_if: "(if c then (w, bad) else x) = (w', r) \<Longrightarrow> Q w w \<Longrightarrow> (x = (w', r) \<Longrightarrow> Q w w') \<Longrightarrow> Q w w'"
  by (auto split: if_splits)

lemma pass_option: "(case x of None \<Rightarrow> (w, bad) | Some v \<Rightarrow> f v) = (w', r) \<Longrightarrow> Q w w \<Longrightarrow> (\<And>v. f v = (w', r) \<Longrightarrow> Q w w') \<Longrightarrow> Q w w'"
  by (auto split: option.splits)

lemma pass_result: "(case x of Inl e \<Rightarrow> (w, bad e) | Inr v \<Rightarrow> f v) = (w', r) \<Longrightarrow> Q w w \<Longrightarrow> (\<And>v. x = Inr v \<Longrightarrow> f v = (w', r) \<Longrightarrow> Q w w') \<Longrightarrow> Q w w'"
  by (auto split: sum.splits)

lemma pass_pair: "(case p of (x, y) \<Rightarrow> f x y) = (w', r) \<Longrightarrow> (\<And>x y. f x y = (w', r) \<Longrightarrow> Q w w') \<Longrightarrow> Q w w'"
  by (cases p) simp

lemma pass_iactor: "iactor env am rq w k = (w', r) \<Longrightarrow> Q w w \<Longrightarrow> (\<And>user. k user = (w', r) \<Longrightarrow> Q w w') \<Longrightarrow> Q w w'"
  unfolding iactor_def by (erule admitted_cases) (auto dest: authorizeMutation_refuses)

lemma pass_iviewer: "iviewer env am rq w k = (w', r) \<Longrightarrow> (\<And>user. fst (k user) = w) \<Longrightarrow> w' = w"
  unfolding iviewer_def by (erule admitted_cases) (auto dest: arg_cong [where f = fst])

lemmas passes = pass_iactor pass_if pass_option pass_result pass_pair

lemma creates_run:
  "CreateReview ul ci eqfold collate clk uid actor g kind obj analysis d = (d', r) \<Longrightarrow> import_run ul ci boot d d'"
  "CreateStudentReview ci eqfold collate now importID j actor filename obj analysis d = (d', r) \<Longrightarrow> import_run ul ci boot d d'"
  "CreateGitHubReview ul ci eqfold collate now importID j actor g repository obj analysis receipt d = (d', r) \<Longrightarrow> import_run ul ci boot d d'"
  "Review collate now actor i decision sha checklist reason d = (d', r) \<Longrightarrow> import_run ul ci boot d d'"
  unfolding CreateReview_def CreateStudentReview_def CreateGitHubReview_def Review_def then_import_def
  by (auto split: sum.splits prod.splits intro: import_run.stay step_run import_step.intros)

lemma submit_archive_run:
  assumes "submit_archive ie env am rq canonical op refused redundant event success w = (w', r)"
    and "\<And>obj d d' r. op obj d = (d', r) \<Longrightarrow> import_run ul ci boot d d'"
  shows "import_run ul ci boot (idb_of w) (idb_of w')"
  using assms by (auto simp: submit_archive_def split: prod.splits sum.splits dest!: inoted_sel intro: import_run.stay)

lemma abandon_run: "import_run ul ci boot (idb_of w) (idb_of (abandon now i w))"
  by (auto simp: abandon_def split: sum.splits intro: import_run.stay step_run import_step.finish)

lemma apply_projects_run:
  assumes "apply_projects ie env am rq a imp analysis w = (w', r)"
  shows "import_run ul ci boot (idb_of w) (idb_of w')"
proof -
  have give_up: "import_run ul ci boot (idb_of w) (idb_of (abandon now imp (w\<lparr>iw_store := st\<rparr>)))" for now st
    using abandon_run [of ul ci boot "w\<lparr>iw_store := st\<rparr>"] by simp
  show ?thesis
    using assms
    by (auto simp: apply_projects_def Let_def give_up split: prod.splits sum.splits dest!: inoted_sel
        intro: step_run [OF import_step.commit_apply])
qed

lemma redundant_upload_key:
  "redundant_upload env actor d v obj \<Longrightarrow> import_by_id d (iv_id v) = Some x \<Longrightarrow> im_object_key x \<noteq> key_string (ob_key obj)"
  by (auto simp: redundant_upload_def OriginalObject_def ParseKey_NewKey split: sum.splits prod.splits if_splits option.splits)

context file_storage
begin

lemma submit_archive_lawful:
  assumes "submit_archive ie env am rq canonical op refused redundant event success w = (w', r)"
    and "registers op" and "\<And>obj d d' r. op obj d = (d', r) \<Longrightarrow> import_run (in_ul env) (in_ci env) boot d d'" and "ie_files ie = F"
    and "\<And>d v obj x. redundant d v obj \<Longrightarrow> import_by_id d (iv_id v) = Some x \<Longrightarrow> im_object_key x \<noteq> key_string (ob_key obj)"
  shows "lawful content tidy env boot w w'"
proof -
  have "sound content tidy w \<longrightarrow> sound content tidy w'"
    using submit_archive_sound [OF assms(1) _ assms(2,4)] assms(5) by metis
  moreover have "import_run (in_ul env) (in_ci env) boot (idb_of w) (idb_of w')"
    by (rule submit_archive_run [OF assms(1)]) (rule assms(3))
  ultimately show ?thesis by (simp add: lawful_def)
qed

lemma uploads_lawful:
  assumes "ie_files ie = F"
  shows "create_import ie env am rq w = (w', r) \<Longrightarrow> lawful content tidy env boot w w'"
    and "createStudent ie env am rq w = (w', r) \<Longrightarrow> lawful content tidy env boot w w'"
    and "createGitHub ie env am rq w = (w', r) \<Longrightarrow> lawful content tidy env boot w w'"
    and "uploadLocalArchive ie env am rq w = (w', r) \<Longrightarrow> lawful content tidy env boot w w'"
  unfolding create_import_def createStudent_def createGitHub_def uploadLocalArchive_def Let_def
  by (elim passes; (rule lawful_refl)?; erule submit_archive_lawful [OF _ creates_register(1) creates_run(1) assms]
      submit_archive_lawful [OF _ creates_register(2) creates_run(2) assms] submit_archive_lawful [OF _ creates_register(3) creates_run(3) assms];
      (blast dest: redundant_upload_key)?)+

lemma review_lawful:
  assumes "review decoder enc ie env am rq w = (w', r)"
  shows "lawful content tidy env boot w w'"
proof -
  have end_review: "lawful content tidy env boot w w'"
    if "(case x of (d, Inl e) \<Rightarrow> (set_idb d w, bad e) | (d, Inr v) \<Rightarrow> inoted env am rq (ev v) (set_idb d w) (ok v)) = (w', r)"
      and "x = Review collate now actor i decision sha checklist reason (idb_of w)" for x bad ev ok collate now actor i decision sha checklist reason
  proof -
    obtain d y where x: "x = (d, y)" by (cases x)
    then have s: "iw_store w' = iw_store w" "idb_of w' = d" using that(1) by (auto split: sum.splits dest!: inoted_sel)
    have "refs d = refs (idb_of w)" "import_run (in_ul env) (in_ci env) boot (idb_of w) d"
      using other_refs(1) creates_run(4) x that(2) by metis+
    then show ?thesis using s by (simp add: lawful_def sound_def)
  qed
  show ?thesis
    by (insert assms, unfold review_def, elim pass_iactor pass_option pass_if; (rule lawful_refl | (erule end_review, rule refl)))
qed

lemma apply_lawful:
  assumes "apply_import ie env am rq w = (w', r)" and "ie_files ie = F"
  shows "lawful content tidy env boot w w'"
  using assms(1) unfolding apply_import_def
proof (elim pass_iactor)
  fix user
  assume k: "(case BeginApply (am_clk am 0) (usr_id user) (rq_path rq ''import_id'') (idb_of w) of
         (d, Inl e) \<Rightarrow> (set_idb d w, import_fail ie rq e)
       | (d, Inr source) \<Rightarrow>
           (let w1 = set_idb d w; give_up = abandon (am_clk am 1) (as_import_id source) w1 in
            case Open (ie_files ie) (ie_call ie 0) (as_object_key source) (iw_store w) of
              Inl e \<Rightarrow> (give_up, iproblem rq 503 ''STORAGE_UNAVAILABLE'')
            | Inr (content, obj) \<Rightarrow>
                if ie_read_fails ie then (give_up, iproblem rq 500 ''ARCHIVE_READ_FAILED'')
                else
                  (case Analyze (in_ul env) (ie_zip ie) (ie_write_zip ie) (ie_decode_manifest ie) (take (archive_limit + 1) content) (as_kind source)
                       DefaultLimits of
                     Inl e \<Rightarrow> (give_up, iproblem rq 422 ''ARCHIVE_INVALID'')
                   | Inr analysis \<Rightarrow> apply_projects ie env am rq user (as_import_id source) analysis w1))) = (w', r)"
  obtain d y where b: "BeginApply (am_clk am 0) (usr_id user) (rq_path rq ''import_id'') (idb_of w) = (d, y)" by fastforce
  have d: "sound content tidy (set_idb d w)" if "sound content tidy w" using that other_refs(2) [OF b] by (simp add: sound_def)
  have rd: "import_run (in_ul env) (in_ci env) boot (idb_of w) d" by (rule step_run [OF import_step.begin_apply [OF b]])
  have give_up: "lawful content tidy env boot w (abandon now i (set_idb d w))" for now i
    using d abandon_sound run_trans [OF abandon_run [of _ _ _ "set_idb d w"]] rd by (auto simp: lawful_def)
  show ?thesis
  proof (cases y)
    case (Inl e)
    then have "w' = set_idb d w" using k b by simp
    then show ?thesis using d rd by (simp add: lawful_def)
  next
    case (Inr source)
    consider "w' = abandon (am_clk am 1) (as_import_id source) (set_idb d w)"
      | analysis where "apply_projects ie env am rq user (as_import_id source) analysis (set_idb d w) = (w', r)"
      using k b Inr by (auto simp: Let_def split: sum.splits prod.splits if_splits)
    then show ?thesis
    proof cases
      case 1
      then show ?thesis using give_up by simp
    next
      case 2
      then show ?thesis
        using apply_projects_sound [OF 2 _ assms(2)] apply_projects_run [OF 2] d run_trans [OF _ rd] by (auto simp: lawful_def)
    qed
  qed
qed simp

end

section \<open>Every route\<close>

lemma import_reads:
  "githubContext env am rq w = (w', r) \<Longrightarrow> w' = w"
  "listPending ie env am rq w = (w', r) \<Longrightarrow> w' = w"
  "downloadOriginal ie env am rq w = (w', r) \<Longrightarrow> w' = w"
  "get_import ie env am rq w = (w', r) \<Longrightarrow> w' = w"
  "download ie env am rq w = (w', r) \<Longrightarrow> w' = w"
  unfolding githubContext_def listPending_def downloadOriginal_def get_import_def download_def
  by (erule pass_iviewer; auto simp: Let_def split: sum.splits prod.splits)+

lemma plans_read:
  "localPlan ie env rq w = (w', r) \<Longrightarrow> w' = w"
  "createLocalPlan decoder ie env am rq w = (w', r) \<Longrightarrow> w' = w"
proof -
  show "localPlan ie env rq w = (w', r) \<Longrightarrow> w' = w" by (auto simp: localPlan_def split: sum.splits)
  have "(\<lambda>w w'. w' = w) w w'" if "createLocalPlan decoder ie env am rq w = (w', r)"
    by (insert that, unfold createLocalPlan_def Let_def, elim passes) auto
  then show "createLocalPlan decoder ie env am rq w = (w', r) \<Longrightarrow> w' = w" by simp
qed

context file_storage
begin

lemma import_dispatch_lawful:
  assumes "import_dispatch di ie env am rt rq w = (w', r)" and "ie_files ie = F"
  shows "lawful content tidy env boot w w'"
  using assms(1)
  by (cases rt) (auto dest: uploads_lawful [OF assms(2)] apply_lawful [OF _ assms(2)] import_reads plans_read intro: review_lawful)

end


text \<open>
  C22: The interface refines the import model: every request moves the tables by a sequence of steps
  of the model, so that the tables stay reachable and all that holds of reachable states holds behind
  the interface, in particular that every submission comes from an approved import.
\<close>

theorem http_refines_imports:
  assumes "import_dispatch di ie env am rt rq w = (w', r)" and "ie_files ie = local_storage"
    and "import_reachable (in_ul env) (in_ci env) boot (idb_of w)"
  shows "import_run (in_ul env) (in_ci env) boot (idb_of w) (idb_of w') \<and> import_reachable (in_ul env) (in_ci env) boot (idb_of w')
    \<and> imports_ok (idb_of w') \<and> evolved (idb_of w) (idb_of w')"
proof -
  have run: "import_run (in_ul env) (in_ci env) boot (idb_of w) (idb_of w')"
    using lfs.import_dispatch_lawful [OF assms(1,2)] by (simp add: lawful_def)
  moreover have "import_reachable (in_ul env) (in_ci env) boot (idb_of w')"
    using assms(3) run_trans [OF run] unfolding import_reachable_def by blast
  ultimately show ?thesis using import_run_keeps import_reachable_ok assms(3) by blast
qed

section \<open>Tickets\<close>

lemma sextet_base64: "sextet (base64_url_char n) = Some (n mod 64)" "base64_url_char n \<noteq> CHR 0x0A" "base64_url_char n \<noteq> CHR 0x0D"
  "base64_url_char n \<noteq> CHR ''.''"
proof -
  let ?S = "''ABCDEFGHIJKLMNOPQRSTUVWXYZabcdefghijklmnopqrstuvwxyz0123456789-_''"
  have all: "map sextet ?S = map Some [0..<64]" "list_all (\<lambda>c. c \<noteq> CHR 0x0A \<and> c \<noteq> CHR 0x0D \<and> c \<noteq> CHR ''.'') ?S" "length ?S = 64"
    by code_simp+
  have n: "n mod 64 < length ?S" unfolding all(3) by simp
  have "sextet (?S ! (n mod 64)) = map sextet ?S ! (n mod 64)" using n by (rule nth_map [symmetric])
  also have "\<dots> = Some (n mod 64)" unfolding all(1) by simp
  finally show "sextet (base64_url_char n) = Some (n mod 64)" by (simp only: base64_url_char_def)
  have "?S ! (n mod 64) \<in> set ?S" using n by (rule nth_mem)
  then show "base64_url_char n \<noteq> CHR 0x0A" "base64_url_char n \<noteq> CHR 0x0D" "base64_url_char n \<noteq> CHR ''.''"
    using all(2) unfolding list_all_iff base64_url_char_def by blast+
qed

lemma sextets_base64: "sextets (base64_url_char n # cs) = map_option (Cons (n mod 64)) (sextets cs)"
  using sextet_base64 [of n] by (auto split: option.splits)

lemma sextet_split:
  assumes "k < 4" and "x < 16"
  shows "(k * 16 + x) mod 64 div 16 = (k :: nat)" "(k * 16 + x) mod 64 mod 16 = x" "(x * 4 + k) mod 64 div 4 = x" "(x * 4 + k) mod 64 mod 4 = k"
proof -
  have "k * 16 + x < 64" "x * 4 + k < 64" using assms by linarith+
  then show "(k * 16 + x) mod 64 div 16 = k" "(k * 16 + x) mod 64 mod 16 = x" "(x * 4 + k) mod 64 div 4 = x" "(x * 4 + k) mod 64 mod 4 = k"
    using assms by simp_all
qed

lemma octet_parts:
  fixes a b c :: nat
  assumes "a < 256" and "b < 256" and "c < 256"
  shows "(a div 4) mod 64 * 4 + (a mod 4 * 16 + b div 16) mod 64 div 16 = a"
    and "(a mod 4 * 16 + b div 16) mod 64 mod 16 * 16 + (b mod 16 * 4 + c div 64) mod 64 div 4 = b"
    and "(b mod 16 * 4 + c div 64) mod 64 mod 4 * 64 + c mod 64 = c"
    and "(a div 4) mod 64 * 4 + (a mod 4 * 16) mod 64 div 16 = a"
    and "(a mod 4 * 16 + b div 16) mod 64 mod 16 * 16 + (b mod 16 * 4) mod 64 div 4 = b"
proof -
  have lt: "a mod 4 < 4" "b div 16 < 16" "b mod 16 < 16" "c div 64 < 4" "a div 4 < 64" using assms by auto
  note s = sextet_split [OF lt(1,2)] sextet_split [OF lt(4,3)] sextet_split [of "a mod 4" 0] sextet_split [of 0 "b mod 16"]
  show "(a div 4) mod 64 * 4 + (a mod 4 * 16 + b div 16) mod 64 div 16 = a"
    unfolding s using lt(5) div_mult_mod_eq [of a 4] by simp
  show "(a mod 4 * 16 + b div 16) mod 64 mod 16 * 16 + (b mod 16 * 4 + c div 64) mod 64 div 4 = b"
    unfolding s using div_mult_mod_eq [of b 16] by simp
  show "(b mod 16 * 4 + c div 64) mod 64 mod 4 * 64 + c mod 64 = c"
    unfolding s using div_mult_mod_eq [of c 64] by simp
  have "(a mod 4 * 16) mod 64 div 16 = a mod 4" using sextet_split(1) [of "a mod 4" 0] by simp
  then show "(a div 4) mod 64 * 4 + (a mod 4 * 16) mod 64 div 16 = a" using lt(5) div_mult_mod_eq [of a 4] by simp
  have "(b mod 16 * 4) mod 64 div 4 = b mod 16" using sextet_split(3) [of 0 "b mod 16"] by simp
  then show "(a mod 4 * 16 + b div 16) mod 64 mod 16 * 16 + (b mod 16 * 4) mod 64 div 4 = b"
    unfolding s using div_mult_mod_eq [of b 16] by simp
qed

lemma ord_of_256: "ord_of c < 256"
  by simp

text \<open>What \<open>EncodeToString\<close> writes \<open>DecodeString\<close> reads back.\<close>

lemma base64_url_round_trip: "base64_url_decode (base64_url b) = Some b"
proof (induction b rule: base64_url.induct)
  case (1 a b c rest)
  obtain ns where ns: "sextets (base64_url rest) = Some ns" "octets ns = Some rest"
    using 1 by (auto simp: base64_url_decode_def bind_eq_Some_conv)
  then show ?case
    unfolding base64_url.simps base64_url_decode_def sextets_base64
    by (simp only: option.map Option.bind.simps octets.simps mod_mod_trivial octet_parts [OF ord_of_256 ord_of_256 ord_of_256] char_of_char)
next
  case (2 a b)
  show ?case
    unfolding base64_url.simps base64_url_decode_def sextets_base64 sextets.simps(1)
    by (simp only: option.map Option.bind.simps octets.simps octet_parts [OF ord_of_256 ord_of_256 ord_of_256] char_of_char)
next
  case (3 a)
  show ?case
    unfolding base64_url.simps base64_url_decode_def sextets_base64 sextets.simps(1)
    by (simp only: option.map Option.bind.simps octets.simps octet_parts(4) [OF ord_of_256 ord_of_256 ord_of_256] char_of_char)
qed (simp add: base64_url_decode_def)

lemma base64_url_no_dot: "CHR ''.'' \<notin> set (base64_url b)"
proof -
  have "CHR ''.'' \<noteq> base64_url_char n" for n using sextet_base64(4) [of n] by simp
  then show ?thesis by (induction b rule: base64_url.induct) simp_all
qed

text \<open>
  C24: A ticket comes back as the plan it was made from.  Provided that zlib and JSON read back what they
  have written, a ticket that the service signed is accepted under the same key until it expires and
  yields exactly the actor, the expiry and the items of the plan; and whatever is accepted carries the
  code of its body under that key, has not expired and has items.
\<close>

theorem ticket_round_trip:
  assumes "\<And>t. \<exists>r. ie_inflate ie (ie_deflate ie t) = Some r \<and> delivers r = Some t"
    and "ie_unmarshal_plan ie (ie_marshal_plan ie plan) = Some plan"
    and "length (ie_marshal_plan ie plan) \<le> 512000" and "length (signLocalPlan ie key plan) \<le> 500000"
    and "lp_expires plan > ie_unix ie" and "lp_items plan \<noteq> []"
  shows "readLocalPlan ie key (signLocalPlan ie key plan) = Inr plan
    \<and> (\<forall>token p. readLocalPlan ie key token = Inr p \<longrightarrow>
         (\<exists>body sig. token = body @ ''.'' @ sig \<and> base64_url_decode sig = Some (ticket_mac key body) \<and> lp_expires p > ie_unix ie \<and> lp_items p \<noteq> []))"
proof
  let ?body = "base64_url (ie_deflate ie (ie_marshal_plan ie plan))" and ?sig = "\<lambda>b. base64_url (ticket_mac key b)"
  have token: "signLocalPlan ie key plan = ?body @ CHR ''.'' # ?sig ?body" by (simp add: signLocalPlan_def Let_def)
  have split: "split_byte (CHR ''.'') (signLocalPlan ie key plan) = [?body, ?sig ?body]"
    unfolding token using base64_url_no_dot by (simp add: split_byte_append)
  obtain r where r: "ie_inflate ie (ie_deflate ie (ie_marshal_plan ie plan)) = Some r" "delivers r = Some (ie_marshal_plan ie plan)"
    using assms(1) by blast
  have "delivers (LimitReader 512001 r) = Some (ie_marshal_plan ie plan)"
    using r(2) assms(3) by (intro LimitReader_delivers) simp_all
  then show "readLocalPlan ie key (signLocalPlan ie key plan) = Inr plan"
    using assms r split by (simp add: readLocalPlan_def base64_url_round_trip)
  have "\<exists>body sig. token = body @ ''.'' @ sig \<and> base64_url_decode sig = Some (ticket_mac key body) \<and> lp_expires p > ie_unix ie \<and> lp_items p \<noteq> []"
    if acc: "readLocalPlan ie key token = Inr p" for token p
  proof -
    obtain body sig where s: "split_byte (CHR ''.'') token = [body, sig]"
      using acc by (auto simp: readLocalPlan_def split: list.splits)
    then have "token = body @ ''.'' @ sig" using join_split_byte [of "CHR ''.''" token] by simp
    then show ?thesis using acc s by (auto simp: readLocalPlan_def split: option.splits if_splits)
  qed
  then show "\<forall>token p. readLocalPlan ie key token = Inr p \<longrightarrow>
      (\<exists>body sig. token = body @ ''.'' @ sig \<and> base64_url_decode sig = Some (ticket_mac key body) \<and> lp_expires p > ie_unix ie \<and> lp_items p \<noteq> [])"
    by blast
qed

section \<open>Who changes imports\<close>

definition may_change :: "('s, 'e) import_env \<Rightarrow> installation \<Rightarrow> ambient \<Rightarrow> import_route \<Rightarrow> Request \<Rightarrow> 's import_site \<Rightarrow> bool" where
  "may_change ie env am rt rq w \<longleftrightarrow>
     (if rt = PostLocalArchive
      then \<exists>plan item. bearer_plan ie env rq = Inr plan \<and> item \<in> set (lp_items plan) \<and> li_id item = rq_path rq ''item_id''
      else \<exists>ws user. presents env am rq (adb_of (iw_site w)) ws user \<and> has_csrf env rq ws \<and> ws_view_role ws = None
             \<and> (rt \<noteq> PostGitHubImport \<or> teacher_or_admin user))"

lemma iactor_changes:
  assumes "iactor env am rq w k = (w', r)" and "w' \<noteq> w" and "rt \<noteq> PostLocalArchive"
    and "\<And>user. k user = (w', r) \<Longrightarrow> rt \<noteq> PostGitHubImport \<or> teacher_or_admin user"
  shows "may_change ie env am rt rq w"
  using assms(1) unfolding iactor_def
  by (rule admitted_cases)
    (use assms(2-4) in \<open>auto simp: may_change_def dest: authorizeMutation_refuses authorizeMutation_ok\<close>)

lemma handlers_change:
  assumes "w' \<noteq> w"
  shows "create_import ie env am rq w = (w', r) \<Longrightarrow> may_change ie env am PostImport rq w"
    and "createStudent ie env am rq w = (w', r) \<Longrightarrow> may_change ie env am PostStudentImport rq w"
    and "review dec enc ie env am rq w = (w', r) \<Longrightarrow> may_change ie env am PostReview rq w"
    and "apply_import ie env am rq w = (w', r) \<Longrightarrow> may_change ie env am PostApply rq w"
  unfolding create_import_def createStudent_def review_def apply_import_def
  by (erule iactor_changes [OF _ assms], simp_all)+

lemma github_changes:
  assumes "createGitHub ie env am rq w = (w', r)" and "w' \<noteq> w"
  shows "may_change ie env am PostGitHubImport rq w"
  by (rule iactor_changes [OF assms(1) [unfolded createGitHub_def] assms(2)]) (use assms(2) in \<open>simp_all split: if_splits\<close>)

lemma upload_changes:
  assumes "uploadLocalArchive ie env am rq w = (w', r)" and "w' \<noteq> w"
  shows "may_change ie env am PostLocalArchive rq w"
proof -
  obtain plan where plan: "bearer_plan ie env rq = Inr plan"
    using assms by (auto simp: uploadLocalArchive_def split: sum.splits)
  then obtain item where "find (\<lambda>x. li_id x = rq_path rq ''item_id'') (lp_items plan) = Some item"
    using assms by (auto simp: uploadLocalArchive_def split: option.splits)
  then show ?thesis using plan by (auto simp: may_change_def find_Some_iff intro: nth_mem)
qed

text \<open>
  C23: Only those who may change imports do.  Whatever the request, if it changes the database, the log or
  the object store, then it either uploads with a ticket that the service has signed, that has not
  expired and that lists the item of the request; or it presents the cookie of a live session of an
  account that exists and is not blocked together with the token of that session, which previews no other
  role; and only a teacher or an administrator imports from GitHub.  Reading, and making a ticket, changes nothing.
\<close>

theorem import_change_guarded:
  assumes "import_dispatch di ie env am rt rq w = (w', r)" and "w' \<noteq> w"
  shows "may_change ie env am rt rq w"
  using assms by (cases rt) (auto dest: handlers_change [OF assms(2)] github_changes upload_changes import_reads plans_read)

section \<open>Examples\<close>

text \<open>
  The administrator \<open>root\<close> applies an approved import whose original archive is in the store but is
  no archive after all, so that the import fails.
\<close>

definition load_row :: import_row where
  "load_row =
     (new_import 3 ''def'' ''g'' ''lab'' ImportApproved ''root''
        \<lparr>ob_key = ex_key, ob_size = 3, ob_sha256 = sha256 ''zip'', ob_content_type = ''application/zip'', ob_created_at = 0\<rparr> 3 None)
     \<lparr>im_reviewed_by := Some ''root'', im_reviewed_at := Some 4, im_reviewed_sha256 := Some (sha256 ''zip'')\<rparr>"

definition load_site :: "idb \<Rightarrow> lfs import_site" where
  "load_site d = \<lparr>iw_site = \<lparr>site_db = d, site_log = []\<rparr>, iw_store = ex_holding ex_key\<rparr>"

definition load_rq :: Request where
  "load_rq = web_rq\<lparr>rq_path := (\<lambda>_. ''def''), rq_id := ''r''\<rparr>"

definition load_db :: idb where
  "load_db = imp_start\<lparr>base := web_adb, import_rows := [load_row]\<rparr>"

definition load_plan :: localImportPlan where
  "load_plan =
     \<lparr>lp_actor = ''root'', lp_expires = 7200,
      lp_items = [\<lparr>li_id = ''n'', li_group_id = ''g'', li_group_code = ''g1'', li_login = ''ann'', li_lab = ''lab1'', li_repository = ''org/lab1-ann'',
                   li_branch = ''latest''\<rparr>]\<rparr>"

definition load_env :: "(lfs, local_env) import_env" where
  "load_env =
     \<lparr>ie_files = local_storage, ie_call = (\<lambda>_. ex_env None), ie_fresh = (\<lambda>_. Inr ex_id), ie_form = (\<lambda>_ _. None), ie_read_fails = False,
      ie_zip = (\<lambda>_. Inl ErrDatabase), ie_write_zip = (\<lambda>_. Inl ErrDatabase), ie_decode_manifest = (\<lambda>_. Inl ErrDatabase), ie_encode_manifest = (\<lambda>_. ''{}''),
      ie_json_valid = (\<lambda>_. True), ie_json_object = (\<lambda>_. True), ie_message = (\<lambda>_. ''''), ie_unix = 0, ie_marshal_plan = (\<lambda>_. ''plan''),
      ie_unmarshal_plan = (\<lambda>_. Some load_plan), ie_deflate = id, ie_inflate = (\<lambda>b. Some (bytes_reader b))\<rparr>"

definition load_decoders :: import_decoders where
  "load_decoders = \<lparr>di_review = (\<lambda>_ _. None), di_checklist = (\<lambda>_. ''{}''), di_plan = (\<lambda>_ _. None)\<rparr>"

abbreviation load_call :: "idb \<Rightarrow> lfs import_site \<times> import_reply" where
  "load_call d \<equiv> import_dispatch load_decoders load_env web_env web_am PostApply load_rq (load_site d)"

lemma load_sound: "sound content_local tidy_local (load_site load_db)" "refs load_db = {(key_string ex_key, sha256 ''zip'')}"
proof -
  have r: "refs load_db = {(key_string ex_key, sha256 ''zip'')}"
    by (simp add: refs_def load_db_def load_row_def new_import_def imp_start_def)
  then show "sound content_local tidy_local (load_site load_db)"
    using ex_tidy(2) ex_key_valid by (simp add: sound_def load_site_def backed_def idb_of_def ex_content)
  show "refs load_db = {(key_string ex_key, sha256 ''zip'')}" by (rule r)
qed

definition load_at :: "import_state \<Rightarrow> int \<Rightarrow> idb" where
  "load_at st n = load_db\<lparr>import_rows := [load_row\<lparr>im_state := st, im_updated_at := 6, im_version := n\<rparr>]\<rparr>"

lemma load_moves:
  assumes "validate_import_transition a b" and "a \<noteq> b" and "b \<noteq> ImportRejected" and "n \<ge> 0"
  shows "update_imports 6 (\<lambda>x. im_id x = ''def'' \<and> im_state x = a) (set_state b) (load_at a n) = Some (load_at b (n + 1))"
proof -
  have "im_id load_row = ''def''" "import_check (load_row\<lparr>im_state := b, im_version := n + 1, im_updated_at := 6\<rparr>)"
    using assms(3,4) by (simp_all add: load_row_def new_import_def import_check_def)
  moreover have "references acc_id (im_reviewed_by load_row) (accounts web_adb)" "imports_unique [x]" for x
    using acct_root_facts(1) by (simp_all add: load_row_def web_adb_def references_def imports_unique_def unique_on_def)
  ultimately show ?thesis
    using assms(1,2)
    by (simp add: update_imports_def import_trigger_def set_state_def load_at_def load_db_def row_check_def checked_def)
qed

lemma load_begins:
  "BeginApply 6 ''root'' ''def'' (load_at ImportApproved 1) =
     (load_at ImportApplying 2, Inr \<lparr>as_import_id = ''def'', as_group_id = ''g'', as_kind = ''lab'', as_object_key = ex_key\<rparr>)"
proof -
  have "staff_role acct_root ''root'' ''g''" by code_simp
  then have s: "staff_role (base (load_at ImportApproved 1)) ''root'' ''g''"
    by (simp add: staff_role_def teaches_def load_at_def load_db_def web_adb_def)
  have "validate_import_transition ImportApproved ImportApplying" by code_simp
  from load_moves [OF this, of 1] have m: "update_imports 6 (\<lambda>x. im_id x = ''def'' \<and> im_state x = ImportApproved) (set_state ImportApplying)
      (load_at ImportApproved 1) = Some (load_at ImportApplying 2)" by simp
  have row: "import_rows (load_at ImportApproved 1) = [load_row\<lparr>im_state := ImportApproved, im_updated_at := 6, im_version := 1\<rparr>]"
    by (simp add: load_at_def)
  have r: "im_id load_row = ''def''" "im_group_id load_row = ''g''" "im_kind load_row = ''lab''" "im_object_key load_row = key_string ex_key"
    by (simp_all add: load_row_def new_import_def)
  show ?thesis using ex_key_parse s by (simp add: BeginApply_def m row r select_one_def rows_affected_def)
qed

lemma load_changes:
  "\<exists>w' r. load_call (load_at ImportApproved 1) = (w', r) \<and> w' \<noteq> load_site (load_at ImportApproved 1)"
proof -
  obtain u where u: "authenticate web_env web_am load_rq web_adb = Inr (session_view web_session, u, ws_csrf_hash web_session)" "usr_id u = ''root''"
    using web_authenticated [of "''r''"] by (auto simp: authenticate_def load_rq_def split: option.splits if_splits sum.splits prod.splits)
  have csrf: "authorizeMutation web_env load_rq (session_view web_session) (ws_csrf_hash web_session) = Inr ()"
    by (simp add: authorizeMutation_def authorizeCSRF_def VerifyCSRFToken_def VerifyToken_def web_env_def web_rq_def load_rq_def session_view_def
        web_session_def has_prefix_def del: base64_url.simps)
  obtain obj where opened: "Open_local (ex_env None) ex_key (ex_holding ex_key) = Inr (''zip'', obj)"
    by (simp add: Open_local_def ex_no_faults ex_digest ex_holding_def ex_key_dir)
  have short: "take (archive_limit + 1) ''zip'' = ''zip''" by (simp add: archive_limit_def)
  obtain e where analysed: "Analyze id (\<lambda>_. Inl ErrDatabase) (\<lambda>_. Inl ErrDatabase) (\<lambda>_. Inl ErrDatabase) ''zip'' ''lab'' DefaultLimits = Inl e"
    by (simp add: Analyze_def DefaultLimits_def)
  have "validate_import_transition ImportApplying ImportFailed" by code_simp
  from load_moves [OF this, of 2] have failed: "Finish 6 ''def'' False (load_at ImportApplying 2) = Inr (load_at ImportFailed 3)"
    by (simp add: Finish_def statement_def)
  let ?w = "load_site (load_at ImportApproved 1)"
  have site: "adb_of (iw_site ?w) = web_adb" "idb_of ?w = load_at ImportApproved 1" "rq_path load_rq p = ''def''" "iw_store ?w = ex_holding ex_key" for p
    by (simp_all add: load_site_def load_at_def load_db_def adb_of_def idb_of_def load_rq_def)
  have "load_call (load_at ImportApproved 1) = (set_idb (load_at ImportFailed 3) (set_idb (load_at ImportApplying 2) ?w), iproblem load_rq 422 ''ARCHIVE_INVALID'')"
    using u csrf load_begins opened failed analysed
    by (simp add: apply_import_def iactor_def admitted_def site web_fields abandon_def load_env_def local_storage_sel short Let_def
        del: take_Suc_Cons add_Suc_right One_nat_def)
  moreover have "load_at ImportFailed 3 \<noteq> load_at ImportApproved 1"
    by (auto simp: load_at_def dest!: arg_cong [where f = "\<lambda>d. map im_state (import_rows d)"])
  ultimately show ?thesis by (simp add: load_site_def set_idb_def del: import_dispatch.simps)
qed


lemma load_at_sound: "sound content_local tidy_local (load_site (load_at st n))"
proof -
  have "refs (load_at st n) = refs load_db" by (simp add: refs_def load_at_def load_db_def)
  then show ?thesis using load_sound(1) by (simp add: sound_def load_site_def idb_of_def)
qed

theorem import_change_guarded_witness:
  "\<exists>w' r ws user. load_call (load_at ImportApproved 1) = (w', r) \<and> w' \<noteq> load_site (load_at ImportApproved 1)
     \<and> presents web_env web_am load_rq web_adb ws user \<and> has_csrf web_env load_rq ws \<and> ws_view_role ws = None"
proof -
  obtain w' r where c: "load_call (load_at ImportApproved 1) = (w', r)" "w' \<noteq> load_site (load_at ImportApproved 1)" using load_changes by blast
  have "adb_of (iw_site (load_site (load_at ImportApproved 1))) = web_adb" by (simp add: load_site_def load_at_def load_db_def adb_of_def)
  then show ?thesis using import_change_guarded [OF c] c by (auto simp: may_change_def)
qed


theorem http_refines_imports_witness:
  "\<exists>w' r. import_dispatch load_decoders load_env web_env web_am GetImport load_rq (load_site imp_pending) = (w', r)
     \<and> import_run id id 1 imp_pending (idb_of w') \<and> imports_ok (idb_of w')"
proof -
  obtain w' r where c: "import_dispatch load_decoders load_env web_env web_am GetImport load_rq (load_site imp_pending) = (w', r)" by fastforce
  have e: "ie_files load_env = local_storage" "idb_of (load_site imp_pending) = imp_pending" by (simp_all add: load_env_def load_site_def idb_of_def)
  from http_refines_imports [OF c e(1), of 1] imp_pending_reachable c show ?thesis by (simp add: e web_fields)
qed

lemma length_base64: "length (base64_url b) \<le> 2 * length b"
  by (induction b rule: base64_url.induct) simp_all

theorem ticket_round_trip_witness:
  "readLocalPlan load_env ''key'' (signLocalPlan load_env ''key'' load_plan) = Inr load_plan"
proof -
  have "delivers (bytes_reader t) = Some t" for t by (simp add: bytes_reader_def)
  moreover have "length (signLocalPlan load_env ''key'' load_plan) \<le> 500000"
    using length_base64 [of "''plan''"] length_base64 [of "ticket_mac ''key'' (base64_url ''plan'')"]
    by (simp add: signLocalPlan_def load_env_def ticket_mac_def hmac_def Let_def del: base64_url.simps)
  ultimately show ?thesis
    using ticket_round_trip [of load_env load_plan "''key''"] by (simp add: load_env_def load_plan_def)
qed

end
