(* ===== verification/Spec2Isabelle.thy ===== *)
theory Spec2Isabelle
  imports Defense_Reads Storage_Clients Http_Defense_Properties Http_Import_Properties
begin

text \<open>
  The CppDefense backend.
\<close>

end
